(* ===== verification/Prelude.thy ===== *)
theory Prelude
  imports Complex_Main "HOL-Library.Char_ord" "HOL-Library.List_Lexorder"
begin

text \<open>
  Shared vocabulary of the development: the Python values the services exchange as JSON, Python's
  dictionaries (association lists that keep insertion order), exceptions as values of a sum type,
  the string operations the sources call, and the generic lemmas and locales the components share.

  Strings are lists of characters and are read as ASCII text: \<open>py_lower\<close> and \<open>py_strip\<close> act on the
  ASCII letters and the ASCII white space. A float is known by its exact value (\<open>None\<close> for a value
  that is not finite) together with its printed form, since Python's shortest-digits printing is
  not modelled.
\<close>

section \<open>Collections of rules\<close>

named_theorems res_simps \<open>rewriting of computations in the exception sum\<close>
named_theorems dict_simps \<open>rewriting of dictionary lookups and updates\<close>
named_theorems audit_defs \<open>definitions unfolded when one audit row is processed\<close>

section \<open>Python values\<close>

datatype pyval =
    PNone
  | PBool bool
  | PInt int
  | PFloat "rat option" string
  | PStr string
  | PList "pyval list"
  | PDict "(string \<times> pyval) list"

type_synonym pydict = "(string \<times> pyval) list"

datatype pyexc =
    ValueError string
  | RuntimeError string
  | AssertionError
  | KeyError string
  | TypeError
  | OverflowError
  | FrameworkError string string pydict
  | APIError int string string pydict
  | SoftTimeLimitExceeded
  | OtherError string

type_synonym 'a res = "pyexc + 'a"

section \<open>The exception sum\<close>

definition rbind :: "'a res \<Rightarrow> ('a \<Rightarrow> 'b res) \<Rightarrow> 'b res" where
  "rbind m f = (case m of Inl e \<Rightarrow> Inl e | Inr x \<Rightarrow> f x)"

fun rmap :: "('a \<Rightarrow> 'b res) \<Rightarrow> 'a list \<Rightarrow> 'b list res" where
  "rmap f [] = Inr []"
| "rmap f (x # xs) = rbind (f x) (\<lambda>y. rbind (rmap f xs) (\<lambda>ys. Inr (y # ys)))"

fun rfold :: "('s \<Rightarrow> 'a \<Rightarrow> 's res) \<Rightarrow> 's \<Rightarrow> 'a list \<Rightarrow> 's res" where
  "rfold f s [] = Inr s"
| "rfold f s (x # xs) = rbind (f s x) (\<lambda>s'. rfold f s' xs)"

definition rcheck :: "bool \<Rightarrow> pyexc \<Rightarrow> unit res" where
  "rcheck ok e = (if ok then Inr () else Inl e)"

fun is_ok :: "'a res \<Rightarrow> bool" where
  "is_ok (Inl e) = False"
| "is_ok (Inr x) = True"

section \<open>Dictionaries\<close>

fun dput :: "string \<Rightarrow> 'a \<Rightarrow> (string \<times> 'a) list \<Rightarrow> (string \<times> 'a) list" where
  "dput k v [] = [(k, v)]"
| "dput k v (p # ps) = (if fst p = k then (k, v) # ps else p # dput k v ps)"

definition dupdate :: "(string \<times> 'a) list \<Rightarrow> (string \<times> 'a) list \<Rightarrow> (string \<times> 'a) list" where
  "dupdate d e = foldl (\<lambda>acc p. dput (fst p) (snd p) acc) d e"

definition dget :: "pydict \<Rightarrow> string \<Rightarrow> pyval" where
  "dget d k = (case map_of d k of None \<Rightarrow> PNone | Some v \<Rightarrow> v)"

fun ddel :: "string \<Rightarrow> (string \<times> 'a) list \<Rightarrow> (string \<times> 'a) list" where
  "ddel k [] = []"
| "ddel k (p # ps) = (if fst p = k then ps else p # ddel k ps)"

section \<open>Strings\<close>

definition py_isspace :: "char \<Rightarrow> bool" where
  "py_isspace c = ((of_char c :: nat) \<in> {9, 10, 11, 12, 13, 28, 29, 30, 31, 32})"

definition py_strip :: "string \<Rightarrow> string" where
  "py_strip s = rev (dropWhile py_isspace (rev (dropWhile py_isspace s)))"

definition lower_char :: "char \<Rightarrow> char" where
  "lower_char c = (if 65 \<le> (of_char c :: nat) \<and> (of_char c :: nat) \<le> 90
                   then char_of ((of_char c :: nat) + 32) else c)"

definition py_lower :: "string \<Rightarrow> string" where
  "py_lower s = map lower_char s"

definition startswith :: "string \<Rightarrow> string \<Rightarrow> bool" where
  "startswith s p = (take (length p) s = p)"

definition endswith :: "string \<Rightarrow> string \<Rightarrow> bool" where
  "endswith s p = (length p \<le> length s \<and> drop (length s - length p) s = p)"

definition removeprefix :: "string \<Rightarrow> string \<Rightarrow> string" where
  "removeprefix s p = (if startswith s p then drop (length p) s else s)"

definition removesuffix :: "string \<Rightarrow> string \<Rightarrow> string" where
  "removesuffix s p = (if p \<noteq> [] \<and> endswith s p then take (length s - length p) s else s)"

fun contains :: "string \<Rightarrow> string \<Rightarrow> bool" where
  "contains p [] = (p = [])"
| "contains p (c # cs) = (startswith (c # cs) p \<or> contains p cs)"

fun py_split :: "char \<Rightarrow> string \<Rightarrow> string list" where
  "py_split sep [] = [[]]"
| "py_split sep (c # cs) =
     (if c = sep then [] # py_split sep cs
      else (case py_split sep cs of [] \<Rightarrow> [[c]] | w # ws \<Rightarrow> (c # w) # ws))"

fun py_join :: "string \<Rightarrow> string list \<Rightarrow> string" where
  "py_join sep [] = []"
| "py_join sep [w] = w"
| "py_join sep (w # ws) = w @ sep @ py_join sep ws"

definition NL :: string where
  "NL = [char_of (10 :: nat)]"

definition DQ :: string where
  "DQ = [char_of (34 :: nat)]"

definition SQ :: string where
  "SQ = [char_of (39 :: nat)]"

section \<open>Integers as text\<close>

definition digit_char :: "nat \<Rightarrow> char" where
  "digit_char n = char_of (48 + n)"

fun show_nat :: "nat \<Rightarrow> string" where
  "show_nat n = (if n < 10 then [digit_char n] else show_nat (n div 10) @ [digit_char (n mod 10)])"

declare show_nat.simps [simp del]

definition show_int :: "int \<Rightarrow> string" where
  "show_int i = (if i < 0 then ''-'' @ show_nat (nat (- i)) else show_nat (nat i))"

definition is_digit :: "char \<Rightarrow> bool" where
  "is_digit c = (48 \<le> (of_char c :: nat) \<and> (of_char c :: nat) \<le> 57)"

definition digit_val :: "char \<Rightarrow> nat" where
  "digit_val c = (of_char c :: nat) - 48"

definition read_nat :: "string \<Rightarrow> nat" where
  "read_nat s = foldl (\<lambda>acc c. acc * 10 + digit_val c) 0 s"

text \<open>
  Python's \<open>int(text)\<close>: surrounding white space, one sign, then decimal digits with single
  underscores between them.
\<close>

fun digits_us :: "string \<Rightarrow> string option" where
  "digits_us [] = None"
| "digits_us [c] = (if is_digit c then Some [c] else None)"
| "digits_us (c # d # cs) =
     (if is_digit c
      then map_option (\<lambda>ds. c # ds)
             (if d = CHR ''_'' then digits_us cs else digits_us (d # cs))
      else None)"

definition int_of_text :: "string \<Rightarrow> int option" where
  "int_of_text s =
     (let t = py_strip s
      in case t of
           [] \<Rightarrow> None
         | c # cs \<Rightarrow>
             (if c = CHR ''-'' then map_option (\<lambda>ds. - int (read_nat ds)) (digits_us cs)
              else if c = CHR ''+'' then map_option (\<lambda>ds. int (read_nat ds)) (digits_us cs)
              else map_option (\<lambda>ds. int (read_nat ds)) (digits_us t)))"

section \<open>Tests and conversions on values\<close>

text \<open>\<open>isinstance(v, int) and not isinstance(v, bool)\<close>, the strict integer test.\<close>

fun as_strict_int :: "pyval \<Rightarrow> int option" where
  "as_strict_int (PInt i) = Some i"
| "as_strict_int _ = None"

text \<open>\<open>isinstance(v, int)\<close>: \<open>bool\<close> is a subclass of \<open>int\<close>.\<close>

fun as_int_or_bool :: "pyval \<Rightarrow> int option" where
  "as_int_or_bool (PInt i) = Some i"
| "as_int_or_bool (PBool b) = Some (if b then 1 else 0)"
| "as_int_or_bool _ = None"

fun truthy :: "pyval \<Rightarrow> bool" where
  "truthy PNone = False"
| "truthy (PBool b) = b"
| "truthy (PInt i) = (i \<noteq> 0)"
| "truthy (PFloat v r) = (v \<noteq> Some 0)"
| "truthy (PStr s) = (s \<noteq> [])"
| "truthy (PList xs) = (xs \<noteq> [])"
| "truthy (PDict d) = (d \<noteq> [])"

definition trunc_rat :: "rat \<Rightarrow> int" where
  "trunc_rat q = (if q < 0 then - \<lfloor>- q\<rfloor> else \<lfloor>q\<rfloor>)"

text \<open>
  Python's \<open>==\<close> on JSON values: numbers and booleans compare by value, a value that is not a
  number differs from itself, dictionaries compare as finite maps.
\<close>

fun py_num :: "pyval \<Rightarrow> rat option" where
  "py_num (PBool b) = Some (if b then 1 else 0)"
| "py_num (PInt i) = Some (of_int i)"
| "py_num (PFloat (Some q) r) = Some q"
| "py_num _ = None"

fun py_eq :: "pyval \<Rightarrow> pyval \<Rightarrow> bool"
and py_eqs :: "pyval list \<Rightarrow> pyval list \<Rightarrow> bool"
and py_eqd :: "pydict \<Rightarrow> pydict \<Rightarrow> bool" where
  "py_eq PNone w = (w = PNone)"
| "py_eq (PBool b) w = (py_num w = Some (if b then 1 else 0))"
| "py_eq (PInt i) w = (py_num w = Some (of_int i))"
| "py_eq (PFloat (Some q) r) w = (py_num w = Some q)"
| "py_eq (PFloat None r) w = (w = PFloat None r \<and> r \<noteq> ''nan'')"
| "py_eq (PStr s) w = (w = PStr s)"
| "py_eq (PList xs) w = (case w of PList ys \<Rightarrow> py_eqs xs ys | _ \<Rightarrow> False)"
| "py_eq (PDict d) w = (case w of PDict e \<Rightarrow> length d = length e \<and> py_eqd d e | _ \<Rightarrow> False)"
| "py_eqs [] ys = (ys = [])"
| "py_eqs (x # xs) ys = (case ys of [] \<Rightarrow> False | y # ys' \<Rightarrow> py_eq x y \<and> py_eqs xs ys')"
| "py_eqd [] e = True"
| "py_eqd ((k, v) # d) e =
     ((case map_of e k of None \<Rightarrow> False | Some w \<Rightarrow> py_eq v w) \<and> py_eqd d e)"

section \<open>Lemmas on the exception sum\<close>

lemma case_pair: "(case p of (x, y) \<Rightarrow> f x y) = f (fst p) (snd p)"
  by (cases p) simp

lemma rbind_Inl [simp, res_simps]: "rbind (Inl e) f = Inl e"
  by (simp add: rbind_def)

lemma rbind_Inr [simp, res_simps]: "rbind (Inr x) f = f x"
  by (simp add: rbind_def)

lemma state_res_eq_Inr:
  "(case p of (Inl e, c) \<Rightarrow> Inl e | (Inr x, c) \<Rightarrow> f x c) = Inr y \<longleftrightarrow> (\<exists>x c. p = (Inr x, c) \<and> f x c = Inr y)"
  by (auto split: prod.splits sum.splits)

lemma rbind_eq_Inr: "rbind m f = Inr y \<longleftrightarrow> (\<exists>x. m = Inr x \<and> f x = Inr y)"
  by (cases m) auto

lemma rbind_eq_Inl: "rbind m f = Inl e \<longleftrightarrow> m = Inl e \<or> (\<exists>x. m = Inr x \<and> f x = Inl e)"
  by (cases m) auto

lemma rbind_assoc: "rbind (rbind m f) g = rbind m (\<lambda>x. rbind (f x) g)"
  by (cases m) auto

lemma rbind_cong [fundef_cong]:
  assumes "m = m'" and "\<And>x. m' = Inr x \<Longrightarrow> f x = f' x"
  shows "rbind m f = rbind m' f'"
  using assms by (cases m') auto

lemma rmap_cong [fundef_cong]:
  assumes "xs = ys" and "\<And>x. x \<in> set ys \<Longrightarrow> f x = g x"
  shows "rmap f xs = rmap g ys"
proof -
  have "(\<And>x. x \<in> set ys \<Longrightarrow> f x = g x) \<Longrightarrow> rmap f ys = rmap g ys"
    by (induction ys) (auto intro!: rbind_cong)
  then show ?thesis using assms by simp
qed

lemma rcheck_Inr [simp]: "rcheck ok e = Inr u \<longleftrightarrow> ok"
  by (simp add: rcheck_def)

lemma rcheck_Inl [simp]: "rcheck ok e = Inl e' \<longleftrightarrow> \<not> ok \<and> e' = e"
  by (auto simp: rcheck_def)

lemma rcheck_True [simp, res_simps]: "rcheck True e = Inr ()"
  by (simp add: rcheck_def)

lemma rcheck_False [simp, res_simps]: "rcheck False e = Inl e"
  by (simp add: rcheck_def)

lemma as_strict_int_Some: "as_strict_int v = Some i \<Longrightarrow> v = PInt i"
  by (cases v) auto

lemma if_Inl_eq_Inr: "(if c then Inl e else m) = Inr y \<longleftrightarrow> \<not> c \<and> m = Inr y"
  by simp

lemma is_ok_iff: "is_ok r \<longleftrightarrow> (\<exists>x. r = Inr x)"
  by (cases r) auto

lemma rmap_Inr_length: "rmap f xs = Inr ys \<Longrightarrow> length ys = length xs"
  by (induction xs arbitrary: ys) (auto simp: rbind_eq_Inr)

lemma rmap_Inr_iff: "rmap f xs = Inr ys \<longleftrightarrow> map f xs = map Inr ys"
  by (induction xs arbitrary: ys) (auto simp: rbind_eq_Inr Cons_eq_map_conv)

lemma rmap_all_Inr: "(\<And>x. x \<in> set xs \<Longrightarrow> f x = Inr (g x)) \<Longrightarrow> rmap f xs = Inr (map g xs)"
  by (induction xs) auto

lemma rmap_append: "rmap f (xs @ ys) = rbind (rmap f xs) (\<lambda>us. rbind (rmap f ys) (\<lambda>vs. Inr (us @ vs)))"
  by (induction xs) (auto simp: rbind_assoc rbind_def split: sum.splits)

section \<open>Lemmas on dictionaries\<close>

lemma map_of_dput [simp, dict_simps]: "map_of (dput k v d) = (map_of d)(k \<mapsto> v)"
  by (induction d) (auto simp: fun_eq_iff)

lemma keys_dput: "map fst (dput k v d) = (if k \<in> set (map fst d) then map fst d else map fst d @ [k])"
  by (induction d) auto

lemma map_of_ddel: "distinct (map fst d) \<Longrightarrow> map_of (ddel k d) = (map_of d)(k := None)"
  by (induction d) (auto simp: fun_eq_iff map_of_eq_None_iff split: if_splits)

lemma set_ddel: "set (ddel k d) \<subseteq> set d"
  by (induction d) auto

lemma distinct_ddel: "distinct (map fst d) \<Longrightarrow> distinct (map fst (ddel k d))"
  by (induction d) (auto dest: set_mp [OF set_ddel])

lemma set_dput: "p \<in> set (dput k v d) \<Longrightarrow> p = (k, v) \<or> p \<in> set d"
  by (induction d) (auto split: if_splits)

lemma distinct_dput: "distinct (map fst d) \<Longrightarrow> distinct (map fst (dput k v d))"
  by (simp add: keys_dput)

lemma dupdate_Nil [simp, dict_simps]: "dupdate d [] = d"
  by (simp add: dupdate_def)

lemma dupdate_Cons [simp, dict_simps]: "dupdate d ((k, v) # e) = dupdate (dput k v d) e"
  by (simp add: dupdate_def)

lemma map_of_dupdate_notin: "k \<notin> set (map fst e) \<Longrightarrow> map_of (dupdate d e) k = map_of d k"
  by (induction e arbitrary: d) (auto simp: dupdate_def)

lemma map_of_dupdate:
  "distinct (map fst e) \<Longrightarrow> map_of (dupdate d e) = map_of d ++ map_of e"
proof (induction e arbitrary: d)
  case Nil
  show ?case by simp
next
  case (Cons p e)
  obtain k v where p: "p = (k, v)" by (cases p)
  with Cons.prems have "map_of e k = None" by (auto simp: map_of_eq_None_iff)
  with Cons p show ?case by (auto simp: map_add_def fun_eq_iff split: option.splits)
qed

lemma dget_dput [simp, dict_simps]: "dget (dput k v d) j = (if j = k then v else dget d j)"
  by (simp add: dget_def)

lemma dget_Nil [simp]: "dget [] k = PNone"
  by (simp add: dget_def)

lemma dget_Cons [simp, dict_simps]: "dget ((j, v) # d) k = (if k = j then v else dget d k)"
  by (simp add: dget_def)

lemma dget_dupdate:
  "distinct (map fst e) \<Longrightarrow>
   dget (dupdate d e) k = (case map_of e k of None \<Rightarrow> dget d k | Some v \<Rightarrow> v)"
  by (simp add: dget_def map_of_dupdate map_add_def split: option.splits)

lemma distinct_dupdate: "distinct (map fst d) \<Longrightarrow> distinct (map fst (dupdate d e))"
  by (induction e arbitrary: d) (auto simp: dupdate_def distinct_dput)

section \<open>Lemmas on strings and integers\<close>

lemma startswith_append [simp]: "startswith (p @ s) p"
  by (simp add: startswith_def)

lemma startswith_iff: "startswith s p \<longleftrightarrow> (\<exists>t. s = p @ t)"
  by (metis append_take_drop_id append_eq_conv_conj startswith_def)

lemma contains_iff: "contains p s \<longleftrightarrow> (\<exists>u v. s = u @ p @ v)"
proof (induction s)
  case Nil
  show ?case by simp
next
  case (Cons c cs)
  show ?case
  proof
    assume "contains p (c # cs)"
    then consider "startswith (c # cs) p" | "contains p cs" by auto
    then show "\<exists>u v. c # cs = u @ p @ v"
    proof cases
      case 1
      then show ?thesis by (metis startswith_iff append_Nil)
    next
      case 2
      with Cons.IH show ?thesis by (metis append_Cons)
    qed
  next
    assume "\<exists>u v. c # cs = u @ p @ v"
    then obtain u v where uv: "c # cs = u @ p @ v" by blast
    show "contains p (c # cs)"
    proof (cases u)
      case Nil
      with uv have "startswith (c # cs) p" by (metis append_Nil startswith_iff)
      then show ?thesis by simp
    next
      case (Cons a u')
      with uv have "cs = u' @ p @ v" by simp
      with Cons.IH show ?thesis by auto
    qed
  qed
qed

lemma contains_append: "contains p s \<Longrightarrow> contains p (t @ s @ u)"
  unfolding contains_iff by (metis append.assoc)

lemma digit_char_of: "n < 10 \<Longrightarrow> (of_char (digit_char n) :: nat) = 48 + n"
  by (simp add: digit_char_def)

lemma is_digit_digit_char [simp]: "n < 10 \<Longrightarrow> is_digit (digit_char n)"
  by (simp add: is_digit_def digit_char_of)

lemma digit_val_digit_char [simp]: "n < 10 \<Longrightarrow> digit_val (digit_char n) = n"
  by (simp add: digit_val_def digit_char_of)

lemma show_nat_nonempty [simp]: "show_nat n \<noteq> []"
  by (subst show_nat.simps) simp

lemma show_nat_digits: "c \<in> set (show_nat n) \<Longrightarrow> is_digit c"
proof (induction n rule: show_nat.induct)
  case (1 n)
  then show ?case
    by (cases "n < 10") (auto simp: show_nat.simps [of n])
qed

lemma read_nat_append: "read_nat (s @ [c]) = read_nat s * 10 + digit_val c"
  by (simp add: read_nat_def)

lemma read_show_nat [simp]: "read_nat (show_nat n) = n"
proof (induction n rule: show_nat.induct)
  case (1 n)
  show ?case
  proof (cases "n < 10")
    case True
    then show ?thesis by (simp add: show_nat.simps [of n] read_nat_def)
  next
    case False
    with 1 show ?thesis by (simp add: show_nat.simps [of n] read_nat_append)
  qed
qed

lemma show_nat_inj: "show_nat m = show_nat n \<longleftrightarrow> m = n"
  by (metis read_show_nat)

lemma digits_us_digits: "s \<noteq> [] \<Longrightarrow> (\<forall>c \<in> set s. is_digit c) \<Longrightarrow> digits_us s = Some s"
proof (induction s rule: digits_us.induct)
  case (3 c d cs)
  then have "d \<noteq> CHR ''_''" by (auto simp: is_digit_def)
  with 3 show ?case by simp
qed auto

lemma digit_not_space: "is_digit c \<Longrightarrow> \<not> py_isspace c"
  by (auto simp: is_digit_def py_isspace_def)

lemma py_strip_id:
  assumes "s \<noteq> []" "\<not> py_isspace (hd s)" "\<not> py_isspace (last s)"
  shows "py_strip s = s"
proof -
  have a: "dropWhile py_isspace s = s" using assms by (cases s) auto
  have "dropWhile py_isspace (rev s) = rev s"
    using assms by (cases "rev s") (auto simp: hd_rev [symmetric])
  with a show ?thesis by (simp add: py_strip_def)
qed

lemma int_of_text_show_int [simp]: "int_of_text (show_int i) = Some i"
proof -
  let ?d = "show_nat (nat \<bar>i\<bar>)"
  have dig: "\<forall>c \<in> set ?d. is_digit c" using show_nat_digits by blast
  have h: "is_digit (hd ?d)" and l: "is_digit (last ?d)" using dig by auto
  obtain c cs where ccs: "?d = c # cs" by (cases ?d) auto
  show ?thesis
  proof (cases "i < 0")
    case True
    then have s: "show_int i = CHR ''-'' # ?d" by (simp add: show_int_def)
    have "py_strip (CHR ''-'' # ?d) = CHR ''-'' # ?d"
      using l digit_not_space by (intro py_strip_id) (auto simp: py_isspace_def)
    with s True show ?thesis by (simp add: int_of_text_def digits_us_digits dig)
  next
    case False
    then have s: "show_int i = ?d" by (simp add: show_int_def)
    have st: "py_strip ?d = ?d" using h l digit_not_space by (intro py_strip_id) auto
    have "is_digit c" using dig ccs by simp
    then have "c \<noteq> CHR ''-''" "c \<noteq> CHR ''+''" by (auto simp: is_digit_def)
    moreover have "digits_us ?d = Some ?d" using dig by (simp add: digits_us_digits)
    ultimately show ?thesis using s st False ccs
      by (simp add: int_of_text_def) (metis int_nat_eq linorder_not_less read_show_nat abs_of_nonneg)
  qed
qed

lemma show_int_inj [simp]: "show_int i = show_int j \<longleftrightarrow> i = j"
  by (metis int_of_text_show_int option.inject)

section \<open>Splitting, joining and stripping\<close>

lemma py_split_nonempty [simp]: "py_split c s \<noteq> []"
  by (induction s) (auto split: list.splits)

lemma py_split_no_sep: "c \<notin> set s \<Longrightarrow> py_split c s = [s]"
  by (induction s) auto

lemma py_split_append: "c \<notin> set w \<Longrightarrow> py_split c (w @ c # s) = w # py_split c s"
  by (induction w) auto

lemma py_split_join:
  "ws \<noteq> [] \<Longrightarrow> (\<And>w. w \<in> set ws \<Longrightarrow> c \<notin> set w) \<Longrightarrow> py_split c (py_join [c] ws) = ws"
proof (induction ws rule: induct_list012)
  case (3 w v ws)
  then show ?case by (simp add: py_split_append)
qed (auto simp: py_split_no_sep)

lemma dropWhile_last: "dropWhile P s \<noteq> [] \<Longrightarrow> last (dropWhile P s) = last s"
  by (induction s) (auto split: if_splits)

lemma all_less_Suc_shift: "(\<forall>j < Suc n. P j) \<longleftrightarrow> P 0 \<and> (\<forall>j < n. P (Suc j))"
  using less_Suc_eq_0_disj by auto

lemma startswith_strip:
  assumes "startswith r p" "p \<noteq> []" "\<not> py_isspace (hd p)" "py_strip r = t"
  shows "hd t = hd p \<and> t \<noteq> []"
proof -
  from assms(1,2) obtain q where r: "r = p @ q"
    by (metis startswith_def append_take_drop_id)
  obtain c cs where p: "p = c # cs" using assms(2) by (cases p) auto
  have "t = rev (dropWhile py_isspace (rev (c # cs @ q)))"
    using assms r p by (simp add: py_strip_def)
  also have "\<dots> = c # rev (dropWhile py_isspace (rev (cs @ q)))"
    using assms(3) p by (simp add: dropWhile_append3 dropWhile_append del: rev_append)
  finally show ?thesis using p by simp
qed

lemma py_strip_strip [simp]: "py_strip (py_strip s) = py_strip s"
proof (cases "py_strip s = []")
  case True
  moreover have "py_strip [] = []" by (simp add: py_strip_def)
  ultimately show ?thesis by simp
next
  case False
  let ?t = "dropWhile py_isspace s" and ?u = "dropWhile py_isspace (rev (dropWhile py_isspace s))"
  have u: "?u \<noteq> []" using False by (simp add: py_strip_def)
  then have "\<not> py_isspace (hd ?u)" by (rule hd_dropWhile)
  then have "\<not> py_isspace (last (py_strip s))" using u by (simp add: py_strip_def last_rev)
  moreover have "?t \<noteq> []" using u by (metis dropWhile.simps(1) rev.simps(1))
  then have "\<not> py_isspace (hd ?t)" by (rule hd_dropWhile)
  then have "\<not> py_isspace (hd (py_strip s))"
    using dropWhile_last [OF u] \<open>?t \<noteq> []\<close> u by (simp add: py_strip_def hd_rev last_rev)
  ultimately show ?thesis using False by (intro py_strip_id) auto
qed

section \<open>Transition systems and their invariants\<close>

text \<open>
  Every stateful component is used through one locale: a set of initial states, a step relation and
  a property that holds at the start and is kept by every step holds in every reachable state.
\<close>

locale invariant_system =
  fixes initial :: "'s \<Rightarrow> bool"
    and step :: "'s \<Rightarrow> 's \<Rightarrow> bool"
    and inv :: "'s \<Rightarrow> bool"
  assumes initial_inv: "initial s \<Longrightarrow> inv s"
    and step_inv: "inv s \<Longrightarrow> step s t \<Longrightarrow> inv t"
begin

lemma reachable_inv:
  assumes "initial s" and "step\<^sup>*\<^sup>* s t"
  shows "inv t"
  using assms(2) by (induction rule: rtranclp_induct) (auto intro: initial_inv assms(1) step_inv)

lemma steps_inv:
  assumes "inv s" and "step\<^sup>*\<^sup>* s t"
  shows "inv t"
  using assms(2) by (induction rule: rtranclp_induct) (auto intro: assms(1) step_inv)

end

end
