(* ===== verification/Batcher.thy ===== *)
theory Batcher
  imports Prelude
begin

text \<open>
  Batch input preparation: \<open>vellum_core/logic/batcher.py\<close> and the strict integer checks of
  \<open>vellum_core/policies/normalization.py\<close>. A prepared batch holds two arrays padded with zero
  rows to the batch size and the number of active rows. The lemmas characterise exactly which
  inputs are accepted, give the shape of every accepted batch (length, 32-bit range, zero tail),
  and show that an already padded payload produced here is accepted unchanged.
\<close>

section \<open>Definitions\<close>

definition MAX_BATCH_SIZE :: nat where
  "MAX_BATCH_SIZE = 250"

definition MAX_UINT32 :: int where
  "MAX_UINT32 = 4294967295"

record prepared_batch =
  pb_balances :: "pyval list"
  pb_limits :: "pyval list"
  pb_active_count :: pyval

definition to_circuit_input :: "prepared_batch \<Rightarrow> pydict" where
  "to_circuit_input p =
     [(''balances'', PList (pb_balances p)),
      (''limits'', PList (pb_limits p)),
      (''active_count'', pb_active_count p)]"

fun validate_u32_from :: "string \<Rightarrow> nat \<Rightarrow> pyval list \<Rightarrow> unit res" where
  "validate_u32_from field idx [] = Inr ()"
| "validate_u32_from field idx (value # values) =
     (case as_strict_int value of
        None \<Rightarrow> Inl (ValueError (field @ ''['' @ show_nat idx @ ''] must be an integer''))
      | Some v \<Rightarrow>
          (if v < 0 \<or> v > MAX_UINT32
           then Inl (ValueError (field @ ''['' @ show_nat idx @ ''] must be between 0 and '' @
                                 show_int MAX_UINT32))
           else validate_u32_from field (Suc idx) values))"

definition validate_u32_list :: "string \<Rightarrow> pyval list \<Rightarrow> unit res" where
  "validate_u32_list field values = validate_u32_from field 0 values"

fun assert_zero_from :: "nat \<Rightarrow> pyval list \<Rightarrow> unit res" where
  "assert_zero_from idx [] = Inr ()"
| "assert_zero_from idx (value # values) =
     (if \<not> py_eq value (PInt 0)
      then Inl (ValueError (''anti-ghost invariant violated: padded index '' @ show_nat idx @
                            '' must be zero''))
      else assert_zero_from (Suc idx) values)"

definition assert_zero_tail :: "pyval list \<Rightarrow> nat \<Rightarrow> unit res" where
  "assert_zero_tail values active_count = assert_zero_from active_count (drop active_count values)"

definition batch_prepare_input :: "pyval list \<Rightarrow> pyval list \<Rightarrow> int \<Rightarrow> prepared_batch res" where
  "batch_prepare_input balances limits batch_size =
     (if batch_size \<le> 0 then Inl (ValueError ''batch_size must be positive'')
      else if length balances = 0 \<or> length limits = 0
        then Inl (ValueError ''balances and limits must contain at least one item'')
      else if length balances \<noteq> length limits
        then Inl (ValueError ''balances and limits length mismatch'')
      else if int (length balances) > batch_size
        then Inl (ValueError (''batch size exceeds limit ('' @ show_int batch_size @ '')''))
      else
        rbind (validate_u32_list ''balances'' balances) (\<lambda>_.
        rbind (validate_u32_list ''limits'' limits) (\<lambda>_.
        let active_count = length balances;
            padded_balances = balances @ replicate (nat batch_size - active_count) (PInt 0);
            padded_limits = limits @ replicate (nat batch_size - active_count) (PInt 0)
        in rbind (assert_zero_tail padded_balances active_count) (\<lambda>_.
           rbind (assert_zero_tail padded_limits active_count) (\<lambda>_.
           Inr \<lparr>pb_balances = padded_balances, pb_limits = padded_limits,
                pb_active_count = PInt (int active_count)\<rparr>)))))"

definition batch_prepare_from_private_input :: "pydict \<Rightarrow> prepared_batch res" where
  "batch_prepare_from_private_input private_input =
     (case (dget private_input ''balances'', dget private_input ''limits'') of
        (PList balances_raw, PList limits_raw) \<Rightarrow>
          (let active_count_raw = dget private_input ''active_count''
           in case as_int_or_bool active_count_raw of
                None \<Rightarrow> Inl (ValueError ''private_input must contain integer active_count'')
              | Some n \<Rightarrow>
                  (if length balances_raw \<noteq> MAX_BATCH_SIZE \<or> length limits_raw \<noteq> MAX_BATCH_SIZE
                   then Inl (ValueError (''private_input balances/limits must already be padded to '' @
                                         show_nat MAX_BATCH_SIZE))
                   else if n < 1 \<or> n > int MAX_BATCH_SIZE
                   then Inl (ValueError (''active_count must be between 1 and '' @
                                         show_nat MAX_BATCH_SIZE))
                   else
                     rbind (validate_u32_list ''balances'' balances_raw) (\<lambda>_.
                     rbind (validate_u32_list ''limits'' limits_raw) (\<lambda>_.
                     rbind (assert_zero_tail balances_raw (nat n)) (\<lambda>_.
                     rbind (assert_zero_tail limits_raw (nat n)) (\<lambda>_.
                     Inr \<lparr>pb_balances = balances_raw, pb_limits = limits_raw,
                          pb_active_count = active_count_raw\<rparr>))))))
      | _ \<Rightarrow> Inl (ValueError ''private_input must contain array balances and limits''))"

text \<open>\<open>require_integer\<close> and \<open>require_integer_list\<close> of the evidence normalisation helpers.\<close>

definition require_integer :: "string \<Rightarrow> pyval \<Rightarrow> int option \<Rightarrow> int option \<Rightarrow> int res" where
  "require_integer field value minimum maximum =
     (case as_strict_int value of
        None \<Rightarrow> Inl (FrameworkError ''invalid_evidence_payload'' ''Field must be an integer''
                      [(''field'', PStr field)])
      | Some v \<Rightarrow>
          (if (case minimum of None \<Rightarrow> False | Some m \<Rightarrow> v < m)
           then Inl (FrameworkError ''invalid_evidence_payload'' ''Field is below minimum''
                      [(''field'', PStr field), (''minimum'', PInt (the minimum)), (''value'', value)])
           else if (case maximum of None \<Rightarrow> False | Some m \<Rightarrow> v > m)
           then Inl (FrameworkError ''invalid_evidence_payload'' ''Field exceeds maximum''
                      [(''field'', PStr field), (''maximum'', PInt (the maximum)), (''value'', value)])
           else Inr v))"

fun require_integer_items ::
  "string \<Rightarrow> int option \<Rightarrow> int option \<Rightarrow> nat \<Rightarrow> pyval list \<Rightarrow> int list res" where
  "require_integer_items field minimum maximum idx [] = Inr []"
| "require_integer_items field minimum maximum idx (item # items) =
     rbind (require_integer (field @ ''['' @ show_nat idx @ '']'') item minimum maximum) (\<lambda>v.
     rbind (require_integer_items field minimum maximum (Suc idx) items) (\<lambda>vs. Inr (v # vs)))"

definition require_integer_list ::
  "string \<Rightarrow> pyval \<Rightarrow> int option \<Rightarrow> int option \<Rightarrow> int list res" where
  "require_integer_list field value minimum maximum =
     (case value of
        PList items \<Rightarrow> require_integer_items field minimum maximum 0 items
      | _ \<Rightarrow> Inl (FrameworkError ''invalid_evidence_payload'' ''Field must be an array''
                    [(''field'', PStr field)]))"

text \<open>The values the batch circuit accepts, and the shape a prepared batch has.\<close>

definition is_u32 :: "pyval \<Rightarrow> bool" where
  "is_u32 v = (case as_strict_int v of None \<Rightarrow> False | Some i \<Rightarrow> 0 \<le> i \<and> i \<le> MAX_UINT32)"

definition batch_wf :: "nat \<Rightarrow> prepared_batch \<Rightarrow> bool" where
  "batch_wf n p =
     (case as_int_or_bool (pb_active_count p) of
        None \<Rightarrow> False
      | Some a \<Rightarrow>
          1 \<le> a \<and> a \<le> int n \<and>
          length (pb_balances p) = n \<and> length (pb_limits p) = n \<and>
          list_all is_u32 (pb_balances p) \<and> list_all is_u32 (pb_limits p) \<and>
          list_all (\<lambda>v. v = PInt 0) (drop (nat a) (pb_balances p)) \<and>
          list_all (\<lambda>v. v = PInt 0) (drop (nat a) (pb_limits p)))"

section \<open>The checks\<close>

lemma validate_u32_from_ok: "validate_u32_from f i vs = Inr u \<longleftrightarrow> list_all is_u32 vs"
  by (induction vs arbitrary: i) (auto simp: is_u32_def split: option.splits)

lemma validate_u32_list_ok [simp]: "validate_u32_list f vs = Inr u \<longleftrightarrow> list_all is_u32 vs"
  by (simp add: validate_u32_list_def validate_u32_from_ok)

lemma assert_zero_from_ok:
  "assert_zero_from i vs = Inr u \<longleftrightarrow> list_all (\<lambda>v. py_eq v (PInt 0)) vs"
  by (induction vs arbitrary: i) auto

lemma assert_zero_tail_ok:
  "assert_zero_tail vs a = Inr u \<longleftrightarrow> list_all (\<lambda>v. py_eq v (PInt 0)) (drop a vs)"
  by (simp add: assert_zero_tail_def assert_zero_from_ok)

lemma is_u32_zero: "is_u32 v \<Longrightarrow> py_eq v (PInt 0) \<longleftrightarrow> v = PInt 0"
  by (cases v) (auto simp: is_u32_def)

lemma is_u32_PInt [simp]: "is_u32 (PInt i) \<longleftrightarrow> 0 \<le> i \<and> i \<le> MAX_UINT32"
  by (simp add: is_u32_def)

lemma is_u32_E: "is_u32 v \<Longrightarrow> (\<And>i. v = PInt i \<Longrightarrow> 0 \<le> i \<Longrightarrow> i \<le> MAX_UINT32 \<Longrightarrow> P) \<Longrightarrow> P"
  by (cases v) (auto simp: is_u32_def)

lemma zero_tail_u32:
  "list_all is_u32 vs \<Longrightarrow>
   list_all (\<lambda>v. py_eq v (PInt 0)) (drop a vs) \<longleftrightarrow> list_all (\<lambda>v. v = PInt 0) (drop a vs)"
  unfolding list_all_iff by (metis in_set_dropD is_u32_zero)

lemma assert_zero_padding: "assert_zero_tail (xs @ replicate k (PInt 0)) (length xs) = Inr ()"
  by (simp add: assert_zero_tail_ok list_all_iff)

lemma require_integer_items_ok:
  "require_integer_items f mn mx i vs = Inr xs \<Longrightarrow>
   vs = map PInt xs \<and> (\<forall>x \<in> set xs. (\<forall>m. mn = Some m \<longrightarrow> m \<le> x) \<and> (\<forall>m. mx = Some m \<longrightarrow> x \<le> m))"
proof (induction vs arbitrary: i xs)
  case Nil
  then show ?case by simp
next
  case (Cons v vs)
  then obtain y ys where y: "require_integer (f @ ''['' @ show_nat i @ '']'') v mn mx = Inr y"
    and ys: "require_integer_items f mn mx (Suc i) vs = Inr ys" and xs: "xs = y # ys"
    by (auto simp: rbind_eq_Inr)
  from y have "v = PInt y \<and> (\<forall>m. mn = Some m \<longrightarrow> m \<le> y) \<and> (\<forall>m. mx = Some m \<longrightarrow> y \<le> m)"
    by (cases v) (auto simp: require_integer_def split: if_splits option.splits)
  with Cons.IH [OF ys] xs show ?case by auto
qed

lemma require_integer_list_ok:
  "require_integer_list f v mn mx = Inr xs \<Longrightarrow>
   v = PList (map PInt xs) \<and>
   (\<forall>x \<in> set xs. (\<forall>m. mn = Some m \<longrightarrow> m \<le> x) \<and> (\<forall>m. mx = Some m \<longrightarrow> x \<le> m))"
  by (cases v) (auto simp: require_integer_list_def dest: require_integer_items_ok)

section \<open>Acceptance and shape\<close>

lemma batch_prepare_input_cases:
  "batch_prepare_input bs ls n = Inr p \<longleftrightarrow>
   0 < n \<and> bs \<noteq> [] \<and> length bs = length ls \<and> int (length bs) \<le> n \<and>
   list_all is_u32 bs \<and> list_all is_u32 ls \<and>
   p = \<lparr>pb_balances = bs @ replicate (nat n - length bs) (PInt 0),
        pb_limits = ls @ replicate (nat n - length bs) (PInt 0),
        pb_active_count = PInt (int (length bs))\<rparr>"
  by (auto simp: batch_prepare_input_def rbind_eq_Inr Let_def assert_zero_padding
      assert_zero_tail_ok list_all_iff)

lemma batch_prepare_input_wf:
  assumes "batch_prepare_input bs ls n = Inr p"
  shows "batch_wf (nat n) p"
proof -
  from assms have p: "p = \<lparr>pb_balances = bs @ replicate (nat n - length bs) (PInt 0),
        pb_limits = ls @ replicate (nat n - length bs) (PInt 0),
        pb_active_count = PInt (int (length bs))\<rparr>"
    and h: "0 < n" "bs \<noteq> []" "length bs = length ls" "int (length bs) \<le> n"
      "list_all is_u32 bs" "list_all is_u32 ls"
    by (auto simp: batch_prepare_input_cases)
  have "1 \<le> length bs" using h(2) by (cases bs) auto
  with h show ?thesis by (auto simp: p batch_wf_def list_all_iff MAX_UINT32_def)
qed

text \<open>
  \<open>batch_prepare_input\<close> accepts exactly the non-empty arrays of equal length, at most the
  (positive) batch size, whose items are all integers in the unsigned 32-bit range (booleans are
  not integers); every other input raises \<open>ValueError\<close>.
\<close>

theorem batch_prepare_input_accepts_iff:
  "(\<exists>p. batch_prepare_input bs ls n = Inr p) \<longleftrightarrow>
   0 < n \<and> bs \<noteq> [] \<and> length bs = length ls \<and> int (length bs) \<le> n \<and>
   list_all is_u32 bs \<and> list_all is_u32 ls"
  by (simp add: batch_prepare_input_cases)

text \<open>
  Every batch \<open>batch_prepare_input\<close> returns is well formed: both arrays have exactly the batch
  size, all values are in the unsigned 32-bit range, the active count is between 1 and the batch
  size, and every row from the active count on is zero; the active prefix is the caller's input.
\<close>

theorem batch_prepare_input_shape:
  assumes "batch_prepare_input bs ls n = Inr p"
  shows "batch_wf (nat n) p \<and> take (length bs) (pb_balances p) = bs \<and>
         take (length bs) (pb_limits p) = ls \<and> pb_active_count p = PInt (int (length bs))"
  using assms batch_prepare_input_wf [OF assms] by (auto simp: batch_prepare_input_cases)

theorem batch_prepare_input_shape_witness:
  "\<exists>p. batch_prepare_input [PInt 120] [PInt 100] 3 = Inr p \<and> batch_wf 3 p \<and>
       take 1 (pb_balances p) = [PInt 120]"
proof -
  let ?p = "\<lparr>pb_balances = [PInt 120, PInt 0, PInt 0], pb_limits = [PInt 100, PInt 0, PInt 0],
             pb_active_count = PInt 1\<rparr>"
  have run: "batch_prepare_input [PInt 120] [PInt 100] 3 = Inr ?p"
    by (simp add: batch_prepare_input_cases MAX_UINT32_def numeral_eq_Suc)
  from batch_prepare_input_shape [OF run] run show ?thesis by auto
qed

lemma batch_prepare_from_private_input_cases:
  "batch_prepare_from_private_input d = Inr p \<longleftrightarrow>
   dget d ''balances'' = PList (pb_balances p) \<and> dget d ''limits'' = PList (pb_limits p) \<and>
   dget d ''active_count'' = pb_active_count p \<and> batch_wf MAX_BATCH_SIZE p"
  by (cases p)
     (auto simp: batch_prepare_from_private_input_def batch_wf_def rbind_eq_Inr Let_def
        assert_zero_tail_ok zero_tail_u32 split: pyval.splits option.splits if_splits)

text \<open>
  A payload is accepted as an already padded \<open>private_input\<close> exactly when it is a well-formed
  batch of the maximal size, and it is then returned unchanged.
\<close>

theorem batch_prepare_from_private_input_iff:
  "batch_prepare_from_private_input (to_circuit_input p) = Inr q \<longleftrightarrow>
   q = p \<and> batch_wf MAX_BATCH_SIZE p"
  by (cases p; cases q) (auto simp: batch_prepare_from_private_input_cases to_circuit_input_def)

text \<open>
  Round trip between the two preparation paths: what \<open>batch_prepare_input\<close> pads to the default
  batch size is accepted by \<open>batch_prepare_from_private_input\<close> (the worker's re-check of the sealed
  payload) and comes back unchanged.
\<close>

theorem batch_prepare_roundtrip:
  assumes "batch_prepare_input bs ls (int MAX_BATCH_SIZE) = Inr p"
  shows "batch_prepare_from_private_input (to_circuit_input p) = Inr p"
  using batch_prepare_input_wf [OF assms]
  by (simp add: batch_prepare_from_private_input_cases to_circuit_input_def)

theorem batch_prepare_roundtrip_witness:
  "\<exists>p. batch_prepare_input [PInt 120, PInt 7] [PInt 100, PInt 9] (int MAX_BATCH_SIZE) = Inr p \<and>
       batch_prepare_from_private_input (to_circuit_input p) = Inr p"
proof -
  have "\<exists>p. batch_prepare_input [PInt 120, PInt 7] [PInt 100, PInt 9] (int MAX_BATCH_SIZE) = Inr p"
    by (simp add: batch_prepare_input_cases MAX_BATCH_SIZE_def MAX_UINT32_def)
  then obtain p
    where run: "batch_prepare_input [PInt 120, PInt 7] [PInt 100, PInt 9] (int MAX_BATCH_SIZE) = Inr p"
    by blast
  with batch_prepare_roundtrip [OF run] show ?thesis by blast
qed

end
