(* ===== verification/Policy_DSL.thy ===== *)
theory Policy_DSL
  imports Prelude
begin

text \<open>
  The policy DSL: the typed documents of \<open>vellum_core/policy_compiler/models.py\<close> with their
  validators, and the capability checks of \<open>vellum_core/policy_compiler/validation.py\<close>.

  A decision expression is the recursive document of the source (a kind, an optional comparison, a
  list of arguments, an optional inner expression). Its abstract counterpart is \<open>bexp\<close>, the
  expression the document denotes, with its meaning \<open>beval\<close>; \<open>abs_expr\<close> relates the two. The
  lemmas show that a document accepted by the validators denotes an expression.
\<close>

section \<open>Documents (models.py)\<close>

datatype comparison_op = OpLt | OpGt | OpLe | OpGe | OpEq

datatype expr_kind = KComparison | KAnd | KOr | KNot | KAll | KAny

record value_ref =
  vr_ref :: "string option"
  vr_param :: "string option"
  vr_const_int :: "int option"

record comparison_expr =
  cmp_op :: comparison_op
  cmp_left :: value_ref
  cmp_right :: value_ref

datatype decision_expr =
  DecisionExpr (de_kind: expr_kind) (de_comparison: "comparison_expr option")
    (de_args: "decision_expr list") (de_inner: "decision_expr option")

record param_spec =
  ps_minimum :: "int option"
  ps_maximum :: "int option"
  ps_default :: "int option"

datatype output_type = TInt | TBool | TString

record output_spec =
  os_expr :: string
  os_value_type :: output_type
  os_signal_index :: nat

record policy_spec =
  sp_policy_id :: string
  sp_policy_version :: string
  sp_reference_policy :: string
  sp_spec_version :: string
  sp_compiler_version :: string
  sp_description :: "string option"
  sp_batch_size :: nat
  sp_inputs :: "string list"
  sp_policy_parameters :: "(string \<times> param_spec) list"
  sp_decision :: decision_expr
  sp_outputs :: "(string \<times> output_spec) list"
  sp_primitives :: "string list"
  sp_expected_attestation :: pydict
  sp_generated_python_path :: string
  sp_generated_circom_path :: string
  sp_generated_debug_trace_path :: "string option"
  sp_circuit_id :: string

fun kind_text :: "expr_kind \<Rightarrow> string" where
  "kind_text KComparison = ''comparison''"
| "kind_text KAnd = ''and''"
| "kind_text KOr = ''or''"
| "kind_text KNot = ''not''"
| "kind_text KAll = ''all''"
| "kind_text KAny = ''any''"

fun op_text :: "comparison_op \<Rightarrow> string" where
  "op_text OpLt = ''<''"
| "op_text OpGt = ''>''"
| "op_text OpLe = ''<=''"
| "op_text OpGe = ''>=''"
| "op_text OpEq = ''==''"

section \<open>Validators of the documents\<close>

definition bool_nat :: "bool \<Rightarrow> nat" where
  "bool_nat b = (if b then 1 else 0)"

text \<open>The field constraint \<open>min_length=1\<close> of an optional string.\<close>

definition min_len1 :: "string option \<Rightarrow> bool" where
  "min_len1 s = (s \<noteq> Some [])"

definition value_ref_validate_shape :: "value_ref \<Rightarrow> value_ref res" where
  "value_ref_validate_shape v =
     (let has_ref = (vr_ref v \<noteq> None); has_param = (vr_param v \<noteq> None);
          has_const = (vr_const_int v \<noteq> None)
      in if bool_nat has_ref + bool_nat has_param + bool_nat has_const \<noteq> 1
         then Inl (ValueError ''value node requires exactly one of `ref`, `param`, or `const_int`'')
         else Inr v)"

definition value_ref_ok :: "value_ref \<Rightarrow> bool" where
  "value_ref_ok v =
     (min_len1 (vr_ref v) \<and> min_len1 (vr_param v) \<and> is_ok (value_ref_validate_shape v))"

definition decision_expr_validate_shape :: "decision_expr \<Rightarrow> decision_expr res" where
  "decision_expr_validate_shape e =
     (case de_kind e of
        KComparison \<Rightarrow>
          (if de_comparison e = None
             then Inl (ValueError ''comparison kind requires `comparison` node'')
           else if de_args e \<noteq> [] \<or> de_inner e \<noteq> None
             then Inl (ValueError ''comparison kind cannot define args/inner'')
           else Inr e)
      | k \<Rightarrow>
          (if k = KAnd \<or> k = KOr
           then (if length (de_args e) < 2
                   then Inl (ValueError (kind_text k @ '' requires at least two args''))
                 else if de_comparison e \<noteq> None \<or> de_inner e \<noteq> None
                   then Inl (ValueError (kind_text k @ '' cannot define comparison/inner''))
                 else Inr e)
           else (if de_inner e = None
                   then Inl (ValueError (kind_text k @ '' requires `inner` expression''))
                 else if de_comparison e \<noteq> None \<or> de_args e \<noteq> []
                   then Inl (ValueError (kind_text k @ '' cannot define comparison/args''))
                 else Inr e)))"

text \<open>A parsed document has passed its validators at every node.\<close>

fun expr_ok :: "decision_expr \<Rightarrow> bool"
and exprs_ok :: "decision_expr list \<Rightarrow> bool" where
  "expr_ok (DecisionExpr k c as i) =
     (is_ok (decision_expr_validate_shape (DecisionExpr k c as i)) \<and>
      (case c of None \<Rightarrow> True | Some ce \<Rightarrow> value_ref_ok (cmp_left ce) \<and> value_ref_ok (cmp_right ce)) \<and>
      exprs_ok as \<and>
      (case i of None \<Rightarrow> True | Some e \<Rightarrow> expr_ok e))"
| "exprs_ok [] = True"
| "exprs_ok (e # es) = (expr_ok e \<and> exprs_ok es)"

definition param_spec_validate_bounds :: "param_spec \<Rightarrow> param_spec res" where
  "param_spec_validate_bounds p =
     (if (case (ps_minimum p, ps_maximum p) of (Some a, Some b) \<Rightarrow> a > b | _ \<Rightarrow> False)
        then Inl (ValueError ''policy parameter minimum must be <= maximum'')
      else if (case (ps_default p, ps_minimum p) of (Some d, Some a) \<Rightarrow> d < a | _ \<Rightarrow> False)
        then Inl (ValueError ''policy parameter default must be >= minimum'')
      else if (case (ps_default p, ps_maximum p) of (Some d, Some b) \<Rightarrow> d > b | _ \<Rightarrow> False)
        then Inl (ValueError ''policy parameter default must be <= maximum'')
      else Inr p)"

definition derive_debug_trace_path :: "policy_spec \<Rightarrow> string" where
  "derive_debug_trace_path s =
     (let circom_path = sp_generated_circom_path s
      in if endswith circom_path ''.circom''
         then removesuffix circom_path ''.circom'' @ ''.debug.json''
         else circom_path @ ''.debug.json'')"

fun check_output_exprs :: "(string \<times> output_spec) list \<Rightarrow> unit res" where
  "check_output_exprs [] = Inr ()"
| "check_output_exprs ((name, out) # outs) =
     (if os_expr out \<notin> {''decision'', ''active_count'', ''policy_params_hash''}
      then Inl (ValueError (''output `'' @ name @ ''` uses unsupported expr `'' @ os_expr out @ ''`''))
      else check_output_exprs outs)"

definition validate_references :: "policy_spec \<Rightarrow> policy_spec res" where
  "validate_references s =
     rbind (check_output_exprs (sp_outputs s)) (\<lambda>_.
       (case sp_generated_debug_trace_path s of
          Some (c # cs) \<Rightarrow> Inr s
        | _ \<Rightarrow> Inr (s\<lparr>sp_generated_debug_trace_path := Some (derive_debug_trace_path s)\<rparr>)))"

section \<open>Compiler capability checks (validation.py)\<close>

definition unsupported :: "string \<Rightarrow> string \<Rightarrow> pydict \<Rightarrow> pyexc" where
  "unsupported policy_id msg extra =
     FrameworkError ''policy_spec_unsupported'' msg ((''policy_id'', PStr policy_id) # extra)"

definition validate_value :: "string \<Rightarrow> bool \<Rightarrow> string list \<Rightarrow> value_ref \<Rightarrow> unit res" where
  "validate_value policy_id indexed_context parameter_names v =
     (case vr_const_int v of
        Some c \<Rightarrow>
          (if c < 0
           then Inl (unsupported policy_id ''Negative constants are not supported in compiler v1'' [])
           else Inr ())
      | None \<Rightarrow>
          (case vr_param v of
             Some p \<Rightarrow>
               (if p \<notin> set parameter_names
                then Inl (unsupported policy_id ''Unknown policy parameter reference in compiler v1''
                            [(''param'', PStr p)])
                else Inr ())
           | None \<Rightarrow>
               (let ref = py_strip (case vr_ref v of None \<Rightarrow> [] | Some r \<Rightarrow> r)
                in if ref = ''balances'' \<or> ref = ''limits''
                   then (if indexed_context then Inr ()
                         else Inl (unsupported policy_id
                           ''Array references require indexed context (inside all/any aggregation)''
                           [(''ref'', PStr ref)]))
                   else if ref = ''active_count'' then Inr ()
                   else Inl (unsupported policy_id ''Unsupported value reference in compiler v1''
                               [(''ref'', PStr ref)]))))"

fun validate_boolean_expr ::
  "string \<Rightarrow> bool \<Rightarrow> string list \<Rightarrow> decision_expr \<Rightarrow> unit res"
and validate_boolean_exprs ::
  "string \<Rightarrow> bool \<Rightarrow> string list \<Rightarrow> decision_expr list \<Rightarrow> unit res" where
  "validate_boolean_expr pid ctx names (DecisionExpr k c as i) =
     (case k of
        KComparison \<Rightarrow>
          (case c of
             None \<Rightarrow> Inl (unsupported pid ''Comparison node is missing comparison payload'' [])
           | Some ce \<Rightarrow>
               rbind (validate_value pid ctx names (cmp_left ce)) (\<lambda>_.
               validate_value pid ctx names (cmp_right ce)))
      | KAnd \<Rightarrow> validate_boolean_exprs pid ctx names as
      | KOr \<Rightarrow> validate_boolean_exprs pid ctx names as
      | KNot \<Rightarrow>
          (case i of
             None \<Rightarrow> Inl (unsupported pid ''`not` node must define inner expression'' [])
           | Some e \<Rightarrow> validate_boolean_expr pid ctx names e)
      | KAll \<Rightarrow>
          (case i of
             None \<Rightarrow> Inl (unsupported pid ''`all` node must define inner expression'' [])
           | Some e \<Rightarrow> validate_boolean_expr pid True names e)
      | KAny \<Rightarrow>
          (case i of
             None \<Rightarrow> Inl (unsupported pid ''`any` node must define inner expression'' [])
           | Some e \<Rightarrow> validate_boolean_expr pid True names e))"
| "validate_boolean_exprs pid ctx names [] = Inr ()"
| "validate_boolean_exprs pid ctx names (e # es) =
     rbind (validate_boolean_expr pid ctx names e) (\<lambda>_. validate_boolean_exprs pid ctx names es)"

definition ensure_supported_decision :: "policy_spec \<Rightarrow> unit res" where
  "ensure_supported_decision s =
     (let decision = sp_decision s
      in if de_kind decision \<noteq> KAll \<and> de_kind decision \<noteq> KAny \<or> de_inner decision = None
         then Inl (unsupported (sp_policy_id s)
                     ''Compiler currently supports `all`/`any` as top-level decision'' [])
         else validate_boolean_expr (sp_policy_id s) True (map fst (sp_policy_parameters s))
                (the (de_inner decision)))"

section \<open>Abstract expressions and their meaning\<close>

datatype vexp = VBalance | VLimit | VActive | VParam string | VConst int

datatype bexp =
    BCmp comparison_op vexp vexp
  | BAnd "bexp list"
  | BOr "bexp list"
  | BNot bexp
  | BAll bexp
  | BAny bexp

text \<open>The inputs of one evaluation: the two arrays, the number of active rows, the parameters.\<close>

record dsl_env =
  env_balances :: "nat \<Rightarrow> int"
  env_limits :: "nat \<Rightarrow> int"
  env_active :: nat
  env_params :: "string \<Rightarrow> int"

fun veval :: "dsl_env \<Rightarrow> nat \<Rightarrow> vexp \<Rightarrow> int" where
  "veval env i VBalance = env_balances env i"
| "veval env i VLimit = env_limits env i"
| "veval env i VActive = int (env_active env)"
| "veval env i (VParam p) = env_params env p"
| "veval env i (VConst c) = c"

fun op_eval :: "comparison_op \<Rightarrow> int \<Rightarrow> int \<Rightarrow> bool" where
  "op_eval OpLt a b = (a < b)"
| "op_eval OpGt a b = (a > b)"
| "op_eval OpLe a b = (a \<le> b)"
| "op_eval OpGe a b = (a \<ge> b)"
| "op_eval OpEq a b = (a = b)"

fun beval :: "dsl_env \<Rightarrow> nat \<Rightarrow> bexp \<Rightarrow> bool" where
  "beval env i (BCmp op a b) = op_eval op (veval env i a) (veval env i b)"
| "beval env i (BAnd bs) = list_all (beval env i) bs"
| "beval env i (BOr bs) = list_ex (beval env i) bs"
| "beval env i (BNot b) = (\<not> beval env i b)"
| "beval env i (BAll b) = list_all (\<lambda>j. beval env j b) [0..<env_active env]"
| "beval env i (BAny b) = list_ex (\<lambda>j. beval env j b) [0..<env_active env]"

text \<open>What a value node or a decision document denotes, when it denotes anything.\<close>

definition abs_value :: "value_ref \<Rightarrow> vexp option" where
  "abs_value v =
     (case vr_const_int v of
        Some c \<Rightarrow> Some (VConst c)
      | None \<Rightarrow>
          (case vr_param v of
             Some p \<Rightarrow> Some (VParam p)
           | None \<Rightarrow>
               (if vr_ref v = Some ''balances'' then Some VBalance
                else if vr_ref v = Some ''limits'' then Some VLimit
                else if vr_ref v = Some ''active_count'' then Some VActive
                else None)))"

definition abs_comparison :: "comparison_expr option \<Rightarrow> bexp option" where
  "abs_comparison c =
     (case c of None \<Rightarrow> None
      | Some ce \<Rightarrow>
          (case (abs_value (cmp_left ce), abs_value (cmp_right ce)) of
             (Some l, Some r) \<Rightarrow> Some (BCmp (cmp_op ce) l r) | _ \<Rightarrow> None))"

fun abs_expr :: "decision_expr \<Rightarrow> bexp option"
and abs_exprs :: "decision_expr list \<Rightarrow> bexp list option" where
  "abs_expr (DecisionExpr k c as i) =
     (case k of
        KComparison \<Rightarrow> abs_comparison c
      | KAnd \<Rightarrow> (if as = [] then None else map_option BAnd (abs_exprs as))
      | KOr \<Rightarrow> (if as = [] then None else map_option BOr (abs_exprs as))
      | KNot \<Rightarrow> (case i of None \<Rightarrow> None | Some e \<Rightarrow> map_option BNot (abs_expr e))
      | KAll \<Rightarrow> (case i of None \<Rightarrow> None | Some e \<Rightarrow> map_option BAll (abs_expr e))
      | KAny \<Rightarrow> (case i of None \<Rightarrow> None | Some e \<Rightarrow> map_option BAny (abs_expr e)))"
| "abs_exprs [] = Some []"
| "abs_exprs (e # es) =
     (case (abs_expr e, abs_exprs es) of (Some b, Some bs) \<Rightarrow> Some (b # bs) | _ \<Rightarrow> None)"

text \<open>
  The side condition the renderers need beyond validation: a \<open>ref\<close> carries no surrounding white
  space (validation strips it before the test, the renderers do not).
\<close>

definition ref_stripped :: "value_ref \<Rightarrow> bool" where
  "ref_stripped v = (case vr_ref v of None \<Rightarrow> True | Some r \<Rightarrow> py_strip r = r)"

fun refs_stripped :: "decision_expr \<Rightarrow> bool"
and all_refs_stripped :: "decision_expr list \<Rightarrow> bool" where
  "refs_stripped (DecisionExpr k c as i) =
     ((case c of None \<Rightarrow> True | Some ce \<Rightarrow> ref_stripped (cmp_left ce) \<and> ref_stripped (cmp_right ce)) \<and>
      all_refs_stripped as \<and> (case i of None \<Rightarrow> True | Some e \<Rightarrow> refs_stripped e))"
| "all_refs_stripped [] = True"
| "all_refs_stripped (e # es) = (refs_stripped e \<and> all_refs_stripped es)"

text \<open>The constants and parameters an abstract expression mentions.\<close>

fun vexp_ok :: "string set \<Rightarrow> vexp \<Rightarrow> bool" where
  "vexp_ok names (VConst c) = (0 \<le> c)"
| "vexp_ok names (VParam p) = (p \<in> names)"
| "vexp_ok names _ = True"

fun bexp_ok :: "string set \<Rightarrow> bexp \<Rightarrow> bool" where
  "bexp_ok names (BCmp op a b) = (vexp_ok names a \<and> vexp_ok names b)"
| "bexp_ok names (BAnd bs) = (bs \<noteq> [] \<and> list_all (bexp_ok names) bs)"
| "bexp_ok names (BOr bs) = (bs \<noteq> [] \<and> list_all (bexp_ok names) bs)"
| "bexp_ok names (BNot b) = bexp_ok names b"
| "bexp_ok names (BAll b) = bexp_ok names b"
| "bexp_ok names (BAny b) = bexp_ok names b"

section \<open>Validated documents denote expressions\<close>

lemma validate_value_abs:
  assumes "validate_value pid ctx names v = Inr u" and "ref_stripped v"
  shows "\<exists>x. abs_value v = Some x \<and> vexp_ok (set names) x"
  using assms
  by (cases "vr_ref v")
     (auto simp: validate_value_def abs_value_def ref_stripped_def Let_def py_strip_def
        split: option.splits if_splits)

lemma abs_exprs_Nil_iff: "abs_exprs es = Some bs \<Longrightarrow> (bs = []) = (es = [])"
  by (cases es) (auto split: option.splits)

lemma validate_abs:
  "expr_ok e \<Longrightarrow> validate_boolean_expr pid ctx names e = Inr u \<Longrightarrow> refs_stripped e \<Longrightarrow>
   \<exists>b. abs_expr e = Some b \<and> bexp_ok (set names) b"
  "exprs_ok es \<Longrightarrow> validate_boolean_exprs pid ctx names es = Inr u \<Longrightarrow> all_refs_stripped es \<Longrightarrow>
   \<exists>bs. abs_exprs es = Some bs \<and> list_all (bexp_ok (set names)) bs"
proof (induction pid ctx names e and pid ctx names es
    rule: validate_boolean_expr_validate_boolean_exprs.induct)
  case (1 pid ctx names k c as i)
  show ?case
  proof (cases k)
    case KComparison
    with 1 obtain ce where ce: "c = Some ce" by (auto split: option.splits)
    with KComparison 1 have
      "validate_value pid ctx names (cmp_left ce) = Inr ()"
      "validate_value pid ctx names (cmp_right ce) = Inr ()"
      "ref_stripped (cmp_left ce)" "ref_stripped (cmp_right ce)"
      by (auto simp: rbind_eq_Inr)
    then obtain x y where "abs_value (cmp_left ce) = Some x" "vexp_ok (set names) x"
      "abs_value (cmp_right ce) = Some y" "vexp_ok (set names) y"
      using validate_value_abs by metis
    with KComparison ce show ?thesis by (simp add: abs_comparison_def)
  next
    case KAnd
    with 1 have "as \<noteq> []" by (auto simp: decision_expr_validate_shape_def)
    moreover from KAnd 1 obtain bs where "abs_exprs as = Some bs" "list_all (bexp_ok (set names)) bs"
      by auto
    ultimately show ?thesis using KAnd by (auto dest: abs_exprs_Nil_iff)
  next
    case KOr
    with 1 have "as \<noteq> []" by (auto simp: decision_expr_validate_shape_def)
    moreover from KOr 1 obtain bs where "abs_exprs as = Some bs" "list_all (bexp_ok (set names)) bs"
      by auto
    ultimately show ?thesis using KOr by (auto dest: abs_exprs_Nil_iff)
  next
    case KNot
    with 1 show ?thesis by (cases i) auto
  next
    case KAll
    with 1 show ?thesis by (cases i) auto
  next
    case KAny
    with 1 show ?thesis by (cases i) auto
  qed
next
  case (2 pid ctx names)
  then show ?case by simp
next
  case (3 pid ctx names e es)
  then show ?case by (auto simp: rbind_eq_Inr)
qed

text \<open>The decision of an accepted specification, as an abstract expression.\<close>

definition spec_bexp :: "policy_spec \<Rightarrow> bexp option" where
  "spec_bexp s = (case de_inner (sp_decision s) of None \<Rightarrow> None | Some e \<Rightarrow> abs_expr e)"

lemma supported_decision_abs:
  assumes "expr_ok (sp_decision s)" and "ensure_supported_decision s = Inr u"
    and "refs_stripped (sp_decision s)"
  shows "\<exists>b. spec_bexp s = Some b \<and> bexp_ok (set (map fst (sp_policy_parameters s))) b \<and>
             (de_kind (sp_decision s) = KAll \<or> de_kind (sp_decision s) = KAny)"
proof -
  obtain k c as i where d: "sp_decision s = DecisionExpr k c as i" by (cases "sp_decision s")
  with assms(2) obtain e where i: "i = Some e" and k: "k = KAll \<or> k = KAny"
    and v: "validate_boolean_expr (sp_policy_id s) True (map fst (sp_policy_parameters s)) e = Inr u"
    by (auto simp: ensure_supported_decision_def Let_def split: if_splits)
  from assms(1,3) d i have "expr_ok e" "refs_stripped e" by auto
  from validate_abs(1) [OF this(1) v this(2)] d i k show ?thesis by (auto simp: spec_bexp_def)
qed

lemma supported_decision_cases:
  assumes "expr_ok (sp_decision s)" and "ensure_supported_decision s = Inr u"
  obtains e where "de_inner (sp_decision s) = Some e" "expr_ok e"
    "validate_boolean_expr (sp_policy_id s) True (map fst (sp_policy_parameters s)) e = Inr ()"
    "de_kind (sp_decision s) = KAll \<or> de_kind (sp_decision s) = KAny"
    "refs_stripped (sp_decision s) = refs_stripped e"
proof -
  obtain k c as i where d: "sp_decision s = DecisionExpr k c as i" by (cases "sp_decision s")
  with assms(2) obtain e where i: "i = Some e" "k = KAll \<or> k = KAny"
    "validate_boolean_expr (sp_policy_id s) True (map fst (sp_policy_parameters s)) e = Inr ()"
    by (auto simp: ensure_supported_decision_def Let_def split: if_splits)
  with assms(1) d have "c = None" "as = []" "expr_ok e"
    by (auto simp: decision_expr_validate_shape_def is_ok_iff split: if_splits)
  with d i that show thesis by simp
qed

text \<open>A document that denotes carries no white space around its references.\<close>

lemma expr_abs_refs:
  "expr_ok e \<Longrightarrow> abs_expr e = Some b \<Longrightarrow> refs_stripped e"
  "exprs_ok es \<Longrightarrow> abs_exprs es = Some bs \<Longrightarrow> all_refs_stripped es"
proof (induction e and es arbitrary: b and bs rule: expr_ok_exprs_ok.induct)
  case (1 k c as i)
  have cmp: "ref_stripped v" if "value_ref_ok v" "abs_value v = Some x" for v x
    using that by (auto simp: ref_stripped_def value_ref_ok_def value_ref_validate_shape_def abs_value_def Let_def
        bool_nat_def is_ok_iff py_strip_def py_isspace_def split: option.splits if_splits)
  show ?case
    using 1 cmp
    by (cases k) (auto simp: decision_expr_validate_shape_def abs_comparison_def is_ok_iff split: option.splits if_splits)
next
  case 2
  then show ?case by simp
next
  case (3 e es)
  then show ?case by (auto split: option.splits)
qed

lemma vexp_ok_mono: "vexp_ok M x \<Longrightarrow> M \<subseteq> N \<Longrightarrow> vexp_ok N x"
  by (cases x) auto

lemma bexp_ok_mono: "bexp_ok M b \<Longrightarrow> M \<subseteq> N \<Longrightarrow> bexp_ok N b"
  by (induction b) (auto simp: list_all_iff intro: vexp_ok_mono)

section \<open>The shipped lending specification\<close>

text \<open>\<open>policy_packs/lending_risk_v1/policy_spec.yaml\<close>, the specification the repository compiles.\<close>

definition lending_risk_decision :: decision_expr where
  "lending_risk_decision =
     DecisionExpr KAll None []
       (Some (DecisionExpr KComparison
          (Some \<lparr>cmp_op = OpGt,
                 cmp_left = \<lparr>vr_ref = Some ''balances'', vr_param = None, vr_const_int = None\<rparr>,
                 cmp_right = \<lparr>vr_ref = Some ''limits'', vr_param = None, vr_const_int = None\<rparr>\<rparr>)
          [] None))"

definition lending_risk_spec :: policy_spec where
  "lending_risk_spec =
     \<lparr>sp_policy_id = ''lending_risk_v1'', sp_policy_version = ''1.0.0'',
      sp_reference_policy = ''lending_risk_reference_v1'', sp_spec_version = ''1.0.0'',
      sp_compiler_version = ''0.1.0'',
      sp_description = Some ''Batch lending risk control proving all active balances exceed limits.'',
      sp_batch_size = 250, sp_inputs = [''balances'', ''limits''], sp_policy_parameters = [],
      sp_decision = lending_risk_decision,
      sp_outputs = [(''all_valid'', \<lparr>os_expr = ''decision'', os_value_type = TBool, os_signal_index = 0\<rparr>),
                    (''active_count_out'', \<lparr>os_expr = ''active_count'', os_value_type = TInt, os_signal_index = 1\<rparr>)],
      sp_primitives = [''SafeSub'', ''InterestRateValidator'', ''MerkleProof'', ''BalanceGreaterThanLimit'',
                       ''ActiveCountBounds'', ''ZeroPaddingInvariant''],
      sp_expected_attestation = [(''decision_signal_index'', PInt 0), (''pass_signal_value'', PStr ''1'')],
      sp_generated_python_path = ''vellum_core/policies/generated/lending_risk_reference_v1.py'',
      sp_generated_circom_path = ''policy_packs/lending_risk_v1/generated/lending_risk_v1.generated.circom'',
      sp_generated_debug_trace_path = None, sp_circuit_id = ''batch_credit_check''\<rparr>"

lemma lending_risk_accepted [simp]:
  "expr_ok (sp_decision lending_risk_spec)" "ensure_supported_decision lending_risk_spec = Inr ()"
  "refs_stripped (sp_decision lending_risk_spec)"
  by code_simp+

lemma lending_risk_bexp [simp]: "spec_bexp lending_risk_spec = Some (BCmp OpGt VBalance VLimit)"
  by code_simp

lemma lending_risk_fields [simp]:
  "sp_policy_parameters lending_risk_spec = []" "sp_batch_size lending_risk_spec = 250"
  "de_kind (sp_decision lending_risk_spec) = KAll"
  by (simp_all add: lending_risk_spec_def lending_risk_decision_def)

end
