(* ===== verification/Python_Renderer.thy ===== *)
theory Python_Renderer
  imports Policy_DSL
begin

text \<open>
  The Python back end of the policy compiler: \<open>vellum_core/policy_compiler/python_renderer.py\<close>.
  The rendering functions produce the text of the source, with the loop-variable counter threaded
  through the recursion as the source does. The text is also shown to be the printed form of an
  expression tree (\<open>pyexpr\<close>), whose evaluation, with Python's short-circuit \<open>and\<close>, \<open>or\<close>, \<open>all\<close>,
  \<open>any\<close> and its index and key errors, agrees with the meaning of the decision.
\<close>

section \<open>Rendering (python_renderer.py)\<close>

definition python_operator_token :: "comparison_op \<Rightarrow> string res" where
  "python_operator_token op = Inr (op_text op)"

definition after_policy_params :: "string \<Rightarrow> string option" where
  "after_policy_params ref =
     (if startswith ref ''policy_params.'' then Some (drop (length ''policy_params.'') ref) else None)"

definition render_python_value :: "value_ref \<Rightarrow> string \<Rightarrow> string res" where
  "render_python_value v idx_var =
     (case vr_const_int v of
        Some c \<Rightarrow> Inr (show_int c)
      | None \<Rightarrow>
          (case vr_param v of
             Some p \<Rightarrow> Inr (''policy_params['' @ DQ @ p @ DQ @ '']'')
           | None \<Rightarrow>
               (if vr_ref v = Some ''balances'' then Inr (''balances['' @ idx_var @ '']'')
                else if vr_ref v = Some ''limits'' then Inr (''limits['' @ idx_var @ '']'')
                else if vr_ref v = Some ''active_count'' then Inr ''active_count''
                else case Option.bind (vr_ref v) after_policy_params of
                       Some p \<Rightarrow> Inr (''policy_params['' @ DQ @ p @ DQ @ '']'')
                     | None \<Rightarrow>
                         Inl (FrameworkError ''policy_spec_unsupported''
                                ''Unsupported value reference in Python renderer''
                                [(''ref'', case vr_ref v of None \<Rightarrow> PNone | Some r \<Rightarrow> PStr r)]))))"

definition idx_name :: "nat \<Rightarrow> string" where
  "idx_name i = ''idx_'' @ show_nat i"

fun render_python_boolean_expr :: "decision_expr \<Rightarrow> string \<Rightarrow> nat \<Rightarrow> (string \<times> nat) res"
and render_python_boolean_exprs :: "decision_expr list \<Rightarrow> string \<Rightarrow> nat \<Rightarrow> (string list \<times> nat) res" where
  "render_python_boolean_expr (DecisionExpr k c as i) idx_var counter =
     (case k of
        KComparison \<Rightarrow>
          (case c of
             None \<Rightarrow> Inl AssertionError
           | Some ce \<Rightarrow>
               rbind (render_python_value (cmp_left ce) idx_var) (\<lambda>left.
               rbind (render_python_value (cmp_right ce) idx_var) (\<lambda>right.
               rbind (python_operator_token (cmp_op ce)) (\<lambda>tok.
               Inr (''('' @ left @ '' '' @ tok @ '' '' @ right @ '')'', counter)))))
      | KAnd \<Rightarrow>
          rbind (render_python_boolean_exprs as idx_var counter) (\<lambda>(parts, counter').
          Inr (''('' @ py_join '' and '' parts @ '')'', counter'))
      | KOr \<Rightarrow>
          rbind (render_python_boolean_exprs as idx_var counter) (\<lambda>(parts, counter').
          Inr (''('' @ py_join '' or '' parts @ '')'', counter'))
      | KNot \<Rightarrow>
          (case i of
             None \<Rightarrow> Inl AssertionError
           | Some e \<Rightarrow>
               rbind (render_python_boolean_expr e idx_var counter) (\<lambda>(inner, counter').
               Inr (''(not ('' @ inner @ ''))'', counter')))
      | KAll \<Rightarrow>
          (case i of
             None \<Rightarrow> Inl AssertionError
           | Some e \<Rightarrow>
               rbind (render_python_boolean_expr e (idx_name counter) (Suc counter))
                 (\<lambda>(inner, counter').
               Inr (''all(('' @ inner @ '') for '' @ idx_name counter @
                    '' in range(active_count))'', counter')))
      | KAny \<Rightarrow>
          (case i of
             None \<Rightarrow> Inl AssertionError
           | Some e \<Rightarrow>
               rbind (render_python_boolean_expr e (idx_name counter) (Suc counter))
                 (\<lambda>(inner, counter').
               Inr (''any(('' @ inner @ '') for '' @ idx_name counter @
                    '' in range(active_count))'', counter'))))"
| "render_python_boolean_exprs [] idx_var counter = Inr ([], counter)"
| "render_python_boolean_exprs (e # es) idx_var counter =
     rbind (render_python_boolean_expr e idx_var counter) (\<lambda>(part, counter').
     rbind (render_python_boolean_exprs es idx_var counter') (\<lambda>(parts, counter'').
     Inr (part # parts, counter'')))"

text \<open>The decision expression embedded in the generated module (first lines of \<open>render_python_source\<close>).\<close>

definition python_decision_text :: "policy_spec \<Rightarrow> string res" where
  "python_decision_text s =
     (let decision_agg = (if de_kind (sp_decision s) = KAll then ''all'' else ''any'')
      in case de_inner (sp_decision s) of
           None \<Rightarrow> Inl AssertionError
         | Some e \<Rightarrow>
             rbind (render_python_boolean_expr e ''idx_0'' 1) (\<lambda>(inner, counter).
             Inr (decision_agg @ ''(('' @ inner @ '') for idx_0 in range(active_count))'')))"

fun render_output_line :: "string \<times> output_spec \<Rightarrow> string res" where
  "render_output_line (name, out) =
     (if os_expr out = ''decision''
        then Inr (''            '' @ DQ @ name @ DQ @ '': all_valid,'')
      else if os_expr out = ''active_count''
        then Inr (''            '' @ DQ @ name @ DQ @ '': active_count,'')
      else if os_expr out = ''policy_params_hash''
        then Inr (''            '' @ DQ @ name @ DQ @ '': compute_policy_params_hash(policy_params),'')
      else Inl (FrameworkError ''policy_spec_unsupported''
                  ''Unsupported output expression in Python renderer''
                  [(''output'', PStr name), (''expr'', PStr (os_expr out))]))"

definition render_output_lines :: "policy_spec \<Rightarrow> string res" where
  "render_output_lines s = rbind (rmap render_output_line (sp_outputs s)) (\<lambda>ls. Inr (py_join NL ls))"

section \<open>Expression trees of the generated Python\<close>

datatype pyvexp = PyBalance nat | PyLimit nat | PyActive | PyParam string | PyConst int

datatype pyexpr =
    PyCmp comparison_op pyvexp pyvexp
  | PyAnd "pyexpr list"
  | PyOr "pyexpr list"
  | PyNot pyexpr
  | PyAll nat pyexpr
  | PyAny nat pyexpr

text \<open>The renderer prints the name of a parameter as it is, so a name with a double quote, a backslash or a line break is not the string literal the tree stands for.\<close>

fun show_pyvexp :: "pyvexp \<Rightarrow> string" where
  "show_pyvexp (PyBalance i) = ''balances['' @ idx_name i @ '']''"
| "show_pyvexp (PyLimit i) = ''limits['' @ idx_name i @ '']''"
| "show_pyvexp PyActive = ''active_count''"
| "show_pyvexp (PyParam p) = ''policy_params['' @ DQ @ p @ DQ @ '']''"
| "show_pyvexp (PyConst c) = show_int c"

fun show_pyexpr :: "pyexpr \<Rightarrow> string" where
  "show_pyexpr (PyCmp op a b) = ''('' @ show_pyvexp a @ '' '' @ op_text op @ '' '' @ show_pyvexp b @ '')''"
| "show_pyexpr (PyAnd es) = ''('' @ py_join '' and '' (map show_pyexpr es) @ '')''"
| "show_pyexpr (PyOr es) = ''('' @ py_join '' or '' (map show_pyexpr es) @ '')''"
| "show_pyexpr (PyNot e) = ''(not ('' @ show_pyexpr e @ ''))''"
| "show_pyexpr (PyAll v e) =
     ''all(('' @ show_pyexpr e @ '') for '' @ idx_name v @ '' in range(active_count))''"
| "show_pyexpr (PyAny v e) =
     ''any(('' @ show_pyexpr e @ '') for '' @ idx_name v @ '' in range(active_count))''"

text \<open>Python's evaluation of such a tree: names, arrays, dictionary and loop variables.\<close>

record py_env =
  pe_balances :: "int list"
  pe_limits :: "int list"
  pe_active :: nat
  pe_params :: "(string \<times> int) list"

definition list_get :: "int list \<Rightarrow> nat \<Rightarrow> int res" where
  "list_get xs i = (if i < length xs then Inr (xs ! i) else Inl (OtherError ''IndexError''))"

fun pyv_eval :: "py_env \<Rightarrow> (nat \<Rightarrow> nat) \<Rightarrow> pyvexp \<Rightarrow> int res" where
  "pyv_eval E vars (PyBalance i) = list_get (pe_balances E) (vars i)"
| "pyv_eval E vars (PyLimit i) = list_get (pe_limits E) (vars i)"
| "pyv_eval E vars PyActive = Inr (int (pe_active E))"
| "pyv_eval E vars (PyParam p) =
     (case map_of (pe_params E) p of None \<Rightarrow> Inl (KeyError p) | Some v \<Rightarrow> Inr v)"
| "pyv_eval E vars (PyConst c) = Inr c"

text \<open>Short-circuit evaluation from the left: \<open>all\<close>/\<open>and\<close> stop at the first false item.\<close>

fun sc_all :: "('a \<Rightarrow> bool res) \<Rightarrow> 'a list \<Rightarrow> bool res" where
  "sc_all f [] = Inr True"
| "sc_all f (x # xs) = rbind (f x) (\<lambda>b. if b then sc_all f xs else Inr False)"

fun sc_any :: "('a \<Rightarrow> bool res) \<Rightarrow> 'a list \<Rightarrow> bool res" where
  "sc_any f [] = Inr False"
| "sc_any f (x # xs) = rbind (f x) (\<lambda>b. if b then Inr True else sc_any f xs)"

lemma sc_all_cong [fundef_cong]:
  "xs = ys \<Longrightarrow> (\<And>x. x \<in> set ys \<Longrightarrow> f x = g x) \<Longrightarrow> sc_all f xs = sc_all g ys"
  by (induction ys arbitrary: xs) (auto intro!: rbind_cong)

lemma sc_any_cong [fundef_cong]:
  "xs = ys \<Longrightarrow> (\<And>x. x \<in> set ys \<Longrightarrow> f x = g x) \<Longrightarrow> sc_any f xs = sc_any g ys"
  by (induction ys arbitrary: xs) (auto intro!: rbind_cong)

fun py_eval :: "py_env \<Rightarrow> (nat \<Rightarrow> nat) \<Rightarrow> pyexpr \<Rightarrow> bool res" where
  "py_eval E vars (PyCmp op a b) =
     rbind (pyv_eval E vars a) (\<lambda>x. rbind (pyv_eval E vars b) (\<lambda>y. Inr (op_eval op x y)))"
| "py_eval E vars (PyAnd es) = sc_all (py_eval E vars) es"
| "py_eval E vars (PyOr es) = sc_any (py_eval E vars) es"
| "py_eval E vars (PyNot e) = rbind (py_eval E vars e) (\<lambda>b. Inr (\<not> b))"
| "py_eval E vars (PyAll v e) = sc_all (\<lambda>j. py_eval E (vars(v := j)) e) [0..<pe_active E]"
| "py_eval E vars (PyAny v e) = sc_any (\<lambda>j. py_eval E (vars(v := j)) e) [0..<pe_active E]"

text \<open>The tree the renderer prints for an abstract expression.\<close>

fun py_of_vexp :: "nat \<Rightarrow> vexp \<Rightarrow> pyvexp" where
  "py_of_vexp i VBalance = PyBalance i"
| "py_of_vexp i VLimit = PyLimit i"
| "py_of_vexp i VActive = PyActive"
| "py_of_vexp i (VParam p) = PyParam p"
| "py_of_vexp i (VConst c) = PyConst c"

fun py_of_bexp :: "bexp \<Rightarrow> nat \<Rightarrow> nat \<Rightarrow> pyexpr \<times> nat"
and py_of_bexps :: "bexp list \<Rightarrow> nat \<Rightarrow> nat \<Rightarrow> pyexpr list \<times> nat" where
  "py_of_bexp (BCmp op a b) i n = (PyCmp op (py_of_vexp i a) (py_of_vexp i b), n)"
| "py_of_bexp (BAnd bs) i n = (let (es, n') = py_of_bexps bs i n in (PyAnd es, n'))"
| "py_of_bexp (BOr bs) i n = (let (es, n') = py_of_bexps bs i n in (PyOr es, n'))"
| "py_of_bexp (BNot b) i n = (let (e, n') = py_of_bexp b i n in (PyNot e, n'))"
| "py_of_bexp (BAll b) i n = (let (e, n') = py_of_bexp b n (Suc n) in (PyAll n e, n'))"
| "py_of_bexp (BAny b) i n = (let (e, n') = py_of_bexp b n (Suc n) in (PyAny n e, n'))"
| "py_of_bexps [] i n = ([], n)"
| "py_of_bexps (b # bs) i n =
     (let (e, n') = py_of_bexp b i n; (es, n'') = py_of_bexps bs i n' in (e # es, n''))"

definition spec_decision :: "policy_spec \<Rightarrow> bexp \<Rightarrow> bexp" where
  "spec_decision s b = (if de_kind (sp_decision s) = KAll then BAll b else BAny b)"

definition python_decision :: "policy_spec \<Rightarrow> bexp \<Rightarrow> pyexpr" where
  "python_decision s b =
     (if de_kind (sp_decision s) = KAll then PyAll 0 (fst (py_of_bexp b 0 1))
      else PyAny 0 (fst (py_of_bexp b 0 1)))"

section \<open>The text is the printed tree\<close>

lemma render_python_value_abs:
  "abs_value v = Some x \<Longrightarrow> render_python_value v (idx_name i) = Inr (show_pyvexp (py_of_vexp i x))"
  by (auto simp: abs_value_def render_python_value_def split: option.splits if_splits)

lemma render_python_abs:
  "abs_expr e = Some b \<Longrightarrow>
   render_python_boolean_expr e (idx_name i) n =
     (case py_of_bexp b i n of (t, n') \<Rightarrow> Inr (show_pyexpr t, n'))"
  "abs_exprs es = Some bs \<Longrightarrow>
   render_python_boolean_exprs es (idx_name i) n =
     (case py_of_bexps bs i n of (ts, n') \<Rightarrow> Inr (map show_pyexpr ts, n'))"
proof (induction e and es arbitrary: b i n and bs i n rule: abs_expr_abs_exprs.induct)
  case (1 k c as i')
  show ?case
  proof (cases k)
    case KComparison
    with 1 obtain ce l r where "c = Some ce" "abs_value (cmp_left ce) = Some l"
      "abs_value (cmp_right ce) = Some r" "b = BCmp (cmp_op ce) l r"
      by (auto simp: abs_comparison_def split: option.splits)
    with KComparison show ?thesis
      by (simp add: render_python_value_abs python_operator_token_def)
  next
    case KAnd
    with 1 obtain bs where "abs_exprs as = Some bs" "b = BAnd bs" "as \<noteq> []"
      by (auto split: if_splits)
    with KAnd 1 show ?thesis by (simp add: Let_def split: prod.splits)
  next
    case KOr
    with 1 obtain bs where "abs_exprs as = Some bs" "b = BOr bs" "as \<noteq> []"
      by (auto split: if_splits)
    with KOr 1 show ?thesis by (simp add: Let_def split: prod.splits)
  next
    case KNot
    with 1 obtain e b' where "i' = Some e" "abs_expr e = Some b'" "b = BNot b'"
      by (auto split: option.splits)
    with KNot 1 show ?thesis by (simp add: Let_def split: prod.splits)
  next
    case KAll
    with 1 obtain e b' where "i' = Some e" "abs_expr e = Some b'" "b = BAll b'"
      by (auto split: option.splits)
    with KAll 1 show ?thesis by (simp add: Let_def split: prod.splits)
  next
    case KAny
    with 1 obtain e b' where "i' = Some e" "abs_expr e = Some b'" "b = BAny b'"
      by (auto split: option.splits)
    with KAny 1 show ?thesis by (simp add: Let_def split: prod.splits)
  qed
next
  case 2
  then show ?case by simp
next
  case (3 e es)
  then obtain b' bs' where "abs_expr e = Some b'" "abs_exprs es = Some bs'" "bs = b' # bs'"
    by (auto split: option.splits)
  with 3 show ?case by (simp add: Let_def split: prod.splits)
qed

section \<open>Evaluation agrees with the meaning\<close>

text \<open>The abstract inputs behind a Python environment.\<close>

definition env_of :: "py_env \<Rightarrow> dsl_env" where
  "env_of E = \<lparr>env_balances = (\<lambda>i. pe_balances E ! i), env_limits = (\<lambda>i. pe_limits E ! i),
               env_active = pe_active E,
               env_params = (\<lambda>p. case map_of (pe_params E) p of None \<Rightarrow> 0 | Some v \<Rightarrow> v)\<rparr>"

definition env_fits :: "py_env \<Rightarrow> bool" where
  "env_fits E = (pe_active E \<le> length (pe_balances E) \<and> pe_active E \<le> length (pe_limits E))"

lemma sc_all_Inr: "(\<And>x. x \<in> set xs \<Longrightarrow> f x = Inr (g x)) \<Longrightarrow> sc_all f xs = Inr (list_all g xs)"
  by (induction xs) auto

lemma sc_any_Inr: "(\<And>x. x \<in> set xs \<Longrightarrow> f x = Inr (g x)) \<Longrightarrow> sc_any f xs = Inr (list_ex g xs)"
  by (induction xs) auto

lemma sc_all_map: "map f es = map (\<lambda>b. Inr (g b)) bs \<Longrightarrow> sc_all f es = Inr (list_all g bs)"
proof (induction es arbitrary: bs)
  case (Cons e es)
  then show ?case by (cases bs) auto
qed simp

lemma sc_any_map: "map f es = map (\<lambda>b. Inr (g b)) bs \<Longrightarrow> sc_any f es = Inr (list_ex g bs)"
proof (induction es arbitrary: bs)
  case (Cons e es)
  then show ?case by (cases bs) auto
qed simp

lemma pyv_eval_correct:
  assumes "env_fits E" "vars i < pe_active E" "vexp_ok (dom (map_of (pe_params E))) x"
  shows "pyv_eval E vars (py_of_vexp i x) = Inr (veval (env_of E) (vars i) x)"
  using assms
  by (cases x) (auto simp: env_fits_def env_of_def list_get_def split: option.splits)

lemma py_eval_correct:
  "env_fits E \<Longrightarrow> vars i < pe_active E \<Longrightarrow> bexp_ok (dom (map_of (pe_params E))) b \<Longrightarrow>
   py_eval E vars (fst (py_of_bexp b i n)) = Inr (beval (env_of E) (vars i) b)"
  "env_fits E \<Longrightarrow> vars i < pe_active E \<Longrightarrow> list_all (bexp_ok (dom (map_of (pe_params E)))) bs \<Longrightarrow>
   map (py_eval E vars) (fst (py_of_bexps bs i n)) = map (\<lambda>b. Inr (beval (env_of E) (vars i) b)) bs"
proof (induction b i n and bs i n arbitrary: vars and vars rule: py_of_bexp_py_of_bexps.induct)
  case (1 op a b i n)
  then show ?case by (simp add: pyv_eval_correct)
next
  case (2 bs i n)
  then show ?case by (auto simp: Let_def split: prod.splits intro!: sc_all_map)
next
  case (3 bs i n)
  then show ?case by (auto simp: Let_def split: prod.splits intro!: sc_any_map)
next
  case (4 b i n)
  then show ?case by (auto simp: Let_def split: prod.splits)
next
  case (5 b i n)
  have act: "env_active (env_of E) = pe_active E" by (simp add: env_of_def)
  have "py_eval E (vars(n := j)) (fst (py_of_bexp b n (Suc n))) = Inr (beval (env_of E) j b)"
    if "j \<in> set [0..<pe_active E]" for j
    using 5 that by auto
  then have "sc_all (\<lambda>j. py_eval E (vars(n := j)) (fst (py_of_bexp b n (Suc n)))) [0..<pe_active E] =
      Inr (list_all (\<lambda>j. beval (env_of E) j b) [0..<pe_active E])"
    by (rule sc_all_Inr)
  with act show ?case by (auto simp: Let_def split: prod.splits)
next
  case (6 b i n)
  have act: "env_active (env_of E) = pe_active E" by (simp add: env_of_def)
  have "py_eval E (vars(n := j)) (fst (py_of_bexp b n (Suc n))) = Inr (beval (env_of E) j b)"
    if "j \<in> set [0..<pe_active E]" for j
    using 6 that by auto
  then have "sc_any (\<lambda>j. py_eval E (vars(n := j)) (fst (py_of_bexp b n (Suc n)))) [0..<pe_active E] =
      Inr (list_ex (\<lambda>j. beval (env_of E) j b) [0..<pe_active E])"
    by (rule sc_any_Inr)
  with act show ?case by (auto simp: Let_def split: prod.splits)
next
  case (7 i n)
  then show ?case by simp
next
  case (8 b bs i n)
  then show ?case by (auto simp: Let_def split: prod.splits)
qed

lemma python_decision_correct:
  assumes "env_fits E" and "bexp_ok (dom (map_of (pe_params E))) b"
  shows "py_eval E vars (python_decision s b) = Inr (beval (env_of E) i (spec_decision s b))"
proof -
  have body: "py_eval E (vars(0 := j)) (fst (py_of_bexp b 0 1)) = Inr (beval (env_of E) j b)"
    if "j \<in> set [0..<pe_active E]" for j
    using py_eval_correct(1) [of E "vars(0 := j)" 0 b 1] assms that by simp
  have "env_active (env_of E) = pe_active E" by (simp add: env_of_def)
  moreover have "sc_all (\<lambda>j. py_eval E (vars(0 := j)) (fst (py_of_bexp b 0 1))) [0..<pe_active E] =
      Inr (list_all (\<lambda>j. beval (env_of E) j b) [0..<pe_active E])"
    using body by (rule sc_all_Inr)
  moreover have "sc_any (\<lambda>j. py_eval E (vars(0 := j)) (fst (py_of_bexp b 0 1))) [0..<pe_active E] =
      Inr (list_ex (\<lambda>j. beval (env_of E) j b) [0..<pe_active E])"
    using body by (rule sc_any_Inr)
  ultimately show ?thesis by (simp add: python_decision_def spec_decision_def)
qed

lemma python_decision_text_abs:
  assumes "spec_bexp s = Some b" and "de_kind (sp_decision s) = KAll \<or> de_kind (sp_decision s) = KAny"
  shows "python_decision_text s = Inr (show_pyexpr (python_decision s b))"
proof -
  have i0: "''idx_0'' = idx_name 0" by code_simp
  from assms(1) obtain e where e: "de_inner (sp_decision s) = Some e" "abs_expr e = Some b"
    by (auto simp: spec_bexp_def split: option.splits)
  from render_python_abs(1) [OF e(2), of 0 1] e assms(2) show ?thesis
    by (auto simp: python_decision_text_def python_decision_def i0 [symmetric]
        split: prod.splits)
qed

text \<open>
  References with white space around them. \<open>validate_value\<close> strips a reference before it compares it,
  the renderers compare the reference as it is written: an accepted document with such a reference is
  the one accepted document the renderer refuses.
\<close>

definition unsupported_ref :: "string \<Rightarrow> pyexc" where
  "unsupported_ref r = FrameworkError ''policy_spec_unsupported'' ''Unsupported value reference in Python renderer''
     [(''ref'', PStr r)]"

lemma render_value_unstripped:
  assumes "value_ref_ok v" "validate_value pid ctx names v = Inr u" "\<not> ref_stripped v"
  shows "\<exists>r. render_python_value v idx = Inl (unsupported_ref r)"
proof -
  from assms obtain r where r: "vr_ref v = Some r" "py_strip r \<noteq> r" "vr_param v = None" "vr_const_int v = None"
    by (auto simp: ref_stripped_def value_ref_ok_def value_ref_validate_shape_def Let_def bool_nat_def is_ok_iff
        split: option.splits if_splits)
  with assms(2) have s: "py_strip r \<in> {''balances'', ''limits'', ''active_count''}"
    by (auto simp: validate_value_def Let_def split: if_splits)
  have "\<not> startswith r ''policy_params.''"
  proof
    assume "startswith r ''policy_params.''"
    from startswith_strip [OF this _ _ refl] s show False by (auto simp: py_isspace_def)
  qed
  moreover have "r \<noteq> ''balances''" "r \<noteq> ''limits''" "r \<noteq> ''active_count''"
    using r(2) by (auto simp: py_strip_def py_isspace_def)
  ultimately show ?thesis using r
    by (simp add: render_python_value_def after_policy_params_def unsupported_ref_def)
qed

lemma render_value_stripped:
  assumes "validate_value pid ctx names v = Inr u" "ref_stripped v"
  shows "\<exists>t. render_python_value v idx = Inr t"
  using assms by (cases "vr_ref v")
    (auto simp: validate_value_def render_python_value_def ref_stripped_def Let_def py_strip_def
      split: option.splits if_splits)

lemma render_unstripped:
  "expr_ok e \<Longrightarrow> validate_boolean_expr pid ctx names e = Inr () \<Longrightarrow>
   if refs_stripped e then \<exists>t. render_python_boolean_expr e idx n = Inr t
   else \<exists>r. render_python_boolean_expr e idx n = Inl (unsupported_ref r)"
  "exprs_ok es \<Longrightarrow> validate_boolean_exprs pid ctx names es = Inr () \<Longrightarrow>
   if all_refs_stripped es then \<exists>t. render_python_boolean_exprs es idx n = Inr t
   else \<exists>r. render_python_boolean_exprs es idx n = Inl (unsupported_ref r)"
proof (induction e idx n and es idx n arbitrary: ctx and ctx
    rule: render_python_boolean_expr_render_python_boolean_exprs.induct)
  case (1 k c as i idx n)
  show ?case
  proof (cases k)
    case KComparison
    with "1.prems" obtain ce where ce: "c = Some ce" "as = []" "i = None"
      by (auto simp: decision_expr_validate_shape_def is_ok_iff split: option.splits if_splits)
    with KComparison "1.prems" have v: "value_ref_ok (cmp_left ce)" "value_ref_ok (cmp_right ce)"
      "validate_value pid ctx names (cmp_left ce) = Inr ()" "validate_value pid ctx names (cmp_right ce) = Inr ()"
      by (auto simp: rbind_eq_Inr)
    note l = render_value_stripped [OF v(3), of idx] render_value_unstripped [OF v(1,3), of idx]
    note r = render_value_stripped [OF v(4), of idx] render_value_unstripped [OF v(2,4), of idx]
    show ?thesis using KComparison ce l r
      by (cases "ref_stripped (cmp_left ce)"; cases "ref_stripped (cmp_right ce)")
         (auto simp: python_operator_token_def)
  next
    case KAnd
    with "1.prems" have sub: "exprs_ok as" "validate_boolean_exprs pid ctx names as = Inr ()" "c = None" "i = None"
      by (auto simp: decision_expr_validate_shape_def is_ok_iff split: if_splits)
    from "1.IH"(1) [OF KAnd sub(1,2)] KAnd sub show ?thesis by (auto split: if_splits)
  next
    case KOr
    with "1.prems" have sub: "exprs_ok as" "validate_boolean_exprs pid ctx names as = Inr ()" "c = None" "i = None"
      by (auto simp: decision_expr_validate_shape_def is_ok_iff split: if_splits)
    from "1.IH"(2) [OF KOr sub(1,2)] KOr sub show ?thesis by (auto split: if_splits)
  next
    case KNot
    with "1.prems" obtain e where sub: "i = Some e" "expr_ok e" "validate_boolean_expr pid ctx names e = Inr ()"
        "c = None" "as = []"
      by (auto simp: decision_expr_validate_shape_def is_ok_iff split: if_splits option.splits)
    from "1.IH"(3) [OF KNot sub(1-3)] KNot sub show ?thesis by (auto split: if_splits)
  next
    case KAll
    with "1.prems" obtain e where sub: "i = Some e" "expr_ok e" "validate_boolean_expr pid True names e = Inr ()"
        "c = None" "as = []"
      by (auto simp: decision_expr_validate_shape_def is_ok_iff split: if_splits option.splits)
    from "1.IH"(4) [OF KAll sub(1-3)] KAll sub show ?thesis by (auto split: if_splits)
  next
    case KAny
    with "1.prems" obtain e where sub: "i = Some e" "expr_ok e" "validate_boolean_expr pid True names e = Inr ()"
        "c = None" "as = []"
      by (auto simp: decision_expr_validate_shape_def is_ok_iff split: if_splits option.splits)
    from "1.IH"(5) [OF KAny sub(1-3)] KAny sub show ?thesis by (auto split: if_splits)
  qed
next
  case (2 idx n)
  then show ?case by simp
next
  case (3 e es idx n)
  from "3.prems" have v: "expr_ok e" "exprs_ok es" "validate_boolean_expr pid ctx names e = Inr ()"
    "validate_boolean_exprs pid ctx names es = Inr ()" by (auto simp: rbind_eq_Inr)
  show ?case
  proof (cases "refs_stripped e")
    case True
    with 3(1) [OF v(1,3)] obtain p n' where "render_python_boolean_expr e idx n = Inr (p, n')" by auto
    with True 3(2) [OF _ refl v(2,4), of p n'] show ?thesis by (auto split: if_splits)
  next
    case False
    with 3(1) [OF v(1,3)] show ?thesis by auto
  qed
qed


text \<open>
  C16. Correctness of the Python back end: for every specification the compiler accepts (with
  references free of white space), rendering the decision succeeds, the text it returns is the
  printed form of a Python expression, and on inputs whose arrays cover the active rows and whose
  parameters are all present that expression evaluates without error to the decision's meaning.
\<close>

theorem python_renderer_correct:
  assumes "expr_ok (sp_decision s)" and "ensure_supported_decision s = Inr u"
    and "refs_stripped (sp_decision s)"
    and "env_fits E" and "set (map fst (sp_policy_parameters s)) \<subseteq> dom (map_of (pe_params E))"
  shows "\<exists>b t. spec_bexp s = Some b \<and> python_decision_text s = Inr (show_pyexpr t) \<and>
               py_eval E vars t = Inr (beval (env_of E) 0 (spec_decision s b))"
proof -
  from assms(1-3) obtain b where b: "spec_bexp s = Some b"
    and ok: "bexp_ok (set (map fst (sp_policy_parameters s))) b"
    and k: "de_kind (sp_decision s) = KAll \<or> de_kind (sp_decision s) = KAny"
    using supported_decision_abs by blast
  from python_decision_correct [OF assms(4) bexp_ok_mono [OF ok assms(5)], of vars s 0]
    python_decision_text_abs [OF b k] b
  show ?thesis by blast
qed

theorem python_renderer_correct_witness:
  "\<exists>b t. spec_bexp lending_risk_spec = Some b \<and>
         python_decision_text lending_risk_spec = Inr (show_pyexpr t) \<and>
         py_eval \<lparr>pe_balances = [120, 0], pe_limits = [100, 0], pe_active = 1, pe_params = []\<rparr> (\<lambda>_. 0) t =
           Inr (beval (env_of \<lparr>pe_balances = [120, 0], pe_limits = [100, 0], pe_active = 1, pe_params = []\<rparr>) 0
                  (spec_decision lending_risk_spec b))"
  by (rule python_renderer_correct) (simp_all add: env_fits_def)

text \<open>
  C40. What \<open>ensure_supported_decision\<close> accepts. The decision of an accepted specification is an
  \<open>all\<close> or an \<open>any\<close>. When its references carry no surrounding white space, it denotes a boolean expression
  whose constants are non-negative and whose parameters are all declared, and the Python renderer
  prints that expression. Otherwise, although it was accepted, it denotes nothing, and the renderer
  raises \<open>policy_spec_unsupported\<close> for one of its references.
\<close>

theorem supported_decision_denotes:
  assumes "expr_ok (sp_decision s)" and "ensure_supported_decision s = Inr u"
  shows "(de_kind (sp_decision s) = KAll \<or> de_kind (sp_decision s) = KAny) \<and>
    (if refs_stripped (sp_decision s)
     then \<exists>b. spec_bexp s = Some b \<and> bexp_ok (set (map fst (sp_policy_parameters s))) b \<and>
            python_decision_text s = Inr (show_pyexpr (python_decision s b))
     else spec_bexp s = None \<and>
       (\<exists>r. python_decision_text s = Inl (FrameworkError ''policy_spec_unsupported''
              ''Unsupported value reference in Python renderer'' [(''ref'', PStr r)])))"
proof -
  from supported_decision_cases [OF assms] obtain e where e: "de_inner (sp_decision s) = Some e" "expr_ok e"
    "validate_boolean_expr (sp_policy_id s) True (map fst (sp_policy_parameters s)) e = Inr ()"
    "de_kind (sp_decision s) = KAll \<or> de_kind (sp_decision s) = KAny"
    "refs_stripped (sp_decision s) = refs_stripped e" .
  show ?thesis
  proof (cases "refs_stripped e")
    case True
    with supported_decision_abs [OF assms] e(5) python_decision_text_abs e(4,5) show ?thesis by auto
  next
    case False
    with expr_abs_refs(1) [OF e(2)] e(1) have "spec_bexp s = None" by (cases "abs_expr e") (auto simp: spec_bexp_def)
    moreover from render_unstripped(1) [OF e(2,3), of "''idx_0''" 1] False obtain r where
      "render_python_boolean_expr e ''idx_0'' 1 = Inl (unsupported_ref r)" by auto
    ultimately show ?thesis using e(1,4,5) False
      by (simp add: python_decision_text_def unsupported_ref_def)
  qed
qed

text \<open>The lending specification with a padded reference.\<close>

definition padded_ref_spec :: policy_spec where
  "padded_ref_spec = lending_risk_spec\<lparr>sp_decision := DecisionExpr KAny None []
       (Some (DecisionExpr KComparison
          (Some \<lparr>cmp_op = OpGt,
                 cmp_left = \<lparr>vr_ref = Some '' balances '', vr_param = None, vr_const_int = None\<rparr>,
                 cmp_right = \<lparr>vr_ref = Some ''limits'', vr_param = None, vr_const_int = None\<rparr>\<rparr>)
          [] None))\<rparr>"

theorem supported_decision_denotes_witness:
  "(\<exists>b. spec_bexp lending_risk_spec = Some b \<and> bexp_ok {} b \<and>
      python_decision_text lending_risk_spec = Inr (show_pyexpr (python_decision lending_risk_spec b))) \<and>
   ensure_supported_decision padded_ref_spec = Inr () \<and> spec_bexp padded_ref_spec = None \<and>
   (\<exists>r. python_decision_text padded_ref_spec = Inl (FrameworkError ''policy_spec_unsupported''
      ''Unsupported value reference in Python renderer'' [(''ref'', PStr r)]))"
proof -
  have p: "expr_ok (sp_decision padded_ref_spec)" "ensure_supported_decision padded_ref_spec = Inr ()"
    "\<not> refs_stripped (sp_decision padded_ref_spec)" by code_simp+
  from supported_decision_denotes [of lending_risk_spec "()"] supported_decision_denotes [OF p(1,2)] p(2,3)
  show ?thesis by simp
qed

end
