(* ===== verification/Circom_Renderer.thy ===== *)
theory Circom_Renderer
  imports Python_Renderer
begin

text \<open>
  The Circom back end of the policy compiler: \<open>vellum_core/policy_compiler/circom_renderer.py\<close>.
  The expression builder is the class \<open>CircomExpressionBuilder\<close> with its counters, its comparison
  table and its list of finished aggregates as an explicit state; the rendering functions return the
  text of the source. The second half describes the same output as a list of aggregate blocks over
  expression trees (\<open>circ_aggregate\<close>) and shows that the builder's texts are their printed forms.
\<close>

section \<open>The expression builder\<close>

record comparison_node =
  cn_node_id :: nat
  cn_op :: comparison_op
  cn_left :: value_ref
  cn_right :: value_ref

record aggregate_node =
  an_aggregate_id :: nat
  an_kind :: expr_kind
  an_expression :: string
  an_comparison_nodes :: "comparison_node list"

record builder =
  bu_next_aggregate_id :: nat
  bu_next_comparison_id :: nat
  bu_comparisons_by_aggregate :: "nat \<Rightarrow> comparison_node list"
  bu_aggregates :: "aggregate_node list"

definition new_builder :: builder where
  "new_builder = \<lparr>bu_next_aggregate_id = 0, bu_next_comparison_id = 0,
     bu_comparisons_by_aggregate = (\<lambda>_. []), bu_aggregates = []\<rparr>"

definition loop_name :: "nat \<Rightarrow> string" where
  "loop_name i = ''i_'' @ show_nat i"

fun or_fold :: "string \<Rightarrow> string list \<Rightarrow> string" where
  "or_fold acc [] = acc"
| "or_fold acc (part # parts) =
     or_fold (''('' @ acc @ '' + '' @ part @ '' - ('' @ acc @ '' * '' @ part @ ''))'') parts"

function (sequential)
  cb_register_aggregate :: "expr_kind \<Rightarrow> decision_expr \<Rightarrow> builder \<Rightarrow> (nat \<times> builder) res"
and cb_render_boolean_expr :: "decision_expr \<Rightarrow> string \<Rightarrow> nat \<Rightarrow> builder \<Rightarrow> (string \<times> builder) res"
and cb_render_boolean_exprs ::
  "decision_expr list \<Rightarrow> string \<Rightarrow> nat \<Rightarrow> builder \<Rightarrow> (string list \<times> builder) res" where
  "cb_register_aggregate k inner bu =
     (let aggregate_id = bu_next_aggregate_id bu;
          bu1 = bu\<lparr>bu_next_aggregate_id := Suc aggregate_id\<rparr>
      in rbind (cb_render_boolean_expr inner (loop_name aggregate_id) aggregate_id bu1)
           (\<lambda>(expression, bu2).
         Inr (aggregate_id,
              bu2\<lparr>bu_aggregates := bu_aggregates bu2 @
                [\<lparr>an_aggregate_id = aggregate_id, an_kind = k, an_expression = expression,
                  an_comparison_nodes = bu_comparisons_by_aggregate bu2 aggregate_id\<rparr>]\<rparr>)))"
| "cb_render_boolean_expr (DecisionExpr k c as i) idx_var aggregate_id bu =
     (case k of
        KComparison \<Rightarrow>
          (case c of
             None \<Rightarrow> Inl AssertionError
           | Some ce \<Rightarrow>
               (let node_id = bu_next_comparison_id bu;
                    node = \<lparr>cn_node_id = node_id, cn_op = cmp_op ce, cn_left = cmp_left ce,
                            cn_right = cmp_right ce\<rparr>;
                    table = bu_comparisons_by_aggregate bu
                in Inr (''cmp_'' @ show_nat node_id @ ''['' @ idx_var @ ''].out'',
                        bu\<lparr>bu_next_comparison_id := Suc node_id,
                           bu_comparisons_by_aggregate :=
                             table(aggregate_id := table aggregate_id @ [node])\<rparr>)))
      | KAnd \<Rightarrow>
          rbind (cb_render_boolean_exprs as idx_var aggregate_id bu) (\<lambda>(parts, bu').
          Inr (''('' @ py_join '' * '' parts @ '')'', bu'))
      | KOr \<Rightarrow>
          rbind (cb_render_boolean_exprs as idx_var aggregate_id bu) (\<lambda>(parts, bu').
          (case parts of
             [] \<Rightarrow> Inl (OtherError ''IndexError'')
           | part # rest \<Rightarrow> Inr (or_fold part rest, bu')))
      | KNot \<Rightarrow>
          (case i of
             None \<Rightarrow> Inl AssertionError
           | Some e \<Rightarrow>
               rbind (cb_render_boolean_expr e idx_var aggregate_id bu) (\<lambda>(inner, bu').
               Inr (''(1 - ('' @ inner @ ''))'', bu')))
      | _ \<Rightarrow>
          (case i of
             None \<Rightarrow> Inl AssertionError
           | Some e \<Rightarrow>
               rbind (cb_register_aggregate k e bu) (\<lambda>(nested_id, bu').
               Inr (''agg_'' @ show_nat nested_id @ ''_value'', bu'))))"
| "cb_render_boolean_exprs [] idx_var aggregate_id bu = Inr ([], bu)"
| "cb_render_boolean_exprs (e # es) idx_var aggregate_id bu =
     rbind (cb_render_boolean_expr e idx_var aggregate_id bu) (\<lambda>(part, bu').
     rbind (cb_render_boolean_exprs es idx_var aggregate_id bu') (\<lambda>(parts, bu'').
     Inr (part # parts, bu'')))"
  by pat_completeness auto
termination
  by (relation "measure (\<lambda>x. case x of
        Inl (k, e, bu) \<Rightarrow> 2 * size e + 1
      | Inr (Inl (e, v, a, bu)) \<Rightarrow> 2 * size e
      | Inr (Inr (es, v, a, bu)) \<Rightarrow> 2 * size_list size es)") auto

definition build_root :: "expr_kind \<Rightarrow> decision_expr \<Rightarrow> (nat \<times> aggregate_node list) res" where
  "build_root k inner =
     rbind (cb_register_aggregate k inner new_builder) (\<lambda>(root_id, bu). Inr (root_id, bu_aggregates bu))"

section \<open>Rendering the blocks\<close>

fun index_of :: "string \<Rightarrow> string list \<Rightarrow> nat option" where
  "index_of x [] = None"
| "index_of x (y # ys) = (if x = y then Some 0 else map_option Suc (index_of x ys))"

definition unknown_param :: "string \<Rightarrow> pyexc" where
  "unknown_param p = FrameworkError ''policy_spec_unsupported''
     ''Unknown policy parameter in Circom renderer'' [(''param'', PStr p)]"

definition render_circom_value :: "value_ref \<Rightarrow> string \<Rightarrow> string list \<Rightarrow> string res" where
  "render_circom_value v idx_var parameter_order =
     (case vr_const_int v of
        Some c \<Rightarrow> Inr (show_int c)
      | None \<Rightarrow>
          (case vr_param v of
             Some p \<Rightarrow>
               (case index_of p parameter_order of
                  None \<Rightarrow> Inl (unknown_param p)
                | Some k \<Rightarrow> Inr (''policy_params['' @ show_nat k @ '']''))
           | None \<Rightarrow>
               (if vr_ref v = Some ''balances'' then Inr (''balances['' @ idx_var @ '']'')
                else if vr_ref v = Some ''limits'' then Inr (''limits['' @ idx_var @ '']'')
                else if vr_ref v = Some ''active_count'' then Inr ''active_count''
                else case Option.bind (vr_ref v) after_policy_params of
                       Some p \<Rightarrow>
                         (case index_of p parameter_order of
                            None \<Rightarrow> Inl (unknown_param p)
                          | Some k \<Rightarrow> Inr (''policy_params['' @ show_nat k @ '']''))
                     | None \<Rightarrow>
                         Inl (FrameworkError ''policy_spec_unsupported''
                                ''Unsupported value reference in Circom renderer''
                                [(''ref'', case vr_ref v of None \<Rightarrow> PNone | Some r \<Rightarrow> PStr r)]))))"

fun primitive_comparator_template :: "comparison_op \<Rightarrow> string" where
  "primitive_comparator_template OpLt = ''PrimitiveLessThan32()''"
| "primitive_comparator_template OpGt = ''PrimitiveGreaterThan32()''"
| "primitive_comparator_template OpLe = ''PrimitiveLessEqThan32()''"
| "primitive_comparator_template OpGe = ''PrimitiveGreaterEqThan32()''"
| "primitive_comparator_template OpEq = ''PrimitiveEqual()''"

definition sig :: "nat \<Rightarrow> string \<Rightarrow> string" where
  "sig agg_id name = ''agg_'' @ show_nat agg_id @ ''_'' @ name"

definition render_cmp_lines :: "string \<Rightarrow> string list \<Rightarrow> comparison_node \<Rightarrow> string list res" where
  "render_cmp_lines loop_var parameter_order node =
     rbind (render_circom_value (cn_left node) loop_var parameter_order) (\<lambda>left.
     rbind (render_circom_value (cn_right node) loop_var parameter_order) (\<lambda>right.
     let cmp = ''        cmp_'' @ show_nat (cn_node_id node) @ ''['' @ loop_var @ '']''
     in Inr [cmp @ '' = '' @ primitive_comparator_template (cn_op node) @ '';'',
             cmp @ ''.lhs <== '' @ left @ '';'',
             cmp @ ''.rhs <== '' @ right @ '';'']))"

definition decision_lines :: "aggregate_node \<Rightarrow> (string \<times> string \<times> string) res" where
  "decision_lines a =
     (let g = an_aggregate_id a; v = loop_name g;
          valid = sig g ''decision_valid'' @ ''['' @ v @ '']'';
          active = sig g ''is_active'' @ ''['' @ v @ '']'';
          chain = sig g ''chain'' @ ''['' @ v @ '']'';
          chain_next = sig g ''chain'' @ ''['' @ v @ '' + 1]''
      in case an_kind a of
           KAll \<Rightarrow>
             Inr (''1'',
                  ''        '' @ valid @ '' <== ('' @ an_expression a @ '') * '' @ active @
                    '' + (1 - '' @ active @ '');'',
                  ''        '' @ chain_next @ '' <== '' @ chain @ '' * '' @ valid @ '';'')
         | KAny \<Rightarrow>
             Inr (''0'',
                  ''        '' @ valid @ '' <== ('' @ an_expression a @ '') * '' @ active @ '';'',
                  ''        '' @ chain_next @ '' <== '' @ chain @ '' + '' @ valid @ '' - ('' @ chain @
                    '' * '' @ valid @ '');'')
         | k \<Rightarrow> Inl (FrameworkError ''policy_spec_unsupported''
                       ''Unsupported aggregate kind in Circom renderer'' [(''kind'', PStr (kind_text k))]))"

definition zero_tail_lines :: "nat \<Rightarrow> string list" where
  "zero_tail_lines g =
     (let v = loop_name g; active = sig g ''is_active'' @ ''['' @ v @ '']''
      in [''        root_balance_padding['' @ v @ ''] = ZeroPaddingInvariant();'',
          ''        root_balance_padding['' @ v @ ''].value <== balances['' @ v @ ''];'',
          ''        root_balance_padding['' @ v @ ''].is_active <== '' @ active @ '';'',
          ''        root_limit_padding['' @ v @ ''] = ZeroPaddingInvariant();'',
          ''        root_limit_padding['' @ v @ ''].value <== limits['' @ v @ ''];'',
          ''        root_limit_padding['' @ v @ ''].is_active <== '' @ active @ '';''])"

definition render_circom_aggregate_block ::
  "aggregate_node \<Rightarrow> bool \<Rightarrow> string list \<Rightarrow> string res" where
  "render_circom_aggregate_block a include_zero_tail_constraints parameter_order =
     (let g = an_aggregate_id a; v = loop_name g;
          flag = sig g ''active_flag'' @ ''['' @ v @ '']''
      in rbind (decision_lines a) (\<lambda>(chain_init, decision_assignment, chain_update).
         rbind (rmap (render_cmp_lines v parameter_order) (an_comparison_nodes a)) (\<lambda>cmp_lines.
         Inr (py_join NL
           ([''    '' @ sig g ''chain'' @ ''[0] <== '' @ chain_init @ '';'',
             ''    for (var '' @ v @ '' = 0; '' @ v @ '' < N; '' @ v @ ''++) {'',
             ''        '' @ flag @ '' = ActiveIndexFlag16();'',
             ''        '' @ flag @ ''.active_count <== active_count;'',
             ''        '' @ flag @ ''.index <== '' @ v @ '';'',
             ''        '' @ sig g ''is_active'' @ ''['' @ v @ ''] <== '' @ flag @ ''.is_active;''] @
            concat cmp_lines @
            [decision_assignment] @
            (if include_zero_tail_constraints then zero_tail_lines g else []) @
            [chain_update,
             ''    }'',
             ''    '' @ sig g ''value'' @ '' <== '' @ sig g ''chain'' @ ''[N];''])))))"

definition aggregate_declarations :: "nat \<Rightarrow> aggregate_node \<Rightarrow> string list" where
  "aggregate_declarations root_id a =
     (let g = an_aggregate_id a
      in [''    signal '' @ sig g ''is_active'' @ ''[N];'',
          ''    signal '' @ sig g ''decision_valid'' @ ''[N];'',
          ''    signal '' @ sig g ''chain'' @ ''[N + 1];'',
          ''    signal '' @ sig g ''value'' @ '';'',
          ''    component '' @ sig g ''active_flag'' @ ''[N];''] @
         map (\<lambda>n. ''    component cmp_'' @ show_nat (cn_node_id n) @ ''[N];'') (an_comparison_nodes a) @
         (if g = root_id
          then [''    component root_balance_padding[N];'', ''    component root_limit_padding[N];'']
          else []))"

definition render_output_declarations :: "policy_spec \<Rightarrow> string" where
  "render_output_declarations s =
     py_join NL (map (\<lambda>(name, out). ''    signal output '' @ name @ '';'') (sp_outputs s))"

fun render_output_assignment :: "nat \<Rightarrow> bool \<Rightarrow> string \<times> output_spec \<Rightarrow> string res" where
  "render_output_assignment root_id has_parameters (name, out) =
     (if os_expr out = ''decision''
        then Inr (''    '' @ name @ '' <== '' @ sig root_id ''value'' @ '';'')
      else if os_expr out = ''active_count'' then Inr (''    '' @ name @ '' <== active_count;'')
      else if os_expr out = ''policy_params_hash''
        then (if has_parameters then Inr (''    '' @ name @ '' <== computed_policy_params_hash;'')
              else Inr (''    '' @ name @ '' <== 0;''))
      else Inl (FrameworkError ''policy_spec_unsupported''
                  ''Unsupported output expression in Circom renderer''
                  [(''output'', PStr name), (''expr'', PStr (os_expr out))]))"

definition render_output_assignments :: "policy_spec \<Rightarrow> nat \<Rightarrow> bool \<Rightarrow> string res" where
  "render_output_assignments s root_id has_parameters =
     rbind (rmap (render_output_assignment root_id has_parameters) (sp_outputs s))
       (\<lambda>ls. Inr (py_join NL ls))"

definition parameter_declarations :: "string list \<Rightarrow> string list" where
  "parameter_declarations order =
     (if order = [] then []
      else [''    signal computed_policy_params_hash;'',
            ''    component policy_params_hasher = Poseidon('' @ show_nat (length order) @ '');''])"

definition parameter_inputs :: "string list \<Rightarrow> string" where
  "parameter_inputs order =
     (if order = [] then []
      else ''    signal input policy_params['' @ show_nat (length order) @ ''];'' @ NL @
           ''    signal input expected_policy_params_hash;'' @ NL)"

definition parameter_constraints :: "string list \<Rightarrow> string" where
  "parameter_constraints order =
     (if order = [] then []
      else ''    for (var p = 0; p < '' @ show_nat (length order) @ ''; p++) {'' @ NL @
           ''        policy_params_hasher.inputs[p] <== policy_params[p];'' @ NL @
           ''    }'' @ NL @
           ''    computed_policy_params_hash <== policy_params_hasher.out;'' @ NL @
           ''    computed_policy_params_hash === expected_policy_params_hash;'' @ NL)"

definition render_circom_source :: "policy_spec \<Rightarrow> string \<Rightarrow> string res" where
  "render_circom_source s spec_hash =
     (let order = map fst (sp_policy_parameters s)
      in case de_inner (sp_decision s) of
           None \<Rightarrow> Inl AssertionError
         | Some inner \<Rightarrow>
             rbind (build_root (de_kind (sp_decision s)) inner) (\<lambda>(root_id, aggregates).
             rbind (rmap (\<lambda>a. render_circom_aggregate_block a (an_aggregate_id a = root_id) order)
                      aggregates) (\<lambda>blocks.
             rbind (render_output_assignments s root_id (order \<noteq> [])) (\<lambda>output_assignments.
             Inr (py_join NL
               [''// Generated by vellum-compiler '' @ sp_compiler_version s @ ''; do not edit manually.'',
                ''// policy_id='' @ sp_policy_id s,
                ''// spec_hash='' @ spec_hash,
                ''pragma circom 2.1.8;'',
                [],
                ''include '' @ DQ @ ''../../../circuits/library/banking_library.circom'' @ DQ @ '';'',
                [],
                ''template GeneratedLendingRisk(N) {'',
                ''    signal input limits[N];'',
                ''    signal input active_count;'',
                ''    signal input balances[N];'',
                parameter_inputs order,
                render_output_declarations s,
                [],
                ''    component active_count_bounds = ActiveCountBounds(N);'',
                py_join NL (concat (map (aggregate_declarations root_id) aggregates) @
                            parameter_declarations order),
                [],
                ''    active_count_bounds.active_count <== active_count;'',
                parameter_constraints order,
                py_join (NL @ NL) blocks,
                [],
                output_assignments,
                ''}'',
                [],
                ''component main {public [limits, active_count'' @
                  (if order = [] then [] else '', policy_params, expected_policy_params_hash'') @
                  '']} = GeneratedLendingRisk('' @ show_nat (sp_batch_size s) @ '');'',
                []])))))"

section \<open>The same output as trees\<close>

datatype cexpr =
    CCmp nat nat
  | CProd "cexpr list"
  | COr cexpr cexpr
  | CNot cexpr
  | CAgg nat

fun show_cexpr :: "cexpr \<Rightarrow> string" where
  "show_cexpr (CCmp k g) = ''cmp_'' @ show_nat k @ ''['' @ loop_name g @ ''].out''"
| "show_cexpr (CProd es) = ''('' @ py_join '' * '' (map show_cexpr es) @ '')''"
| "show_cexpr (COr a b) =
     ''('' @ show_cexpr a @ '' + '' @ show_cexpr b @ '' - ('' @ show_cexpr a @ '' * '' @ show_cexpr b @ ''))''"
| "show_cexpr (CNot e) = ''(1 - ('' @ show_cexpr e @ ''))''"
| "show_cexpr (CAgg g) = ''agg_'' @ show_nat g @ ''_value''"

record circ_cmp =
  cc_id :: nat
  cc_op :: comparison_op
  cc_left :: vexp
  cc_right :: vexp

record circ_aggregate =
  ca_id :: nat
  ca_all :: bool
  ca_expr :: cexpr
  ca_cmps :: "circ_cmp list"

text \<open>
  The trees are numbered as the builder numbers them: the state is the pair of counters; one pass
  returns the tree of the expression, the comparisons of the current aggregate and the nested
  aggregates it finished, in the order they are emitted.
\<close>

fun circ_of_bexp ::
  "bexp \<Rightarrow> nat \<Rightarrow> nat \<times> nat \<Rightarrow> cexpr \<times> circ_cmp list \<times> circ_aggregate list \<times> (nat \<times> nat)"
and circ_of_bexps ::
  "bexp list \<Rightarrow> nat \<Rightarrow> nat \<times> nat \<Rightarrow> cexpr list \<times> circ_cmp list \<times> circ_aggregate list \<times> (nat \<times> nat)"
where
  "circ_of_bexp (BCmp op a b) g (na, nc) =
     (CCmp nc g, [\<lparr>cc_id = nc, cc_op = op, cc_left = a, cc_right = b\<rparr>], [], (na, Suc nc))"
| "circ_of_bexp (BAnd bs) g n =
     (let (es, cs, ags, n') = circ_of_bexps bs g n in (CProd es, cs, ags, n'))"
| "circ_of_bexp (BOr bs) g n =
     (let (es, cs, ags, n') = circ_of_bexps bs g n in (foldl COr (hd es) (tl es), cs, ags, n'))"
| "circ_of_bexp (BNot b) g n =
     (let (e, cs, ags, n') = circ_of_bexp b g n in (CNot e, cs, ags, n'))"
| "circ_of_bexp (BAll b) g (na, nc) =
     (let (e, cs, ags, n') = circ_of_bexp b na (Suc na, nc)
      in (CAgg na, [], ags @ [\<lparr>ca_id = na, ca_all = True, ca_expr = e, ca_cmps = cs\<rparr>], n'))"
| "circ_of_bexp (BAny b) g (na, nc) =
     (let (e, cs, ags, n') = circ_of_bexp b na (Suc na, nc)
      in (CAgg na, [], ags @ [\<lparr>ca_id = na, ca_all = False, ca_expr = e, ca_cmps = cs\<rparr>], n'))"
| "circ_of_bexps [] g n = ([], [], [], n)"
| "circ_of_bexps (b # bs) g n =
     (let (e, cs, ags, n') = circ_of_bexp b g n; (es, cs', ags', n'') = circ_of_bexps bs g n'
      in (e # es, cs @ cs', ags @ ags', n''))"


section \<open>The builder prints the trees\<close>

definition cmp_rel :: "comparison_node \<Rightarrow> circ_cmp \<Rightarrow> bool" where
  "cmp_rel n c = (cn_node_id n = cc_id c \<and> cn_op n = cc_op c \<and>
     abs_value (cn_left n) = Some (cc_left c) \<and> abs_value (cn_right n) = Some (cc_right c))"

definition agg_rel :: "aggregate_node \<Rightarrow> circ_aggregate \<Rightarrow> bool" where
  "agg_rel a c = (an_aggregate_id a = ca_id c \<and> an_kind a = (if ca_all c then KAll else KAny) \<and>
     an_expression a = show_cexpr (ca_expr c) \<and> list_all2 cmp_rel (an_comparison_nodes a) (ca_cmps c))"

text \<open>
  What one run of the builder at aggregate \<open>g\<close> does to its state: the counters advance as the trees
  say, the comparisons land in the row of \<open>g\<close>, finished aggregates are appended, and rows of other
  open aggregates are untouched.
\<close>

definition builder_step ::
  "builder \<Rightarrow> nat \<Rightarrow> circ_cmp list \<Rightarrow> circ_aggregate list \<Rightarrow> nat \<times> nat \<Rightarrow> builder \<Rightarrow> bool" where
  "builder_step bu g cs ags n bu' =
     (bu_next_aggregate_id bu' = fst n \<and> bu_next_comparison_id bu' = snd n \<and>
      bu_next_aggregate_id bu \<le> fst n \<and>
      (\<exists>nodes. bu_comparisons_by_aggregate bu' g = bu_comparisons_by_aggregate bu g @ nodes \<and>
               list_all2 cmp_rel nodes cs) \<and>
      (\<exists>new. bu_aggregates bu' = bu_aggregates bu @ new \<and> list_all2 agg_rel new ags) \<and>
      (\<forall>j. j < bu_next_aggregate_id bu \<and> j \<noteq> g \<longrightarrow>
           bu_comparisons_by_aggregate bu' j = bu_comparisons_by_aggregate bu j) \<and>
      (\<forall>j. fst n \<le> j \<longrightarrow> bu_comparisons_by_aggregate bu' j = []))"

definition builder_open :: "builder \<Rightarrow> nat \<Rightarrow> bool" where
  "builder_open bu g = (g < bu_next_aggregate_id bu \<and>
     (\<forall>j. bu_next_aggregate_id bu \<le> j \<longrightarrow> bu_comparisons_by_aggregate bu j = []))"

lemma builder_step_open: "builder_open bu g \<Longrightarrow> builder_step bu g cs ags n bu' \<Longrightarrow> builder_open bu' g"
  by (auto simp: builder_open_def builder_step_def)

lemma builder_step_refl: "builder_open bu g \<Longrightarrow>
    builder_step bu g [] [] (bu_next_aggregate_id bu, bu_next_comparison_id bu) bu"
  by (auto simp: builder_open_def builder_step_def)

lemma builder_step_trans:
  assumes "builder_step bu g cs ags n bu1" and "builder_step bu1 g cs' ags' n' bu2"
  shows "builder_step bu g (cs @ cs') (ags @ ags') n' bu2"
proof -
  from assms obtain nodes new nodes' new' where
    "bu_comparisons_by_aggregate bu1 g = bu_comparisons_by_aggregate bu g @ nodes"
    "list_all2 cmp_rel nodes cs"
    "bu_aggregates bu1 = bu_aggregates bu @ new" "list_all2 agg_rel new ags"
    "bu_comparisons_by_aggregate bu2 g = bu_comparisons_by_aggregate bu1 g @ nodes'"
    "list_all2 cmp_rel nodes' cs'"
    "bu_aggregates bu2 = bu_aggregates bu1 @ new'" "list_all2 agg_rel new' ags'"
    unfolding builder_step_def by blast
  then have "\<exists>ns. bu_comparisons_by_aggregate bu2 g = bu_comparisons_by_aggregate bu g @ ns \<and>
      list_all2 cmp_rel ns (cs @ cs')"
    "\<exists>as. bu_aggregates bu2 = bu_aggregates bu @ as \<and> list_all2 agg_rel as (ags @ ags')"
    by (auto intro!: list_all2_appendI)
  with assms show ?thesis unfolding builder_step_def by auto
qed

lemma or_fold_show: "or_fold (show_cexpr e) (map show_cexpr es) = show_cexpr (foldl COr e es)"
  by (induction es arbitrary: e) (auto simp del: append_Cons, metis show_cexpr.simps(3))

text \<open>One aggregate is registered around the run for its inner expression.\<close>

lemma cb_register_step:
  assumes inner: "\<And>bu'. builder_open bu' (bu_next_aggregate_id bu) \<Longrightarrow>
      bu_next_aggregate_id bu' = Suc (bu_next_aggregate_id bu) \<Longrightarrow>
      bu_next_comparison_id bu' = bu_next_comparison_id bu \<Longrightarrow>
      \<exists>bu''. cb_render_boolean_expr e (loop_name (bu_next_aggregate_id bu)) (bu_next_aggregate_id bu) bu' =
               Inr (show_cexpr t, bu'') \<and> builder_step bu' (bu_next_aggregate_id bu) cs ags n bu''"
    and op: "builder_open bu g" and k: "k = (if all then KAll else KAny)"
  shows "\<exists>bu''. cb_register_aggregate k e bu = Inr (bu_next_aggregate_id bu, bu'') \<and>
      builder_step bu g [] (ags @ [\<lparr>ca_id = bu_next_aggregate_id bu, ca_all = all, ca_expr = t,
        ca_cmps = cs\<rparr>]) n bu''"
proof -
  let ?na = "bu_next_aggregate_id bu"
  let ?bu1 = "bu\<lparr>bu_next_aggregate_id := Suc ?na\<rparr>"
  from op have "builder_open ?bu1 ?na" by (auto simp: builder_open_def)
  from inner [OF this] obtain bu2 where
    run: "cb_render_boolean_expr e (loop_name ?na) ?na ?bu1 = Inr (show_cexpr t, bu2)"
    and st: "builder_step ?bu1 ?na cs ags n bu2" by auto
  from st obtain nodes new where nodes:
    "bu_comparisons_by_aggregate bu2 ?na = bu_comparisons_by_aggregate bu ?na @ nodes"
    "list_all2 cmp_rel nodes cs" and new: "bu_aggregates bu2 = bu_aggregates bu @ new"
    "list_all2 agg_rel new ags"
    unfolding builder_step_def by auto
  have fresh: "bu_comparisons_by_aggregate bu ?na = []" using op by (auto simp: builder_open_def)
  let ?bu3 = "bu2\<lparr>bu_aggregates := bu_aggregates bu2 @
      [\<lparr>an_aggregate_id = ?na, an_kind = k, an_expression = show_cexpr t,
        an_comparison_nodes = bu_comparisons_by_aggregate bu2 ?na\<rparr>]\<rparr>"
  have "cb_register_aggregate k e bu = Inr (?na, ?bu3)" using run by (simp add: Let_def)
  moreover have "builder_step bu g [] (ags @ [\<lparr>ca_id = ?na, ca_all = all, ca_expr = t,
        ca_cmps = cs\<rparr>]) n ?bu3"
    using st op nodes new fresh k unfolding builder_step_def builder_open_def
    by (auto simp: agg_rel_def intro!: list_all2_appendI)
  ultimately show ?thesis by blast
qed

lemma cb_render_abs:
  "abs_expr e = Some b \<Longrightarrow> builder_open bu g \<Longrightarrow>
   circ_of_bexp b g (bu_next_aggregate_id bu, bu_next_comparison_id bu) = (t, cs, ags, n) \<Longrightarrow>
   \<exists>bu'. cb_render_boolean_expr e (loop_name g) g bu = Inr (show_cexpr t, bu') \<and>
         builder_step bu g cs ags n bu'"
  "abs_exprs es = Some bs \<Longrightarrow> builder_open bu g \<Longrightarrow>
   circ_of_bexps bs g (bu_next_aggregate_id bu, bu_next_comparison_id bu) = (ts, cs, ags, n) \<Longrightarrow>
   \<exists>bu'. cb_render_boolean_exprs es (loop_name g) g bu = Inr (map show_cexpr ts, bu') \<and>
         builder_step bu g cs ags n bu'"
proof (induction e and es arbitrary: b bu g t cs ags n and bs bu g ts cs ags n
    rule: abs_expr_abs_exprs.induct)
  case (1 k c as i)
  show ?case
  proof (cases k)
    case KComparison
    with 1 obtain ce l r where "c = Some ce" "abs_value (cmp_left ce) = Some l"
      "abs_value (cmp_right ce) = Some r" "b = BCmp (cmp_op ce) l r"
      by (auto simp: abs_comparison_def split: option.splits)
    with KComparison 1 show ?thesis
      by (auto simp: Let_def builder_step_def builder_open_def cmp_rel_def)
  next
    case KAnd
    with 1 obtain bs where bs: "abs_exprs as = Some bs" "b = BAnd bs" by (auto split: if_splits)
    with 1 obtain ts where ts: "t = CProd ts"
      "circ_of_bexps bs g (bu_next_aggregate_id bu, bu_next_comparison_id bu) = (ts, cs, ags, n)"
      by (auto simp: Let_def split: prod.splits)
    from 1(1) [OF KAnd _ bs(1) _ ts(2)] 1 KAnd ts(1) show ?thesis by (auto split: if_splits)
  next
    case KOr
    with 1 obtain bs where bs: "abs_exprs as = Some bs" "b = BOr bs" "as \<noteq> []"
      by (auto split: if_splits)
    with 1 obtain ts where ts: "t = foldl COr (hd ts) (tl ts)"
      "circ_of_bexps bs g (bu_next_aggregate_id bu, bu_next_comparison_id bu) = (ts, cs, ags, n)"
      by (auto simp: Let_def split: prod.splits)
    from bs obtain b' bs' where "bs = b' # bs'" using abs_exprs_Nil_iff by (cases bs) blast+
    with ts(2) obtain t' ts' where tts: "ts = t' # ts'" by (auto simp: Let_def split: prod.splits)
    obtain bu' where "cb_render_boolean_exprs as (loop_name g) g bu = Inr (map show_cexpr ts, bu')"
      "builder_step bu g cs ags n bu'"
      using 1(2) [OF KOr bs(3) bs(1) 1(7) ts(2)] by auto
    with KOr tts ts(1) show ?thesis by (auto simp: or_fold_show)
  next
    case KNot
    with 1 obtain e b' where e: "i = Some e" "abs_expr e = Some b'" "b = BNot b'"
      by (auto split: option.splits)
    with 1 obtain t' where t: "t = CNot t'"
      "circ_of_bexp b' g (bu_next_aggregate_id bu, bu_next_comparison_id bu) = (t', cs, ags, n)"
      by (auto simp: Let_def split: prod.splits)
    obtain bu' where "cb_render_boolean_expr e (loop_name g) g bu = Inr (show_cexpr t', bu')"
      "builder_step bu g cs ags n bu'"
      using 1(3) [OF KNot e(1) e(2) 1(7) t(2)] by auto
    with KNot t(1) e(1) show ?thesis by auto
  next
    case KAll
    with 1 obtain e b' where e: "i = Some e" "abs_expr e = Some b'" "b = BAll b'"
      by (auto split: option.splits)
    let ?na = "bu_next_aggregate_id bu"
    obtain t' cs' ags' where t': "circ_of_bexp b' ?na (Suc ?na, bu_next_comparison_id bu) = (t', cs', ags', n)"
      and t: "t = CAgg ?na" "cs = []"
        "ags = ags' @ [\<lparr>ca_id = ?na, ca_all = True, ca_expr = t', ca_cmps = cs'\<rparr>]"
      using 1(8) e(3) by (auto simp: Let_def split: prod.splits)
    have "\<exists>bu''. cb_register_aggregate KAll e bu = Inr (?na, bu'') \<and> builder_step bu g [] ags n bu''"
      unfolding t(3)
    proof (rule cb_register_step [OF _ 1(7)])
      fix bu' assume "builder_open bu' ?na" "bu_next_aggregate_id bu' = Suc ?na"
        "bu_next_comparison_id bu' = bu_next_comparison_id bu"
      then show "\<exists>bu''. cb_render_boolean_expr e (loop_name ?na) ?na bu' = Inr (show_cexpr t', bu'') \<and>
          builder_step bu' ?na cs' ags' n bu''"
        using 1(4) [OF KAll e(1) e(2), of bu' ?na t' cs' ags' n] t' by simp
    qed simp
    with KAll e(1) t show ?thesis by (auto simp del: cb_register_aggregate.simps)
  next
    case KAny
    with 1 obtain e b' where e: "i = Some e" "abs_expr e = Some b'" "b = BAny b'"
      by (auto split: option.splits)
    let ?na = "bu_next_aggregate_id bu"
    obtain t' cs' ags' where t': "circ_of_bexp b' ?na (Suc ?na, bu_next_comparison_id bu) = (t', cs', ags', n)"
      and t: "t = CAgg ?na" "cs = []"
        "ags = ags' @ [\<lparr>ca_id = ?na, ca_all = False, ca_expr = t', ca_cmps = cs'\<rparr>]"
      using 1(8) e(3) by (auto simp: Let_def split: prod.splits)
    have "\<exists>bu''. cb_register_aggregate KAny e bu = Inr (?na, bu'') \<and> builder_step bu g [] ags n bu''"
      unfolding t(3)
    proof (rule cb_register_step [OF _ 1(7)])
      fix bu' assume "builder_open bu' ?na" "bu_next_aggregate_id bu' = Suc ?na"
        "bu_next_comparison_id bu' = bu_next_comparison_id bu"
      then show "\<exists>bu''. cb_render_boolean_expr e (loop_name ?na) ?na bu' = Inr (show_cexpr t', bu'') \<and>
          builder_step bu' ?na cs' ags' n bu''"
        using 1(5) [OF KAny e(1) e(2), of bu' ?na t' cs' ags' n] t' by simp
    qed simp
    with KAny e(1) t show ?thesis by (auto simp del: cb_register_aggregate.simps)
  qed
next
  case 2
  then show ?case by (auto intro: builder_step_refl)
next
  case (3 e es)
  then obtain b' bs' where b: "abs_expr e = Some b'" "abs_exprs es = Some bs'" "bs = b' # bs'"
    by (auto split: option.splits)
  let ?n0 = "(bu_next_aggregate_id bu, bu_next_comparison_id bu)"
  obtain t1 cs1 ags1 n1 ts2 cs2 ags2 where
    r1: "circ_of_bexp b' g ?n0 = (t1, cs1, ags1, n1)" and
    r2: "circ_of_bexps bs' g n1 = (ts2, cs2, ags2, n)" and
    eq: "ts = t1 # ts2" "cs = cs1 @ cs2" "ags = ags1 @ ags2"
    using 3(5) b(3) by (auto simp: Let_def split: prod.splits)
  obtain bu1 where bu1: "cb_render_boolean_expr e (loop_name g) g bu = Inr (show_cexpr t1, bu1)"
    "builder_step bu g cs1 ags1 n1 bu1"
    using 3(1) [OF b(1) 3(4) r1] by blast
  then have n1: "n1 = (bu_next_aggregate_id bu1, bu_next_comparison_id bu1)"
    by (auto simp: builder_step_def prod_eq_iff)
  from builder_step_open [OF 3(4) bu1(2)] r2 n1 3(2) [OF b(2)] obtain bu2 where
    bu2: "cb_render_boolean_exprs es (loop_name g) g bu1 = Inr (map show_cexpr ts2, bu2)"
    "builder_step bu1 g cs2 ags2 n bu2" by blast
  with bu1 builder_step_trans [OF bu1(2) bu2(2)] eq show ?case by auto
qed

end
