(* ===== verification/Circom_Semantics.thy ===== *)
theory Circom_Semantics
  imports Circom_Renderer "HOL-Library.Monad_Syntax"
begin

text \<open>
  What the generated circuit computes. The templates of
  \<open>circuits/library/banking_library.circom\<close> and the blocks emitted by the Circom renderer are
  executed over the scalar field of BN254: an assignment \<open>a <== e\<close> evaluates \<open>e\<close> in the field, a
  constraint \<open>a === b\<close> that fails makes the run \<open>None\<close> (no witness exists for these inputs), and a
  signal is read only after it was assigned.

  The comparators and the Poseidon hash come from circomlib, which is not part of the repository:
  they are a record of functions, and \<open>circomlib_ok\<close> states how circomlib defines the comparators on
  arbitrary field elements (on operands of at most \<open>n\<close> bits they return the bit of the comparison).

  A run executes the blocks as trees (\<open>circuit_aggregates\<close>). That the renderer emits these trees is
  shown for its builder (\<open>agg_rel\<close>: the number, kind and printed expression of every block); the text of a block is
  not parsed back.

  The theorems show that on a well-formed batch the circuit's decision is the meaning of the
  decision of the specification, hence equal to the decision of the generated Python reference, and
  that a run exists only when the active count is in range and every inactive row is zero.
\<close>

section \<open>The scalar field\<close>

definition field_p :: int where
  "field_p = 21888242871839275222246405745257275088548364400416034343698204186575808495617"

definition fadd :: "int \<Rightarrow> int \<Rightarrow> int" where "fadd a b = (a + b) mod field_p"

definition fsub :: "int \<Rightarrow> int \<Rightarrow> int" where "fsub a b = (a - b) mod field_p"

definition fmul :: "int \<Rightarrow> int \<Rightarrow> int" where "fmul a b = (a * b) mod field_p"

definition b2f :: "bool \<Rightarrow> int" where "b2f b = (if b then 1 else 0)"

section \<open>Templates of the library\<close>

record circomlib =
  lib_less_than :: "nat \<Rightarrow> int \<Rightarrow> int \<Rightarrow> int option"
  lib_greater_than :: "nat \<Rightarrow> int \<Rightarrow> int \<Rightarrow> int option"
  lib_less_eq_than :: "nat \<Rightarrow> int \<Rightarrow> int \<Rightarrow> int option"
  lib_greater_eq_than :: "nat \<Rightarrow> int \<Rightarrow> int \<Rightarrow> int option"
  lib_is_equal :: "int \<Rightarrow> int \<Rightarrow> int option"
  lib_poseidon :: "int list \<Rightarrow> int option"

definition bits :: "nat \<Rightarrow> int \<Rightarrow> bool" where
  "bits n a = (0 \<le> a \<and> a < 2 ^ n)"

definition in_field :: "int \<Rightarrow> bool" where
  "in_field v = (0 \<le> v \<and> v < field_p)"

text \<open>
  The comparators of circomlib on arbitrary field elements. \<open>LessThan(n)\<close> decomposes \<open>a + 2^n - b\<close> into
  \<open>n + 1\<close> bits, which has no solution for a larger field element, and returns the complement of the top
  bit; the other three are \<open>LessThan(n)\<close> on the operands exchanged or increased by one.
\<close>

definition field_less :: "nat \<Rightarrow> int \<Rightarrow> int \<Rightarrow> int option" where
  "field_less n a b =
     (let d = fsub (a + 2 ^ n) b in if d < 2 ^ Suc n then Some (b2f (d < 2 ^ n)) else None)"

definition circomlib_ok :: "circomlib \<Rightarrow> bool" where
  "circomlib_ok L =
     ((\<forall>n a b. n \<le> 32 \<and> in_field a \<and> in_field b \<longrightarrow>
         lib_less_than L n a b = field_less n a b \<and>
         lib_greater_than L n a b = field_less n b a \<and>
         lib_less_eq_than L n a b = field_less n a (fadd b 1) \<and>
         lib_greater_eq_than L n a b = field_less n b (fadd a 1)) \<and>
      (\<forall>a b. in_field a \<and> in_field b \<longrightarrow> lib_is_equal L a b = Some (b2f (a = b))))"

definition assert_eq :: "int \<Rightarrow> int \<Rightarrow> unit option" where
  "assert_eq a b = (if a = b then Some () else None)"

definition active_count_bounds :: "circomlib \<Rightarrow> nat \<Rightarrow> int \<Rightarrow> int option" where
  "active_count_bounds L N active_count =
     do { gt \<leftarrow> lib_greater_than L 16 active_count 0;
          lt \<leftarrow> lib_less_than L 16 active_count (int N + 1);
          let valid = fmul gt lt;
          assert_eq valid 1;
          Some valid }"

definition active_index_flag16 :: "circomlib \<Rightarrow> int \<Rightarrow> int \<Rightarrow> int option" where
  "active_index_flag16 L active_count index =
     do { is_active \<leftarrow> lib_greater_than L 16 active_count index;
          assert_eq (fmul is_active (fsub is_active 1)) 0;
          Some is_active }"

definition zero_padding_invariant :: "int \<Rightarrow> int \<Rightarrow> int option" where
  "zero_padding_invariant v is_active =
     do { assert_eq (fmul is_active (fsub is_active 1)) 0;
          assert_eq (fmul v (fsub 1 is_active)) 0;
          Some 1 }"

fun primitive_comparator :: "circomlib \<Rightarrow> comparison_op \<Rightarrow> int \<Rightarrow> int \<Rightarrow> int option" where
  "primitive_comparator L OpLt lhs rhs = lib_less_than L 32 lhs rhs"
| "primitive_comparator L OpGt lhs rhs = lib_greater_than L 32 lhs rhs"
| "primitive_comparator L OpLe lhs rhs = lib_less_eq_than L 32 lhs rhs"
| "primitive_comparator L OpGe lhs rhs = lib_greater_eq_than L 32 lhs rhs"
| "primitive_comparator L OpEq lhs rhs = lib_is_equal L lhs rhs"

section \<open>Running the generated blocks\<close>

record circuit_input =
  ci_limits :: "int list"
  ci_active_count :: int
  ci_balances :: "int list"
  ci_policy_params :: "int list"
  ci_expected_hash :: int

definition nth_opt :: "'a list \<Rightarrow> nat \<Rightarrow> 'a option" where
  "nth_opt xs i = (if i < length xs then Some (xs ! i) else None)"

fun circuit_value :: "string list \<Rightarrow> circuit_input \<Rightarrow> nat \<Rightarrow> vexp \<Rightarrow> int option" where
  "circuit_value order inp i VBalance = nth_opt (ci_balances inp) i"
| "circuit_value order inp i VLimit = nth_opt (ci_limits inp) i"
| "circuit_value order inp i VActive = Some (ci_active_count inp)"
| "circuit_value order inp i (VParam p) =
     do { k \<leftarrow> index_of p order; nth_opt (ci_policy_params inp) k }"
| "circuit_value order inp i (VConst c) = Some (c mod field_p)"

fun eval_cexpr :: "(nat \<rightharpoonup> int) \<Rightarrow> (nat \<rightharpoonup> int) \<Rightarrow> cexpr \<Rightarrow> int option"
and eval_cprod :: "(nat \<rightharpoonup> int) \<Rightarrow> (nat \<rightharpoonup> int) \<Rightarrow> cexpr list \<Rightarrow> int option" where
  "eval_cexpr K V (CCmp k g) = K k"
| "eval_cexpr K V (CProd es) = eval_cprod K V es"
| "eval_cexpr K V (COr a b) =
     do { x \<leftarrow> eval_cexpr K V a; y \<leftarrow> eval_cexpr K V b; Some (fsub (fadd x y) (fmul x y)) }"
| "eval_cexpr K V (CNot e) = do { x \<leftarrow> eval_cexpr K V e; Some (fsub 1 x) }"
| "eval_cexpr K V (CAgg g) = V g"
| "eval_cprod K V [] = Some 1"
| "eval_cprod K V (e # es) =
     do { x \<leftarrow> eval_cexpr K V e; y \<leftarrow> eval_cprod K V es; Some (fmul x y) }"

fun run_comparisons ::
  "circomlib \<Rightarrow> string list \<Rightarrow> circuit_input \<Rightarrow> nat \<Rightarrow> circ_cmp list \<Rightarrow> (nat \<rightharpoonup> int) \<Rightarrow> (nat \<rightharpoonup> int) option"
where
  "run_comparisons L order inp i [] K = Some K"
| "run_comparisons L order inp i (c # cs) K =
     do { lhs \<leftarrow> circuit_value order inp i (cc_left c);
          rhs \<leftarrow> circuit_value order inp i (cc_right c);
          out \<leftarrow> primitive_comparator L (cc_op c) lhs rhs;
          run_comparisons L order inp i cs (K(cc_id c \<mapsto> out)) }"

definition run_zero_tail :: "circuit_input \<Rightarrow> nat \<Rightarrow> int \<Rightarrow> unit option" where
  "run_zero_tail inp i act =
     do { bal \<leftarrow> nth_opt (ci_balances inp) i; zero_padding_invariant bal act;
          lim \<leftarrow> nth_opt (ci_limits inp) i; zero_padding_invariant lim act; Some () }"

text \<open>One iteration of the loop of a block; the result is the next element of the chain.\<close>

definition run_row ::
  "circomlib \<Rightarrow> string list \<Rightarrow> circuit_input \<Rightarrow> bool \<Rightarrow> circ_aggregate \<Rightarrow> (nat \<rightharpoonup> int) \<Rightarrow> nat \<Rightarrow> int \<Rightarrow>
   int option" where
  "run_row L order inp is_root a V i chain =
     do { act \<leftarrow> active_index_flag16 L (ci_active_count inp) (int i);
          K \<leftarrow> run_comparisons L order inp i (ca_cmps a) Map.empty;
          e \<leftarrow> eval_cexpr K V (ca_expr a);
          let valid = (if ca_all a then fadd (fmul e act) (fsub 1 act) else fmul e act);
          (if is_root then run_zero_tail inp i act else Some ());
          Some (if ca_all a then fmul chain valid
                else fsub (fadd chain valid) (fmul chain valid)) }"

fun run_rows :: "(nat \<Rightarrow> int \<Rightarrow> int option) \<Rightarrow> nat list \<Rightarrow> int \<Rightarrow> int option" where
  "run_rows f [] chain = Some chain"
| "run_rows f (i # is) chain = do { chain' \<leftarrow> f i chain; run_rows f is chain' }"

definition run_aggregate ::
  "circomlib \<Rightarrow> string list \<Rightarrow> circuit_input \<Rightarrow> nat \<Rightarrow> bool \<Rightarrow> circ_aggregate \<Rightarrow> (nat \<rightharpoonup> int) \<Rightarrow> int option"
where
  "run_aggregate L order inp N is_root a V =
     run_rows (run_row L order inp is_root a V) [0..<N] (if ca_all a then 1 else 0)"

fun run_aggregates ::
  "circomlib \<Rightarrow> string list \<Rightarrow> circuit_input \<Rightarrow> nat \<Rightarrow> nat \<Rightarrow> circ_aggregate list \<Rightarrow> (nat \<rightharpoonup> int) \<Rightarrow>
   (nat \<rightharpoonup> int) option" where
  "run_aggregates L order inp N root_id [] V = Some V"
| "run_aggregates L order inp N root_id (a # as) V =
     do { v \<leftarrow> run_aggregate L order inp N (ca_id a = root_id) a V;
          run_aggregates L order inp N root_id as (V(ca_id a \<mapsto> v)) }"

definition run_parameter_hash :: "circomlib \<Rightarrow> string list \<Rightarrow> circuit_input \<Rightarrow> int option" where
  "run_parameter_hash L order inp =
     (if order = [] then Some 0
      else do { h \<leftarrow> lib_poseidon L (ci_policy_params inp); assert_eq h (ci_expected_hash inp); Some h })"

text \<open>The aggregate blocks of a specification whose inner decision denotes \<open>b\<close>; the root has id 0.\<close>

definition circuit_aggregates :: "policy_spec \<Rightarrow> bexp \<Rightarrow> circ_aggregate list" where
  "circuit_aggregates s b = (case circ_of_bexp (spec_decision s b) 0 (0, 0) of (t, cs, ags, n) \<Rightarrow> ags)"

definition output_value :: "int \<Rightarrow> int \<Rightarrow> int \<Rightarrow> output_spec \<Rightarrow> int option" where
  "output_value decision active hash out =
     (if os_expr out = ''decision'' then Some decision
      else if os_expr out = ''active_count'' then Some active
      else if os_expr out = ''policy_params_hash'' then Some hash else None)"

fun output_values :: "int \<Rightarrow> int \<Rightarrow> int \<Rightarrow> (string \<times> output_spec) list \<Rightarrow> (string \<times> int) list option" where
  "output_values d a h [] = Some []"
| "output_values d a h ((name, out) # outs) =
     do { v \<leftarrow> output_value d a h out; vs \<leftarrow> output_values d a h outs; Some ((name, v) # vs) }"

text \<open>The main component: the decision signal and the public outputs.\<close>

definition run_circuit ::
  "circomlib \<Rightarrow> policy_spec \<Rightarrow> bexp \<Rightarrow> circuit_input \<Rightarrow> (int \<times> (string \<times> int) list) option" where
  "run_circuit L s b inp =
     (let order = map fst (sp_policy_parameters s); N = sp_batch_size s
      in do { active_count_bounds L N (ci_active_count inp);
              h \<leftarrow> run_parameter_hash L order inp;
              V \<leftarrow> run_aggregates L order inp N 0 (circuit_aggregates s b) Map.empty;
              d \<leftarrow> V 0;
              outs \<leftarrow> output_values d (ci_active_count inp) h (sp_outputs s);
              Some (d, outs) })"


section \<open>Well-formed inputs\<close>

definition circuit_env :: "string list \<Rightarrow> circuit_input \<Rightarrow> dsl_env" where
  "circuit_env order inp =
     \<lparr>env_balances = (\<lambda>i. ci_balances inp ! i), env_limits = (\<lambda>i. ci_limits inp ! i),
      env_active = nat (ci_active_count inp),
      env_params = (\<lambda>p. case index_of p order of None \<Rightarrow> 0 | Some k \<Rightarrow> ci_policy_params inp ! k)\<rparr>"

definition rows_ok :: "nat \<Rightarrow> circuit_input \<Rightarrow> bool" where
  "rows_ok N inp = (length (ci_balances inp) = N \<and> length (ci_limits inp) = N \<and>
     list_all (bits 32) (ci_balances inp) \<and> list_all (bits 32) (ci_limits inp))"

definition count_ok :: "nat \<Rightarrow> circuit_input \<Rightarrow> bool" where
  "count_ok N inp = (0 < ci_active_count inp \<and> ci_active_count inp \<le> int N)"

definition tail_zero :: "nat \<Rightarrow> circuit_input \<Rightarrow> bool" where
  "tail_zero N inp = list_all (\<lambda>i. ci_balances inp ! i = 0 \<and> ci_limits inp ! i = 0)
     [nat (ci_active_count inp)..<N]"

definition params_ok :: "string list \<Rightarrow> circuit_input \<Rightarrow> bool" where
  "params_ok order inp =
     (length (ci_policy_params inp) = length order \<and> list_all (bits 32) (ci_policy_params inp))"

fun vexp_u32 :: "vexp \<Rightarrow> bool" where
  "vexp_u32 (VConst c) = bits 32 c"
| "vexp_u32 _ = True"

fun bexp_u32 :: "bexp \<Rightarrow> bool" where
  "bexp_u32 (BCmp op a b) = (vexp_u32 a \<and> vexp_u32 b)"
| "bexp_u32 (BAnd bs) = list_all bexp_u32 bs"
| "bexp_u32 (BOr bs) = list_all bexp_u32 bs"
| "bexp_u32 (BNot b) = bexp_u32 b"
| "bexp_u32 (BAll b) = bexp_u32 b"
| "bexp_u32 (BAny b) = bexp_u32 b"

section \<open>Bits in the field\<close>

lemma fmul_b2f [simp]: "fmul (b2f a) (b2f b) = b2f (a \<and> b)"
  by (simp add: fmul_def b2f_def field_p_def)

lemma f_or_b2f [simp]: "fsub (fadd (b2f a) (b2f b)) (b2f (a \<and> b)) = b2f (a \<or> b)"
  by (simp add: fsub_def fadd_def b2f_def field_p_def)

lemma f_not_b2f [simp]: "fsub 1 (b2f a) = b2f (\<not> a)"
  by (simp add: fsub_def b2f_def field_p_def)

lemma f_guard_b2f [simp]: "fadd (b2f (e \<and> a)) (b2f (\<not> a)) = b2f (a \<longrightarrow> e)"
  by (simp add: fadd_def b2f_def field_p_def)

lemma f_bool_b2f [simp]: "fmul (b2f a) (fsub (b2f a) 1) = 0"
  by (simp add: fmul_def fsub_def b2f_def field_p_def)

lemma b2f_eq [simp]: "b2f a = 1 \<longleftrightarrow> a" "b2f a = 0 \<longleftrightarrow> \<not> a" "b2f True = 1" "b2f False = 0"
  by (simp_all add: b2f_def)

lemma assert_eq_Some [simp]: "assert_eq a b = Some u \<longleftrightarrow> a = b"
  by (simp add: assert_eq_def)

lemma assert_eq_refl [simp]: "assert_eq a a = Some ()"
  by (simp add: assert_eq_def)

lemma bits_field: "bits 32 a \<Longrightarrow> 0 \<le> a \<and> a < field_p"
  by (auto simp: bits_def field_p_def)

lemma bits_mono: "bits m a \<Longrightarrow> m \<le> n \<Longrightarrow> bits n a"
  unfolding bits_def by (meson less_le_trans one_le_numeral power_increasing)

lemma fmul_bits32_zero: "bits 32 v \<Longrightarrow> fmul v (b2f a) = 0 \<longleftrightarrow> \<not> a \<or> v = 0"
  by (auto simp: fmul_def b2f_def bits_def field_p_def)

lemma power32: "n \<le> 32 \<Longrightarrow> (2::int) ^ n \<le> 2 ^ 32"
  by (rule power_increasing) simp_all

lemma field_less_le: "n \<le> 32 \<Longrightarrow> bits n a \<Longrightarrow> 0 \<le> b \<Longrightarrow> b \<le> 2 ^ n \<Longrightarrow> field_less n a b = Some (b2f (a < b))"
  using power32 [of n] by (simp add: field_less_def fsub_def bits_def field_p_def Let_def)

lemma bits_in_field: "n \<le> 32 \<Longrightarrow> bits n a \<Longrightarrow> in_field a \<and> in_field (a + 1) \<and> fadd a 1 = a + 1"
  using power32 [of n] by (simp add: bits_def in_field_def field_p_def fadd_def)

text \<open>On operands of at most \<open>n\<close> bits the comparators compare.\<close>

lemma comparators_compare:
  assumes "circomlib_ok L" "n \<le> 32" "bits n a" "bits n b"
  shows "lib_less_than L n a b = Some (b2f (a < b))" "lib_greater_than L n a b = Some (b2f (a > b))"
    "lib_less_eq_than L n a b = Some (b2f (a \<le> b))" "lib_greater_eq_than L n a b = Some (b2f (a \<ge> b))"
proof -
  note f = bits_in_field [OF assms(2,3)] bits_in_field [OF assms(2,4)]
  have r: "0 \<le> a" "a < 2 ^ n" "0 \<le> b" "b < 2 ^ n" using assms(3,4) by (simp_all add: bits_def)
  then have "a \<le> b \<longleftrightarrow> a < b + 1" "b \<le> a \<longleftrightarrow> b < a + 1" by simp_all
  with assms f r show "lib_less_than L n a b = Some (b2f (a < b))" "lib_greater_than L n a b = Some (b2f (a > b))"
    "lib_less_eq_than L n a b = Some (b2f (a \<le> b))" "lib_greater_eq_than L n a b = Some (b2f (a \<ge> b))"
    by (simp_all add: circomlib_ok_def field_less_le)
qed

lemma primitive_comparator_ok:
  assumes "circomlib_ok L" "bits 32 a" "bits 32 b"
  shows "primitive_comparator L op a b = Some (b2f (op_eval op a b))"
proof (cases op)
  case OpEq
  with assms(1) bits_in_field [OF _ assms(2)] bits_in_field [OF _ assms(3)] show ?thesis by (simp add: circomlib_ok_def)
qed (simp_all add: comparators_compare [OF assms(1) _ assms(2,3)])

section \<open>One row, one aggregate\<close>

lemma index_of_lt: "index_of p xs = Some k \<Longrightarrow> k < length xs"
  by (induction xs arbitrary: k) (auto split: if_splits)

lemma index_of_mem: "p \<in> set xs \<Longrightarrow> \<exists>k. index_of p xs = Some k"
  by (induction xs) auto

lemma circuit_value_ok:
  assumes "rows_ok N inp" "count_ok N inp" "params_ok order inp" "N + 1 < 2 ^ 16" "i < N"
    "vexp_ok (set order) x" "vexp_u32 x"
  shows "circuit_value order inp i x = Some (veval (circuit_env order inp) i x) \<and>
         bits 32 (veval (circuit_env order inp) i x)"
proof (cases x)
  case VActive
  with assms show ?thesis by (auto simp: circuit_env_def count_ok_def bits_def)
next
  case (VParam p)
  with assms obtain k where "index_of p order = Some k" using index_of_mem by fastforce
  moreover then have "k < length order" by (rule index_of_lt)
  ultimately show ?thesis using VParam assms
    by (auto simp: circuit_env_def params_ok_def nth_opt_def list_all_length)
next
  case (VConst c)
  with assms bits_field [of c] show ?thesis by (auto simp: circuit_env_def)
qed (use assms in \<open>auto simp: rows_ok_def circuit_env_def nth_opt_def list_all_length\<close>)

text \<open>The comparisons of one row write the bit of each comparison under its number.\<close>

definition cmp_value :: "dsl_env \<Rightarrow> nat \<Rightarrow> circ_cmp \<Rightarrow> bool" where
  "cmp_value env i c = op_eval (cc_op c) (veval env i (cc_left c)) (veval env i (cc_right c))"

definition cmp_fits :: "string set \<Rightarrow> circ_cmp \<Rightarrow> bool" where
  "cmp_fits names c = (vexp_ok names (cc_left c) \<and> vexp_ok names (cc_right c) \<and>
     vexp_u32 (cc_left c) \<and> vexp_u32 (cc_right c))"

lemma run_comparisons_ok:
  assumes "circomlib_ok L" "rows_ok N inp" "count_ok N inp" "params_ok order inp" "N + 1 < 2 ^ 16" "i < N"
    "list_all (cmp_fits (set order)) cs" "distinct (map cc_id cs)"
  shows "\<exists>K'. run_comparisons L order inp i cs K = Some K' \<and>
     (\<forall>c \<in> set cs. K' (cc_id c) = Some (b2f (cmp_value (circuit_env order inp) i c))) \<and>
     (\<forall>k. k \<notin> set (map cc_id cs) \<longrightarrow> K' k = K k)"
  using assms(7,8)
proof (induction cs arbitrary: K)
  case (Cons c cs)
  let ?env = "circuit_env order inp"
  have "primitive_comparator L (cc_op c) (veval ?env i (cc_left c)) (veval ?env i (cc_right c)) =
      Some (b2f (cmp_value ?env i c))"
    using Cons.prems primitive_comparator_ok [OF assms(1)] circuit_value_ok [OF assms(2-6)]
    by (simp add: cmp_fits_def cmp_value_def)
  then have "run_comparisons L order inp i (c # cs) K =
      run_comparisons L order inp i cs (K(cc_id c \<mapsto> b2f (cmp_value ?env i c)))"
    using Cons.prems circuit_value_ok [OF assms(2-6)] by (simp add: cmp_fits_def)
  with Cons.IH [of "K(cc_id c \<mapsto> b2f (cmp_value ?env i c))"] Cons.prems show ?case by fastforce
qed simp

lemma active_flag_ok:
  assumes "circomlib_ok L" "count_ok N inp" "N + 1 < 2 ^ 16" "i < N"
  shows "active_index_flag16 L (ci_active_count inp) (int i) =
         Some (b2f (i < nat (ci_active_count inp)))"
proof -
  have "bits 16 (ci_active_count inp)" "bits 16 (int i)"
    using assms by (auto simp: count_ok_def bits_def)
  then have "lib_greater_than L 16 (ci_active_count inp) (int i) = Some (b2f (int i < ci_active_count inp))"
    using comparators_compare [OF assms(1), of 16] by simp
  moreover have "(int i < ci_active_count inp) = (i < nat (ci_active_count inp))" by linarith
  ultimately show ?thesis by (simp add: active_index_flag16_def)
qed

lemma zero_padding_ok: "bits 32 v \<Longrightarrow>
   zero_padding_invariant v (b2f a) = (if a \<or> v = 0 then Some 1 else None)"
  by (auto simp: zero_padding_invariant_def assert_eq_def fmul_bits32_zero)

lemma run_zero_tail_ok:
  assumes "rows_ok N inp" "i < N"
  shows "run_zero_tail inp i (b2f a) =
     (if a \<or> (ci_balances inp ! i = 0 \<and> ci_limits inp ! i = 0) then Some () else None)"
  using assms
  by (auto simp: run_zero_tail_def rows_ok_def nth_opt_def list_all_length zero_padding_ok)

text \<open>The chain of a block is the conjunction or disjunction of its rows.\<close>

lemma run_rows_all:
  "(\<And>i c. i \<in> set is \<Longrightarrow> f i (b2f c) = Some (b2f (c \<and> g i))) \<Longrightarrow>
   run_rows f is (b2f c) = Some (b2f (c \<and> list_all g is))"
  by (induction "is" arbitrary: c) (auto simp: conj_assoc)

lemma run_rows_any:
  "(\<And>i c. i \<in> set is \<Longrightarrow> f i (b2f c) = Some (b2f (c \<or> g i))) \<Longrightarrow>
   run_rows f is (b2f c) = Some (b2f (c \<or> list_ex g is))"
  by (induction "is" arbitrary: c) (auto simp: disj_assoc)


lemma list_all_active: "n \<le> N \<Longrightarrow> list_all (\<lambda>i. i < n \<longrightarrow> g i) [0..<N] = list_all g [0..<n]"
  by (auto simp: list_all_iff)

lemma list_ex_active: "n \<le> N \<Longrightarrow> list_ex (\<lambda>i. i < n \<and> g i) [0..<N] = list_ex g [0..<n]"
  by (auto simp: list_ex_iff)

definition fitting ::
  "circomlib \<Rightarrow> nat \<Rightarrow> string list \<Rightarrow> circuit_input \<Rightarrow> bool" where
  "fitting L N order inp = (circomlib_ok L \<and> rows_ok N inp \<and> count_ok N inp \<and> params_ok order inp \<and>
     N + 1 < 2 ^ 16)"

definition expr_value ::
  "dsl_env \<Rightarrow> nat \<Rightarrow> circ_cmp list \<Rightarrow> (nat \<rightharpoonup> int) \<Rightarrow> cexpr \<Rightarrow> bool \<Rightarrow> bool" where
  "expr_value env i cs V t v =
     (\<forall>K. (\<forall>c \<in> set cs. K (cc_id c) = Some (b2f (cmp_value env i c))) \<longrightarrow> eval_cexpr K V t = Some (b2f v))"

lemma run_row_ok:
  assumes fit: "fitting L N order inp" and i: "i < N"
    and cs: "list_all (cmp_fits (set order)) (ca_cmps a)" "distinct (map cc_id (ca_cmps a))"
    and ev: "expr_value (circuit_env order inp) i (ca_cmps a) V (ca_expr a) v"
    and root: "is_root \<Longrightarrow> nat (ci_active_count inp) \<le> i \<Longrightarrow>
                 ci_balances inp ! i = 0 \<and> ci_limits inp ! i = 0"
  shows "run_row L order inp is_root a V i (b2f c) =
     Some (b2f (if ca_all a then c \<and> (i < nat (ci_active_count inp) \<longrightarrow> v)
                else c \<or> (i < nat (ci_active_count inp) \<and> v)))"
proof -
  from fit have f: "circomlib_ok L" "rows_ok N inp" "count_ok N inp" "params_ok order inp" "N + 1 < 2 ^ 16"
    by (simp_all add: fitting_def)
  from run_comparisons_ok [OF f i cs, of Map.empty] obtain K where
    "run_comparisons L order inp i (ca_cmps a) Map.empty = Some K"
    "\<forall>c \<in> set (ca_cmps a). K (cc_id c) = Some (b2f (cmp_value (circuit_env order inp) i c))" by auto
  with ev have "run_comparisons L order inp i (ca_cmps a) Map.empty = Some K"
    "eval_cexpr K V (ca_expr a) = Some (b2f v)" by (auto simp: expr_value_def)
  with active_flag_ok [OF f(1,3,5) i] run_zero_tail_ok [OF f(2) i] root show ?thesis
    by (auto simp: run_row_def Let_def conj_commute)
qed

lemma run_aggregate_ok:
  assumes fit: "fitting L N order inp"
    and cs: "list_all (cmp_fits (set order)) (ca_cmps a)" "distinct (map cc_id (ca_cmps a))"
    and ev: "\<And>i. i < N \<Longrightarrow> expr_value (circuit_env order inp) i (ca_cmps a) V (ca_expr a) (g i)"
    and root: "is_root \<Longrightarrow> tail_zero N inp"
  shows "run_aggregate L order inp N is_root a V =
     Some (b2f (if ca_all a then list_all g [0..<env_active (circuit_env order inp)]
                else list_ex g [0..<env_active (circuit_env order inp)]))"
proof -
  let ?n = "nat (ci_active_count inp)"
  have n: "env_active (circuit_env order inp) = ?n" by (simp add: circuit_env_def)
  have nN: "?n \<le> N" using fit by (auto simp: fitting_def count_ok_def)
  have row: "run_row L order inp is_root a V i (b2f c) =
      Some (b2f (if ca_all a then c \<and> (i < ?n \<longrightarrow> g i) else c \<or> (i < ?n \<and> g i)))"
    if "i \<in> set [0..<N]" for i c
    using that root by (intro run_row_ok [OF fit _ cs ev]) (auto simp: tail_zero_def list_all_iff)
  show ?thesis
  proof (cases "ca_all a")
    case True
    from run_rows_all [of "[0..<N]" "run_row L order inp is_root a V" "\<lambda>i. i < ?n \<longrightarrow> g i" True] row True
    show ?thesis by (simp add: run_aggregate_def n list_all_active [OF nN])
  next
    case False
    from run_rows_any [of "[0..<N]" "run_row L order inp is_root a V" "\<lambda>i. i < ?n \<and> g i" False] row False
    show ?thesis by (simp add: run_aggregate_def n list_ex_active [OF nN])
  qed
qed

section \<open>The blocks of an expression\<close>

lemma run_aggregates_append:
  "run_aggregates L order inp N r (as @ bs) V =
     do { V' \<leftarrow> run_aggregates L order inp N r as V; run_aggregates L order inp N r bs V' }"
  by (induction as arbitrary: V) (auto simp: Option.bind_assoc)

text \<open>
  The numbers of a pass: the comparisons are numbered consecutively within the pass, and the
  aggregates take numbers from the interval the pass consumes.
\<close>

definition pass_numbers ::
  "nat \<times> nat \<Rightarrow> circ_cmp list \<Rightarrow> circ_aggregate list \<Rightarrow> nat \<times> nat \<Rightarrow> bool" where
  "pass_numbers n cs ags n' =
     (fst n \<le> fst n' \<and> snd n \<le> snd n' \<and> (\<forall>c \<in> set cs. snd n \<le> cc_id c \<and> cc_id c < snd n') \<and>
      distinct (map cc_id cs) \<and> (\<forall>a \<in> set ags. fst n \<le> ca_id a \<and> ca_id a < fst n'))"

lemma pass_numbers_append:
  assumes "pass_numbers n cs ags n'" and "pass_numbers n' cs' ags' n''"
  shows "pass_numbers n (cs @ cs') (ags @ ags') n''"
proof -
  have "set (map cc_id cs) \<inter> set (map cc_id cs') = {}"
    using assms by (force simp: pass_numbers_def)
  with assms show ?thesis by (fastforce simp: pass_numbers_def)
qed

lemma circ_numbers:
  "circ_of_bexp b g n = (t, cs, ags, n') \<Longrightarrow> pass_numbers n cs ags n'"
  "circ_of_bexps bs g n = (ts, cs, ags, n') \<Longrightarrow> pass_numbers n cs ags n'"
proof (induction b g n and bs g n arbitrary: t cs ags n' and ts cs ags n'
    rule: circ_of_bexp_circ_of_bexps.induct)
  case (8 b bs g n)
  then show ?case by (auto simp: Let_def split: prod.splits intro: pass_numbers_append)
qed (fastforce simp: Let_def pass_numbers_def split: prod.splits)+

text \<open>What the comparisons of an expression need of the values they read.\<close>

lemma circ_cmps_fit:
  "circ_of_bexp b g n = (t, cs, ags, n') \<Longrightarrow> bexp_ok names b \<Longrightarrow> bexp_u32 b \<Longrightarrow>
     list_all (cmp_fits names) cs"
  "circ_of_bexps bs g n = (ts, cs, ags, n') \<Longrightarrow> list_all (bexp_ok names) bs \<Longrightarrow> list_all bexp_u32 bs \<Longrightarrow>
     list_all (cmp_fits names) cs"
proof (induction b g n and bs g n arbitrary: t cs ags n' and ts cs ags n'
    rule: circ_of_bexp_circ_of_bexps.induct)
  case (8 b bs g n)
  then show ?case by (auto simp: Let_def split: prod.splits)
qed (auto simp: Let_def cmp_fits_def split: prod.splits)

text \<open>Expressions only read the comparisons of their pass and the aggregates of their pass.\<close>

definition agree_on :: "nat \<times> nat \<Rightarrow> nat \<times> nat \<Rightarrow> (nat \<rightharpoonup> int) \<Rightarrow> (nat \<rightharpoonup> int) \<Rightarrow> bool" where
  "agree_on n n' V V' = (\<forall>j. fst n \<le> j \<and> j < fst n' \<longrightarrow> V j = V' j)"

definition untouched :: "nat \<times> nat \<Rightarrow> nat \<times> nat \<Rightarrow> (nat \<rightharpoonup> int) \<Rightarrow> (nat \<rightharpoonup> int) \<Rightarrow> bool" where
  "untouched n n' V V' = (\<forall>j. j < fst n \<or> fst n' \<le> j \<longrightarrow> V' j = V j)"

lemma eval_or_fold:
  assumes "eval_cexpr K V t = Some (b2f v)" "list_all2 (\<lambda>t v. eval_cexpr K V t = Some (b2f v)) ts vs"
  shows "eval_cexpr K V (foldl COr t ts) = Some (b2f (v \<or> list_ex id vs))"
  using assms(2,1)
proof (induction ts vs arbitrary: t v rule: list_all2_induct)
  case (Cons t' ts v' vs)
  then have "eval_cexpr K V (COr t t') = Some (b2f (v \<or> v'))" by simp
  from Cons.IH [OF this] show ?case by (simp add: disj_assoc)
qed simp

lemma eval_cprod_ok:
  "list_all2 (\<lambda>t v. eval_cexpr K V t = Some (b2f v)) ts vs \<Longrightarrow>
   eval_cprod K V ts = Some (b2f (list_all id vs))"
  by (induction ts vs rule: list_all2_induct) auto

text \<open>
  One pass, executed: the nested blocks run without a failing constraint, and afterwards the tree of
  the expression evaluates at every row to the meaning of the expression there.
\<close>

definition pass_ok ::
  "circomlib \<Rightarrow> string list \<Rightarrow> circuit_input \<Rightarrow> nat \<Rightarrow> nat \<Rightarrow> nat \<times> nat \<Rightarrow> nat \<times> nat \<Rightarrow>
   circ_cmp list \<Rightarrow> circ_aggregate list \<Rightarrow> cexpr list \<Rightarrow> bexp list \<Rightarrow> bool" where
  "pass_ok L order inp N r n n' cs ags ts bs =
     (\<forall>V. \<exists>V'. run_aggregates L order inp N r ags V = Some V' \<and> untouched n n' V V' \<and>
        (\<forall>i < N. \<forall>V''. agree_on n n' V' V'' \<longrightarrow>
           list_all2 (\<lambda>t b. expr_value (circuit_env order inp) i cs V'' t
             (beval (circuit_env order inp) i b)) ts bs))"

lemma pass_ok_Cons:
  assumes p1: "pass_ok L order inp N r n n1 cs ags [t] [b]"
    and p2: "pass_ok L order inp N r n1 n' cs' ags' ts bs"
    and le: "fst n \<le> fst n1" "fst n1 \<le> fst n'"
  shows "pass_ok L order inp N r n n' (cs @ cs') (ags @ ags') (t # ts) (b # bs)"
  unfolding pass_ok_def
proof
  fix V
  let ?env = "circuit_env order inp"
  from p1 obtain V1 where V1: "run_aggregates L order inp N r ags V = Some V1" "untouched n n1 V V1"
    "\<forall>i < N. \<forall>V''. agree_on n n1 V1 V'' \<longrightarrow> expr_value ?env i cs V'' t (beval ?env i b)"
    unfolding pass_ok_def by (metis list_all2_Cons)
  from p2 obtain V2 where V2: "run_aggregates L order inp N r ags' V1 = Some V2" "untouched n1 n' V1 V2"
    "\<forall>i < N. \<forall>V''. agree_on n1 n' V2 V'' \<longrightarrow>
       list_all2 (\<lambda>t b. expr_value ?env i cs' V'' t (beval ?env i b)) ts bs"
    unfolding pass_ok_def by metis
  have "untouched n n' V V2" using V1(2) V2(2) le by (auto simp: untouched_def)
  moreover have "expr_value ?env i (cs @ cs') V'' t (beval ?env i b) \<and>
      list_all2 (\<lambda>t b. expr_value ?env i (cs @ cs') V'' t (beval ?env i b)) ts bs"
    if "i < N" "agree_on n n' V2 V''" for i V''
  proof -
    have "agree_on n n1 V1 V''" "agree_on n1 n' V2 V''"
      using that(2) V2(2) le by (auto simp: agree_on_def untouched_def)
    with V1(3) V2(3) that(1) have "expr_value ?env i cs V'' t (beval ?env i b)"
      "list_all2 (\<lambda>t b. expr_value ?env i cs' V'' t (beval ?env i b)) ts bs" by blast+
    then show ?thesis by (auto simp: expr_value_def elim!: list_all2_mono)
  qed
  ultimately show "\<exists>V'. run_aggregates L order inp N r (ags @ ags') V = Some V' \<and> untouched n n' V V' \<and>
      (\<forall>i < N. \<forall>V''. agree_on n n' V' V'' \<longrightarrow>
         list_all2 (\<lambda>t b. expr_value ?env i (cs @ cs') V'' t (beval ?env i b)) (t # ts) (b # bs))"
    using V1(1) V2(1) by (auto simp: run_aggregates_append)
qed


lemma pass_ok_agg:
  assumes fit: "fitting L N order inp" and tz: "tail_zero N inp"
    and p: "pass_ok L order inp N r (Suc na, nc) n' cs ags [t] [b]"
    and nums: "pass_numbers (Suc na, nc) cs ags n'" and fits: "list_all (cmp_fits (set order)) cs"
  shows "pass_ok L order inp N r (na, nc) n' []
      (ags @ [\<lparr>ca_id = na, ca_all = all, ca_expr = t, ca_cmps = cs\<rparr>]) [CAgg na]
      [if all then BAll b else BAny b]"
  unfolding pass_ok_def
proof
  fix V
  let ?env = "circuit_env order inp"
  let ?a = "\<lparr>ca_id = na, ca_all = all, ca_expr = t, ca_cmps = cs\<rparr>"
  let ?v = "if all then list_all (\<lambda>i. beval ?env i b) [0..<env_active ?env]
            else list_ex (\<lambda>i. beval ?env i b) [0..<env_active ?env]"
  from p obtain V1 where V1: "run_aggregates L order inp N r ags V = Some V1"
    "untouched (Suc na, nc) n' V V1"
    "\<forall>i < N. \<forall>V''. agree_on (Suc na, nc) n' V1 V'' \<longrightarrow> expr_value ?env i cs V'' t (beval ?env i b)"
    unfolding pass_ok_def by (metis list_all2_Cons)
  then have "\<And>i. i < N \<Longrightarrow> expr_value ?env i (ca_cmps ?a) V1 (ca_expr ?a) (beval ?env i b)"
    by (auto simp: agree_on_def)
  from run_aggregate_ok [OF fit _ _ this, of "na = r"] fits nums tz
  have run: "run_aggregate L order inp N (ca_id ?a = r) ?a V1 = Some (b2f ?v)"
    by (simp add: pass_numbers_def)
  have "run_aggregates L order inp N r (ags @ [?a]) V = Some (V1(na \<mapsto> b2f ?v))"
    using V1(1) run by (simp add: run_aggregates_append)
  moreover have "untouched (na, nc) n' V (V1(na \<mapsto> b2f ?v))"
    using V1(2) nums by (auto simp: untouched_def pass_numbers_def)
  moreover have "expr_value ?env i [] V'' (CAgg na) (beval ?env i (if all then BAll b else BAny b))"
    if "agree_on (na, nc) n' (V1(na \<mapsto> b2f ?v)) V''" for i V''
  proof -
    have "V'' na = Some (b2f ?v)" using that nums by (auto simp: agree_on_def pass_numbers_def)
    then show ?thesis by (simp add: expr_value_def)
  qed
  ultimately show "\<exists>V'. run_aggregates L order inp N r (ags @ [?a]) V = Some V' \<and>
      untouched (na, nc) n' V V' \<and>
      (\<forall>i < N. \<forall>V''. agree_on (na, nc) n' V' V'' \<longrightarrow>
         list_all2 (\<lambda>t b. expr_value ?env i [] V'' t (beval ?env i b)) [CAgg na]
           [if all then BAll b else BAny b])"
    by auto
qed

text \<open>Conjunction, disjunction and negation read the values of their parts.\<close>

lemma pass_ok_combine:
  assumes "pass_ok L order inp N r n n' cs ags ts bs"
    and "\<And>i K V. list_all2 (\<lambda>t b. eval_cexpr K V t = Some (b2f (beval (circuit_env order inp) i b))) ts bs \<Longrightarrow>
           eval_cexpr K V t = Some (b2f (beval (circuit_env order inp) i b))"
  shows "pass_ok L order inp N r n n' cs ags [t] [b]"
  unfolding pass_ok_def
proof
  fix V
  let ?env = "circuit_env order inp"
  from assms(1) obtain V' where V': "run_aggregates L order inp N r ags V = Some V'" "untouched n n' V V'"
    "\<forall>i < N. \<forall>V''. agree_on n n' V' V'' \<longrightarrow>
       list_all2 (\<lambda>t b. expr_value ?env i cs V'' t (beval ?env i b)) ts bs"
    unfolding pass_ok_def by blast
  have "expr_value ?env i cs V'' t (beval ?env i b)" if "i < N" "agree_on n n' V' V''" for i V''
    unfolding expr_value_def
  proof (intro allI impI)
    fix K assume K: "\<forall>c\<in>set cs. K (cc_id c) = Some (b2f (cmp_value ?env i c))"
    from V'(3) that have "list_all2 (\<lambda>t b. expr_value ?env i cs V'' t (beval ?env i b)) ts bs" by blast
    then have "list_all2 (\<lambda>t b. eval_cexpr K V'' t = Some (b2f (beval ?env i b))) ts bs"
      using K by (auto simp: expr_value_def elim!: list_all2_mono)
    then show "eval_cexpr K V'' t = Some (b2f (beval ?env i b))" by (rule assms(2))
  qed
  with V' show "\<exists>V'. run_aggregates L order inp N r ags V = Some V' \<and> untouched n n' V V' \<and>
      (\<forall>i < N. \<forall>V''. agree_on n n' V' V'' \<longrightarrow>
         list_all2 (\<lambda>t b. expr_value ?env i cs V'' t (beval ?env i b)) [t] [b])" by auto
qed

lemma circ_pass_ok:
  "circ_of_bexp b g n = (t, cs, ags, n') \<Longrightarrow> fitting L N order inp \<Longrightarrow> tail_zero N inp \<Longrightarrow>
   bexp_ok (set order) b \<Longrightarrow> bexp_u32 b \<Longrightarrow> pass_ok L order inp N r n n' cs ags [t] [b]"
  "circ_of_bexps bs g n = (ts, cs, ags, n') \<Longrightarrow> fitting L N order inp \<Longrightarrow> tail_zero N inp \<Longrightarrow>
   list_all (bexp_ok (set order)) bs \<Longrightarrow> list_all bexp_u32 bs \<Longrightarrow>
   pass_ok L order inp N r n n' cs ags ts bs"
proof (induction b g n and bs g n arbitrary: t cs ags n' and ts cs ags n'
    rule: circ_of_bexp_circ_of_bexps.induct)
  case (1 op a b g na nc)
  then show ?case by (auto simp: pass_ok_def untouched_def expr_value_def cmp_value_def)
next
  case (2 bs g n)
  then obtain ts where ts: "circ_of_bexps bs g n = (ts, cs, ags, n')" "t = CProd ts"
    by (auto simp: Let_def split: prod.splits)
  have "pass_ok L order inp N r n n' cs ags ts bs" using 2 ts(1) by auto
  then show ?case
  proof (rule pass_ok_combine)
    fix i K V
    assume "list_all2 (\<lambda>t b. eval_cexpr K V t = Some (b2f (beval (circuit_env order inp) i b))) ts bs"
    then have "eval_cprod K V ts = Some (b2f (list_all id (map (beval (circuit_env order inp) i) bs)))"
      by (intro eval_cprod_ok) (simp add: list_all2_map2)
    then show "eval_cexpr K V t = Some (b2f (beval (circuit_env order inp) i (BAnd bs)))"
      by (simp add: ts(2) list_all_iff)
  qed
next
  case (3 bs g n)
  then obtain ts where ts: "circ_of_bexps bs g n = (ts, cs, ags, n')" "t = foldl COr (hd ts) (tl ts)"
    by (auto simp: Let_def split: prod.splits)
  have "pass_ok L order inp N r n n' cs ags ts bs" using 3 ts(1) by auto
  then show ?case
  proof (rule pass_ok_combine)
    fix i K V
    assume *: "list_all2 (\<lambda>t b. eval_cexpr K V t = Some (b2f (beval (circuit_env order inp) i b))) ts bs"
    from 3 obtain b bs' where bs: "bs = b # bs'" by (cases bs) auto
    with * obtain t' ts' where "ts = t' # ts'" "eval_cexpr K V t' = Some (b2f (beval (circuit_env order inp) i b))"
      "list_all2 (\<lambda>t v. eval_cexpr K V t = Some (b2f v)) ts' (map (beval (circuit_env order inp) i) bs')"
      by (auto simp: list_all2_Cons2 list_all2_map2)
    with ts(2) bs eval_or_fold show "eval_cexpr K V t = Some (b2f (beval (circuit_env order inp) i (BOr bs)))"
      by (fastforce simp: list_ex_iff)
  qed
next
  case (4 b g n)
  then obtain t' where t': "circ_of_bexp b g n = (t', cs, ags, n')" "t = CNot t'"
    by (auto simp: Let_def split: prod.splits)
  have "pass_ok L order inp N r n n' cs ags [t'] [b]" using 4 t'(1) by auto
  then show ?case by (rule pass_ok_combine) (simp add: t'(2))
next
  case (5 b g na nc)
  then obtain t' cs' ags' where t': "circ_of_bexp b na (Suc na, nc) = (t', cs', ags', n')"
    "t = CAgg na" "cs = []" "ags = ags' @ [\<lparr>ca_id = na, ca_all = True, ca_expr = t', ca_cmps = cs'\<rparr>]"
    by (auto simp: Let_def split: prod.splits)
  have "pass_ok L order inp N r (Suc na, nc) n' cs' ags' [t'] [b]" using 5 t'(1) by auto
  from pass_ok_agg [OF 5(3,4) this circ_numbers(1) [OF t'(1)], of True] circ_cmps_fit(1) [OF t'(1)] 5 t'
  show ?case by simp
next
  case (6 b g na nc)
  then obtain t' cs' ags' where t': "circ_of_bexp b na (Suc na, nc) = (t', cs', ags', n')"
    "t = CAgg na" "cs = []" "ags = ags' @ [\<lparr>ca_id = na, ca_all = False, ca_expr = t', ca_cmps = cs'\<rparr>]"
    by (auto simp: Let_def split: prod.splits)
  have "pass_ok L order inp N r (Suc na, nc) n' cs' ags' [t'] [b]" using 6 t'(1) by auto
  from pass_ok_agg [OF 6(3,4) this circ_numbers(1) [OF t'(1)], of False] circ_cmps_fit(1) [OF t'(1)] 6 t'
  show ?case by simp
next
  case (7 g n)
  then show ?case by (auto simp: pass_ok_def untouched_def)
next
  case (8 b bs g n)
  then obtain t' cs1 ags1 n1 ts' cs2 ags2 where r:
    "circ_of_bexp b g n = (t', cs1, ags1, n1)" "circ_of_bexps bs g n1 = (ts', cs2, ags2, n')"
    "ts = t' # ts'" "cs = cs1 @ cs2" "ags = ags1 @ ags2"
    by (auto simp: Let_def split: prod.splits)
  have "pass_ok L order inp N r n n1 cs1 ags1 [t'] [b]" using 8 r(1) by auto
  moreover have "pass_ok L order inp N r n1 n' cs2 ags2 ts' bs" using 8 r by auto
  ultimately show ?case
    using circ_numbers(1) [OF r(1)] circ_numbers(2) [OF r(2)] r(3-5) pass_ok_Cons
    by (simp add: pass_numbers_def)
qed


section \<open>The emitted blocks of a specification\<close>

lemma build_root_abs:
  assumes "abs_expr e = Some b" and "de_kind (sp_decision s) = KAll \<or> de_kind (sp_decision s) = KAny"
  shows "\<exists>aggs. build_root (de_kind (sp_decision s)) e = Inr (0, aggs) \<and>
                list_all2 agg_rel aggs (circuit_aggregates s b)"
proof -
  let ?k = "de_kind (sp_decision s)"
  let ?bu = "new_builder\<lparr>bu_next_aggregate_id := Suc 0\<rparr>"
  obtain t cs ags n where c: "circ_of_bexp b 0 (Suc 0, 0) = (t, cs, ags, n)" by (metis prod_cases4)
  have ca: "circuit_aggregates s b = ags @ [\<lparr>ca_id = 0, ca_all = (?k = KAll), ca_expr = t, ca_cmps = cs\<rparr>]"
    using c by (simp add: circuit_aggregates_def spec_decision_def)
  have "builder_open ?bu 0" by (simp add: builder_open_def new_builder_def)
  from cb_render_abs(1) [OF assms(1) this, of t cs ags n] c obtain bu' where
    run: "cb_render_boolean_expr e (loop_name 0) 0 ?bu = Inr (show_cexpr t, bu')"
    and st: "builder_step ?bu 0 cs ags n bu'" by (auto simp: new_builder_def)
  have "build_root ?k e = Inr (0, bu_aggregates bu' @ [\<lparr>an_aggregate_id = 0, an_kind = ?k,
      an_expression = show_cexpr t, an_comparison_nodes = bu_comparisons_by_aggregate bu' 0\<rparr>])"
    using run by (simp add: build_root_def Let_def new_builder_def)
  moreover from st have "list_all2 agg_rel (bu_aggregates bu') ags"
    "list_all2 cmp_rel (bu_comparisons_by_aggregate bu' 0) cs"
    by (auto simp: builder_step_def new_builder_def)
  ultimately show ?thesis unfolding ca using assms(2)
    by (auto simp: agg_rel_def intro!: list_all2_appendI)
qed

lemma bexp_spec_decision [simp]:
  "bexp_ok names (spec_decision s b) = bexp_ok names b" "bexp_u32 (spec_decision s b) = bexp_u32 b"
  by (simp_all add: spec_decision_def)

lemma run_circuit_aggregates:
  assumes "fitting L N order inp" "tail_zero N inp" "bexp_ok (set order) b" "bexp_u32 b" "0 < N"
  shows "\<exists>V. run_aggregates L order inp N 0 (circuit_aggregates s b) Map.empty = Some V \<and>
     V 0 = Some (b2f (beval (circuit_env order inp) 0 (spec_decision s b)))"
proof -
  obtain t cs ags n' where c: "circ_of_bexp (spec_decision s b) 0 (0, 0) = (t, cs, ags, n')"
    by (metis prod_cases4)
  then have t: "t = CAgg 0" "cs = []" by (auto simp: spec_decision_def Let_def split: prod.splits if_splits)
  from circ_pass_ok(1) [OF c assms(1,2)] assms(3,4) have
    "pass_ok L order inp N 0 (0, 0) n' cs ags [t] [spec_decision s b]" by simp
  then obtain V where "run_aggregates L order inp N 0 ags Map.empty = Some V"
    "\<forall>i < N. \<forall>V''. agree_on (0, 0) n' V V'' \<longrightarrow>
       expr_value (circuit_env order inp) i cs V'' t (beval (circuit_env order inp) i (spec_decision s b))"
    unfolding pass_ok_def by (metis list_all2_Cons)
  with assms(5) t have "run_aggregates L order inp N 0 ags Map.empty = Some V"
    "expr_value (circuit_env order inp) 0 [] V (CAgg 0) (beval (circuit_env order inp) 0 (spec_decision s b))"
    by (auto simp: agree_on_def)
  then show ?thesis using c by (auto simp: circuit_aggregates_def expr_value_def)
qed

text \<open>The bounds check admits exactly the counts in range, whatever field element the prover supplies.\<close>

lemma count_above_zero:
  assumes "in_field a"
  shows "field_less 16 0 a = Some 1 \<longleftrightarrow> 1 \<le> a \<and> a \<le> 2 ^ 16"
proof (cases "a \<le> 2 ^ 16")
  case True
  with assms show ?thesis
    by (auto simp: field_less_def Let_def fsub_def in_field_def field_p_def b2f_def)
next
  case False
  with assms have "fsub (2 ^ 16) a = field_p + 2 ^ 16 - a"
    using mod_pos_pos_trivial [of "field_p + 2 ^ 16 - a" field_p] mod_add_self1 [of field_p "2 ^ 16 - a"]
    by (simp add: fsub_def in_field_def add_diff_eq)
  with False assms show ?thesis
    by (auto simp: field_less_def Let_def in_field_def field_p_def b2f_def)
qed

lemma active_count_bounds_ok:
  assumes "circomlib_ok L" "N + 1 < 2 ^ 16" "in_field (ci_active_count inp)"
  shows "active_count_bounds L N (ci_active_count inp) = (if count_ok N inp then Some 1 else None)"
proof -
  let ?a = "ci_active_count inp"
  have f: "in_field 0" "in_field (int N + 1)" using assms(2) by (simp_all add: in_field_def field_p_def)
  then have lib: "lib_greater_than L 16 ?a 0 = field_less 16 0 ?a" "lib_less_than L 16 ?a (int N + 1) = field_less 16 ?a (int N + 1)"
    using assms(1,3) by (simp_all add: circomlib_ok_def)
  have bit: "field_less 16 x y = Some v \<Longrightarrow> v = 0 \<or> v = 1" for x y v
    by (auto simp: field_less_def Let_def b2f_def split: if_splits)
  have upper: "field_less 16 ?a (int N + 1) = Some (b2f (?a \<le> int N))" if "1 \<le> ?a" "?a \<le> 2 ^ 16"
    using that assms(2) by (auto simp: field_less_def Let_def fsub_def field_p_def b2f_def)
  show ?thesis
  proof (cases "1 \<le> ?a \<and> ?a \<le> 2 ^ 16")
    case True
    with count_above_zero [OF assms(3)] have "field_less 16 0 ?a = Some 1" by simp
    with True lib upper assms(2) show ?thesis
      by (auto simp: active_count_bounds_def Let_def count_ok_def assert_eq_def fmul_def field_p_def)
  next
    case False
    then have "\<not> count_ok N inp" using assms(2) by (auto simp: count_ok_def)
    moreover from False count_above_zero [OF assms(3)] bit have "field_less 16 0 ?a = None \<or> field_less 16 0 ?a = Some 0"
      by (cases "field_less 16 0 ?a") auto
    ultimately show ?thesis using lib by (auto simp: active_count_bounds_def Let_def assert_eq_def fmul_def split: bind_splits)
  qed
qed

lemma output_values_ok:
  "check_output_exprs outs = Inr u \<Longrightarrow> \<exists>vs. output_values d a h outs = Some vs \<and>
     vs = map (\<lambda>(name, out). (name, if os_expr out = ''decision'' then d
       else if os_expr out = ''active_count'' then a else h)) outs"
  by (induction d a h outs rule: output_values.induct) (auto simp: output_value_def split: if_splits)

section \<open>Agreement of circuit and reference\<close>

text \<open>The Python environment of the same inputs: parameters by name instead of by position.\<close>

definition py_env_of_input :: "string list \<Rightarrow> circuit_input \<Rightarrow> py_env" where
  "py_env_of_input order inp =
     \<lparr>pe_balances = ci_balances inp, pe_limits = ci_limits inp, pe_active = nat (ci_active_count inp),
      pe_params = zip order (ci_policy_params inp)\<rparr>"

lemma index_of_zip:
  "length xs = length order \<Longrightarrow>
   map_of (zip order xs) p = (case index_of p order of None \<Rightarrow> None | Some k \<Rightarrow> Some (xs ! k))"
proof (induction order arbitrary: xs)
  case (Cons q order)
  then show ?case by (cases xs) (auto split: option.splits)
qed simp

lemma env_of_input:
  assumes "params_ok order inp"
  shows "env_of (py_env_of_input order inp) = circuit_env order inp"
  using assms
  by (auto simp: env_of_def py_env_of_input_def circuit_env_def index_of_zip params_ok_def
      fun_eq_iff split: option.splits)

lemma env_of_input_fits: "rows_ok N inp \<Longrightarrow> count_ok N inp \<Longrightarrow> env_fits (py_env_of_input order inp)"
  by (auto simp: env_fits_def py_env_of_input_def rows_ok_def count_ok_def)

text \<open>Everything the two tracks need of one batch.\<close>

definition batch_fits :: "circomlib \<Rightarrow> policy_spec \<Rightarrow> circuit_input \<Rightarrow> bool" where
  "batch_fits L s inp =
     (circomlib_ok L \<and> sp_batch_size s + 1 < 2 ^ 16 \<and> rows_ok (sp_batch_size s) inp \<and>
      count_ok (sp_batch_size s) inp \<and> tail_zero (sp_batch_size s) inp \<and>
      params_ok (map fst (sp_policy_parameters s)) inp)"

definition accepted_spec :: "policy_spec \<Rightarrow> bool" where
  "accepted_spec s = (expr_ok (sp_decision s) \<and> ensure_supported_decision s = Inr () \<and>
     is_ok (validate_references s) \<and> refs_stripped (sp_decision s))"

text \<open>
  C4. Dual-track agreement of the compiler. For every accepted specification with 32-bit constants and
  references without surrounding white space, and every well-formed batch whose parameter hash is the one
  the circuit computes with Poseidon (there is none without parameters; the generated Python policy
  itself supplies a SHA-256 text instead): both renderers
  succeed; the rendered Python decision, evaluated as Python, is some truth value \<open>d\<close>; the emitted
  Circom blocks run with every constraint satisfied, the decision signal is the bit of \<open>d\<close>, and every
  public output declared as the decision carries that bit.
\<close>

theorem circuit_agrees_with_reference:
  assumes acc: "accepted_spec s" and b32: "spec_bexp s = Some b" "bexp_u32 b"
    and fit: "batch_fits L s inp"
    and hash: "run_parameter_hash L (map fst (sp_policy_parameters s)) inp = Some h"
  shows "\<exists>t d aggs outs.
     python_decision_text s = Inr (show_pyexpr t) \<and>
     py_eval (py_env_of_input (map fst (sp_policy_parameters s)) inp) vars t = Inr d \<and>
     build_root (de_kind (sp_decision s)) (the (de_inner (sp_decision s))) = Inr (0, aggs) \<and>
     list_all2 agg_rel aggs (circuit_aggregates s b) \<and>
     run_circuit L s b inp = Some (b2f d, outs) \<and>
     list_all2 (\<lambda>(name, out) (name', v). name = name' \<and> (os_expr out = ''decision'' \<longrightarrow> v = b2f d) \<and>
       (os_expr out = ''active_count'' \<longrightarrow> v = ci_active_count inp)) (sp_outputs s) outs"
proof -
  let ?order = "map fst (sp_policy_parameters s)"
  let ?E = "py_env_of_input ?order inp"
  let ?d = "beval (circuit_env ?order inp) 0 (spec_decision s b)"
  from acc supported_decision_abs [of s "()"] b32(1) have
    ok: "bexp_ok (set ?order) b" and k: "de_kind (sp_decision s) = KAll \<or> de_kind (sp_decision s) = KAny"
    by (auto simp: accepted_spec_def)
  from fit have f: "fitting L (sp_batch_size s) ?order inp" "tail_zero (sp_batch_size s) inp"
    "rows_ok (sp_batch_size s) inp" "count_ok (sp_batch_size s) inp" "params_ok ?order inp"
    "circomlib_ok L" "sp_batch_size s + 1 < 2 ^ 16"
    by (simp_all add: batch_fits_def fitting_def)
  have "dom (map_of (pe_params ?E)) = set ?order"
    using f(5) by (simp add: py_env_of_input_def dom_map_of_zip params_ok_def)
  then have py: "py_eval ?E vars (python_decision s b) = Inr ?d"
    using python_decision_correct [of ?E b vars s 0] ok env_of_input_fits [OF f(3,4)] env_of_input [OF f(5)]
    by simp
  from b32(1) obtain e where e: "de_inner (sp_decision s) = Some e" "abs_expr e = Some b"
    by (auto simp: spec_bexp_def split: option.splits)
  have N: "0 < sp_batch_size s" and cb: "in_field (ci_active_count inp)"
    using f(4,7) by (auto simp: count_ok_def in_field_def field_p_def)
  obtain V where V: "run_aggregates L ?order inp (sp_batch_size s) 0 (circuit_aggregates s b) Map.empty = Some V"
    "V 0 = Some (b2f ?d)" using run_circuit_aggregates [OF f(1,2) ok b32(2) N] by blast
  from acc obtain u where "check_output_exprs (sp_outputs s) = Inr u"
    by (auto simp: accepted_spec_def validate_references_def is_ok_iff rbind_eq_Inr)
  from output_values_ok [OF this, of "b2f ?d" "ci_active_count inp" h] obtain outs where
    outs: "output_values (b2f ?d) (ci_active_count inp) h (sp_outputs s) = Some outs"
    "outs = map (\<lambda>(name, out). (name, if os_expr out = ''decision'' then b2f ?d
       else if os_expr out = ''active_count'' then ci_active_count inp else h)) (sp_outputs s)" by blast
  have "run_circuit L s b inp = Some (b2f ?d, outs)"
    using active_count_bounds_ok [OF f(6,7) cb] f(4) hash V outs(1) by (simp add: run_circuit_def Let_def)
  moreover have "list_all2 (\<lambda>(name, out) (name', v). name = name' \<and> (os_expr out = ''decision'' \<longrightarrow> v = b2f ?d) \<and>
       (os_expr out = ''active_count'' \<longrightarrow> v = ci_active_count inp)) (sp_outputs s) outs"
    unfolding outs(2) by (auto simp: list_all2_map2 list_all2_same)
  ultimately show ?thesis
    using py python_decision_text_abs [OF b32(1) k] build_root_abs [OF e(2) k] e(1) by auto
qed


section \<open>The circuit rejects malformed batches\<close>

lemma run_rows_Some: "run_rows f is c = Some r \<Longrightarrow> i \<in> set is \<Longrightarrow> \<exists>c' r'. f i c' = Some r'"
  by (induction "is" arbitrary: c) (auto split: bind_splits)

lemma zero_padding_inactive: "in_field v \<Longrightarrow> zero_padding_invariant v 0 = Some u \<Longrightarrow> v = 0"
  by (auto simp: zero_padding_invariant_def in_field_def fmul_def fsub_def assert_eq_def field_p_def
      split: bind_splits if_splits)

lemma run_row_root_tail:
  assumes "circomlib_ok L" "count_ok N inp" "N + 1 < 2 ^ 16" "i < N" "nat (ci_active_count inp) \<le> i"
    "list_all in_field (ci_balances inp)" "list_all in_field (ci_limits inp)"
    "run_row L order inp True a V i c = Some r"
  shows "ci_balances inp ! i = 0 \<and> ci_limits inp ! i = 0"
proof -
  have "active_index_flag16 L (ci_active_count inp) (int i) = Some 0"
    using active_flag_ok [OF assms(1-4)] assms(5) by simp
  with assms(8) have "run_zero_tail inp i 0 = Some ()"
    by (auto simp: run_row_def Let_def split: bind_splits)
  with assms(6,7) show ?thesis
    by (auto simp: run_zero_tail_def nth_opt_def list_all_length split: bind_splits if_splits
        dest!: zero_padding_inactive)
qed

lemma circuit_aggregates_root:
  "\<exists>ags a. circuit_aggregates s b = ags @ [a] \<and> ca_id a = 0"
  by (auto simp: circuit_aggregates_def spec_decision_def Let_def split: prod.splits)

text \<open>
  C15. The circuit has no run for a malformed batch: whenever every constraint is satisfied, the active
  count lies between 1 and the batch size and every inactive row of both arrays is zero, for
  arbitrary field elements as the active count and in the arrays (no ghost rows and no wrapped count,
  whatever the prover supplies), for batch sizes the 16-bit comparators can hold.
\<close>

theorem circuit_rejects_ghost_rows:
  assumes "circomlib_ok L" "sp_batch_size s + 1 < 2 ^ 16" "in_field (ci_active_count inp)"
    "list_all in_field (ci_balances inp)" "list_all in_field (ci_limits inp)"
    "run_circuit L s b inp = Some out"
  shows "count_ok (sp_batch_size s) inp \<and> tail_zero (sp_batch_size s) inp"
proof -
  let ?N = "sp_batch_size s" and ?order = "map fst (sp_policy_parameters s)"
  from assms(6) active_count_bounds_ok [OF assms(1-3)] have c: "count_ok ?N inp"
    by (auto simp: run_circuit_def Let_def split: if_splits)
  obtain ags a where a: "circuit_aggregates s b = ags @ [a]" "ca_id a = 0"
    using circuit_aggregates_root by blast
  from assms(6) obtain V where "run_aggregates L ?order inp ?N 0 (ags @ [a]) Map.empty = Some V"
    using a(1) by (auto simp: run_circuit_def Let_def split: bind_splits)
  then obtain V' v where "run_aggregate L ?order inp ?N True a V' = Some v"
    using a(2) by (auto simp: run_aggregates_append split: bind_splits)
  then have "ci_balances inp ! i = 0 \<and> ci_limits inp ! i = 0"
    if "nat (ci_active_count inp) \<le> i" "i < ?N" for i
    using run_rows_Some [of "run_row L ?order inp True a V'" "[0..<?N]" _ v i] that
      run_row_root_tail [OF assms(1) c assms(2) that(2,1) assms(4,5)]
    unfolding run_aggregate_def by fastforce
  with c show ?thesis by (simp add: tail_zero_def list_all_iff)
qed

section \<open>Degree of the emitted constraints\<close>

text \<open>
  Circom admits an assignment \<open>a <== e\<close> only when \<open>e\<close> is at most quadratic in the signals. The degree
  of a tree is that of the polynomial it prints; the decision line of a block multiplies the tree
  with the activity flag.
\<close>

fun cexpr_degree :: "cexpr \<Rightarrow> nat" where
  "cexpr_degree (CCmp k g) = 1"
| "cexpr_degree (CProd es) = sum_list (map cexpr_degree es)"
| "cexpr_degree (COr a b) = cexpr_degree a + cexpr_degree b"
| "cexpr_degree (CNot e) = cexpr_degree e"
| "cexpr_degree (CAgg g) = 1"

definition decision_line_degree :: "circ_aggregate \<Rightarrow> nat" where
  "decision_line_degree a = cexpr_degree (ca_expr a) + 1"

fun has_connective :: "bexp \<Rightarrow> bool" where
  "has_connective (BCmp op a b) = False"
| "has_connective (BAnd bs) = True"
| "has_connective (BOr bs) = True"
| "has_connective (BNot b) = has_connective b"
| "has_connective (BAll b) = has_connective b"
| "has_connective (BAny b) = has_connective b"

fun binary_connectives :: "bexp \<Rightarrow> bool" where
  "binary_connectives (BCmp op a b) = True"
| "binary_connectives (BAnd bs) = (2 \<le> length bs \<and> list_all binary_connectives bs)"
| "binary_connectives (BOr bs) = (2 \<le> length bs \<and> list_all binary_connectives bs)"
| "binary_connectives (BNot b) = binary_connectives b"
| "binary_connectives (BAll b) = binary_connectives b"
| "binary_connectives (BAny b) = binary_connectives b"

lemma abs_exprs_length: "abs_exprs es = Some bs \<Longrightarrow> length bs = length es"
  by (induction es arbitrary: bs) (auto split: option.splits)

lemma expr_ok_binary:
  "expr_ok e \<Longrightarrow> abs_expr e = Some b \<Longrightarrow> binary_connectives b"
  "exprs_ok es \<Longrightarrow> abs_exprs es = Some bs \<Longrightarrow> list_all binary_connectives bs"
proof (induction e and es arbitrary: b and bs rule: abs_expr_abs_exprs.induct)
  case (1 k c as i)
  then show ?case
    by (cases k; cases i)
       (auto simp: decision_expr_validate_shape_def abs_comparison_def abs_exprs_length
          split: option.splits if_splits)
qed (auto split: option.splits)

lemma degree_foldl_COr: "cexpr_degree (foldl COr t ts) = cexpr_degree t + sum_list (map cexpr_degree ts)"
  by (induction ts arbitrary: t) auto

lemma degree_pos: "binary_connectives b \<Longrightarrow> circ_of_bexp b g n = (t, cs, ags, n') \<Longrightarrow> 1 \<le> cexpr_degree t"
  "list_all binary_connectives bs \<Longrightarrow> circ_of_bexps bs g n = (ts, cs, ags, n') \<Longrightarrow>
     length bs \<le> sum_list (map cexpr_degree ts) \<and> length ts = length bs"
proof (induction b g n and bs g n arbitrary: t cs ags n' and ts cs ags n'
    rule: circ_of_bexp_circ_of_bexps.induct)
  case (3 bs g n)
  then obtain ts where ts: "circ_of_bexps bs g n = (ts, cs, ags, n')" "t = foldl COr (hd ts) (tl ts)"
    by (auto simp: Let_def split: prod.splits)
  with 3 have len: "2 \<le> sum_list (map cexpr_degree ts)" "length ts = length bs" "2 \<le> length bs" by auto
  then obtain t' ts' where "ts = t' # ts'" by (cases ts) auto
  with ts len show ?case by (auto simp: degree_foldl_COr)
next
  case (8 b bs g n)
  then show ?case by (fastforce simp: Let_def split: prod.splits)
qed (fastforce simp: Let_def split: prod.splits)+

text \<open>
  A tree is linear and all nested decision lines are quadratic exactly when the expression uses no
  \<open>and\<close> and no \<open>or\<close>.
\<close>

lemma degree_linear_iff:
  "binary_connectives b \<Longrightarrow> circ_of_bexp b g n = (t, cs, ags, n') \<Longrightarrow>
   (cexpr_degree t \<le> 1 \<and> list_all (\<lambda>a. decision_line_degree a \<le> 2) ags) \<longleftrightarrow> \<not> has_connective b"
proof (induction b arbitrary: g n t cs ags n')
  case (BAnd bs)
  then obtain ts where "circ_of_bexps bs g n = (ts, cs, ags, n')" "t = CProd ts"
    by (auto simp: Let_def split: prod.splits)
  with degree_pos(2) [of bs g n ts cs ags n'] BAnd.prems show ?case by auto
next
  case (BOr bs)
  then obtain ts where ts: "circ_of_bexps bs g n = (ts, cs, ags, n')" "t = foldl COr (hd ts) (tl ts)"
    by (auto simp: Let_def split: prod.splits)
  with degree_pos(2) [of bs g n ts cs ags n'] BOr.prems
  have "2 \<le> sum_list (map cexpr_degree ts)" "ts \<noteq> []" by auto
  with ts(2) have "\<not> cexpr_degree t \<le> 1" by (cases ts) (auto simp: degree_foldl_COr)
  then show ?case by simp
next
  case (BNot b)
  then obtain t' where "circ_of_bexp b g n = (t', cs, ags, n')" "t = CNot t'"
    by (auto simp: Let_def split: prod.splits)
  with BNot.IH [of g n t' cs ags n'] BNot.prems show ?case by simp
next
  case (BAll b)
  then obtain t' cs' ags' where "circ_of_bexp b (fst n) (Suc (fst n), snd n) = (t', cs', ags', n')"
    "t = CAgg (fst n)" "ags = ags' @ [\<lparr>ca_id = fst n, ca_all = True, ca_expr = t', ca_cmps = cs'\<rparr>]"
    by (cases n) (auto simp: Let_def split: prod.splits)
  with BAll.IH [of "fst n" "(Suc (fst n), snd n)" t' cs' ags' n'] BAll.prems show ?case
    by (auto simp: decision_line_degree_def)
next
  case (BAny b)
  then obtain t' cs' ags' where "circ_of_bexp b (fst n) (Suc (fst n), snd n) = (t', cs', ags', n')"
    "t = CAgg (fst n)" "ags = ags' @ [\<lparr>ca_id = fst n, ca_all = False, ca_expr = t', ca_cmps = cs'\<rparr>]"
    by (cases n) (auto simp: Let_def split: prod.splits)
  with BAny.IH [of "fst n" "(Suc (fst n), snd n)" t' cs' ags' n'] BAny.prems show ?case
    by (auto simp: decision_line_degree_def)
next
  case (BCmp op a b)
  then show ?case by (cases n) auto
qed

text \<open>
  C20. Which accepted specifications give circuits the Circom compiler admits: every decision line of
  the emitted blocks is at most quadratic exactly when the decision contains neither \<open>and\<close> nor \<open>or\<close>.
  The compiler accepts both connectives, so a compound decision yields a circuit with a constraint
  of degree three or more.
\<close>

theorem quadratic_iff_no_connective:
  assumes "accepted_spec s" and "spec_bexp s = Some b"
  shows "list_all (\<lambda>a. decision_line_degree a \<le> 2) (circuit_aggregates s b) \<longleftrightarrow> \<not> has_connective b"
proof -
  obtain e where e: "de_inner (sp_decision s) = Some e" "abs_expr e = Some b"
    using assms(2) by (auto simp: spec_bexp_def split: option.splits)
  have "expr_ok e" using assms(1) e(1) by (cases "sp_decision s") (auto simp: accepted_spec_def)
  then have "binary_connectives (spec_decision s b)"
    using expr_ok_binary(1) e(2) by (simp add: spec_decision_def)
  moreover have "has_connective (spec_decision s b) = has_connective b"
    by (simp add: spec_decision_def)
  moreover obtain t cs ags n' where "circ_of_bexp (spec_decision s b) 0 (0, 0) = (t, cs, ags, n')"
    by (metis prod_cases4)
  moreover then have "t = CAgg 0" by (auto simp: spec_decision_def Let_def split: prod.splits if_splits)
  ultimately show ?thesis
    using degree_linear_iff [of "spec_decision s b" 0 "(0, 0)" t cs ags n']
    by (simp add: circuit_aggregates_def)
qed

section \<open>Witnesses\<close>

text \<open>Comparators as circomlib defines them, and a sum in place of the hash.\<close>

definition plain_circomlib :: circomlib where
  "plain_circomlib =
     \<lparr>lib_less_than = field_less, lib_greater_than = (\<lambda>n a b. field_less n b a),
      lib_less_eq_than = (\<lambda>n a b. field_less n a (fadd b 1)), lib_greater_eq_than = (\<lambda>n a b. field_less n b (fadd a 1)),
      lib_is_equal = (\<lambda>a b. Some (b2f (a = b))), lib_poseidon = (\<lambda>xs. Some (sum_list xs))\<rparr>"

lemma plain_circomlib_ok [simp]: "circomlib_ok plain_circomlib"
  by (simp add: circomlib_ok_def plain_circomlib_def)

definition sample_input :: circuit_input where
  "sample_input = \<lparr>ci_limits = 100 # replicate 249 0, ci_active_count = 1,
     ci_balances = 120 # replicate 249 0, ci_policy_params = [], ci_expected_hash = 0\<rparr>"

lemma lending_risk_accepted_spec [simp]: "accepted_spec lending_risk_spec"
  by (simp add: accepted_spec_def) code_simp

lemma list_all_replicate_bits [simp]: "list_all (bits k) (replicate n 0)"
  by (induction n) (auto simp: bits_def)

lemma sample_rows [simp]: "rows_ok 250 sample_input"
  unfolding rows_ok_def sample_input_def by (simp add: bits_def)

lemma nth_tail_zero: "0 < i \<Longrightarrow> i < Suc n \<Longrightarrow> (x # replicate n (0::int)) ! i = 0"
  by (cases i) auto

lemma sample_fits [simp]: "batch_fits plain_circomlib lending_risk_spec sample_input"
proof -
  have "tail_zero 250 sample_input"
    unfolding tail_zero_def sample_input_def by (auto simp: list_all_iff nth_tail_zero)
  then show ?thesis
    by (simp add: batch_fits_def params_ok_def) (simp add: count_ok_def sample_input_def)
qed

theorem circuit_agrees_with_reference_witness:
  "\<exists>t d aggs outs.
     python_decision_text lending_risk_spec = Inr (show_pyexpr t) \<and>
     py_eval (py_env_of_input (map fst (sp_policy_parameters lending_risk_spec)) sample_input) (\<lambda>_. 0) t = Inr d \<and>
     build_root (de_kind (sp_decision lending_risk_spec)) (the (de_inner (sp_decision lending_risk_spec))) =
       Inr (0, aggs) \<and>
     list_all2 agg_rel aggs (circuit_aggregates lending_risk_spec (BCmp OpGt VBalance VLimit)) \<and>
     run_circuit plain_circomlib lending_risk_spec (BCmp OpGt VBalance VLimit) sample_input = Some (b2f d, outs) \<and>
     list_all2 (\<lambda>(name, out) (name', v). name = name' \<and> (os_expr out = ''decision'' \<longrightarrow> v = b2f d) \<and>
       (os_expr out = ''active_count'' \<longrightarrow> v = ci_active_count sample_input)) (sp_outputs lending_risk_spec) outs"
  by (rule circuit_agrees_with_reference [where h = 0]) (simp_all add: run_parameter_hash_def)

theorem circuit_rejects_ghost_rows_witness:
  "count_ok (sp_batch_size (lending_risk_spec\<lparr>sp_batch_size := 2\<rparr>))
     \<lparr>ci_limits = [100, 0], ci_active_count = 1, ci_balances = [120, 0], ci_policy_params = [], ci_expected_hash = 0\<rparr> \<and>
   tail_zero (sp_batch_size (lending_risk_spec\<lparr>sp_batch_size := 2\<rparr>))
     \<lparr>ci_limits = [100, 0], ci_active_count = 1, ci_balances = [120, 0], ci_policy_params = [], ci_expected_hash = 0\<rparr>"
proof (rule circuit_rejects_ghost_rows [where L = plain_circomlib and b = "BCmp OpGt VBalance VLimit"])
  show "run_circuit plain_circomlib (lending_risk_spec\<lparr>sp_batch_size := 2\<rparr>) (BCmp OpGt VBalance VLimit)
      \<lparr>ci_limits = [100, 0], ci_active_count = 1, ci_balances = [120, 0], ci_policy_params = [],
       ci_expected_hash = 0\<rparr> = Some (1, [(''all_valid'', 1), (''active_count_out'', 1)])"
    by code_simp
qed (simp_all add: bits_def in_field_def field_p_def)

theorem quadratic_iff_no_connective_witness:
  "list_all (\<lambda>a. decision_line_degree a \<le> 2)
     (circuit_aggregates lending_risk_spec (BCmp OpGt VBalance VLimit)) \<longleftrightarrow>
   \<not> has_connective (BCmp OpGt VBalance VLimit)"
  by (rule quadratic_iff_no_connective) simp_all

end
