(* ===== verification/Canonical_Json.thy ===== *)
theory Canonical_Json
  imports Prelude
begin

text \<open>
  Canonical JSON: \<open>json.dumps(value, sort_keys=True, separators=(",", ":"))\<close>, the encoding every
  hash, seal and signature of the system is computed over (\<open>canonical_json_bytes\<close> in
  \<open>vellum_core/security.py\<close>, \<open>_hash_record\<close> in \<open>vellum_core/proof_store.py\<close>,
  \<open>compute_policy_params_hash\<close> in \<open>vellum_core/policy_parameters.py\<close>). SHA-256 is a parameter
  (a function from text to text) wherever it occurs.

  The main lemma shows that the encoding is injective up to the order of dictionary keys on values
  without floating-point numbers: equal texts come from equal values.
\<close>

section \<open>Definitions\<close>

definition hex_digit :: "nat \<Rightarrow> char" where
  "hex_digit n = (if n < 10 then char_of (48 + n) else char_of (87 + n))"

text \<open>The escapes of \<open>ensure_ascii\<close>: everything outside the printable ASCII range is escaped.\<close>

definition esc_char :: "char \<Rightarrow> string" where
  "esc_char c =
     (let n = of_char c :: nat
      in if n = 34 then [char_of (92::nat), char_of (34::nat)]
         else if n = 92 then [char_of (92::nat), char_of (92::nat)]
         else if n = 10 then [char_of (92::nat), CHR ''n'']
         else if n = 13 then [char_of (92::nat), CHR ''r'']
         else if n = 9 then [char_of (92::nat), CHR ''t'']
         else if n = 12 then [char_of (92::nat), CHR ''f'']
         else if n = 8 then [char_of (92::nat), CHR ''b'']
         else if 32 \<le> n \<and> n \<le> 126 then [c]
         else [char_of (92::nat), CHR ''u'', CHR ''0'', CHR ''0'', hex_digit (n div 16), hex_digit (n mod 16)])"

definition json_str :: "string \<Rightarrow> string" where
  "json_str s = DQ @ concat (map esc_char s) @ DQ"

definition json_float :: "rat option \<Rightarrow> string \<Rightarrow> string" where
  "json_float q r =
     (case q of Some _ \<Rightarrow> r
      | None \<Rightarrow> if r = ''nan'' then ''NaN'' else if r = ''-inf'' then ''-Infinity'' else ''Infinity'')"

fun json_text :: "pyval \<Rightarrow> string"
and json_tail :: "pyval list \<Rightarrow> string"
and json_dtail :: "pydict \<Rightarrow> string" where
  "json_text PNone = ''null''"
| "json_text (PBool b) = (if b then ''true'' else ''false'')"
| "json_text (PInt i) = show_int i"
| "json_text (PFloat q r) = json_float q r"
| "json_text (PStr s) = json_str s"
| "json_text (PList []) = ''[]''"
| "json_text (PList (x # xs)) = ''['' @ json_text x @ json_tail xs"
| "json_text (PDict []) = ''{}''"
| "json_text (PDict ((k, v) # d)) = ''{'' @ json_str k @ '':'' @ json_text v @ json_dtail d"
| "json_tail [] = '']''"
| "json_tail (x # xs) = '','' @ json_text x @ json_tail xs"
| "json_dtail [] = ''}''"
| "json_dtail ((k, v) # d) = '','' @ json_str k @ '':'' @ json_text v @ json_dtail d"

text \<open>\<open>sort_keys\<close>: the items of every dictionary, at every depth, in the order of their keys.\<close>

fun canon :: "pyval \<Rightarrow> pyval"
and canon_list :: "pyval list \<Rightarrow> pyval list"
and canon_dict :: "pydict \<Rightarrow> pydict" where
  "canon (PList xs) = PList (canon_list xs)"
| "canon (PDict d) = PDict (canon_dict d)"
| "canon v = v"
| "canon_list [] = []"
| "canon_list (x # xs) = canon x # canon_list xs"
| "canon_dict [] = []"
| "canon_dict ((k, v) # d) = insort_key fst (k, canon v) (canon_dict d)"

definition canonical_json :: "pyval \<Rightarrow> string" where
  "canonical_json v = json_text (canon v)"

definition canonical_json_bytes :: "pyval \<Rightarrow> string" where
  "canonical_json_bytes v = canonical_json v"

definition compute_policy_params_hash :: "(string \<Rightarrow> string) \<Rightarrow> pydict \<Rightarrow> string" where
  "compute_policy_params_hash sha256 parameters = sha256 (canonical_json (PDict parameters))"

definition hash_record :: "(string \<Rightarrow> string) \<Rightarrow> pydict \<Rightarrow> string" where
  "hash_record sha256 record = sha256 (canonical_json (PDict record))"

definition compute_proof_hash :: "(string \<Rightarrow> string) \<Rightarrow> pyval \<Rightarrow> string" where
  "compute_proof_hash sha256 proof_payload =
     (if proof_payload = PNone then [] else sha256 (canonical_json proof_payload))"

text \<open>Values without floating-point numbers.\<close>

fun float_free :: "pyval \<Rightarrow> bool"
and float_free_list :: "pyval list \<Rightarrow> bool"
and float_free_dict :: "pydict \<Rightarrow> bool" where
  "float_free (PFloat q r) = False"
| "float_free (PList xs) = float_free_list xs"
| "float_free (PDict d) = float_free_dict d"
| "float_free v = True"
| "float_free_list [] = True"
| "float_free_list (x # xs) = (float_free x \<and> float_free_list xs)"
| "float_free_dict [] = True"
| "float_free_dict ((k, v) # d) = (float_free v \<and> float_free_dict d)"

section \<open>Strings are decodable\<close>

definition hex_val :: "char \<Rightarrow> nat" where
  "hex_val c = (let n = of_char c :: nat in if n < 58 then n - 48 else n - 87)"

lemma hex_val_digit [simp]: "n < 16 \<Longrightarrow> hex_val (hex_digit n) = n"
  by (auto simp: hex_val_def hex_digit_def Let_def)

fun unesc :: "string \<Rightarrow> char \<times> string" where
  "unesc (c # d # cs) =
     (if (of_char c :: nat) \<noteq> 92 then (c, d # cs)
      else if (of_char d :: nat) = 34 then (d, cs)
      else if (of_char d :: nat) = 92 then (d, cs)
      else if d = CHR ''n'' then (char_of (10::nat), cs)
      else if d = CHR ''r'' then (char_of (13::nat), cs)
      else if d = CHR ''t'' then (char_of (9::nat), cs)
      else if d = CHR ''f'' then (char_of (12::nat), cs)
      else if d = CHR ''b'' then (char_of (8::nat), cs)
      else (case cs of
              a # b # h # l # rest \<Rightarrow> (char_of (16 * hex_val h + hex_val l), rest)
            | _ \<Rightarrow> (d, cs)))"
| "unesc cs = (hd cs, tl cs)"

lemma of_char_lt: "(of_char c :: nat) < 256"
  using nat_of_char_less_256 .

lemma char_eq_of: "(of_char c :: nat) = n \<Longrightarrow> c = char_of n"
  by auto

lemma unesc_esc: "unesc (esc_char c @ s) = (c, s)"
proof -
  let ?n = "of_char c :: nat"
  consider "?n = 34" | "?n = 92" | "?n = 10" | "?n = 13" | "?n = 9" | "?n = 12" | "?n = 8"
    | "32 \<le> ?n \<and> ?n \<le> 126 \<and> ?n \<noteq> 34 \<and> ?n \<noteq> 92"
    | "\<not> (32 \<le> ?n \<and> ?n \<le> 126) \<and> ?n \<notin> {10, 13, 9, 12, 8}" by fastforce
  then show ?thesis
  proof cases
    case 8
    then have "esc_char c = [c]" by (simp add: esc_char_def Let_def)
    with 8 show ?thesis by (cases s) simp_all
  next
    case 9
    have hex: "char_of (16 * (?n div 16) + ?n mod 16) = c" by simp
    have lt: "?n div 16 < 16" "?n mod 16 < 16"
      using of_char_lt [of c] by (simp_all add: less_mult_imp_div_less)
    from 9 have "?n \<noteq> 34" "?n \<noteq> 92" by auto
    with 9 have "esc_char c = [char_of (92::nat), CHR ''u'', CHR ''0'', CHR ''0'',
        hex_digit (?n div 16), hex_digit (?n mod 16)]"
      by (simp add: esc_char_def Let_def)
    then show ?thesis using hex_val_digit [OF lt(1)] hex_val_digit [OF lt(2)] hex
      by simp
  qed (drule char_eq_of, simp add: esc_char_def)+
qed

lemma esc_char_head: "\<exists>d ds. esc_char c = d # ds \<and> (of_char d :: nat) \<noteq> 34"
  by (auto simp: esc_char_def Let_def)

lemma esc_chars_inj:
  "concat (map esc_char cs) @ DQ @ s = concat (map esc_char ds) @ DQ @ t \<Longrightarrow> cs = ds \<and> s = t"
proof (induction cs arbitrary: ds)
  case Nil
  show ?case
  proof (cases ds)
    case (Cons d ds')
    with Nil esc_char_head [of d] show ?thesis by (auto simp: DQ_def)
  qed (use Nil in auto)
next
  case (Cons c cs)
  show ?case
  proof (cases ds)
    case Nil
    with Cons.prems esc_char_head [of c] show ?thesis by (auto simp: DQ_def)
  next
    case (Cons d ds')
    let ?x = "concat (map esc_char cs) @ DQ @ s" and ?y = "concat (map esc_char ds') @ DQ @ t"
    from Cons.prems Cons have "esc_char c @ ?x = esc_char d @ ?y" by simp
    then have "(c, ?x) = (d, ?y)" by (metis unesc_esc)
    with Cons Cons.IH [of ds'] show ?thesis by auto
  qed
qed

lemma json_str_inj: "json_str k @ s = json_str l @ t \<Longrightarrow> k = l \<and> s = t"
  using esc_chars_inj [of k s l t] by (auto simp: json_str_def)

section \<open>Numbers are decodable\<close>

text \<open>What may follow a value inside a document.\<close>

definition delim :: "string \<Rightarrow> bool" where
  "delim s = (s = [] \<or> hd s = CHR '','' \<or> hd s = CHR '']'' \<or> hd s = CHR ''}'')"

lemma delim_simps [simp]:
  "delim []" "delim (CHR '','' # s)" "delim (CHR '']'' # s)" "delim (CHR ''}'' # s)"
  by (simp_all add: delim_def)

lemma delim_json_tail [simp]: "delim (json_tail xs @ s)" "delim (json_dtail d @ s)"
  by (cases xs; simp) (cases d; auto)

lemma delim_no_digit: "delim s \<Longrightarrow> takeWhile is_digit s = []"
  by (cases s) (auto simp: delim_def is_digit_def)

lemma takeWhile_show_nat: "delim s \<Longrightarrow> takeWhile is_digit (show_nat n @ s) = show_nat n"
  using show_nat_digits [of _ n] by (simp add: delim_no_digit)

lemma show_nat_prefix: "show_nat m @ s = show_nat n @ t \<Longrightarrow> delim s \<Longrightarrow> delim t \<Longrightarrow> m = n \<and> s = t"
  by (metis takeWhile_show_nat show_nat_inj same_append_eq)

lemma show_nat_head: "\<exists>c cs. show_nat n = c # cs \<and> is_digit c"
  by (cases "show_nat n") (use show_nat_digits [of _ n] in auto)

lemma minus_not_digit [simp]: "\<not> is_digit (CHR ''-'')"
  by (simp add: is_digit_def)

lemma show_int_sign: "\<exists>c cs. show_int i = c # cs \<and> (c = CHR ''-'') = (i < 0)"
proof (cases "i < 0")
  case False
  obtain c cs where "show_nat (nat i) = c # cs" "is_digit c" using show_nat_head by meson
  with False show ?thesis by (auto simp: show_int_def)
qed (simp add: show_int_def)

lemma show_int_prefix:
  assumes "show_int i @ s = show_int j @ t" "delim s" "delim t"
  shows "i = j \<and> s = t"
proof -
  have sg: "(i < 0) = (j < 0)" using show_int_sign [of i] show_int_sign [of j] assms(1) by force
  with assms(1) have "show_nat (nat \<bar>i\<bar>) @ s = show_nat (nat \<bar>j\<bar>) @ t"
    by (simp add: show_int_def split: if_splits)
  from show_nat_prefix [OF this assms(2,3)] have "nat \<bar>i\<bar> = nat \<bar>j\<bar>" "s = t" by auto
  with sg show ?thesis by linarith
qed

section \<open>The encoding is injective\<close>

text \<open>The first character tells the kind of a value.\<close>

definition kind_code :: "pyval \<Rightarrow> nat \<Rightarrow> bool" where
  "kind_code v n =
     (case v of PNone \<Rightarrow> n = 110 | PBool b \<Rightarrow> n = (if b then 116 else 102)
      | PInt i \<Rightarrow> (48 \<le> n \<and> n \<le> 57) \<or> n = 45 | PFloat q r \<Rightarrow> True
      | PStr s \<Rightarrow> n = 34 | PList xs \<Rightarrow> n = 91 | PDict d \<Rightarrow> n = 123)"

abbreviation kind_char :: "pyval \<Rightarrow> char \<Rightarrow> bool" where
  "kind_char v c \<equiv> kind_code v (of_char c)"

lemma json_text_head: "float_free v \<Longrightarrow> \<exists>c cs. json_text v = c # cs \<and> kind_char v c"
proof (cases v)
  case (PInt i)
  obtain c cs where "show_nat (nat \<bar>i\<bar>) = c # cs" "is_digit c" using show_nat_head by meson
  with PInt show ?thesis by (auto simp: kind_code_def show_int_def is_digit_def)
next
  case (PList xs)
  then show ?thesis by (cases xs) (auto simp: kind_code_def)
next
  case (PDict d)
  then show ?thesis by (cases d) (auto simp: kind_code_def)
qed (auto simp: kind_code_def json_str_def DQ_def)

lemma kind_char_same:
  assumes "float_free v" "float_free w" "json_text v @ s = json_text w @ t"
  shows "(\<exists>c. kind_char v c \<and> kind_char w c)"
  using json_text_head [OF assms(1)] json_text_head [OF assms(2)] assms(3) by auto

lemma json_list_head: "float_free x \<Longrightarrow> \<exists>c cs. json_text x = c # cs \<and> c \<noteq> CHR '']''"
  using json_text_head [of x] by (cases x) (auto simp: kind_code_def)

text \<open>Equal texts come from values of the same kind.\<close>

fun same_kind :: "pyval \<Rightarrow> pyval \<Rightarrow> bool" where
  "same_kind PNone w = (w = PNone)"
| "same_kind (PBool b) w = (w = PBool b)"
| "same_kind (PInt i) w = (\<exists>j. w = PInt j)"
| "same_kind (PFloat q r) w = False"
| "same_kind (PStr s) w = (\<exists>t. w = PStr t)"
| "same_kind (PList xs) w = (\<exists>ys. w = PList ys)"
| "same_kind (PDict d) w = (\<exists>e. w = PDict e)"

lemma kind_code_same: "float_free v \<Longrightarrow> float_free w \<Longrightarrow> kind_code v n \<Longrightarrow> kind_code w n \<Longrightarrow> same_kind v w"
  by (cases v; cases w) (auto simp: kind_code_def split: if_splits)

lemma json_same_kind:
  "float_free v \<Longrightarrow> float_free w \<Longrightarrow> json_text v @ s = json_text w @ t \<Longrightarrow> same_kind v w"
  using kind_char_same kind_code_same by blast

lemma DQ_code: "DQ = [CHR 0x22]"
  by code_simp

lemma json_text_prefix:
  "float_free v \<Longrightarrow> float_free w \<Longrightarrow> json_text v @ s = json_text w @ t \<Longrightarrow> delim s \<Longrightarrow> delim t \<Longrightarrow>
   v = w \<and> s = t"
  "float_free_list xs \<Longrightarrow> float_free_list ys \<Longrightarrow> json_tail xs @ s = json_tail ys @ t \<Longrightarrow> xs = ys \<and> s = t"
  "float_free_dict d \<Longrightarrow> float_free_dict e \<Longrightarrow> json_dtail d @ s = json_dtail e @ t \<Longrightarrow> d = e \<and> s = t"
proof (induction v and xs and d arbitrary: w s t and ys s t and e s t
    rule: json_text_json_tail_json_dtail.induct)
  case 1
  with json_same_kind [OF 1(1-3)] show ?case by simp
next
  case (2 b)
  with json_same_kind [OF 2(1-3)] show ?case by simp
next
  case (3 i)
  with json_same_kind [OF 3(1-3)] show ?case by (auto dest: show_int_prefix)
next
  case (4 q r)
  then show ?case by simp
next
  case (5 k)
  with json_same_kind [OF 5(1-3)] show ?case by (auto dest: json_str_inj)
next
  case 6
  with json_same_kind [OF 6(1-3)] obtain ys where w: "w = PList ys" by auto
  with 6 show ?case
  proof (cases ys)
    case (Cons y ys')
    with 6 w json_list_head [of y] show ?thesis by auto
  qed auto
next
  case (7 x xs)
  from json_same_kind [OF 7(3-5)] obtain ys where w: "w = PList ys" by auto
  show ?case
  proof (cases ys)
    case Nil
    with 7(3,5) w json_list_head [of x] show ?thesis by auto
  next
    case (Cons y ys')
    with 7(3-5) w have "x = y \<and> json_tail xs @ s = json_tail ys' @ t"
      by (intro 7(1)) auto
    moreover with 7(3,4) w Cons have "xs = ys' \<and> s = t" by (intro 7(2)) auto
    ultimately show ?thesis using w Cons by simp
  qed
next
  case 8
  with json_same_kind [OF 8(1-3)] obtain e where "w = PDict e" by auto
  with 8 show ?case by (cases e) (auto simp: json_str_def DQ_code)
next
  case (9 k v d)
  from json_same_kind [OF 9(3-5)] obtain e where w: "w = PDict e" by auto
  show ?case
  proof (cases e)
    case Nil
    with 9(5) w show ?thesis by (auto simp: json_str_def DQ_code)
  next
    case (Cons p e')
    obtain l u where p: "p = (l, u)" by (cases p)
    from 9(5) w Cons p have k: "k = l" "json_text v @ json_dtail d @ s = json_text u @ json_dtail e' @ t"
      by (auto dest: json_str_inj)
    with 9(3,4) w Cons p have "v = u \<and> json_dtail d @ s = json_dtail e' @ t" by (intro 9(1)) auto
    moreover with 9(3,4) w Cons p have "d = e' \<and> s = t" by (intro 9(2)) auto
    ultimately show ?thesis using w Cons p k by simp
  qed
next
  case 10
  then show ?case by (cases ys) auto
next
  case (11 x xs)
  show ?case
  proof (cases ys)
    case (Cons y ys')
    with 11(3-5) have "x = y \<and> json_tail xs @ s = json_tail ys' @ t" by (intro 11(1)) auto
    moreover with 11(3,4) Cons have "xs = ys' \<and> s = t" by (intro 11(2)) auto
    ultimately show ?thesis using Cons by simp
  qed (use 11(5) in auto)
next
  case 12
  then show ?case by (cases e) auto
next
  case (13 k v d)
  show ?case
  proof (cases e)
    case (Cons p e')
    obtain l u where p: "p = (l, u)" by (cases p)
    from 13(5) Cons p have k: "k = l" "json_text v @ json_dtail d @ s = json_text u @ json_dtail e' @ t"
      by (auto dest: json_str_inj)
    with 13(3,4) Cons p have "v = u \<and> json_dtail d @ s = json_dtail e' @ t" by (intro 13(1)) auto
    moreover with 13(3,4) Cons p have "d = e' \<and> s = t" by (intro 13(2)) auto
    ultimately show ?thesis using Cons p k by simp
  qed (use 13(5) in auto)
qed

section \<open>Canonical form\<close>

lemma float_free_insort [simp]:
  "float_free_dict (insort_key fst (k, v) d) = (float_free v \<and> float_free_dict d)"
proof (induction d)
  case (Cons p d)
  then show ?case by (cases p) auto
qed simp

lemma float_free_canon [simp]:
  "float_free (canon v) = float_free v"
  "float_free_list (canon_list xs) = float_free_list xs"
  "float_free_dict (canon_dict d) = float_free_dict d"
  by (induction v and xs and d rule: canon_canon_list_canon_dict.induct) auto

lemma canonical_json_eq_iff:
  assumes "float_free v" "float_free w"
  shows "canonical_json v = canonical_json w \<longleftrightarrow> canon v = canon w"
  using json_text_prefix(1) [of "canon v" "canon w" "[]" "[]"] assms by (auto simp: canonical_json_def)

lemma map_fst_insort: "map fst (insort_key fst p d) = insort (fst p) (map fst d)"
  by (induction d) auto

lemma map_fst_canon_dict: "map fst (canon_dict d) = sort (map fst d)"
  by (induction d) (auto simp: map_fst_insort)

lemma keys_canon_dict: "set (map fst (canon_dict d)) = set (map fst d)"
  by (simp only: map_fst_canon_dict set_sort)

lemma map_of_insort: "k \<notin> set (map fst d) \<Longrightarrow> map_of (insort_key fst (k, v) d) = (map_of d)(k \<mapsto> v)"
  by (induction d) (auto simp: fun_eq_iff)

lemma map_of_canon_dict:
  "distinct (map fst d) \<Longrightarrow> map_of (canon_dict d) k = map_option canon (map_of d k)"
proof (induction d)
  case (Cons p d)
  obtain j v where p: "p = (j, v)" by (cases p)
  with Cons have "j \<notin> set (map fst (canon_dict d))" by (simp only: keys_canon_dict) auto
  with Cons p show ?case by (simp add: map_of_insort)
qed simp

text \<open>Two dictionaries with the same canonical text have the same keys and, key by key, the same canonical values.\<close>

lemma canonical_dict_same:
  assumes "float_free_dict d" "float_free_dict e" "distinct (map fst d)" "distinct (map fst e)"
    "canonical_json (PDict d) = canonical_json (PDict e)"
  shows "map_option canon (map_of d k) = map_option canon (map_of e k)"
  using assms canonical_json_eq_iff [of "PDict d" "PDict e"] map_of_canon_dict
  by (metis canon.simps(2) float_free.simps(3) pyval.inject(6))

text \<open>
  C19. Canonical JSON is injective up to key order: two float-free values have the same canonical
  encoding exactly when they have the same canonical form (all dictionaries sorted by key, at every
  depth). Hashes and signatures over the encoding therefore commit to the value.
\<close>

theorem canonical_json_injective:
  assumes "float_free v" "float_free w"
  shows "canonical_json_bytes v = canonical_json_bytes w \<longleftrightarrow> canon v = canon w"
  using canonical_json_eq_iff [OF assms] by (simp add: canonical_json_bytes_def)

theorem canonical_json_injective_witness:
  "canonical_json_bytes (PDict [(''b'', PInt 1), (''a'', PList [PNone, PStr ''x''])]) =
     canonical_json_bytes (PDict [(''a'', PList [PNone, PStr ''x'']), (''b'', PInt 1)]) \<longleftrightarrow>
   canon (PDict [(''b'', PInt 1), (''a'', PList [PNone, PStr ''x''])]) =
     canon (PDict [(''a'', PList [PNone, PStr ''x'']), (''b'', PInt 1)])"
  by (rule canonical_json_injective) simp_all

lemma assoc_list_by_keys: "distinct (map fst d) \<Longrightarrow> d = map (\<lambda>k. (k, the (map_of d k))) (map fst d)"
proof -
  assume "distinct (map fst d)"
  then have "(k, the (map_of d k)) = p" if "p \<in> set d" "k = fst p" for p k
    using that by (cases p) simp
  then show ?thesis by (simp add: map_idI)
qed

lemma canon_dict_order:
  assumes "distinct (map fst d)" "distinct (map fst e)" "map_of d = map_of e"
  shows "canon_dict d = canon_dict e"
proof -
  have "set (map fst d) = set (map fst e)" using assms(3) by (metis dom_map_of_conv_image_fst set_map)
  with assms(1,2) have k: "map fst (canon_dict d) = map fst (canon_dict e)"
    by (simp only: map_fst_canon_dict sorted_distinct_set_unique set_sort distinct_sort sorted_sort)
  have m: "map_of (canon_dict d) = map_of (canon_dict e)"
    using assms by (auto simp: map_of_canon_dict fun_eq_iff)
  have "distinct (map fst (canon_dict d))" "distinct (map fst (canon_dict e))"
    using assms(1,2) by (simp_all only: map_fst_canon_dict distinct_sort)
  from assoc_list_by_keys [OF this(1)] assoc_list_by_keys [OF this(2)] k m show ?thesis by simp
qed

text \<open>
  The encoding does not depend on the order in which a dictionary was built: dictionaries with
  distinct keys that agree as maps have the same canonical bytes.
\<close>

theorem canonical_json_order_independent:
  assumes "distinct (map fst d)" "distinct (map fst e)" "map_of d = map_of e"
  shows "canonical_json_bytes (PDict d) = canonical_json_bytes (PDict e)"
  using canon_dict_order [OF assms] by (simp add: canonical_json_bytes_def canonical_json_def)

theorem canonical_json_order_independent_witness:
  "canonical_json_bytes (PDict [(''b'', PInt 1), (''a'', PNone)]) =
   canonical_json_bytes (PDict [(''a'', PNone), (''b'', PInt 1)])"
  by (rule canonical_json_order_independent) (auto simp: fun_eq_iff)

end
