(* ===== verification/Py_Runtime.thy ===== *)
theory Py_Runtime
  imports Canonical_Json
begin

text \<open>
  The parts of Python's runtime the services share: conversion of JSON values to integers, lists and
  text, paths, the text of exceptions, and the sequencing of stateful code. A handler is a function from a
  state to a result or an exception together with the new state; what ran before an exception stays
  done. The combinators follow the statements of the source: \<open>sbind\<close> is sequencing, \<open>sthrow\<close> is
  \<open>raise\<close>, \<open>scatch\<close> is \<open>try\<close> with \<open>except\<close>.
\<close>

section \<open>Python's \<open>str\<close>\<close>

text \<open>The representation of a string inside a container, with single quotes where possible.\<close>

definition repr_char :: "char \<Rightarrow> char \<Rightarrow> string" where
  "repr_char quote c =
     (let n = of_char c :: nat; bs = char_of (92 :: nat)
      in if c = quote \<or> n = 92 then [bs, c]
         else if n = 10 then [bs, CHR ''n'']
         else if n = 13 then [bs, CHR ''r'']
         else if n = 9 then [bs, CHR ''t'']
         else if n < 32 \<or> (127 \<le> n \<and> n \<le> 160) \<or> n = 173
           then [bs, CHR ''x'', hex_digit (n div 16), hex_digit (n mod 16)]
         else [c])"

definition py_repr_str :: "string \<Rightarrow> string" where
  "py_repr_str s =
     (let sq = char_of (39 :: nat); dq = char_of (34 :: nat);
          quote = (if sq \<in> set s \<and> dq \<notin> set s then dq else sq)
      in [quote] @ concat (map (repr_char quote) s) @ [quote])"

fun py_repr :: "pyval \<Rightarrow> string"
and py_reprs :: "pyval list \<Rightarrow> string list"
and py_repr_items :: "pydict \<Rightarrow> string list" where
  "py_repr PNone = ''None''"
| "py_repr (PBool b) = (if b then ''True'' else ''False'')"
| "py_repr (PInt i) = show_int i"
| "py_repr (PFloat q r) = r"
| "py_repr (PStr s) = py_repr_str s"
| "py_repr (PList xs) = ''['' @ py_join '', '' (py_reprs xs) @ '']''"
| "py_repr (PDict d) = ''{'' @ py_join '', '' (py_repr_items d) @ ''}''"
| "py_reprs [] = []"
| "py_reprs (x # xs) = py_repr x # py_reprs xs"
| "py_repr_items [] = []"
| "py_repr_items ((k, v) # d) = (py_repr_str k @ '': '' @ py_repr v) # py_repr_items d"

definition py_str :: "pyval \<Rightarrow> string" where
  "py_str v = (case v of PStr s \<Rightarrow> s | _ \<Rightarrow> py_repr v)"

section \<open>Conversions\<close>

text \<open>Python's \<open>int(v)\<close>, \<open>list(v)\<close> and \<open>d[k]\<close> on JSON values.\<close>

definition py_int :: "pyval \<Rightarrow> int res" where
  "py_int v =
     (case v of
        PInt i \<Rightarrow> Inr i
      | PBool b \<Rightarrow> Inr (if b then 1 else 0)
      | PFloat (Some q) r \<Rightarrow> Inr (trunc_rat q)
      | PFloat None r \<Rightarrow> if r = ''nan'' then Inl (ValueError ''cannot convert float NaN to integer'')
                        else Inl OverflowError
      | PStr s \<Rightarrow> (case int_of_text s of Some i \<Rightarrow> Inr i
                    | None \<Rightarrow> Inl (ValueError (''invalid literal for int() with base 10: '' @ py_repr_str s)))
      | _ \<Rightarrow> Inl TypeError)"

definition py_list :: "pyval \<Rightarrow> pyval list res" where
  "py_list v =
     (case v of PList xs \<Rightarrow> Inr xs | PStr s \<Rightarrow> Inr (map (\<lambda>c. PStr [c]) s)
      | PDict d \<Rightarrow> Inr (map (\<lambda>(k, _). PStr k) d) | _ \<Rightarrow> Inl TypeError)"

definition dsub :: "pydict \<Rightarrow> string \<Rightarrow> pyval res" where
  "dsub d k = (case map_of d k of None \<Rightarrow> Inl (KeyError k) | Some v \<Rightarrow> Inr v)"

definition int_item :: "pydict \<Rightarrow> string \<Rightarrow> int res" where
  "int_item d k = rbind (dsub d k) py_int"

definition list_item :: "pydict \<Rightarrow> string \<Rightarrow> pyval list res" where
  "list_item d k = rbind (dsub d k) py_list"

text \<open>\<open>dict(d.get(k, {}))\<close>.\<close>

definition dict_item :: "pydict \<Rightarrow> string \<Rightarrow> pydict res" where
  "dict_item d k =
     (case map_of d k of None \<Rightarrow> Inr [] | Some (PDict e) \<Rightarrow> Inr e | Some _ \<Rightarrow> Inl TypeError)"

section \<open>Paths\<close>

type_synonym fpath = "string list"

text \<open>The components of a path string; empty and \<open>.\<close> components are dropped.\<close>

definition path_parts :: "string \<Rightarrow> fpath" where
  "path_parts s = (if startswith s ''/'' then [''/''] else []) @ filter (\<lambda>c. c \<noteq> [] \<and> c \<noteq> ''.'') (py_split (CHR ''/'') s)"

section \<open>The text of exceptions\<close>

text \<open>The rendering shared by \<open>FrameworkError\<close> and \<open>APIError\<close>.\<close>

definition typed_error_text :: "string \<Rightarrow> string \<Rightarrow> pydict \<Rightarrow> string" where
  "typed_error_text code message details =
     (if details = [] then code @ '': '' @ message
      else code @ '': '' @ message @ '' ('' @ py_repr (PDict details) @ '')'')"

text \<open>
  \<open>str(exc)\<close>. The messages the interpreter gives its own errors are a parameter (\<open>interp_text\<close>).
\<close>

definition exc_text :: "(pyexc \<Rightarrow> string) \<Rightarrow> pyexc \<Rightarrow> string" where
  "exc_text interp_text e =
     (case e of
        ValueError m \<Rightarrow> m
      | RuntimeError m \<Rightarrow> m
      | AssertionError \<Rightarrow> []
      | KeyError k \<Rightarrow> py_repr_str k
      | FrameworkError c m d \<Rightarrow> typed_error_text c m d
      | APIError s c m d \<Rightarrow> typed_error_text c m d
      | OtherError m \<Rightarrow> m
      | _ \<Rightarrow> interp_text e)"

section \<open>Stateful code with exceptions\<close>

type_synonym ('s, 'a) prog = "'s \<Rightarrow> 'a res \<times> 's"

definition sret :: "'a \<Rightarrow> ('s, 'a) prog" where
  "sret x s = (Inr x, s)"

definition sthrow :: "pyexc \<Rightarrow> ('s, 'a) prog" where
  "sthrow e s = (Inl e, s)"

definition slift :: "'a res \<Rightarrow> ('s, 'a) prog" where
  "slift r s = (r, s)"

definition sget :: "('s \<Rightarrow> 'a) \<Rightarrow> ('s, 'a) prog" where
  "sget f s = (Inr (f s), s)"

definition supd :: "('s \<Rightarrow> 's) \<Rightarrow> ('s, unit) prog" where
  "supd f s = (Inr (), f s)"

definition sbind :: "('s, 'a) prog \<Rightarrow> ('a \<Rightarrow> ('s, 'b) prog) \<Rightarrow> ('s, 'b) prog" where
  "sbind m f s = (case m s of (r, s') \<Rightarrow> (case r of Inl e \<Rightarrow> (Inl e, s') | Inr x \<Rightarrow> f x s'))"

definition sthen :: "('s, 'a) prog \<Rightarrow> ('s, 'b) prog \<Rightarrow> ('s, 'b) prog" where
  "sthen m n = sbind m (\<lambda>_. n)"

definition scatch :: "('s, 'a) prog \<Rightarrow> (pyexc \<Rightarrow> ('s, 'a) prog) \<Rightarrow> ('s, 'a) prog" where
  "scatch m h s = (case m s of (r, s') \<Rightarrow> (case r of Inl e \<Rightarrow> h e s' | Inr x \<Rightarrow> (Inr x, s')))"

lemmas prog_defs = sret_def sthrow_def slift_def sget_def supd_def sthen_def

lemma sbind_Inr: "m s = (Inr x, s') \<Longrightarrow> sbind m f s = f x s'"
  by (simp add: sbind_def)

lemma sbind_Inl: "m s = (Inl e, s') \<Longrightarrow> sbind m f s = (Inl e, s')"
  by (simp add: sbind_def)

lemma scatch_Inr: "m s = (Inr x, s') \<Longrightarrow> scatch m h s = (Inr x, s')"
  by (simp add: scatch_def)

lemma scatch_Inl: "m s = (Inl e, s') \<Longrightarrow> scatch m h s = h e s'"
  by (simp add: scatch_def)

lemma sbind_lifted [simp]:
  "sbind (slift (Inr x)) f = f x" "sbind (slift (Inl e)) f = sthrow e" "sbind (sret x) f = f x" "sbind (sthrow e) f = sthrow e"
  by (auto simp: sbind_def prog_defs)

lemma sbind_eq_Inr:
  "sbind m f s = (Inr y, t) \<longleftrightarrow> (\<exists>x s'. m s = (Inr x, s') \<and> f x s' = (Inr y, t))"
  by (auto simp: sbind_def split: prod.splits sum.splits)

lemma sbind_eq_Inl:
  "sbind m f s = (Inl e, t) \<longleftrightarrow> m s = (Inl e, t) \<or> (\<exists>x s'. m s = (Inr x, s') \<and> f x s' = (Inl e, t))"
  by (auto simp: sbind_def split: prod.splits sum.splits)

lemma sthen_eq_Inr: "sthen m n s = (Inr y, t) \<longleftrightarrow> (\<exists>x s'. m s = (Inr x, s') \<and> n s' = (Inr y, t))"
  by (simp add: sthen_def sbind_eq_Inr)

lemma prog_basic_eq:
  "sret x s = (r, t) \<longleftrightarrow> r = Inr x \<and> t = s" "sthrow e s = (r', t) \<longleftrightarrow> r' = Inl e \<and> t = s"
  "slift q s = (r, t) \<longleftrightarrow> q = r \<and> t = s" "sget f s = (q', t) \<longleftrightarrow> q' = Inr (f s) \<and> t = s"
  "supd g s = (u, t) \<longleftrightarrow> u = Inr () \<and> t = g s"
  by (auto simp: prog_defs)

text \<open>A relation between states that is kept by the parts of a program is kept by the program.\<close>

definition keeps :: "('s \<Rightarrow> 's \<Rightarrow> bool) \<Rightarrow> ('s, 'a) prog \<Rightarrow> bool" where
  "keeps R m = (\<forall>s. R s (snd (m s)))"

lemma keeps_sbind: "transp R \<Longrightarrow> keeps R m \<Longrightarrow> (\<And>x. keeps R (f x)) \<Longrightarrow> keeps R (sbind m f)"
  unfolding keeps_def sbind_def transp_def by (auto split: prod.splits sum.splits) (metis snd_conv)+

lemma keeps_sthen: "transp R \<Longrightarrow> keeps R m \<Longrightarrow> keeps R n \<Longrightarrow> keeps R (sthen m n)"
  by (simp add: sthen_def keeps_sbind)

lemma keeps_scatch: "transp R \<Longrightarrow> keeps R m \<Longrightarrow> (\<And>e. keeps R (h e)) \<Longrightarrow> keeps R (scatch m h)"
  unfolding keeps_def scatch_def transp_def by (auto split: prod.splits sum.splits) (metis snd_conv)+

lemma keeps_basic: "reflp R \<Longrightarrow> keeps R (sret x)" "reflp R \<Longrightarrow> keeps R (sthrow e)" "reflp R \<Longrightarrow> keeps R (slift r)"
  "reflp R \<Longrightarrow> keeps R (sget g)"
  by (simp_all add: keeps_def prog_defs reflp_def)

lemmas keeps_rules = keeps_sbind keeps_sthen keeps_scatch keeps_basic

section \<open>Weakest preconditions\<close>

text \<open>
  \<open>wp m Q E s\<close>: running \<open>m\<close> from \<open>s\<close> ends with a result and state satisfying \<open>Q\<close>, or with an exception and state
  satisfying \<open>E\<close>. Programs are total, so this is total correctness. The rules compute \<open>wp\<close> over the statements.
\<close>

definition wp :: "('s, 'a) prog \<Rightarrow> ('a \<Rightarrow> 's \<Rightarrow> bool) \<Rightarrow> (pyexc \<Rightarrow> 's \<Rightarrow> bool) \<Rightarrow> 's \<Rightarrow> bool" where
  "wp m Q E s = (case m s of (r, t) \<Rightarrow> (case r of Inl e \<Rightarrow> E e t | Inr x \<Rightarrow> Q x t))"

lemma wp_rules [simp]:
  "wp (sret x) Q E = Q x"
  "wp (sthrow e) Q E = E e"
  "wp (slift r) Q E = (\<lambda>s. case r of Inl e \<Rightarrow> E e s | Inr x \<Rightarrow> Q x s)"
  "wp (sget g) Q E = (\<lambda>s. Q (g s) s)"
  "wp (supd f) Q' E = (\<lambda>s. Q' () (f s))"
  by (simp_all add: wp_def prog_defs fun_eq_iff split: sum.splits)

lemma wp_sbind [simp]: "wp (sbind m f) Q E = wp m (\<lambda>x. wp (f x) Q E) E"
  by (simp add: wp_def sbind_def fun_eq_iff split: prod.splits sum.splits)

lemma wp_sthen [simp]: "wp (sthen m n) Q E = wp m (\<lambda>_. wp n Q E) E"
  by (simp add: sthen_def)

lemma wp_scatch [simp]: "wp (scatch m h) Q E = wp m Q (\<lambda>e. wp (h e) Q E)"
  by (simp add: wp_def scatch_def fun_eq_iff split: prod.splits sum.splits)

lemma wp_mono:
  assumes "wp m Q E s" "\<And>x t. Q x t \<Longrightarrow> Q' x t" "\<And>e t. E e t \<Longrightarrow> E' e t"
  shows "wp m Q' E' s"
  using assms by (auto simp: wp_def split: prod.splits sum.splits)

lemma wp_run: "wp m Q E s \<Longrightarrow> m s = (r, t) \<Longrightarrow> (case r of Inl e \<Rightarrow> E e t | Inr x \<Rightarrow> Q x t)"
  by (simp add: wp_def)

end
