(* ===== verification/Reference_Policies.thy ===== *)
theory Reference_Policies
  imports Batcher Circom_Semantics Py_Runtime
begin

text \<open>
  The reference track: the class every generated policy module instantiates (the template in
  \<open>render_python_source\<close>), the four policies that ship in \<open>vellum_core/policies/generated\<close>, and the
  contract of \<open>vellum_core/policies/base.py\<close> as the locale \<open>reference_contract\<close>. A policy object is a
  record of its four methods over JSON values; \<open>validate\<close> is \<open>normalize\<close> with the result dropped.

  The lemmas show that every shipped policy meets the contract (normalised evidence is evaluated
  without error and the projected decision output agrees with the decision), and that what the
  generated class hands to the prover is a batch on which the circuit of the same specification
  runs and decides as the class does.
\<close>

section \<open>Evidence errors\<close>

definition invalid_evidence :: "string \<Rightarrow> pydict \<Rightarrow> pyexc" where
  "invalid_evidence msg details = FrameworkError ''invalid_evidence_payload'' msg details"

section \<open>Policy objects and their contract\<close>

datatype policy_decision = Pass | Fail

definition decide :: "bool \<Rightarrow> policy_decision" where
  "decide b = (if b then Pass else Fail)"

lemma decide_inj [simp]: "decide a = decide b \<longleftrightarrow> a = b"
  by (simp add: decide_def)

record reference_policy =
  rp_reference_policy :: string
  rp_normalize :: "pydict \<Rightarrow> pydict res"
  rp_to_private_input :: "pydict \<Rightarrow> pydict res"
  rp_evaluate_reference :: "pydict \<Rightarrow> policy_decision res"
  rp_project_public_outputs :: "pydict \<Rightarrow> pydict res"

definition rp_validate :: "reference_policy \<Rightarrow> pydict \<Rightarrow> unit res" where
  "rp_validate p evidence = rbind (rp_normalize p evidence) (\<lambda>_. Inr ())"

section \<open>The generated class\<close>

record policy_class =
  pc_reference_policy :: string
  pc_policy_id :: string
  pc_batch_size :: nat
  pc_param_order :: "string list"
  pc_param_specs :: "(string \<times> param_spec) list"
  pc_decision :: pyexpr
  pc_outputs :: "(string \<times> output_spec) list"

text \<open>The class the template yields for a specification whose decision denotes \<open>b\<close>.\<close>

definition class_of_spec :: "policy_spec \<Rightarrow> bexp \<Rightarrow> policy_class" where
  "class_of_spec s b =
     \<lparr>pc_reference_policy = sp_reference_policy s, pc_policy_id = sp_policy_id s,
      pc_batch_size = sp_batch_size s, pc_param_order = map fst (sp_policy_parameters s),
      pc_param_specs = sp_policy_parameters s, pc_decision = python_decision s b,
      pc_outputs = sp_outputs s\<rparr>"

definition decision_uses_policy_params :: "policy_class \<Rightarrow> bool" where
  "decision_uses_policy_params c = contains ''policy_params['' (show_pyexpr (pc_decision c))"

definition project_outputs_uses_policy_params :: "policy_class \<Rightarrow> bool" where
  "project_outputs_uses_policy_params c =
     (decision_uses_policy_params c \<or>
      list_ex (\<lambda>(_, out). os_expr out = ''policy_params_hash'') (pc_outputs c))"

definition resolve_parameter :: "policy_class \<Rightarrow> pydict \<Rightarrow> string \<Rightarrow> (string \<times> pyval) res" where
  "resolve_parameter c payload name =
     (case map_of (pc_param_specs c) name of
        None \<Rightarrow> Inl (KeyError name)
      | Some spec \<Rightarrow>
          (let v = (case map_of payload name of
                      Some w \<Rightarrow> w
                    | None \<Rightarrow> (case ps_default spec of None \<Rightarrow> PNone | Some i \<Rightarrow> PInt i))
           in if v = PNone
              then Inl (invalid_evidence ''policy_parameters missing required key'' [(''key'', PStr name)])
              else case as_strict_int v of
                     None \<Rightarrow> Inl (invalid_evidence ''policy_parameters values must be integers''
                                    [(''key'', PStr name), (''value'', v)])
                   | Some i \<Rightarrow>
                       (if (case ps_minimum spec of None \<Rightarrow> False | Some m \<Rightarrow> i < m)
                        then Inl (invalid_evidence ''policy_parameters value below minimum''
                               [(''key'', PStr name), (''minimum'', PInt (the (ps_minimum spec))), (''value'', v)])
                        else if (case ps_maximum spec of None \<Rightarrow> False | Some m \<Rightarrow> i > m)
                        then Inl (invalid_evidence ''policy_parameters value above maximum''
                               [(''key'', PStr name), (''maximum'', PInt (the (ps_maximum spec))), (''value'', v)])
                        else Inr (name, PInt i))))"

definition resolve_policy_parameters :: "policy_class \<Rightarrow> pyval \<Rightarrow> pydict res" where
  "resolve_policy_parameters c payload =
     (if pc_param_order c = [] then Inr []
      else case (if payload = PNone then PDict [] else payload) of
             PDict d \<Rightarrow>
               (let unknown = sort (remdups (filter (\<lambda>k. k \<notin> set (pc_param_order c)) (map fst d)))
                in if unknown \<noteq> []
                   then Inl (invalid_evidence ''policy_parameters contains unknown keys''
                          [(''unknown'', PList (map PStr unknown))])
                   else rfold (\<lambda>resolved name.
                          rbind (resolve_parameter c d name) (\<lambda>(k, v). Inr (dput k v resolved)))
                        [] (pc_param_order c))
           | _ \<Rightarrow> Inl (invalid_evidence ''policy_parameters must be an object'' []))"

text \<open>\<open>except ValueError\<close> around the batch preparation.\<close>

definition batch_failure :: "prepared_batch res \<Rightarrow> prepared_batch res" where
  "batch_failure r =
     (case r of
        Inl (ValueError m) \<Rightarrow>
          Inl (invalid_evidence ''Evidence payload failed batch validation'' [(''reason'', PStr m)])
      | _ \<Rightarrow> r)"

definition gen_normalize :: "policy_class \<Rightarrow> pydict \<Rightarrow> pydict res" where
  "gen_normalize c evidence =
     rbind (resolve_policy_parameters c (dget evidence ''policy_parameters'')) (\<lambda>policy_params.
     (case dget evidence ''private_input'' of
        PDict private_input \<Rightarrow>
          rbind (batch_failure (batch_prepare_from_private_input private_input)) (\<lambda>prepared.
          Inr (dput ''policy_parameters'' (PDict policy_params) (to_circuit_input prepared)))
      | _ \<Rightarrow>
          rbind (require_integer_list ''balances'' (dget evidence ''balances'') (Some 0) (Some MAX_UINT32)) (\<lambda>balances.
          rbind (require_integer_list ''limits'' (dget evidence ''limits'') (Some 0) (Some MAX_UINT32)) (\<lambda>limits.
          rbind (batch_failure (batch_prepare_input (map PInt balances) (map PInt limits) (int (pc_batch_size c))))
            (\<lambda>prepared.
          Inr (dput ''policy_parameters'' (PDict policy_params) (to_circuit_input prepared)))))))"

definition gen_to_private_input :: "(string \<Rightarrow> string) \<Rightarrow> policy_class \<Rightarrow> pydict \<Rightarrow> pydict res" where
  "gen_to_private_input sha256 c ev =
     rbind (list_item ev ''balances'') (\<lambda>balances.
     rbind (list_item ev ''limits'') (\<lambda>limits.
     rbind (int_item ev ''active_count'') (\<lambda>active_count.
     let base = [(''balances'', PList balances), (''limits'', PList limits),
                 (''active_count'', PInt active_count)]
     in if pc_param_order c = [] then Inr base
        else rbind (dict_item ev ''policy_parameters'') (\<lambda>policy_params.
             rbind (rmap (\<lambda>name. int_item policy_params name) (pc_param_order c)) (\<lambda>values.
             Inr (base @ [(''policy_params'', PList (map PInt values)),
                          (''expected_policy_params_hash'',
                           PStr (compute_policy_params_hash sha256 policy_params))]))))))"

text \<open>The environment the decision expression is evaluated in.\<close>

definition strict_ints :: "pyval list \<Rightarrow> int list res" where
  "strict_ints vs = rmap (\<lambda>v. case as_strict_int v of Some i \<Rightarrow> Inr i | None \<Rightarrow> Inl TypeError) vs"

definition gen_env :: "policy_class \<Rightarrow> bool \<Rightarrow> pydict \<Rightarrow> py_env res" where
  "gen_env c with_params ev =
     rbind (int_item ev ''active_count'') (\<lambda>active_count.
     rbind (rbind (list_item ev ''balances'') strict_ints) (\<lambda>balances.
     rbind (rbind (list_item ev ''limits'') strict_ints) (\<lambda>limits.
     rbind (if with_params then dict_item ev ''policy_parameters'' else Inr []) (\<lambda>policy_params.
     rbind (strict_ints (map snd policy_params)) (\<lambda>values.
     Inr \<lparr>pe_balances = balances, pe_limits = limits, pe_active = nat active_count,
          pe_params = zip (map fst policy_params) values\<rparr>)))))"

definition gen_decision :: "policy_class \<Rightarrow> bool \<Rightarrow> pydict \<Rightarrow> bool res" where
  "gen_decision c with_params ev =
     rbind (gen_env c with_params ev) (\<lambda>E. py_eval E (\<lambda>_. 0) (pc_decision c))"

definition gen_evaluate_reference :: "policy_class \<Rightarrow> pydict \<Rightarrow> policy_decision res" where
  "gen_evaluate_reference c ev =
     rbind (gen_decision c (decision_uses_policy_params c) ev) (\<lambda>b. Inr (decide b))"

definition gen_output ::
  "(string \<Rightarrow> string) \<Rightarrow> bool \<Rightarrow> int \<Rightarrow> pydict \<Rightarrow> string \<times> output_spec \<Rightarrow> (string \<times> pyval) res" where
  "gen_output sha256 all_valid active_count policy_params out =
     (case out of (name, o_spec) \<Rightarrow>
        if os_expr o_spec = ''decision'' then Inr (name, PBool all_valid)
        else if os_expr o_spec = ''active_count'' then Inr (name, PInt active_count)
        else if os_expr o_spec = ''policy_params_hash''
          then Inr (name, PStr (compute_policy_params_hash sha256 policy_params))
        else Inl (OtherError ''SyntaxError''))"

definition gen_project_public_outputs :: "(string \<Rightarrow> string) \<Rightarrow> policy_class \<Rightarrow> pydict \<Rightarrow> pydict res" where
  "gen_project_public_outputs sha256 c ev =
     (let with_params = project_outputs_uses_policy_params c
      in rbind (gen_decision c with_params ev) (\<lambda>all_valid.
         rbind (int_item ev ''active_count'') (\<lambda>active_count.
         rbind (if with_params then dict_item ev ''policy_parameters'' else Inr []) (\<lambda>policy_params.
         rmap (gen_output sha256 all_valid active_count policy_params) (pc_outputs c)))))"

definition policy_of_class :: "(string \<Rightarrow> string) \<Rightarrow> policy_class \<Rightarrow> reference_policy" where
  "policy_of_class sha256 c =
     \<lparr>rp_reference_policy = pc_reference_policy c, rp_normalize = gen_normalize c,
      rp_to_private_input = gen_to_private_input sha256 c,
      rp_evaluate_reference = gen_evaluate_reference c,
      rp_project_public_outputs = gen_project_public_outputs sha256 c\<rparr>"


section \<open>The shipped policies\<close>

text \<open>The constants of the two committed lending modules.\<close>

definition lending_risk_class :: policy_class where
  "lending_risk_class =
     \<lparr>pc_reference_policy = ''lending_risk_reference_v1'', pc_policy_id = ''lending_risk_v1'',
      pc_batch_size = 250, pc_param_order = [], pc_param_specs = [],
      pc_decision = PyAll 0 (PyCmp OpGt (PyBalance 0) (PyLimit 0)),
      pc_outputs = [(''all_valid'', \<lparr>os_expr = ''decision'', os_value_type = TBool, os_signal_index = 0\<rparr>),
                    (''active_count_out'', \<lparr>os_expr = ''active_count'', os_value_type = TInt, os_signal_index = 1\<rparr>)]\<rparr>"

definition lending_risk_portfolio_class :: policy_class where
  "lending_risk_portfolio_class =
     \<lparr>pc_reference_policy = ''lending_risk_portfolio_reference_v1'', pc_policy_id = ''lending_risk_portfolio_v1'',
      pc_batch_size = 250, pc_param_order = [], pc_param_specs = [],
      pc_decision = PyAll 0 (PyCmp OpGt (PyBalance 0) (PyLimit 0)),
      pc_outputs = [(''all_valid'', \<lparr>os_expr = ''decision'', os_value_type = TBool, os_signal_index = 0\<rparr>),
                    (''active_count_out'', \<lparr>os_expr = ''active_count'', os_value_type = TInt, os_signal_index = 1\<rparr>)]\<rparr>"

definition evidence_source :: "pydict \<Rightarrow> pydict" where
  "evidence_source evidence =
     (case dget evidence ''private_input'' of PDict d \<Rightarrow> d | _ \<Rightarrow> evidence)"

definition strict_int_field :: "pydict \<Rightarrow> string \<Rightarrow> int res" where
  "strict_int_field d field =
     (case as_strict_int (dget d field) of
        Some i \<Rightarrow> Inr i
      | None \<Rightarrow> Inl (invalid_evidence (field @ '' must be integer'') [(''field'', PStr field)]))"

definition bounded_field :: "string \<Rightarrow> int \<Rightarrow> int \<Rightarrow> unit res" where
  "bounded_field field v maximum =
     rcheck (0 \<le> v \<and> v \<le> maximum)
       (invalid_evidence (field @ '' out of bounds'') [(''field'', PStr field)])"

definition zk_kyc_normalize :: "pydict \<Rightarrow> pydict res" where
  "zk_kyc_normalize evidence =
     (let d = evidence_source evidence
      in rbind (strict_int_field d ''age'') (\<lambda>age.
         rbind (strict_int_field d ''country_code'') (\<lambda>country_code.
         rbind (strict_int_field d ''min_age'') (\<lambda>min_age.
         rbind (strict_int_field d ''allowed_country_code'') (\<lambda>allowed_country_code.
         rbind (bounded_field ''age'' age 130) (\<lambda>_.
         rbind (bounded_field ''min_age'' min_age 130) (\<lambda>_.
         rbind (bounded_field ''country_code'' country_code 999) (\<lambda>_.
         rbind (bounded_field ''allowed_country_code'' allowed_country_code 999) (\<lambda>_.
         Inr [(''age'', PInt age), (''country_code'', PInt country_code), (''min_age'', PInt min_age),
              (''allowed_country_code'', PInt allowed_country_code)])))))))))"

definition zk_kyc_to_private_input :: "pydict \<Rightarrow> pydict res" where
  "zk_kyc_to_private_input ev =
     rbind (int_item ev ''age'') (\<lambda>age.
     rbind (int_item ev ''country_code'') (\<lambda>country_code.
     rbind (int_item ev ''min_age'') (\<lambda>min_age.
     rbind (int_item ev ''allowed_country_code'') (\<lambda>allowed_country_code.
     Inr [(''age'', PInt age), (''country_code'', PInt country_code), (''min_age'', PInt min_age),
          (''allowed_country_code'', PInt allowed_country_code)]))))"

definition zk_kyc_passed :: "pydict \<Rightarrow> bool res" where
  "zk_kyc_passed ev =
     rbind (int_item ev ''age'') (\<lambda>age.
     rbind (int_item ev ''country_code'') (\<lambda>country_code.
     rbind (int_item ev ''min_age'') (\<lambda>min_age.
     rbind (int_item ev ''allowed_country_code'') (\<lambda>allowed_country_code.
     Inr (age \<ge> min_age \<and> country_code = allowed_country_code)))))"

definition zk_kyc_policy :: reference_policy where
  "zk_kyc_policy =
     \<lparr>rp_reference_policy = ''zk_kyc_reference_v1'', rp_normalize = zk_kyc_normalize,
      rp_to_private_input = zk_kyc_to_private_input,
      rp_evaluate_reference = (\<lambda>ev. rbind (zk_kyc_passed ev) (\<lambda>b. Inr (decide b))),
      rp_project_public_outputs = (\<lambda>ev. rbind (zk_kyc_passed ev) (\<lambda>b. Inr [(''kyc_ok'', PBool b)]))\<rparr>"

definition proof_of_reserves_normalize :: "pydict \<Rightarrow> pydict res" where
  "proof_of_reserves_normalize evidence =
     (let d = evidence_source evidence
      in rbind (strict_int_field d ''liabilities'') (\<lambda>liabilities.
         rbind (strict_int_field d ''assets'') (\<lambda>assets.
         if liabilities < 0 \<or> assets < 0
         then Inl (invalid_evidence ''liabilities/assets must be non-negative'' [])
         else Inr [(''liabilities'', PInt liabilities), (''assets'', PInt assets)])))"

definition proof_of_reserves_to_private_input :: "pydict \<Rightarrow> pydict res" where
  "proof_of_reserves_to_private_input ev =
     rbind (int_item ev ''liabilities'') (\<lambda>liabilities.
     rbind (int_item ev ''assets'') (\<lambda>assets.
     Inr [(''liabilities'', PInt liabilities), (''assets'', PInt assets)]))"

definition proof_of_reserves_solvent :: "pydict \<Rightarrow> bool res" where
  "proof_of_reserves_solvent ev =
     rbind (int_item ev ''liabilities'') (\<lambda>liabilities.
     rbind (int_item ev ''assets'') (\<lambda>assets. Inr (liabilities \<le> assets)))"

definition proof_of_reserves_policy :: reference_policy where
  "proof_of_reserves_policy =
     \<lparr>rp_reference_policy = ''proof_of_reserves_reference_v1'', rp_normalize = proof_of_reserves_normalize,
      rp_to_private_input = proof_of_reserves_to_private_input,
      rp_evaluate_reference = (\<lambda>ev. rbind (proof_of_reserves_solvent ev) (\<lambda>b. Inr (decide b))),
      rp_project_public_outputs =
        (\<lambda>ev. rbind (proof_of_reserves_solvent ev) (\<lambda>b. Inr [(''solvency_ok'', PBool b)]))\<rparr>"

section \<open>The registry\<close>

text \<open>
  The objects found in the package, in the order the modules are listed; a later module replaces an
  earlier one with the same identifier, and a blank identifier is skipped.
\<close>

definition build_reference_registry :: "reference_policy list \<Rightarrow> (string \<times> reference_policy) list" where
  "build_reference_registry policies =
     fold (\<lambda>p reg. if py_strip (rp_reference_policy p) \<noteq> [] then dput (rp_reference_policy p) p reg else reg)
       policies []"

definition generated_policies :: "(string \<Rightarrow> string) \<Rightarrow> reference_policy list" where
  "generated_policies sha256 =
     [policy_of_class sha256 lending_risk_portfolio_class, policy_of_class sha256 lending_risk_class,
      proof_of_reserves_policy, zk_kyc_policy]"

text \<open>The lazily loaded registry: the state is the loaded table, if any.\<close>

definition registry_load ::
  "reference_policy list \<Rightarrow> (string \<times> reference_policy) list option \<Rightarrow> (string \<times> reference_policy) list" where
  "registry_load policies st = (case st of None \<Rightarrow> build_reference_registry policies | Some r \<Rightarrow> r)"

definition get_reference_policy ::
  "reference_policy list \<Rightarrow> (string \<times> reference_policy) list option \<Rightarrow> string \<Rightarrow>
   (reference_policy res \<times> (string \<times> reference_policy) list option)" where
  "get_reference_policy policies st reference_policy =
     (let reg = registry_load policies st
      in (case map_of reg reference_policy of
            None \<Rightarrow> Inl (FrameworkError ''reference_policy_missing''
                          ''No Python reference policy implementation found''
                          [(''reference_policy'', PStr reference_policy)])
          | Some p \<Rightarrow> Inr p, Some reg))"

definition registry_refresh ::
  "reference_policy list \<Rightarrow> (string \<times> reference_policy) list option" where
  "registry_refresh policies = Some (build_reference_registry policies)"

definition list_reference_policies ::
  "reference_policy list \<Rightarrow> (string \<times> reference_policy) list option \<Rightarrow> string list" where
  "list_reference_policies policies st = sort (map fst (registry_load policies st))"


section \<open>Normalised evidence of the generated class\<close>

lemma py_int_simps [simp]: "py_int (PInt i) = Inr i" "py_int (PBool b) = Inr (if b then 1 else 0)"
  by (simp_all add: py_int_def)

lemma py_list_PList [simp]: "py_list (PList xs) = Inr xs"
  by (simp add: py_list_def)

lemma int_item_Cons [simp]: "int_item ((j, v) # d) k = (if j = k then py_int v else int_item d k)"
  by (simp add: int_item_def dsub_def)

lemma list_item_Cons [simp]: "list_item ((j, v) # d) k = (if j = k then py_list v else list_item d k)"
  by (simp add: list_item_def dsub_def)

lemma dict_item_Cons [simp]: "dict_item ((j, PDict e) # d) k = (if j = k then Inr e else dict_item d k)"
  "j \<noteq> k \<Longrightarrow> dict_item ((j, v) # d) k = dict_item d k"
  by (simp_all add: dict_item_def)

lemma batch_failure_Inr [simp]: "batch_failure r = Inr p \<longleftrightarrow> r = Inr p"
  by (auto simp: batch_failure_def split: sum.splits pyexc.splits)

lemma u32_list_ints: "list_all is_u32 vs \<Longrightarrow> \<exists>xs. vs = map PInt xs \<and> list_all (bits 32) xs"
proof (induction vs)
  case (Cons v vs)
  then obtain xs where "vs = map PInt xs" "list_all (bits 32) xs" by auto
  moreover from Cons obtain i where "v = PInt i" "0 \<le> i" "i \<le> MAX_UINT32" by (auto elim: is_u32_E)
  moreover then have "bits 32 i" by (simp add: bits_def MAX_UINT32_def)
  ultimately show ?case by (intro exI [of _ "i # xs"]) simp
qed simp

lemma strict_ints_PInt [simp]: "strict_ints (map PInt xs) = Inr xs"
  unfolding strict_ints_def by (induction xs) auto

lemma strict_ints_Nil [simp]: "strict_ints [] = Inr []"
  by (simp add: strict_ints_def)

text \<open>A normalised batch of \<open>N\<close> rows with its active count and resolved parameters.\<close>

definition normalized_batch :: "nat \<Rightarrow> int list \<Rightarrow> int list \<Rightarrow> nat \<Rightarrow> pydict \<Rightarrow> pydict \<Rightarrow> bool" where
  "normalized_batch N bals lims a params n =
     (\<exists>av. n = [(''balances'', PList (map PInt bals)), (''limits'', PList (map PInt lims)),
                (''active_count'', av), (''policy_parameters'', PDict params)] \<and>
           py_int av = Inr (int a) \<and> 1 \<le> a \<and> a \<le> N \<and> length bals = N \<and> length lims = N \<and>
           list_all (bits 32) bals \<and> list_all (bits 32) lims \<and>
           list_all (\<lambda>x. x = 0) (drop a bals) \<and> list_all (\<lambda>x. x = 0) (drop a lims))"

lemma batch_wf_normalized:
  assumes "batch_wf N p"
  shows "\<exists>bals lims a. normalized_batch N bals lims a params
           (dput ''policy_parameters'' (PDict params) (to_circuit_input p))"
proof -
  from assms obtain i where i: "as_int_or_bool (pb_active_count p) = Some i" "1 \<le> i" "i \<le> int N"
    and u: "list_all is_u32 (pb_balances p)" "list_all is_u32 (pb_limits p)"
    and len: "length (pb_balances p) = N" "length (pb_limits p) = N"
    and z: "list_all (\<lambda>v. v = PInt 0) (drop (nat i) (pb_balances p))"
      "list_all (\<lambda>v. v = PInt 0) (drop (nat i) (pb_limits p))"
    by (auto simp: batch_wf_def split: option.splits)
  from u32_list_ints [OF u(1)] u32_list_ints [OF u(2)] obtain bals lims where
    b: "pb_balances p = map PInt bals" "list_all (bits 32) bals" "pb_limits p = map PInt lims" "list_all (bits 32) lims"
    by blast
  have "py_int (pb_active_count p) = Inr i" using i(1) by (cases "pb_active_count p") auto
  with i b len z show ?thesis
    by (intro exI [of _ bals] exI [of _ lims] exI [of _ "nat i"])
       (auto simp: normalized_batch_def to_circuit_input_def drop_map list_all_iff)
qed

lemma gen_normalize_shape:
  assumes "gen_normalize c ev = Inr n"
  shows "\<exists>N bals lims a params. normalized_batch N bals lims a params n \<and>
     resolve_policy_parameters c (dget ev ''policy_parameters'') = Inr params \<and>
     (N = pc_batch_size c \<or> N = MAX_BATCH_SIZE)"
proof -
  have "\<exists>params p. resolve_policy_parameters c (dget ev ''policy_parameters'') = Inr params \<and>
      n = dput ''policy_parameters'' (PDict params) (to_circuit_input p) \<and>
      (batch_wf (pc_batch_size c) p \<or> batch_wf MAX_BATCH_SIZE p)"
    using assms batch_prepare_input_wf [of _ _ "int (pc_batch_size c)"]
    unfolding gen_normalize_def
    by (cases "dget ev ''private_input''")
       (fastforce simp: rbind_eq_Inr batch_prepare_from_private_input_cases)+
  then show ?thesis using batch_wf_normalized by metis
qed


section \<open>Resolved parameters\<close>

lemma resolve_parameter_Inr:
  "resolve_parameter c d name = Inr (k, v) \<Longrightarrow>
   k = name \<and> (\<exists>i spec. v = PInt i \<and> map_of (pc_param_specs c) name = Some spec \<and>
     (\<forall>m. ps_minimum spec = Some m \<longrightarrow> m \<le> i) \<and> (\<forall>m. ps_maximum spec = Some m \<longrightarrow> i \<le> m))"
  by (auto simp: resolve_parameter_def Let_def split: option.splits if_splits dest!: as_strict_int_Some)

definition param_within :: "policy_class \<Rightarrow> string \<Rightarrow> pyval \<Rightarrow> bool" where
  "param_within c k v =
     (case (as_strict_int v, map_of (pc_param_specs c) k) of
        (Some i, Some spec) \<Rightarrow>
          (case ps_minimum spec of None \<Rightarrow> True | Some m \<Rightarrow> m \<le> i) \<and>
          (case ps_maximum spec of None \<Rightarrow> True | Some m \<Rightarrow> i \<le> m)
      | _ \<Rightarrow> False)"

lemma resolve_parameter_within:
  "resolve_parameter c d name = Inr (k, v) \<Longrightarrow> k = name \<and> param_within c k v"
  using resolve_parameter_Inr [of c d name k v] by (auto simp: param_within_def split: option.splits)

definition params_resolved :: "policy_class \<Rightarrow> string set \<Rightarrow> pydict \<Rightarrow> bool" where
  "params_resolved c names d =
     (set (map fst d) = names \<and> distinct (map fst d) \<and> (\<forall>(k, v) \<in> set d. param_within c k v))"

lemma params_resolved_dput:
  assumes "params_resolved c names d" "param_within c k v"
  shows "params_resolved c (insert k names) (dput k v d)"
proof -
  have "\<forall>(j, w) \<in> set (dput k v d). param_within c j w"
    using assms by (auto simp: params_resolved_def dest!: set_dput)
  then show ?thesis using assms by (auto simp: params_resolved_def keys_dput distinct_dput)
qed

lemma rfold_params_resolved:
  "rfold (\<lambda>resolved name. rbind (resolve_parameter c d name) (\<lambda>(k, v). Inr (dput k v resolved))) acc names = Inr r \<Longrightarrow>
   params_resolved c S acc \<Longrightarrow> params_resolved c (S \<union> set names) r"
proof (induction names arbitrary: acc S)
  case (Cons name names)
  then obtain k v where kv: "resolve_parameter c d name = Inr (k, v)"
    and rest: "rfold (\<lambda>resolved name. rbind (resolve_parameter c d name) (\<lambda>(k, v). Inr (dput k v resolved)))
      (dput k v acc) names = Inr r"
    by (auto simp: rbind_eq_Inr)
  from resolve_parameter_within [OF kv] Cons.prems(2)
  have "params_resolved c (insert name S) (dput k v acc)" by (auto intro: params_resolved_dput)
  from Cons.IH [OF rest this] show ?case by simp
qed simp

lemma resolve_params_resolved:
  assumes "resolve_policy_parameters c payload = Inr r"
  shows "params_resolved c (set (pc_param_order c)) r"
proof (cases "pc_param_order c = []")
  case True
  with assms show ?thesis by (simp add: resolve_policy_parameters_def params_resolved_def)
next
  case False
  with assms obtain d where
    "rfold (\<lambda>resolved name. rbind (resolve_parameter c d name) (\<lambda>(k, v). Inr (dput k v resolved))) [] (pc_param_order c) = Inr r"
    by (auto simp: resolve_policy_parameters_def Let_def split: pyval.splits if_splits)
  from rfold_params_resolved [OF this, of "{}"] show ?thesis by (simp add: params_resolved_def)
qed

lemma param_within_PInt: "param_within c k v \<Longrightarrow> \<exists>i. v = PInt i"
  by (cases v) (auto simp: param_within_def)

lemma params_resolved_ints:
  assumes "params_resolved c names d"
  shows "\<exists>is. map snd d = map PInt is"
proof -
  have "\<exists>i. v = PInt i" if "v \<in> set (map snd d)" for v
    using assms that param_within_PInt unfolding params_resolved_def by auto
  then have "\<forall>v \<in> set (map snd d). \<exists>i. v = PInt i" by blast
  then show ?thesis by (simp only: ex_map_conv)
qed

section \<open>Which decisions read parameters\<close>

lemma contains_join: "x \<in> set xs \<Longrightarrow> contains p x \<Longrightarrow> contains p (py_join sep xs)"
proof (induction sep xs rule: py_join.induct)
  case (3 sep w v vs)
  show ?case
  proof (cases "x = w")
    case True
    with 3(3) contains_append [of p x "[]" "sep @ py_join sep (v # vs)"] show ?thesis by simp
  next
    case False
    with 3 have "contains p (py_join sep (v # vs))" by auto
    from contains_append [OF this, of "w @ sep" "[]"] show ?thesis by simp
  qed
qed auto

lemma contains_infix: "contains p s \<Longrightarrow> contains p (u @ s @ v)" "contains p s \<Longrightarrow> contains p (s @ v)"
  "contains p s \<Longrightarrow> contains p (u @ s)"
  using contains_append [of p s u v] contains_append [of p s "[]" v] contains_append [of p s u "[]"] by auto

lemma contains_prefix: "contains p (p @ s)"
  using contains_iff by (metis append_Nil)

lemma vexp_param_text:
  "vexp_ok names x \<Longrightarrow> vexp_ok {} x \<or> contains ''policy_params['' (show_pyvexp (py_of_vexp i x))"
  by (cases x) (use contains_prefix [of "''policy_params[''"] in auto)

lemma cmp_param_text:
  assumes "vexp_ok names a" "vexp_ok names b" "\<not> (vexp_ok {} a \<and> vexp_ok {} b)"
  shows "contains ''policy_params['' (show_pyexpr (PyCmp op (py_of_vexp i a) (py_of_vexp i b)))"
proof -
  from assms vexp_param_text [of names a i] vexp_param_text [of names b i]
  consider "contains ''policy_params['' (show_pyvexp (py_of_vexp i a))"
    | "contains ''policy_params['' (show_pyvexp (py_of_vexp i b))" by blast
  then show ?thesis
    by cases (simp_all only: show_pyexpr.simps contains_infix)
qed

lemma contains_parens:
  "t \<in> set ts \<Longrightarrow> contains p (f t) \<Longrightarrow> contains p (CHR ''('' # py_join sep (map f ts) @ '')'')"
  using contains_infix(1) [OF contains_join [of "f t" "map f ts" p sep], of "''(''" "'')''"] by simp

lemma bexp_param_text:
  "bexp_ok names b \<Longrightarrow> bexp_ok {} b \<or> contains ''policy_params['' (show_pyexpr (fst (py_of_bexp b i n)))"
  "list_all (bexp_ok names) bs \<Longrightarrow> list_all (bexp_ok {}) bs \<or>
     (\<exists>t \<in> set (fst (py_of_bexps bs i n)). contains ''policy_params['' (show_pyexpr t))"
proof (induction b i n and bs i n rule: py_of_bexp_py_of_bexps.induct)
  case (1 op a b i n)
  then show ?case using cmp_param_text [of names a b op i] by auto
next
  case (2 bs i n)
  then show ?case
    by (auto simp: Let_def simp del: contains.simps split: prod.splits dest: contains_parens)
next
  case (3 bs i n)
  then show ?case
    by (auto simp: Let_def simp del: contains.simps split: prod.splits dest: contains_parens)
next
  case (4 b i n)
  then show ?case
    using contains_infix(1) [of "''policy_params[''" "show_pyexpr (fst (py_of_bexp b i n))" "''(not (''" "''))''"]
    by (auto simp: Let_def simp del: contains.simps split: prod.splits)
next
  case (5 b i n)
  then show ?case
    using contains_infix(1) [of "''policy_params[''" "show_pyexpr (fst (py_of_bexp b n (Suc n)))" "''all((''"
      "'') for '' @ idx_name n @ '' in range(active_count))''"]
    by (auto simp: Let_def simp del: contains.simps split: prod.splits)
next
  case (6 b i n)
  then show ?case
    using contains_infix(1) [of "''policy_params[''" "show_pyexpr (fst (py_of_bexp b n (Suc n)))" "''any((''"
      "'') for '' @ idx_name n @ '' in range(active_count))''"]
    by (auto simp: Let_def simp del: contains.simps split: prod.splits)
qed (auto simp: Let_def split: prod.splits)


section \<open>The generated class decides as the specification\<close>

definition int_params :: "pydict \<Rightarrow> (string \<times> int) list" where
  "int_params d = map (\<lambda>(k, v). (k, case as_strict_int v of Some i \<Rightarrow> i | None \<Rightarrow> 0)) d"

definition batch_env :: "int list \<Rightarrow> int list \<Rightarrow> nat \<Rightarrow> pydict \<Rightarrow> py_env" where
  "batch_env bals lims a params =
     \<lparr>pe_balances = bals, pe_limits = lims, pe_active = a, pe_params = int_params params\<rparr>"

lemma int_params_zip: "map snd d = map PInt xs \<Longrightarrow> zip (map fst d) xs = int_params d"
  by (induction d arbitrary: xs) (auto simp: int_params_def Cons_eq_map_conv)

lemma dom_int_params: "dom (map_of (int_params d)) = set (map fst d)"
  by (simp add: dom_map_of_conv_image_fst int_params_def image_image case_prod_beta)

lemma gen_env_normalized:
  assumes n: "normalized_batch N bals lims a params n" and r: "params_resolved c names params"
  shows "gen_env c w n = Inr (batch_env bals lims a (if w then params else []))"
proof -
  obtain xs where xs: "map snd params = map PInt xs" using params_resolved_ints [OF r] by blast
  from n show ?thesis
    by (auto simp: normalized_batch_def gen_env_def batch_env_def xs int_params_zip [OF xs]
        int_params_def [of "[]"])
qed

lemma veval_no_params: "vexp_ok {} x \<Longrightarrow> veval (env\<lparr>env_params := f\<rparr>) i x = veval env i x"
  by (cases x) auto

lemma beval_no_params: "bexp_ok {} b \<Longrightarrow> beval (env\<lparr>env_params := f\<rparr>) i b = beval env i b"
  by (induction b arbitrary: i) (auto simp: veval_no_params list_all_iff list_ex_iff)

lemma gen_decision_correct:
  assumes n: "normalized_batch N bals lims a params n"
    and r: "params_resolved (class_of_spec s b) (set (map fst (sp_policy_parameters s))) params"
    and ok: "bexp_ok (set (map fst (sp_policy_parameters s))) b"
    and w: "decision_uses_policy_params (class_of_spec s b) \<Longrightarrow> w"
  shows "gen_decision (class_of_spec s b) w n =
         Inr (beval (env_of (batch_env bals lims a params)) 0 (spec_decision s b))"
proof -
  let ?E = "batch_env bals lims a (if w then params else [])"
  have fits: "env_fits ?E" using n by (auto simp: normalized_batch_def env_fits_def batch_env_def)
  have np: "bexp_ok {} b" if "\<not> w"
  proof -
    from that w have "\<not> contains ''policy_params['' (show_pyexpr (python_decision s b))"
      by (auto simp: decision_uses_policy_params_def class_of_spec_def)
    moreover have "bexp_ok {} (spec_decision s b) \<or>
        contains ''policy_params['' (show_pyexpr (fst (py_of_bexp (spec_decision s b) 0 0)))"
      using bexp_param_text(1) [of _ "spec_decision s b" 0 0] ok by simp
    moreover have "fst (py_of_bexp (spec_decision s b) 0 0) = python_decision s b"
      by (simp add: spec_decision_def python_decision_def Let_def split: prod.splits)
    ultimately show ?thesis by simp
  qed
  have okE: "bexp_ok (dom (map_of (pe_params ?E))) b"
  proof (cases w)
    case True
    with r ok show ?thesis by (simp add: batch_env_def dom_int_params params_resolved_def)
  next
    case False
    with np show ?thesis by (simp add: batch_env_def int_params_def)
  qed
  have same: "beval (env_of ?E) 0 (spec_decision s b) =
      beval (env_of (batch_env bals lims a params)) 0 (spec_decision s b)"
  proof (cases w)
    case False
    have "env_of ?E = (env_of (batch_env bals lims a params))\<lparr>env_params := env_params (env_of ?E)\<rparr>"
      by (simp add: env_of_def batch_env_def)
    moreover have "bexp_ok {} (spec_decision s b)" using np [OF False] by simp
    ultimately show ?thesis using beval_no_params by metis
  qed simp
  have "pc_decision (class_of_spec s b) = python_decision s b" by (simp add: class_of_spec_def)
  then show ?thesis
    using python_decision_correct [OF fits okE, of "\<lambda>_. 0" s 0] same
    by (simp only: gen_decision_def gen_env_normalized [OF n r] rbind_Inr)
qed

lemma params_resolved_item:
  assumes "params_resolved c names d" "k \<in> names"
  shows "\<exists>i. int_item d k = Inr i"
proof -
  from assms have "k \<in> set (map fst d)" by (simp add: params_resolved_def)
  then obtain v where v: "map_of d k = Some v" by (metis map_of_eq_None_iff not_None_eq set_map)
  then have "param_within c k v" using assms(1) unfolding params_resolved_def by (fast dest: map_of_SomeD)
  then obtain i where "v = PInt i" using param_within_PInt by blast
  with v show ?thesis by (simp add: int_item_def dsub_def)
qed

lemma rmap_exists: "(\<And>x. x \<in> set xs \<Longrightarrow> \<exists>y. f x = Inr y) \<Longrightarrow> \<exists>ys. rmap f xs = Inr ys"
proof (induction xs)
  case (Cons x xs)
  then obtain y ys where "f x = Inr y" "rmap f xs = Inr ys" by (metis list.set_intros)
  then show ?case by simp
qed simp

text \<open>The values of the declared outputs.\<close>

definition projected :: "(string \<Rightarrow> string) \<Rightarrow> bool \<Rightarrow> int \<Rightarrow> pydict \<Rightarrow> string \<times> output_spec \<Rightarrow> string \<times> pyval" where
  "projected sha256 d a ps = (\<lambda>(name, out).
     (name, if os_expr out = ''decision'' then PBool d
            else if os_expr out = ''active_count'' then PInt a
            else PStr (compute_policy_params_hash sha256 ps)))"

lemma gen_output_projected:
  "check_output_exprs outs = Inr u \<Longrightarrow>
   rmap (gen_output sha256 d a ps) outs = Inr (map (projected sha256 d a ps) outs)"
  by (induction outs rule: check_output_exprs.induct)
     (auto simp: gen_output_def projected_def split: if_splits)

lemma class_of_spec_simps [simp]:
  "pc_param_order (class_of_spec s b) = map fst (sp_policy_parameters s)"
  "pc_param_specs (class_of_spec s b) = sp_policy_parameters s"
  "pc_outputs (class_of_spec s b) = sp_outputs s" "pc_batch_size (class_of_spec s b) = sp_batch_size s"
  "pc_decision (class_of_spec s b) = python_decision s b"
  by (simp_all add: class_of_spec_def)

text \<open>Every method of the generated class succeeds on what \<open>normalize\<close> returned.\<close>

lemma gen_methods_normalized:
  assumes n: "normalized_batch N bals lims a params n"
    and pr: "params_resolved (class_of_spec s b) (set (map fst (sp_policy_parameters s))) params"
    and ok: "bexp_ok (set (map fst (sp_policy_parameters s))) b"
    and outs: "check_output_exprs (sp_outputs s) = Inr u"
    and d: "d = beval (env_of (batch_env bals lims a params)) 0 (spec_decision s b)"
  shows "gen_evaluate_reference (class_of_spec s b) n = Inr (decide d)" (is ?ev)
    and "\<exists>ps. gen_project_public_outputs sha256 (class_of_spec s b) n =
           Inr (map (projected sha256 d (int a) ps) (sp_outputs s))" (is ?pj)
    and "\<exists>pin. gen_to_private_input sha256 (class_of_spec s b) n = Inr pin" (is ?pi)
proof -
  let ?c = "class_of_spec s b"
  note dec = gen_decision_correct [OF n pr ok, folded d]
  from n obtain av where nv: "n = [(''balances'', PList (map PInt bals)), (''limits'', PList (map PInt lims)),
      (''active_count'', av), (''policy_parameters'', PDict params)]" "py_int av = Inr (int a)"
    by (auto simp: normalized_batch_def)
  then have items: "int_item n ''active_count'' = Inr (int a)" "dict_item n ''policy_parameters'' = Inr params"
    "list_item n ''balances'' = Inr (map PInt bals)" "list_item n ''limits'' = Inr (map PInt lims)"
    by simp_all
  show ?ev using dec [of "decision_uses_policy_params ?c"] by (simp add: gen_evaluate_reference_def)
  have "project_outputs_uses_policy_params ?c \<or> \<not> decision_uses_policy_params ?c"
    by (auto simp: project_outputs_uses_policy_params_def)
  then have "gen_decision ?c (project_outputs_uses_policy_params ?c) n = Inr d" by (intro dec) blast
  with items show ?pj
    by (auto simp: gen_project_public_outputs_def Let_def gen_output_projected [OF outs])
  have "\<exists>xs. rmap (int_item params) (map fst (sp_policy_parameters s)) = Inr xs"
    using params_resolved_item [OF pr] by (rule rmap_exists)
  with items show ?pi by (auto simp: gen_to_private_input_def Let_def)
qed


section \<open>The contract of a reference policy\<close>

text \<open>
  What the engine relies on: evidence that \<open>normalize\<close> accepts is evaluated, projected and turned into
  a private input without an error, and the projected decision output is the decision.
\<close>

locale reference_contract =
  fixes p :: reference_policy and decision_output :: string
  assumes contract: "rp_normalize p ev = Inr n \<Longrightarrow>
    \<exists>d outs pin. rp_evaluate_reference p n = Inr (decide d) \<and>
      rp_project_public_outputs p n = Inr outs \<and> map_of outs decision_output = Some (PBool d) \<and>
      rp_to_private_input p n = Inr pin"
begin

lemma validate_iff_normalize: "rp_validate p ev = Inr () \<longleftrightarrow> (\<exists>n. rp_normalize p ev = Inr n)"
  by (auto simp: rp_validate_def rbind_eq_Inr)

lemma decision_projected:
  assumes "rp_normalize p ev = Inr n" "rp_evaluate_reference p n = Inr v"
    "rp_project_public_outputs p n = Inr outs"
  shows "v = Pass \<longleftrightarrow> map_of outs decision_output = Some (PBool True)"
  using contract [OF assms(1)] assms(2,3) by (auto simp: decide_def split: if_splits)

lemma no_late_error:
  assumes "rp_normalize p ev = Inr n"
  shows "is_ok (rp_evaluate_reference p n) \<and> is_ok (rp_project_public_outputs p n) \<and>
         is_ok (rp_to_private_input p n)"
  using contract [OF assms] by auto

end

lemma map_of_projected:
  "map_of (map (projected sha256 d a ps) outs) name =
   map_option (\<lambda>out. snd (projected sha256 d a ps (name, out))) (map_of outs name)"
proof (induction outs)
  case (Cons x outs)
  obtain k out where x: "x = (k, out)" by (cases x)
  have "fst (projected sha256 d a ps (k, out)) = k" by (simp add: projected_def)
  with Cons show ?case unfolding x by (cases "projected sha256 d a ps (k, out)") simp
qed simp

lemma projected_decision: "os_expr out = ''decision'' \<Longrightarrow> snd (projected sha256 d a ps (name, out)) = PBool d"
  by (simp add: projected_def)

text \<open>Classes generated from an accepted specification meet the contract.\<close>

locale generated_policy =
  fixes sha256 :: "string \<Rightarrow> string" and s :: policy_spec and b :: bexp and decision_output :: string
  assumes parameters_declared: "bexp_ok (set (map fst (sp_policy_parameters s))) b"
    and outputs_supported: "check_output_exprs (sp_outputs s) = Inr ()"
    and output_is_decision: "\<exists>out. map_of (sp_outputs s) decision_output = Some out \<and> os_expr out = ''decision''"

sublocale generated_policy \<subseteq> reference_contract "policy_of_class sha256 (class_of_spec s b)" decision_output
proof
  fix ev n
  assume "rp_normalize (policy_of_class sha256 (class_of_spec s b)) ev = Inr n"
  then have nm: "gen_normalize (class_of_spec s b) ev = Inr n" by (simp add: policy_of_class_def)
  from gen_normalize_shape [OF nm] obtain N bals lims a params where
    n: "normalized_batch N bals lims a params n"
    and r: "resolve_policy_parameters (class_of_spec s b) (dget ev ''policy_parameters'') = Inr params" by blast
  have pr: "params_resolved (class_of_spec s b) (set (map fst (sp_policy_parameters s))) params"
    using resolve_params_resolved [OF r] by simp
  note m = gen_methods_normalized [OF n pr parameters_declared outputs_supported refl]
  from m(2) [of sha256] obtain ps where pj: "gen_project_public_outputs sha256 (class_of_spec s b) n =
      Inr (map (projected sha256 (beval (env_of (batch_env bals lims a params)) 0 (spec_decision s b)) (int a) ps)
        (sp_outputs s))" by blast
  with m(1) m(3) [of sha256] output_is_decision show "\<exists>d outs pin.
      rp_evaluate_reference (policy_of_class sha256 (class_of_spec s b)) n = Inr (decide d) \<and>
      rp_project_public_outputs (policy_of_class sha256 (class_of_spec s b)) n = Inr outs \<and>
      map_of outs decision_output = Some (PBool d) \<and>
      rp_to_private_input (policy_of_class sha256 (class_of_spec s b)) n = Inr pin"
    by (auto simp: policy_of_class_def map_of_projected projected_decision)
qed

lemma lending_risk_class_compiled:
  "lending_risk_class = class_of_spec lending_risk_spec (BCmp OpGt VBalance VLimit)"
  by (simp add: lending_risk_class_def class_of_spec_def lending_risk_spec_def lending_risk_decision_def
      python_decision_def)

interpretation lending: generated_policy sha256 lending_risk_spec "BCmp OpGt VBalance VLimit" "''all_valid''"
  for sha256
  by unfold_locales (simp_all add: lending_risk_spec_def)

interpretation zk_kyc: reference_contract zk_kyc_policy "''kyc_ok''"
  by unfold_locales
     (auto simp: zk_kyc_policy_def zk_kyc_normalize_def Let_def rbind_eq_Inr zk_kyc_passed_def
       zk_kyc_to_private_input_def)

interpretation proof_of_reserves: reference_contract proof_of_reserves_policy "''solvency_ok''"
  by unfold_locales
     (auto simp: proof_of_reserves_policy_def proof_of_reserves_normalize_def Let_def rbind_eq_Inr
       proof_of_reserves_solvent_def proof_of_reserves_to_private_input_def split: if_splits)


section \<open>From evidence to the circuit\<close>

text \<open>The signals the prover reads from a private input without parameters.\<close>

definition circuit_input_of :: "pydict \<Rightarrow> circuit_input res" where
  "circuit_input_of d =
     rbind (rbind (list_item d ''balances'') strict_ints) (\<lambda>bals.
     rbind (rbind (list_item d ''limits'') strict_ints) (\<lambda>lims.
     rbind (int_item d ''active_count'') (\<lambda>active.
     Inr \<lparr>ci_limits = lims, ci_active_count = active, ci_balances = bals, ci_policy_params = [],
          ci_expected_hash = 0\<rparr>)))"

lemma drop_zero_nth: "list_all (\<lambda>x. x = (0::int)) (drop a xs) \<Longrightarrow> a \<le> i \<Longrightarrow> i < length xs \<Longrightarrow> xs ! i = 0"
  by (simp add: list_all_length) (metis add_diff_inverse_nat diff_less_mono leD)

lemma normalized_batch_fits:
  assumes "normalized_batch (sp_batch_size s) bals lims a params n" "circomlib_ok L"
    "sp_batch_size s + 1 < 2 ^ 16" "sp_policy_parameters s = []"
  shows "batch_fits L s \<lparr>ci_limits = lims, ci_active_count = int a, ci_balances = bals,
           ci_policy_params = [], ci_expected_hash = 0\<rparr>"
  using assms
  by (auto simp: batch_fits_def normalized_batch_def rows_ok_def count_ok_def tail_zero_def params_ok_def
      list_all_iff [of _ "[a..<_]"] intro: drop_zero_nth)

lemma env_of_normalized:
  "env_of (py_env_of_input [] \<lparr>ci_limits = lims, ci_active_count = int a, ci_balances = bals,
     ci_policy_params = [], ci_expected_hash = 0\<rparr>) = env_of (batch_env bals lims a [])"
  by (simp add: env_of_def py_env_of_input_def batch_env_def int_params_def)

definition circuit_outputs :: "bool \<Rightarrow> int \<Rightarrow> int \<Rightarrow> (string \<times> output_spec) list \<Rightarrow> (string \<times> int) list" where
  "circuit_outputs d a h outs = map (\<lambda>(name, out). (name, if os_expr out = ''decision'' then b2f d
       else if os_expr out = ''active_count'' then a else h)) outs"

lemma run_circuit_decision:
  assumes "accepted_spec s" "spec_bexp s = Some b" "bexp_u32 b" "batch_fits L s inp"
    "run_parameter_hash L (map fst (sp_policy_parameters s)) inp = Some h"
    "d = beval (circuit_env (map fst (sp_policy_parameters s)) inp) 0 (spec_decision s b)"
  shows "run_circuit L s b inp = Some (b2f d, circuit_outputs d (ci_active_count inp) h (sp_outputs s))"
proof -
  let ?order = "map fst (sp_policy_parameters s)"
  from assms(4) have f: "fitting L (sp_batch_size s) ?order inp" "tail_zero (sp_batch_size s) inp"
    "count_ok (sp_batch_size s) inp" "circomlib_ok L" "sp_batch_size s + 1 < 2 ^ 16"
    by (simp_all add: batch_fits_def fitting_def)
  from supported_decision_abs [of s "()"] assms(1,2) have ok: "bexp_ok (set ?order) b"
    by (auto simp: accepted_spec_def)
  have N: "0 < sp_batch_size s" and cb: "in_field (ci_active_count inp)"
    using f(3,5) by (auto simp: count_ok_def in_field_def field_p_def)
  from run_circuit_aggregates [OF f(1,2) ok assms(3) N] obtain V where
    V: "run_aggregates L ?order inp (sp_batch_size s) 0 (circuit_aggregates s b) Map.empty = Some V"
    "V 0 = Some (b2f d)" using assms(6) by blast
  from assms(1) obtain u where "check_output_exprs (sp_outputs s) = Inr u"
    by (auto simp: accepted_spec_def validate_references_def is_ok_iff rbind_eq_Inr)
  from output_values_ok [OF this, of "b2f d" "ci_active_count inp" h]
  have "output_values (b2f d) (ci_active_count inp) h (sp_outputs s) =
      Some (circuit_outputs d (ci_active_count inp) h (sp_outputs s))" by (simp add: circuit_outputs_def)
  with V active_count_bounds_ok [OF f(4,5) cb] f(3) assms(5)
  show ?thesis by (simp add: run_circuit_def Let_def)
qed

text \<open>The whole path of a parameterless specification, with every intermediate value.\<close>

lemma gen_run_full:
  assumes acc: "accepted_spec s" "spec_bexp s = Some b" "bexp_u32 b"
    and shape: "sp_policy_parameters s = []" "sp_batch_size s = MAX_BATCH_SIZE"
    and lib: "circomlib_ok L"
    and nm: "gen_normalize (class_of_spec s b) ev = Inr n"
  shows "\<exists>d a pin inp ps. gen_evaluate_reference (class_of_spec s b) n = Inr (decide d) \<and>
     gen_project_public_outputs sha256 (class_of_spec s b) n =
       Inr (map (projected sha256 d (int a) ps) (sp_outputs s)) \<and>
     gen_to_private_input sha256 (class_of_spec s b) n = Inr pin \<and> circuit_input_of pin = Inr inp \<and>
     run_circuit L s b inp = Some (b2f d, circuit_outputs d (int a) 0 (sp_outputs s))"
proof -
  from gen_normalize_shape [OF nm] shape obtain bals lims a params where
    n: "normalized_batch (sp_batch_size s) bals lims a params n"
    and r: "resolve_policy_parameters (class_of_spec s b) (dget ev ''policy_parameters'') = Inr params" by auto
  have pr: "params_resolved (class_of_spec s b) (set (map fst (sp_policy_parameters s))) params"
    using resolve_params_resolved [OF r] by simp
  then have pe: "params = []" using shape by (simp add: params_resolved_def)
  from supported_decision_abs [of s "()"] acc have ok: "bexp_ok (set (map fst (sp_policy_parameters s))) b"
    by (auto simp: accepted_spec_def)
  from acc(1) obtain u where oc: "check_output_exprs (sp_outputs s) = Inr u"
    by (auto simp: accepted_spec_def validate_references_def is_ok_iff rbind_eq_Inr)
  let ?inp = "\<lparr>ci_limits = lims, ci_active_count = int a, ci_balances = bals, ci_policy_params = [],
    ci_expected_hash = 0\<rparr>"
  let ?d = "beval (env_of (batch_env bals lims a [])) 0 (spec_decision s b)"
  note m = gen_methods_normalized [OF n pr ok oc refl, unfolded pe]
  from n obtain av where nv: "n = [(''balances'', PList (map PInt bals)), (''limits'', PList (map PInt lims)),
      (''active_count'', av), (''policy_parameters'', PDict params)]" "py_int av = Inr (int a)"
    by (auto simp: normalized_batch_def)
  have pin: "gen_to_private_input sha256 (class_of_spec s b) n = Inr [(''balances'', PList (map PInt bals)),
      (''limits'', PList (map PInt lims)), (''active_count'', PInt (int a))]"
    using nv shape by (simp add: gen_to_private_input_def)
  have fits: "batch_fits L s ?inp"
    using normalized_batch_fits [OF n lib] shape by (simp add: MAX_BATCH_SIZE_def)
  have "circuit_env [] ?inp = env_of (batch_env bals lims a [])"
    using env_of_input [of "[]" ?inp] env_of_normalized by (simp add: params_ok_def)
  then have "run_circuit L s b ?inp = Some (b2f ?d, circuit_outputs ?d (int a) 0 (sp_outputs s))"
    using run_circuit_decision [OF acc fits, of 0 ?d] shape by (simp add: run_parameter_hash_def)
  moreover have "circuit_input_of [(''balances'', PList (map PInt bals)),
      (''limits'', PList (map PInt lims)), (''active_count'', PInt (int a))] = Inr ?inp"
    by (simp add: circuit_input_of_def)
  ultimately show ?thesis using m(1) m(2) [of sha256] pin by blast
qed

text \<open>
  C1. End to end, for an accepted specification without policy parameters, of the batch size 250, with
  constants of at most 32 bits and references without surrounding white space: whatever evidence the
  generated reference policy accepts, it decides, and the private input it renders for the prover is
  one on which the generated circuit has a run, whose decision signal is exactly the reference
  decision.
\<close>

theorem generated_policy_end_to_end:
  assumes acc: "accepted_spec s" "spec_bexp s = Some b" "bexp_u32 b"
    and shape: "sp_policy_parameters s = []" "sp_batch_size s = MAX_BATCH_SIZE"
    and lib: "circomlib_ok L"
    and nm: "gen_normalize (class_of_spec s b) ev = Inr n"
  shows "\<exists>d pin inp outs. gen_evaluate_reference (class_of_spec s b) n = Inr (decide d) \<and>
     gen_to_private_input sha256 (class_of_spec s b) n = Inr pin \<and>
     circuit_input_of pin = Inr inp \<and> run_circuit L s b inp = Some (b2f d, outs)"
  using gen_run_full [OF assms, of sha256] by blast

definition sample_evidence :: pydict where
  "sample_evidence = [(''balances'', PList [PInt 120, PInt 7]), (''limits'', PList [PInt 100, PInt 9])]"

lemma sample_evidence_normalizes:
  "\<exists>n. gen_normalize (class_of_spec lending_risk_spec (BCmp OpGt VBalance VLimit)) sample_evidence = Inr n"
proof -
  have "\<exists>p. batch_prepare_input [PInt 120, PInt 7] [PInt 100, PInt 9] 250 = Inr p"
    by (simp add: batch_prepare_input_cases MAX_UINT32_def)
  then show ?thesis
    by (auto simp: gen_normalize_def resolve_policy_parameters_def sample_evidence_def
        require_integer_list_def require_integer_def MAX_UINT32_def batch_failure_def)
qed

theorem generated_policy_end_to_end_witness:
  "\<exists>n d pin inp outs.
     gen_normalize (class_of_spec lending_risk_spec (BCmp OpGt VBalance VLimit)) sample_evidence = Inr n \<and>
     gen_evaluate_reference (class_of_spec lending_risk_spec (BCmp OpGt VBalance VLimit)) n = Inr (decide d) \<and>
     gen_to_private_input (\<lambda>_. []) (class_of_spec lending_risk_spec (BCmp OpGt VBalance VLimit)) n = Inr pin \<and>
     circuit_input_of pin = Inr inp \<and>
     run_circuit plain_circomlib lending_risk_spec (BCmp OpGt VBalance VLimit) inp = Some (b2f d, outs)"
proof -
  from sample_evidence_normalizes obtain n where
    "gen_normalize (class_of_spec lending_risk_spec (BCmp OpGt VBalance VLimit)) sample_evidence = Inr n" ..
  with generated_policy_end_to_end [of lending_risk_spec "BCmp OpGt VBalance VLimit" plain_circomlib
      sample_evidence n "\<lambda>_. []"]
  show ?thesis by (auto simp: MAX_BATCH_SIZE_def)
qed

section \<open>Properties of the shipped policies\<close>

text \<open>
  The committed lending module is the module the compiler produces from the committed
  specification: same constants, same decision expression (its rendered text included), same outputs.
\<close>

theorem committed_lending_policy_compiled:
  "spec_bexp lending_risk_spec = Some (BCmp OpGt VBalance VLimit) \<and>
   lending_risk_class = class_of_spec lending_risk_spec (BCmp OpGt VBalance VLimit) \<and>
   python_decision_text lending_risk_spec = Inr (show_pyexpr (pc_decision lending_risk_class)) \<and>
   show_pyexpr (pc_decision lending_risk_class) =
     ''all(((balances[idx_0] > limits[idx_0])) for idx_0 in range(active_count))''"
proof -
  have "show_pyexpr (pc_decision lending_risk_class) =
     ''all(((balances[idx_0] > limits[idx_0])) for idx_0 in range(active_count))''" by code_simp
  then show ?thesis
    using python_decision_text_abs [of lending_risk_spec "BCmp OpGt VBalance VLimit"]
    by (simp add: lending_risk_class_compiled)
qed

text \<open>
  The lending policy never fails after normalisation, and the \<open>all_valid\<close> output it projects is
  true exactly when it decides \<open>Pass\<close>.
\<close>

theorem lending_outputs_match_decision:
  assumes "gen_normalize lending_risk_class ev = Inr n"
  shows "\<exists>v outs. gen_evaluate_reference lending_risk_class n = Inr v \<and>
     gen_project_public_outputs sha256 lending_risk_class n = Inr outs \<and>
     (v = Pass \<longleftrightarrow> map_of outs ''all_valid'' = Some (PBool True))"
  using lending.contract [of sha256 ev n] lending.decision_projected [of sha256 ev n] assms
  by (simp add: policy_of_class_def lending_risk_class_compiled) blast

theorem lending_outputs_match_decision_witness:
  "\<exists>n v outs. gen_normalize lending_risk_class sample_evidence = Inr n \<and>
     gen_evaluate_reference lending_risk_class n = Inr v \<and>
     gen_project_public_outputs (\<lambda>_. []) lending_risk_class n = Inr outs \<and>
     (v = Pass \<longleftrightarrow> map_of outs ''all_valid'' = Some (PBool True))"
proof -
  from sample_evidence_normalizes obtain n where
    n: "gen_normalize lending_risk_class sample_evidence = Inr n"
    unfolding lending_risk_class_compiled ..
  with lending_outputs_match_decision [OF n, of "\<lambda>_. []"] show ?thesis by blast
qed

text \<open>
  The identity policy: \<open>normalize\<close> accepts exactly integer fields (no booleans) with ages in 0..130
  and country codes in 0..999, and the decision on accepted evidence is \<open>Pass\<close> exactly when the age
  reaches the minimum and the country is the allowed one.
\<close>

theorem zk_kyc_decides:
  "zk_kyc_normalize ev = Inr n \<longleftrightarrow>
   (\<exists>age cc ma ac.
      map (dget (evidence_source ev)) [''age'', ''country_code'', ''min_age'', ''allowed_country_code''] =
        [PInt age, PInt cc, PInt ma, PInt ac] \<and>
      0 \<le> age \<and> age \<le> 130 \<and> 0 \<le> ma \<and> ma \<le> 130 \<and> 0 \<le> cc \<and> cc \<le> 999 \<and> 0 \<le> ac \<and> ac \<le> 999 \<and>
      n = [(''age'', PInt age), (''country_code'', PInt cc), (''min_age'', PInt ma), (''allowed_country_code'', PInt ac)] \<and>
      rp_evaluate_reference zk_kyc_policy n = Inr (decide (age \<ge> ma \<and> cc = ac)))"
proof -
  have field: "strict_int_field d f = Inr i \<longleftrightarrow> dget d f = PInt i" for d f i
    by (cases "dget d f") (auto simp: strict_int_field_def)
  show ?thesis
    by (auto simp: zk_kyc_normalize_def Let_def rbind_eq_Inr field bounded_field_def zk_kyc_policy_def
        zk_kyc_passed_def)
qed

text \<open>
  The reserves policy: \<open>normalize\<close> accepts exactly non-negative integers, and the decision is
  \<open>Pass\<close> exactly when the liabilities do not exceed the assets.
\<close>

theorem proof_of_reserves_decides:
  "proof_of_reserves_normalize ev = Inr n \<longleftrightarrow>
   (\<exists>l a. dget (evidence_source ev) ''liabilities'' = PInt l \<and> dget (evidence_source ev) ''assets'' = PInt a \<and>
      0 \<le> l \<and> 0 \<le> a \<and> n = [(''liabilities'', PInt l), (''assets'', PInt a)] \<and>
      rp_evaluate_reference proof_of_reserves_policy n = Inr (decide (l \<le> a)))"
proof -
  have field: "strict_int_field d f = Inr i \<longleftrightarrow> dget d f = PInt i" for d f i
    by (cases "dget d f") (auto simp: strict_int_field_def)
  show ?thesis
    by (auto simp: proof_of_reserves_normalize_def Let_def rbind_eq_Inr field proof_of_reserves_policy_def
        proof_of_reserves_solvent_def if_Inl_eq_Inr)
qed

text \<open>
  Resolved policy parameters: when the generated class accepts a parameter object, the result has
  exactly the declared names, every value is an integer (never a boolean) and lies within the declared
  bounds of its parameter.
\<close>

theorem resolved_parameters_within_bounds:
  assumes "resolve_policy_parameters c payload = Inr r"
  shows "set (map fst r) = set (pc_param_order c) \<and> distinct (map fst r) \<and>
         list_all (\<lambda>(k, v). param_within c k v) r"
  using resolve_params_resolved [OF assms] by (auto simp: params_resolved_def list_all_iff)

theorem resolved_parameters_within_bounds_witness:
  "let c = lending_risk_class\<lparr>pc_param_order := [''floor''],
        pc_param_specs := [(''floor'', \<lparr>ps_minimum = Some 1, ps_maximum = Some 9, ps_default = Some 3\<rparr>)]\<rparr>
   in set (map fst [(''floor'', PInt 3)]) = set (pc_param_order c) \<and> distinct (map fst [(''floor'', PInt 3)]) \<and>
      list_all (\<lambda>(k, v). param_within c k v) [(''floor'', PInt 3)]"
  unfolding Let_def
  by (rule resolved_parameters_within_bounds [where payload = PNone])
     (simp add: resolve_policy_parameters_def resolve_parameter_def)

text \<open>
  The reference registry resolves every shipped policy by its own identifier, whether or not it
  was loaded before, and rejects every other identifier.
\<close>

theorem registry_resolves_shipped:
  "fst (get_reference_policy (generated_policies sha256) None name) =
   (if name = ''lending_risk_portfolio_reference_v1'' then Inr (policy_of_class sha256 lending_risk_portfolio_class)
    else if name = ''lending_risk_reference_v1'' then Inr (policy_of_class sha256 lending_risk_class)
    else if name = ''proof_of_reserves_reference_v1'' then Inr proof_of_reserves_policy
    else if name = ''zk_kyc_reference_v1'' then Inr zk_kyc_policy
    else Inl (FrameworkError ''reference_policy_missing'' ''No Python reference policy implementation found''
                [(''reference_policy'', PStr name)])) \<and>
   get_reference_policy (generated_policies sha256) (snd (get_reference_policy (generated_policies sha256) None other)) name =
   get_reference_policy (generated_policies sha256) None name"
  by (simp add: get_reference_policy_def registry_load_def build_reference_registry_def generated_policies_def
      policy_of_class_def lending_risk_portfolio_class_def lending_risk_class_def zk_kyc_policy_def
      proof_of_reserves_policy_def Let_def py_strip_def py_isspace_def)

end
