(* ===== verification/Dual_Track.thy ===== *)
theory Dual_Track
  imports Reference_Policies
begin

text \<open>
  Differential execution: \<open>vellum_core/policies/dual_track.py\<close>. The reference track prepares the
  private input, the decision and the typed outputs; the circuit track reads the same from the public
  signals of a proof; a run is accepted only when both agree.

  The theorems show what an accepted run means, and that the check passes for every honest run of a
  compiled policy: the signals of the generated circuit are read back as the reference outputs.
\<close>

section \<open>The two tracks\<close>

text \<open>One entry of \<open>differential_outputs\<close>, whether a dictionary or an object (\<open>_spec_value\<close>).\<close>

record diff_output =
  do_signal_index :: pyval
  do_value_type :: pyval

definition diff_output_of_dict :: "pydict \<Rightarrow> diff_output" where
  "diff_output_of_dict d = \<lparr>do_signal_index = dget d ''signal_index'', do_value_type = dget d ''value_type''\<rparr>"

record dual_track_reference =
  dr_private_input :: pydict
  dr_decision :: policy_decision
  dr_outputs :: pydict

record dual_track_circuit =
  dc_decision :: policy_decision
  dc_outputs :: pydict

definition decision_text :: "policy_decision \<Rightarrow> string" where
  "decision_text d = (case d of Pass \<Rightarrow> ''pass'' | Fail \<Rightarrow> ''fail'')"

definition normalize_reference_value :: "string \<Rightarrow> pyval \<Rightarrow> string \<Rightarrow> pyval res" where
  "normalize_reference_value output_name v value_type =
     (let mismatch = (\<lambda>m. Inl (FrameworkError ''policy_manifest_invalid'' m
            [(''output_name'', PStr output_name), (''value_type'', PStr value_type), (''reference_value'', v)]))
      in if value_type = ''int''
           then (case v of PInt i \<Rightarrow> Inr v | _ \<Rightarrow> mismatch ''Reference output type mismatch, expected int'')
         else if value_type = ''bool''
           then (case v of PBool b \<Rightarrow> Inr v | _ \<Rightarrow> mismatch ''Reference output type mismatch, expected bool'')
         else if value_type = ''string''
           then (case v of PStr s \<Rightarrow> Inr v | _ \<Rightarrow> mismatch ''Reference output type mismatch, expected string'')
         else Inl (FrameworkError ''policy_manifest_invalid'' ''Unsupported differential output value_type''
                [(''output_name'', PStr output_name), (''value_type'', PStr value_type)]))"

definition normalize_signal_value :: "string \<Rightarrow> pyval \<Rightarrow> string \<Rightarrow> pyval res" where
  "normalize_signal_value output_name signal_value value_type =
     (let mismatch = (\<lambda>m. Inl (FrameworkError ''dual_track_mismatch'' m
            [(''output_name'', PStr output_name), (''value_type'', PStr value_type), (''signal_value'', signal_value)]))
      in if value_type = ''int''
           then (case signal_value of
                   PBool b \<Rightarrow> mismatch ''Signal type mismatch, expected int''
                 | _ \<Rightarrow> (case int_of_text (py_str signal_value) of
                            Some i \<Rightarrow> Inr (PInt i)
                          | None \<Rightarrow> mismatch ''Signal value cannot be parsed as int''))
         else if value_type = ''bool''
           then (let normalized = py_strip (py_str signal_value)
                 in if normalized = ''1'' \<or> normalized = ''true'' \<or> normalized = ''True'' then Inr (PBool True)
                    else if normalized = ''0'' \<or> normalized = ''false'' \<or> normalized = ''False'' then Inr (PBool False)
                    else mismatch ''Signal value cannot be parsed as bool'')
         else if value_type = ''string'' then Inr (PStr (py_str signal_value))
         else Inl (FrameworkError ''policy_manifest_invalid'' ''Unsupported differential output value_type''
                [(''output_name'', PStr output_name), (''value_type'', PStr value_type)]))"

definition signal_at :: "string \<Rightarrow> string \<Rightarrow> int \<Rightarrow> pyval list \<Rightarrow> pyval res" where
  "signal_at policy_id output_name signal_index public_signals =
     (if signal_index < 0 \<or> signal_index \<ge> int (length public_signals)
      then Inl (FrameworkError ''dual_track_mismatch'' ''Circuit output signal index out of range''
             [(''policy_id'', PStr policy_id), (''output_name'', PStr output_name),
              (''signal_index'', PInt signal_index), (''available_signals'', PInt (int (length public_signals)))])
      else Inr (public_signals ! nat signal_index))"

definition reference_output :: "string \<Rightarrow> pydict \<Rightarrow> string \<times> diff_output \<Rightarrow> (string \<times> pyval) res" where
  "reference_output reference_policy projected_outputs spec =
     (case spec of (output_name, output_spec) \<Rightarrow>
        (case map_of projected_outputs output_name of
           None \<Rightarrow> Inl (FrameworkError ''policy_manifest_invalid''
                         ''Differential output missing in reference policy projection''
                         [(''reference_policy'', PStr reference_policy), (''output_name'', PStr output_name)])
         | Some v \<Rightarrow>
             rbind (normalize_reference_value output_name v (py_str (do_value_type output_spec)))
               (\<lambda>w. Inr (output_name, w))))"

definition prepare_reference_track ::
  "reference_policy res \<Rightarrow> string \<Rightarrow> (string \<times> diff_output) list \<Rightarrow> pydict \<Rightarrow> dual_track_reference res" where
  "prepare_reference_track looked_up reference_policy differential_outputs evidence_payload =
     rbind looked_up (\<lambda>policy.
     rbind (rp_validate policy evidence_payload) (\<lambda>_.
     rbind (rp_normalize policy evidence_payload) (\<lambda>normalized.
     rbind (rp_evaluate_reference policy normalized) (\<lambda>decision.
     rbind (rp_project_public_outputs policy normalized) (\<lambda>projected_outputs.
     rbind (rmap (reference_output reference_policy projected_outputs) differential_outputs) (\<lambda>normalized_outputs.
     rbind (rp_to_private_input policy normalized) (\<lambda>private_input.
     Inr \<lparr>dr_private_input = private_input, dr_decision = decision, dr_outputs = normalized_outputs\<rparr>)))))))"

definition circuit_output :: "string \<Rightarrow> pyval list \<Rightarrow> string \<times> diff_output \<Rightarrow> (string \<times> pyval) res" where
  "circuit_output policy_id public_signals spec =
     (case spec of (output_name, output_spec) \<Rightarrow>
        rbind (py_int (do_signal_index output_spec)) (\<lambda>signal_index.
        rbind (signal_at policy_id output_name signal_index public_signals) (\<lambda>raw_value.
        rbind (normalize_signal_value output_name raw_value (py_str (do_value_type output_spec))) (\<lambda>v.
        Inr (output_name, v)))))"

definition dget_default :: "pydict \<Rightarrow> string \<Rightarrow> pyval \<Rightarrow> pyval" where
  "dget_default d k v = (case map_of d k of None \<Rightarrow> v | Some w \<Rightarrow> w)"

definition circuit_decision :: "string \<Rightarrow> pydict \<Rightarrow> pyval list \<Rightarrow> bool \<Rightarrow> policy_decision res" where
  "circuit_decision policy_id expected_attestation public_signals verified =
     (if \<not> verified then Inr Fail
      else rbind (py_int (dget_default expected_attestation ''decision_signal_index'' (PInt 0))) (\<lambda>signal_index.
           let pass_signal_value = py_str (dget_default expected_attestation ''pass_signal_value'' (PStr ''1''))
           in rbind (signal_at policy_id ''decision'' signal_index public_signals) (\<lambda>decision_signal.
              Inr (if py_str decision_signal = pass_signal_value then Pass else Fail))))"

definition evaluate_circuit_track ::
  "string \<Rightarrow> pydict \<Rightarrow> (string \<times> diff_output) list \<Rightarrow> pyval list \<Rightarrow> bool \<Rightarrow> dual_track_circuit res" where
  "evaluate_circuit_track policy_id expected_attestation differential_outputs public_signals verified =
     rbind (circuit_decision policy_id expected_attestation public_signals verified) (\<lambda>decision.
     rbind (rmap (circuit_output policy_id public_signals) differential_outputs) (\<lambda>outputs.
     Inr \<lparr>dc_decision = decision, dc_outputs = outputs\<rparr>))"

definition assert_dual_track_consistency ::
  "string \<Rightarrow> dual_track_reference \<Rightarrow> dual_track_circuit \<Rightarrow> unit res" where
  "assert_dual_track_consistency policy_id reference circuit =
     (if dr_decision reference \<noteq> dc_decision circuit \<or>
         \<not> py_eq (PDict (dr_outputs reference)) (PDict (dc_outputs circuit))
      then Inl (FrameworkError ''dual_track_mismatch'' ''Reference-track and circuit-track results diverged''
             [(''policy_id'', PStr policy_id),
              (''reference_decision'', PStr (decision_text (dr_decision reference))),
              (''circuit_decision'', PStr (decision_text (dc_decision circuit))),
              (''reference_outputs'', PDict (dr_outputs reference)),
              (''circuit_outputs'', PDict (dc_outputs circuit))])
      else Inr ())"


section \<open>Reading signals back\<close>

lemma int_signal: "normalize_signal_value name (PStr (show_int i)) ''int'' = Inr (PInt i)"
  by (simp add: normalize_signal_value_def py_str_def)

lemma show_b2f: "show_int (b2f True) = ''1''" "show_int (b2f False) = ''0''"
  by code_simp+

lemma bool_signal: "normalize_signal_value name (PStr (show_int (b2f d))) ''bool'' = Inr (PBool d)"
proof -
  have "py_strip ''1'' = ''1''" "py_strip ''0'' = ''0''" by code_simp+
  then show ?thesis
    using show_b2f by (cases d) (simp_all add: normalize_signal_value_def py_str_def Let_def)
qed

lemma py_eqd_self: "distinct (map fst d) \<Longrightarrow> (\<And>k v. (k, v) \<in> set d \<Longrightarrow> py_eq v v) \<Longrightarrow>
    set e \<subseteq> set d \<Longrightarrow> py_eqd e d"
proof (induction e)
  case (Cons p e)
  then show ?case by (cases p) auto
qed simp

section \<open>Honest runs\<close>

fun type_text :: "output_type \<Rightarrow> string" where
  "type_text TInt = ''int''"
| "type_text TBool = ''bool''"
| "type_text TString = ''string''"

definition diffs_of_spec :: "policy_spec \<Rightarrow> (string \<times> diff_output) list" where
  "diffs_of_spec s = map (\<lambda>(name, out). (name, \<lparr>do_signal_index = PInt (int (os_signal_index out)),
     do_value_type = PStr (type_text (os_value_type out))\<rparr>)) (sp_outputs s)"

text \<open>
  A manifest that describes the circuit's outputs: output \<open>k\<close> is public signal \<open>k\<close>, decisions are
  typed as booleans and counts as integers, and the attestation reads one of the decisions.
\<close>

definition output_aligned :: "nat \<Rightarrow> string \<times> output_spec \<Rightarrow> bool" where
  "output_aligned k out =
     (os_signal_index (snd out) = k \<and>
      (os_expr (snd out) = ''decision'' \<and> os_value_type (snd out) = TBool \<or>
       os_expr (snd out) = ''active_count'' \<and> os_value_type (snd out) = TInt))"

definition outputs_aligned :: "policy_spec \<Rightarrow> bool" where
  "outputs_aligned s =
     (distinct (map fst (sp_outputs s)) \<and>
      list_all (\<lambda>k. output_aligned k (sp_outputs s ! k)) [0..<length (sp_outputs s)] \<and>
      (case py_int (dget_default (sp_expected_attestation s) ''decision_signal_index'' (PInt 0)) of
         Inr k \<Rightarrow> 0 \<le> k \<and> nat k < length (sp_outputs s) \<and> os_expr (snd (sp_outputs s ! nat k)) = ''decision''
       | Inl _ \<Rightarrow> False) \<and>
      py_str (dget_default (sp_expected_attestation s) ''pass_signal_value'' (PStr ''1'')) = ''1'')"

definition signal_texts :: "(string \<times> int) list \<Rightarrow> pyval list" where
  "signal_texts outs = map (\<lambda>(_, v). PStr (show_int v)) outs"

definition typed_output :: "bool \<Rightarrow> int \<Rightarrow> string \<times> output_spec \<Rightarrow> string \<times> pyval" where
  "typed_output d a out =
     (fst out, if os_expr (snd out) = ''decision'' then PBool d else PInt a)"

lemma aligned_nth: "outputs_aligned s \<Longrightarrow> k < length (sp_outputs s) \<Longrightarrow> output_aligned k (sp_outputs s ! k)"
  by (simp add: outputs_aligned_def list_all_iff)

lemma circuit_output_aligned:
  assumes "outputs_aligned s" "k < length (sp_outputs s)"
  shows "circuit_output pid (signal_texts (circuit_outputs d a h (sp_outputs s)) @ rest) (diffs_of_spec s ! k) =
         Inr (typed_output d a (sp_outputs s ! k))"
proof -
  obtain name out where o: "sp_outputs s ! k = (name, out)" by (cases "sp_outputs s ! k")
  let ?sig = "signal_texts (circuit_outputs d a h (sp_outputs s)) @ rest"
  have sig: "signal_at pid name (int k) ?sig = Inr (?sig ! k)" and
    sk: "?sig ! k = PStr (show_int (if os_expr out = ''decision'' then b2f d
       else if os_expr out = ''active_count'' then a else h))"
    using assms(2) o by (simp_all add: signal_at_def signal_texts_def circuit_outputs_def nth_append)
  from aligned_nth [OF assms] o have al: "output_aligned k (name, out)" by simp
  have diff: "diffs_of_spec s ! k = (name, \<lparr>do_signal_index = PInt (int k),
      do_value_type = PStr (type_text (os_value_type out))\<rparr>)"
    using assms(2) o al by (simp add: diffs_of_spec_def output_aligned_def)
  from al show ?thesis
    unfolding diff o
    by (auto simp: circuit_output_def sig sk output_aligned_def typed_output_def py_str_def
        int_signal bool_signal)
qed

lemma rmap_nth: "(\<And>k. k < length xs \<Longrightarrow> f (xs ! k) = Inr (g (ys ! k))) \<Longrightarrow> length xs = length ys \<Longrightarrow>
    rmap f xs = Inr (map g ys)"
  unfolding rmap_Inr_iff by (auto intro: nth_equalityI)

lemma circuit_outputs_aligned:
  assumes "outputs_aligned s"
  shows "rmap (circuit_output pid (signal_texts (circuit_outputs d a h (sp_outputs s)) @ rest)) (diffs_of_spec s) =
         Inr (map (typed_output d a) (sp_outputs s))"
  using circuit_output_aligned [OF assms] by (intro rmap_nth) (simp_all add: diffs_of_spec_def)

lemma reference_outputs_aligned:
  assumes "outputs_aligned s"
  shows "rmap (reference_output rid (map (projected sha256 d a ps) (sp_outputs s))) (diffs_of_spec s) =
         Inr (map (typed_output d a) (sp_outputs s))"
proof (rule rmap_nth)
  fix k assume "k < length (diffs_of_spec s)"
  then have k: "k < length (sp_outputs s)" by (simp add: diffs_of_spec_def)
  obtain name out where o: "sp_outputs s ! k = (name, out)" by (cases "sp_outputs s ! k")
  have "(name, out) \<in> set (sp_outputs s)" using k o nth_mem by fastforce
  then have "map_of (sp_outputs s) name = Some out"
    using assms by (simp add: outputs_aligned_def)
  then have m: "map_of (map (projected sha256 d a ps) (sp_outputs s)) name =
      Some (if os_expr out = ''decision'' then PBool d
        else if os_expr out = ''active_count'' then PInt a
        else PStr (compute_policy_params_hash sha256 ps))"
    by (simp add: map_of_projected) (simp add: projected_def)
  from aligned_nth [OF assms k] o have al: "output_aligned k (name, out)" by simp
  have diff: "diffs_of_spec s ! k = (name, \<lparr>do_signal_index = PInt (int k),
      do_value_type = PStr (type_text (os_value_type out))\<rparr>)"
    using k o al by (simp add: diffs_of_spec_def output_aligned_def)
  from al show "reference_output rid (map (projected sha256 d a ps) (sp_outputs s)) (diffs_of_spec s ! k) =
      Inr (typed_output d a (sp_outputs s ! k))"
    unfolding diff o
    by (auto simp: reference_output_def m output_aligned_def typed_output_def py_str_def
        normalize_reference_value_def Let_def)
qed (simp add: diffs_of_spec_def)

lemma circuit_decision_aligned:
  assumes "outputs_aligned s"
  shows "circuit_decision pid (sp_expected_attestation s)
     (signal_texts (circuit_outputs d a h (sp_outputs s)) @ rest) True = Inr (decide d)"
proof -
  from assms obtain k where k: "py_int (dget_default (sp_expected_attestation s) ''decision_signal_index'' (PInt 0)) = Inr k"
    "0 \<le> k" "nat k < length (sp_outputs s)" "os_expr (snd (sp_outputs s ! nat k)) = ''decision''"
    by (auto simp: outputs_aligned_def split: sum.splits)
  let ?sig = "signal_texts (circuit_outputs d a h (sp_outputs s)) @ rest"
  have "signal_at pid ''decision'' k ?sig = Inr (PStr (show_int (b2f d)))"
    using k by (auto simp: signal_at_def signal_texts_def circuit_outputs_def nth_append case_prod_beta)
  moreover have "(show_int (b2f d) = ''1'') = d" using show_b2f by (cases d) auto
  ultimately show ?thesis
    using assms k(1) by (simp add: circuit_decision_def Let_def outputs_aligned_def py_str_def decide_def)
qed

lemma typed_outputs_eq:
  assumes "distinct (map fst outs)"
  shows "py_eq (PDict (map (typed_output d a) outs)) (PDict (map (typed_output d a) outs))"
proof -
  have "map fst (map (typed_output d a) outs) = map fst outs" by (simp add: typed_output_def)
  then have "distinct (map fst (map (typed_output d a) outs))" using assms by (simp only:)
  moreover have "py_eq v v" if "(k, v) \<in> set (map (typed_output d a) outs)" for k v
    using that by (auto simp: typed_output_def)
  ultimately have "py_eqd (map (typed_output d a) outs) (map (typed_output d a) outs)"
    by (rule py_eqd_self) simp_all
  then show ?thesis by simp
qed


text \<open>
  C18. What an accepted run proves: if the circuit track was read from a verified proof and the check
  passed, then the reference decided \<open>Pass\<close> exactly when the decision signal carries the configured
  pass value, and every configured output of the two tracks is equal as a Python value.
\<close>

theorem consistency_sound:
  assumes "evaluate_circuit_track pid att dspecs signals True = Inr c"
    and "assert_dual_track_consistency pid r c = Inr ()"
  shows "\<exists>k. py_int (dget_default att ''decision_signal_index'' (PInt 0)) = Inr k \<and>
     0 \<le> k \<and> nat k < length signals \<and>
     (dr_decision r = Pass \<longleftrightarrow>
        py_str (signals ! nat k) = py_str (dget_default att ''pass_signal_value'' (PStr ''1''))) \<and>
     map fst (dc_outputs c) = map fst dspecs \<and> py_eq (PDict (dr_outputs r)) (PDict (dc_outputs c))"
proof -
  have keys: "rmap (circuit_output pid signals) dspecs = Inr outs \<Longrightarrow> map fst outs = map fst dspecs" for outs dspecs
    by (induction dspecs arbitrary: outs) (auto simp: rbind_eq_Inr circuit_output_def)
  from assms show ?thesis
    by (auto simp: evaluate_circuit_track_def circuit_decision_def Let_def rbind_eq_Inr signal_at_def
        assert_dual_track_consistency_def if_Inl_eq_Inr split: if_splits dest: keys)
qed

text \<open>
  An unverified proof never passes for evidence the reference accepts: the circuit track decides
  \<open>Fail\<close>, so the check raises \<open>dual_track_mismatch\<close> whenever the reference decided \<open>Pass\<close>.
\<close>

theorem unverified_never_passes:
  assumes "evaluate_circuit_track pid att dspecs signals False = Inr c" "dr_decision r = Pass"
  shows "\<exists>details. assert_dual_track_consistency pid r c =
     Inl (FrameworkError ''dual_track_mismatch'' ''Reference-track and circuit-track results diverged'' details)"
  using assms by (auto simp: evaluate_circuit_track_def circuit_decision_def rbind_eq_Inr
      assert_dual_track_consistency_def)


section \<open>Witnesses\<close>

lemma lending_outputs_aligned [simp]: "outputs_aligned lending_risk_spec"
  by code_simp

lemma prepare_reference_succeeds:
  assumes "accepted_spec s" "spec_bexp s = Some b" "bexp_u32 b" "sp_policy_parameters s = []"
    "sp_batch_size s = MAX_BATCH_SIZE" "outputs_aligned s" "gen_normalize (class_of_spec s b) ev = Inr n"
  shows "\<exists>r. prepare_reference_track (Inr (policy_of_class sha256 (class_of_spec s b))) rid (diffs_of_spec s) ev = Inr r"
  using gen_run_full [OF assms(1-5) plain_circomlib_ok assms(7), of sha256] assms(7)
    reference_outputs_aligned [OF assms(6)]
  by (auto simp: prepare_reference_track_def policy_of_class_def rp_validate_def)


theorem consistency_sound_witness:
  "let att = [(''decision_signal_index'', PInt 0), (''pass_signal_value'', PStr ''1'')];
       signals = [PStr ''1'', PStr ''2''];
       r = \<lparr>dr_private_input = [], dr_decision = Pass, dr_outputs = [(''all_valid'', PBool True)]\<rparr>;
       c = \<lparr>dc_decision = Pass, dc_outputs = [(''all_valid'', PBool True)]\<rparr>
   in \<exists>k. py_int (dget_default att ''decision_signal_index'' (PInt 0)) = Inr k \<and>
     0 \<le> k \<and> nat k < length signals \<and>
     (dr_decision r = Pass \<longleftrightarrow>
        py_str (signals ! nat k) = py_str (dget_default att ''pass_signal_value'' (PStr ''1''))) \<and>
     map fst (dc_outputs c) = [''all_valid''] \<and> py_eq (PDict (dr_outputs r)) (PDict (dc_outputs c))"
  unfolding Let_def
  using consistency_sound [of "''p''" "[(''decision_signal_index'', PInt 0), (''pass_signal_value'', PStr ''1'')]"
      "[(''all_valid'', \<lparr>do_signal_index = PInt 0, do_value_type = PStr ''bool''\<rparr>)]" "[PStr ''1'', PStr ''2'']"
      "\<lparr>dc_decision = Pass, dc_outputs = [(''all_valid'', PBool True)]\<rparr>"
      "\<lparr>dr_private_input = [], dr_decision = Pass, dr_outputs = [(''all_valid'', PBool True)]\<rparr>"]
  by (simp add: evaluate_circuit_track_def circuit_decision_def dget_default_def signal_at_def py_str_def
      circuit_output_def normalize_signal_value_def assert_dual_track_consistency_def py_strip_def py_isspace_def)

theorem unverified_never_passes_witness:
  "\<exists>details. assert_dual_track_consistency ''p''
       \<lparr>dr_private_input = [], dr_decision = Pass, dr_outputs = []\<rparr> \<lparr>dc_decision = Fail, dc_outputs = []\<rparr> =
     Inl (FrameworkError ''dual_track_mismatch'' ''Reference-track and circuit-track results diverged'' details)"
  by (rule unverified_never_passes [of "''p''" "[]" "[]" "[]"])
     (simp_all add: evaluate_circuit_track_def circuit_decision_def)

end
