(* ===== verification/Json_Parser.thy ===== *)
theory Json_Parser
  imports Canonical_Json
begin

text \<open>
  Python's \<open>json.loads\<close> as a parser of character lists: white space, literals, integers, strings with
  escapes, arrays and objects (a repeated key keeps its last value). A number with a fraction or an
  exponent is handed to the parameter \<open>parse_float\<close>; an escape beyond the 8-bit characters of the model
  is reported as an error, and so is every malformed document. The parser runs on fuel, twice the
  length of the text, which \<open>json_loads_layout\<close> shows is enough for every document the services and the
  compiler write, in each of the styles of \<open>json.dumps\<close>.
\<close>

section \<open>Strings and numbers\<close>

definition json_ws :: "char \<Rightarrow> bool" where
  "json_ws c = ((of_char c :: nat) \<in> {32, 9, 10, 13})"

definition skip_ws :: "string \<Rightarrow> string" where
  "skip_ws s = dropWhile json_ws s"

definition hex_code :: "char \<Rightarrow> nat option" where
  "hex_code c =
     (let n = of_char c :: nat
      in if 48 \<le> n \<and> n \<le> 57 then Some (n - 48)
         else if 97 \<le> n \<and> n \<le> 102 then Some (n - 87)
         else if 65 \<le> n \<and> n \<le> 70 then Some (n - 55) else None)"

definition hex4 :: "char \<Rightarrow> char \<Rightarrow> char \<Rightarrow> char \<Rightarrow> nat option" where
  "hex4 a b h l =
     (case (hex_code a, hex_code b, hex_code h, hex_code l) of
        (Some w, Some x, Some y, Some z) \<Rightarrow> Some (4096 * w + 256 * x + 16 * y + z) | _ \<Rightarrow> None)"

definition simple_escape :: "char \<Rightarrow> char option" where
  "simple_escape d =
     (let n = of_char d :: nat
      in if n = 34 \<or> n = 92 \<or> n = 47 then Some d
         else if d = CHR ''n'' then Some (char_of (10::nat))
         else if d = CHR ''r'' then Some (char_of (13::nat))
         else if d = CHR ''t'' then Some (char_of (9::nat))
         else if d = CHR ''f'' then Some (char_of (12::nat))
         else if d = CHR ''b'' then Some (char_of (8::nat)) else None)"

fun parse_chars :: "string \<Rightarrow> (string \<times> string) option" where
  "parse_chars [] = None"
| "parse_chars (c # cs) =
     (if (of_char c :: nat) = 34 then Some ([], cs)
      else if (of_char c :: nat) = 92
      then (case cs of
              d # ds \<Rightarrow>
                (case simple_escape d of
                   Some e \<Rightarrow> map_option (\<lambda>(t, r). (e # t, r)) (parse_chars ds)
                 | None \<Rightarrow>
                     (if d = CHR ''u''
                      then (case ds of
                              a # b # h # l # rest \<Rightarrow>
                                (case hex4 a b h l of
                                   Some n \<Rightarrow> if n < 256 then map_option (\<lambda>(t, r). (char_of n # t, r)) (parse_chars rest) else None
                                 | None \<Rightarrow> None)
                            | _ \<Rightarrow> None)
                      else None))
            | [] \<Rightarrow> None)
      else if (of_char c :: nat) < 32 then None
      else map_option (\<lambda>(t, r). (c # t, r)) (parse_chars cs))"

definition frac_part :: "string \<Rightarrow> string" where
  "frac_part s =
     (case s of c # r \<Rightarrow> (let f = takeWhile is_digit r in if c = CHR ''.'' \<and> f \<noteq> [] then c # f else []) | [] \<Rightarrow> [])"

definition exp_part :: "string \<Rightarrow> string" where
  "exp_part s =
     (case s of
        c # r \<Rightarrow>
          (let sg = (case r of d # _ \<Rightarrow> if d = CHR ''+'' \<or> d = CHR ''-'' then [d] else [] | [] \<Rightarrow> []);
               f = takeWhile is_digit (drop (length sg) r)
           in if (c = CHR ''e'' \<or> c = CHR ''E'') \<and> f \<noteq> [] then c # sg @ f else [])
      | [] \<Rightarrow> [])"

definition parse_number :: "(string \<Rightarrow> pyval) \<Rightarrow> string \<Rightarrow> (pyval \<times> string) option" where
  "parse_number parse_float s =
     (let neg = (s \<noteq> [] \<and> hd s = CHR ''-''); t = (if neg then tl s else s); ds = takeWhile is_digit t
      in if ds = [] then None
         else let ip = (if hd ds = CHR ''0'' then [CHR ''0''] else ds); r1 = drop (length ip) t;
                  fp = frac_part r1; r2 = drop (length fp) r1; ep = exp_part r2; r3 = drop (length ep) r2
              in if fp = [] \<and> ep = [] then Some (PInt (if neg then - int (read_nat ip) else int (read_nat ip)), r3)
                 else Some (parse_float ((if neg then [CHR ''-''] else []) @ ip @ fp @ ep), r3))"

section \<open>Documents\<close>

definition parse_literal :: "string \<Rightarrow> (pyval \<times> string) option" where
  "parse_literal s =
     (if startswith s ''null'' then Some (PNone, drop 4 s)
      else if startswith s ''true'' then Some (PBool True, drop 4 s)
      else if startswith s ''false'' then Some (PBool False, drop 5 s)
      else if startswith s ''NaN'' then Some (PFloat None ''nan'', drop 3 s)
      else if startswith s ''Infinity'' then Some (PFloat None ''inf'', drop 8 s)
      else if startswith s ''-Infinity'' then Some (PFloat None ''-inf'', drop 9 s)
      else None)"

fun parse_value :: "(string \<Rightarrow> pyval) \<Rightarrow> nat \<Rightarrow> string \<Rightarrow> (pyval \<times> string) option"
and parse_elems :: "(string \<Rightarrow> pyval) \<Rightarrow> nat \<Rightarrow> string \<Rightarrow> (pyval list \<times> string) option"
and parse_members :: "(string \<Rightarrow> pyval) \<Rightarrow> nat \<Rightarrow> string \<Rightarrow> (pydict \<times> string) option" where
  "parse_value pf 0 s = None"
| "parse_value pf (Suc n) s =
     (case s of
        [] \<Rightarrow> None
      | c # t \<Rightarrow>
          (if (of_char c :: nat) = 34 then map_option (\<lambda>(x, r). (PStr x, r)) (parse_chars t)
           else if c = CHR ''['' then
             (let u = skip_ws t
              in if u \<noteq> [] \<and> hd u = CHR '']'' then Some (PList [], tl u)
                 else map_option (\<lambda>(xs, r). (PList xs, r)) (parse_elems pf n u))
           else if c = CHR ''{'' then
             (let u = skip_ws t
              in if u \<noteq> [] \<and> hd u = CHR ''}'' then Some (PDict [], tl u)
                 else map_option (\<lambda>(d, r). (PDict (dupdate [] d), r)) (parse_members pf n u))
           else case parse_literal s of Some x \<Rightarrow> Some x | None \<Rightarrow> parse_number pf s))"
| "parse_elems pf 0 s = None"
| "parse_elems pf (Suc n) s =
     (case parse_value pf n s of
        None \<Rightarrow> None
      | Some (x, r) \<Rightarrow>
          (case skip_ws r of
             [] \<Rightarrow> None
           | c # u \<Rightarrow>
               (if c = CHR '']'' then Some ([x], u)
                else if c = CHR '','' then map_option (\<lambda>(xs, q). (x # xs, q)) (parse_elems pf n (skip_ws u))
                else None)))"
| "parse_members pf 0 s = None"
| "parse_members pf (Suc n) s =
     (case s of
        [] \<Rightarrow> None
      | c # t \<Rightarrow>
          (if (of_char c :: nat) \<noteq> 34 then None
           else case parse_chars t of
                  None \<Rightarrow> None
                | Some (k, r) \<Rightarrow>
                    (case skip_ws r of
                       [] \<Rightarrow> None
                     | c1 # r1 \<Rightarrow>
                         (if c1 \<noteq> CHR '':'' then None
                          else case parse_value pf n (skip_ws r1) of
                                 None \<Rightarrow> None
                               | Some (v, r2) \<Rightarrow>
                                   (case skip_ws r2 of
                                      [] \<Rightarrow> None
                                    | c2 # r3 \<Rightarrow>
                                        (if c2 = CHR ''}'' then Some ([(k, v)], r3)
                                         else if c2 = CHR '','' then
                                           map_option (\<lambda>(d, q). ((k, v) # d, q)) (parse_members pf n (skip_ws r3))
                                         else None))))))"

definition json_loads :: "(string \<Rightarrow> pyval) \<Rightarrow> string \<Rightarrow> pyval res" where
  "json_loads pf s =
     (case parse_value pf (2 * length s + 1) (skip_ws s) of
        Some (v, r) \<Rightarrow> if skip_ws r = [] then Inr v else Inl (ValueError ''JSONDecodeError'')
      | None \<Rightarrow> Inl (ValueError ''JSONDecodeError''))"

section \<open>Layout\<close>

text \<open>
  The texts \<open>json.dumps\<close> writes: compact separators, its default separators, and an indentation. A style is the
  white space after an opening bracket or before a closing one, after a comma, and after a colon.
\<close>

record json_style =
  js_break :: "nat \<Rightarrow> string"
  js_item :: "nat \<Rightarrow> string"
  js_key :: string

definition compact_style :: json_style where
  "compact_style = \<lparr>js_break = (\<lambda>l. []), js_item = (\<lambda>l. []), js_key = []\<rparr>"

definition default_style :: json_style where
  "default_style = \<lparr>js_break = (\<lambda>l. []), js_item = (\<lambda>l. '' ''), js_key = '' ''\<rparr>"

definition indent_style :: "nat \<Rightarrow> json_style" where
  "indent_style n =
     \<lparr>js_break = (\<lambda>l. NL @ replicate (n * l) (CHR '' '')), js_item = (\<lambda>l. NL @ replicate (n * l) (CHR '' '')), js_key = '' ''\<rparr>"

fun json_layout :: "json_style \<Rightarrow> nat \<Rightarrow> pyval \<Rightarrow> string"
and layout_tail :: "json_style \<Rightarrow> nat \<Rightarrow> pyval list \<Rightarrow> string"
and layout_dtail :: "json_style \<Rightarrow> nat \<Rightarrow> pydict \<Rightarrow> string" where
  "json_layout st l (PList (x # xs)) =
     ''['' @ js_break st (Suc l) @ json_layout st (Suc l) x @ layout_tail st l xs"
| "json_layout st l (PDict ((k, v) # d)) =
     ''{'' @ js_break st (Suc l) @ json_str k @ '':'' @ js_key st @ json_layout st (Suc l) v @ layout_dtail st l d"
| "json_layout st l v = json_text v"
| "layout_tail st l [] = js_break st l @ '']''"
| "layout_tail st l (x # xs) = '','' @ js_item st (Suc l) @ json_layout st (Suc l) x @ layout_tail st l xs"
| "layout_dtail st l [] = js_break st l @ ''}''"
| "layout_dtail st l ((k, v) # d) =
     '','' @ js_item st (Suc l) @ json_str k @ '':'' @ js_key st @ json_layout st (Suc l) v @ layout_dtail st l d"

definition json_dumps :: "pyval \<Rightarrow> string" where
  "json_dumps v = json_layout default_style 0 v"

definition json_dumps_indent :: "nat \<Rightarrow> pyval \<Rightarrow> string" where
  "json_dumps_indent n v = json_layout (indent_style n) 0 v"

lemma json_layout_compact: "json_layout compact_style l v = json_text v"
  "layout_tail compact_style l xs = json_tail xs"
  "layout_dtail compact_style l d = json_dtail d"
  by (induction compact_style l v and compact_style l xs and compact_style l d rule: json_layout_layout_tail_layout_dtail.induct)
     (simp_all add: compact_style_def)

section \<open>Strings are read back\<close>

lemma hex_code_digit [simp]: "n < 16 \<Longrightarrow> hex_code (hex_digit n) = Some n"
  by (auto simp: hex_code_def hex_digit_def Let_def)

lemma parse_esc: "parse_chars (esc_char c @ t) = map_option (\<lambda>(x, r). (c # x, r)) (parse_chars t)"
proof -
  let ?n = "of_char c :: nat"
  consider "?n = 34" | "?n = 92" | "?n = 10" | "?n = 13" | "?n = 9" | "?n = 12" | "?n = 8"
    | "32 \<le> ?n \<and> ?n \<le> 126 \<and> ?n \<noteq> 34 \<and> ?n \<noteq> 92"
    | "\<not> (32 \<le> ?n \<and> ?n \<le> 126) \<and> ?n \<notin> {10, 13, 9, 12, 8}" by fastforce
  then show ?thesis
  proof cases
    case 8
    then show ?thesis by (simp add: esc_char_def Let_def)
  next
    case 9
    have lt: "?n div 16 < 16" "?n mod 16 < 16"
      using of_char_lt [of c] by (simp_all add: less_mult_imp_div_less)
    from 9 have "?n \<noteq> 34" "?n \<noteq> 92" by auto
    with 9 have e: "esc_char c = [char_of (92::nat), CHR ''u'', CHR ''0'', CHR ''0'',
        hex_digit (?n div 16), hex_digit (?n mod 16)]"
      by (simp add: esc_char_def Let_def)
    have "hex4 (CHR ''0'') (CHR ''0'') (hex_digit (?n div 16)) (hex_digit (?n mod 16)) = Some ?n"
      using lt by (simp add: hex4_def) (simp add: hex_code_def)
    then show ?thesis using of_char_lt [of c] by (simp add: e simple_escape_def)
  qed (drule char_eq_of, simp add: esc_char_def simple_escape_def)+
qed

lemma parse_json_str: "parse_chars (concat (map esc_char cs) @ DQ @ s) = Some (cs, s)"
proof (induction cs)
  case (Cons c cs)
  then show ?case by (simp add: parse_esc del: parse_chars.simps)
qed (simp add: DQ_def)

section \<open>Numbers are read back\<close>

lemma show_nat_zero: "hd (show_nat n) = CHR ''0'' \<Longrightarrow> n = 0"
proof (induction n rule: show_nat.induct)
  case (1 n)
  show ?case
  proof (cases "n < 10")
    case True
    then have "hd (show_nat n) = digit_char n" by (subst show_nat.simps) simp
    with "1.prems" have "of_char (digit_char n) = (48 :: nat)" by simp
    with digit_char_of [OF True] show ?thesis by simp
  next
    case False
    then have "hd (show_nat n) = hd (show_nat (n div 10))"
      by (subst show_nat.simps) simp
    with 1 False have "n div 10 = 0" by simp
    with False show ?thesis by simp
  qed
qed

lemma show_nat_0: "show_nat 0 = ''0''"
  by code_simp

text \<open>Where a number ends.\<close>

definition num_end :: "string \<Rightarrow> bool" where
  "num_end s = (frac_part s = [] \<and> exp_part s = [] \<and> takeWhile is_digit s = [])"

lemma num_end_delim: "delim s \<Longrightarrow> num_end s"
  by (cases s) (auto simp: num_end_def delim_def frac_part_def exp_part_def is_digit_def)

lemma num_end_ws: "json_ws c \<Longrightarrow> num_end (c # s)"
  by (auto simp: num_end_def json_ws_def frac_part_def exp_part_def is_digit_def Let_def)

lemma parse_digits:
  assumes "num_end s" "d = show_nat n"
  shows "takeWhile is_digit (d @ s) = d" "hd d = CHR ''0'' \<Longrightarrow> d = ''0''" "d \<noteq> []" "read_nat d = n"
proof -
  show "takeWhile is_digit (d @ s) = d"
    using assms show_nat_digits [of _ n] by (simp add: num_end_def)
qed (use show_nat_zero [of n] show_nat_0 assms(2) in auto)

lemma parse_show_int:
  assumes "num_end s"
  shows "parse_number pf (show_int i @ s) = Some (PInt i, s)"
proof -
  have hd: "hd (show_nat n @ s) \<noteq> CHR ''-''" for n
    using show_nat_head [of n] by (auto simp: is_digit_def)
  show ?thesis
  proof (cases "i < 0")
    case True
    define d where "d = show_nat (nat (- i))"
    have t: "show_int i @ s = CHR ''-'' # d @ s" using True by (simp add: show_int_def d_def)
    note d = parse_digits [OF assms d_def]
    show ?thesis
      using d assms True unfolding t
      by (cases "hd d = CHR ''0''") (simp_all add: parse_number_def num_end_def Let_def read_nat_def)
  next
    case False
    define d where "d = show_nat (nat i)"
    have t: "show_int i @ s = d @ s" "hd (d @ s) \<noteq> CHR ''-''" using False hd by (simp_all add: show_int_def d_def)
    note d = parse_digits [OF assms d_def]
    show ?thesis
      using d t(2) assms False unfolding t(1)
      by (cases "hd d = CHR ''0''") (simp_all add: parse_number_def num_end_def Let_def read_nat_def)
  qed
qed

section \<open>Documents are read back\<close>

lemma skip_ws_id: "s = [] \<or> \<not> json_ws (hd s) \<Longrightarrow> skip_ws s = s"
  by (cases s) (auto simp: skip_ws_def)

lemma skip_ws_delim: "delim s \<Longrightarrow> skip_ws s = s"
  by (cases s) (auto simp: delim_def skip_ws_def json_ws_def)

lemma skip_ws_append: "list_all json_ws w \<Longrightarrow> skip_ws (w @ s) = skip_ws s"
  by (induction w) (simp_all add: skip_ws_def)

lemma skip_ws_item [simp]: "\<not> json_ws c \<Longrightarrow> skip_ws (c # s) = c # s"
  by (simp add: skip_ws_def)

lemma json_text_first:
  "float_free v \<Longrightarrow> json_text v \<noteq> [] \<and> \<not> json_ws (hd (json_text v)) \<and> hd (json_text v) \<noteq> CHR '']''"
  using json_text_head [of v] by (cases v) (auto simp: kind_code_def json_ws_def split: if_splits)

lemma json_layout_head: "\<exists>t. json_layout st l v = hd (json_text v) # t" if "float_free v"
  using that json_text_first [of v]
  by (cases "(st, l, v)" rule: json_layout.cases) (auto intro: exI [of _ "tl (json_text v)"])

lemma json_layout_nonempty: "float_free v \<Longrightarrow> json_layout st l v \<noteq> []"
  using json_layout_head [of v st l] by auto

lemma skip_ws_layout: "float_free v \<Longrightarrow> skip_ws (json_layout st l v @ s) = json_layout st l v @ s"
  using json_layout_head [of v st l] json_text_first [of v] by auto

lemma skip_ws_str: "skip_ws (json_str k @ s) = json_str k @ s"
  by (intro skip_ws_id) (auto simp: json_str_def DQ_def json_ws_def)

text \<open>Python dictionaries have distinct keys, at every depth.\<close>

fun keys_ok :: "pyval \<Rightarrow> bool"
and keys_ok_list :: "pyval list \<Rightarrow> bool"
and keys_ok_dict :: "pydict \<Rightarrow> bool" where
  "keys_ok (PList xs) = keys_ok_list xs"
| "keys_ok (PDict d) = (distinct (map fst d) \<and> keys_ok_dict d)"
| "keys_ok v = True"
| "keys_ok_list [] = True"
| "keys_ok_list (x # xs) = (keys_ok x \<and> keys_ok_list xs)"
| "keys_ok_dict [] = True"
| "keys_ok_dict ((k, v) # d) = (keys_ok v \<and> keys_ok_dict d)"

lemma dput_new: "k \<notin> fst ` set d \<Longrightarrow> dput k v d = d @ [(k, v)]"
  by (induction d) auto

lemma dupdate_distinct: "distinct (map fst (e @ d)) \<Longrightarrow> dupdate e d = e @ d"
proof (induction d arbitrary: e)
  case (Cons p d)
  have "dput (fst p) (snd p) e = e @ [p]" using Cons.prems by (simp add: dput_new)
  then have "dupdate e (p # d) = dupdate (e @ [p]) d" by (simp add: dupdate_def)
  with Cons.IH [of "e @ [p]"] Cons.prems show ?case by simp
qed (simp add: dupdate_def)

lemma parse_int_value:
  assumes "num_end s"
  shows "parse_value pf (Suc n) (show_int i @ s) = Some (PInt i, s)"
proof -
  obtain d ds where d: "show_nat (nat \<bar>i\<bar>) = d # ds" "is_digit d" using show_nat_head by meson
  have t: "show_int i = (if i < 0 then CHR ''-'' # d # ds else d # ds)" using d(1) by (cases "i < 0") (simp_all add: show_int_def)
  have n: "d \<noteq> CHR ''n''" "d \<noteq> CHR ''t''" "d \<noteq> CHR ''f''" "d \<noteq> CHR ''N''" "d \<noteq> CHR ''I''" "d \<noteq> CHR ''-''"
    "(of_char d :: nat) \<noteq> 34" "d \<noteq> CHR ''[''" "d \<noteq> CHR ''{''" using d(2) by (auto simp: is_digit_def)
  have "parse_literal (show_int i @ s) = None" using n unfolding t by (simp add: parse_literal_def startswith_def)
  then show ?thesis
    using parse_show_int [OF assms, of pf i] n unfolding t parse_value.simps(2) by (cases "i < 0") simp_all
qed

text \<open>A style is white space; what follows a value is white space or a delimiter.\<close>

definition style_ok :: "json_style \<Rightarrow> bool" where
  "style_ok st = ((\<forall>l. list_all json_ws (js_break st l)) \<and> (\<forall>l. list_all json_ws (js_item st l)) \<and> list_all json_ws (js_key st))"

lemma style_ok [simp]: "style_ok compact_style" "style_ok default_style" "style_ok (indent_style n)"
  by (simp_all add: style_ok_def compact_style_def default_style_def indent_style_def NL_def json_ws_def list_all_iff)

lemma style_skip:
  assumes "style_ok st"
  shows "skip_ws (js_break st l @ s) = skip_ws s" "skip_ws (js_item st l @ s) = skip_ws s" "skip_ws (js_key st @ s) = skip_ws s"
  using assms by (simp_all add: style_ok_def skip_ws_append)

lemma num_end_break:
  assumes "style_ok st" "delim s"
  shows "num_end (js_break st l @ s)"
proof (cases "js_break st l")
  case Nil
  with assms(2) show ?thesis by (simp add: num_end_delim)
next
  case (Cons c w)
  moreover have "list_all json_ws (js_break st l)" using assms(1) by (simp add: style_ok_def)
  ultimately show ?thesis by (simp add: num_end_ws)
qed

lemma num_end_tail: "style_ok st \<Longrightarrow> num_end (layout_tail st l xs @ s)"
  by (cases xs) (simp_all add: num_end_break num_end_delim)

lemma num_end_dtail: "style_ok st \<Longrightarrow> num_end (layout_dtail st l d @ s)"
  by (cases "(st, l, d)" rule: layout_dtail.cases) (simp_all add: num_end_break num_end_delim)

lemma not_ws [simp]: "\<not> json_ws (CHR '','')" "\<not> json_ws (CHR '']'')" "\<not> json_ws (CHR ''}'')" "\<not> json_ws (CHR '':'')"
  by (simp_all add: json_ws_def)

lemma parse_value_layout:
  assumes st: "style_ok st"
  shows
  "float_free v \<Longrightarrow> keys_ok v \<Longrightarrow> num_end s \<Longrightarrow> 2 * length (json_layout st l v) \<le> n \<Longrightarrow>
   parse_value pf n (json_layout st l v @ s) = Some (v, s)"
  "float_free x \<Longrightarrow> keys_ok x \<Longrightarrow> float_free_list xs \<Longrightarrow> keys_ok_list xs \<Longrightarrow>
   2 * length (json_layout st (Suc l) x @ layout_tail st l xs) < n \<Longrightarrow>
   parse_elems pf n (json_layout st (Suc l) x @ layout_tail st l xs @ s) = Some (x # xs, s)"
  "float_free x \<Longrightarrow> keys_ok x \<Longrightarrow> float_free_dict d \<Longrightarrow> keys_ok_dict d \<Longrightarrow>
   2 * length (json_str k @ '':'' @ js_key st @ json_layout st (Suc l) x @ layout_dtail st l d) < n \<Longrightarrow>
   parse_members pf n (json_str k @ '':'' @ js_key st @ json_layout st (Suc l) x @ layout_dtail st l d @ s) = Some ((k, x) # d, s)"
proof (induction n arbitrary: v s x xs k d l)
  case (Suc n)
  {
    case 1
    show ?case
    proof (cases v)
      case (PInt i)
      with 1(3) show ?thesis by (simp add: parse_int_value del: parse_value.simps)
    next
      case (PStr t)
      then show ?thesis using parse_json_str [of t s] by (simp add: json_str_def DQ_def)
    next
      case (PList xs)
      show ?thesis
      proof (cases xs)
        case Nil
        with PList show ?thesis by (simp add: skip_ws_def json_ws_def)
      next
        case (Cons y ys)
        with PList 1 have f: "float_free y" "keys_ok y" "float_free_list ys" "keys_ok_list ys" by simp_all
        have "parse_elems pf n (json_layout st (Suc l) y @ layout_tail st l ys @ s) = Some (y # ys, s)"
          using 1(4) PList Cons by (intro Suc.IH(2) f) simp
        with PList Cons skip_ws_layout [OF f(1)] json_layout_head [OF f(1), of st "Suc l"] json_text_first [OF f(1)] show ?thesis
          by (auto simp: Let_def style_skip [OF st])
      qed
    next
      case (PDict d)
      show ?thesis
      proof (cases d)
        case Nil
        with PDict show ?thesis by (simp add: skip_ws_def json_ws_def)
      next
        case (Cons p e)
        obtain k y where p: "p = (k, y)" by force
        with PDict Cons 1 have f: "float_free y" "keys_ok y" "float_free_dict e" "keys_ok_dict e" by simp_all
        have "parse_members pf n (json_str k @ '':'' @ js_key st @ json_layout st (Suc l) y @ layout_dtail st l e @ s) = Some ((k, y) # e, s)"
          using 1(4) PDict Cons p by (intro Suc.IH(3) f) simp
        moreover have "dupdate [] d = d" using 1(2) PDict dupdate_distinct [of "[]" d] by simp
        moreover have "hd (json_str k @ t) = char_of (34::nat)" "json_str k @ t \<noteq> []" for t by (simp_all add: json_str_def DQ_def)
        moreover have "char_of (34::nat) \<noteq> CHR ''}''" by code_simp
        ultimately show ?thesis
          using PDict Cons p skip_ws_str [of k] by (simp add: Let_def style_skip [OF st])
      qed
    qed (use 1 in \<open>simp_all add: parse_literal_def startswith_def\<close>)
  next
    case 2
    show ?case
    proof -
      have "parse_value pf n (json_layout st (Suc l) x @ layout_tail st l xs @ s) = Some (x, layout_tail st l xs @ s)"
        using 2 num_end_tail [OF st] by (intro Suc.IH(1)) auto
      moreover have "parse_elems pf n (json_layout st (Suc l) y @ layout_tail st l ys @ s) = Some (xs, s)" if "xs = y # ys" for y ys
        using Suc.IH(2) [of y ys l s] 2 that by simp
      ultimately show ?thesis using 2 skip_ws_layout by (cases xs) (auto simp: style_skip [OF st])
    qed
  next
    case 3
    show ?case
    proof -
      have str: "parse_chars (concat (map esc_char k) @ DQ @ t) = Some (k, t)" for t by (rule parse_json_str)
      have "parse_value pf n (json_layout st (Suc l) x @ layout_dtail st l d @ s) = Some (x, layout_dtail st l d @ s)"
        using 3 num_end_dtail [OF st] by (intro Suc.IH(1)) auto
      moreover have "parse_members pf n (json_str m @ '':'' @ js_key st @ json_layout st (Suc l) y @ layout_dtail st l e @ s) = Some (d, s)"
        if "d = (m, y) # e" for m y e
        using Suc.IH(3) [of y e m l s] 3 that by simp
      ultimately show ?thesis
        using 3 skip_ws_layout [of x st "Suc l" "layout_dtail st l d @ s"] skip_ws_str str
        by (cases d) (auto simp: json_str_def DQ_def style_skip [OF st])
    qed
  }
qed (simp_all add: json_layout_nonempty)

lemma json_loads_layout:
  assumes "style_ok st" "float_free v" "keys_ok v" "list_all json_ws w"
  shows "json_loads pf (json_layout st 0 v @ w) = Inr v"
proof -
  have "num_end w" using assms(4) by (cases w) (simp_all add: num_end_ws num_end_delim)
  then have "parse_value pf n (json_layout st 0 v @ w) = Some (v, w)" if "2 * length (json_layout st 0 v) \<le> n" for n
    using that by (intro parse_value_layout(1) assms)
  moreover have "skip_ws w = []" using skip_ws_append [OF assms(4), of "[]"] by (simp add: skip_ws_def)
  ultimately show ?thesis using skip_ws_layout [OF assms(2)] by (simp add: json_loads_def del: parse_value.simps)
qed

lemma json_loads_text:
  assumes "float_free v" "keys_ok v"
  shows "json_loads pf (json_text v) = Inr v"
  using json_loads_layout [OF style_ok(1) assms, of "[]"] by (simp add: json_layout_compact)

section \<open>Values that are read\<close>

text \<open>A repeated key keeps its last value, so the dictionaries of a parsed document have distinct keys.\<close>

lemma keys_ok_dict_iff: "keys_ok_dict d \<longleftrightarrow> (\<forall>(k, v) \<in> set d. keys_ok v)"
  by (induction d) auto

lemma keys_ok_dput: "keys_ok v \<Longrightarrow> keys_ok_dict d \<Longrightarrow> keys_ok_dict (dput k v d)"
  by (induction d) auto

lemma keys_ok_dupdate: "keys_ok (PDict e) \<Longrightarrow> keys_ok_dict d \<Longrightarrow> keys_ok (PDict (dupdate e d))"
proof (induction d arbitrary: e)
  case (Cons p d)
  then have "keys_ok (PDict (dput (fst p) (snd p) e))" by (cases p) (simp add: distinct_dput keys_ok_dput)
  with Cons.IH [of "dput (fst p) (snd p) e"] Cons.prems show ?case by (cases p) (simp add: dupdate_def)
qed (simp add: dupdate_def)

lemma parse_literal_keys: "parse_literal s = Some (v, r) \<Longrightarrow> keys_ok v"
  by (auto simp: parse_literal_def split: if_splits)

lemma parse_number_keys: "(\<And>t. keys_ok (pf t)) \<Longrightarrow> parse_number pf s = Some (v, r) \<Longrightarrow> keys_ok v"
  by (auto simp: parse_number_def Let_def split: if_splits)

lemma parse_keys:
  assumes pf: "\<And>t. keys_ok (pf t)"
  shows "parse_value pf n s = Some (v, r) \<Longrightarrow> keys_ok v"
    "parse_elems pf n s = Some (xs, r) \<Longrightarrow> keys_ok_list xs"
    "parse_members pf n s = Some (d, r) \<Longrightarrow> keys_ok_dict d"
proof (induction n arbitrary: s v r xs d)
  case (Suc n)
  {
    case 1
    then show ?case
      using Suc.IH(2,3) parse_literal_keys parse_number_keys [OF pf]
      by (auto simp: Let_def intro!: keys_ok_dupdate [simplified] split: list.splits if_splits option.splits)
  next
    case 2
    then show ?case using Suc.IH(1,2) by (auto split: list.splits if_splits option.splits)
  next
    case 3
    then show ?case using Suc.IH(1,3) by (auto split: list.splits if_splits option.splits)
  }
qed simp_all

lemma json_loads_keys_ok: "(\<And>t. keys_ok (pf t)) \<Longrightarrow> json_loads pf s = Inr v \<Longrightarrow> keys_ok v"
  unfolding json_loads_def using parse_keys(1) [of pf]
  by (auto simp del: parse_value.simps split: option.splits if_splits)

section \<open>No carriage returns\<close>

text \<open>Text mode translates carriage returns when a file is read; documents have none.\<close>

definition no_cr :: "string \<Rightarrow> bool" where
  "no_cr s = list_all (\<lambda>c. (of_char c :: nat) \<noteq> 13) s"

lemma no_cr_simps [simp]: "no_cr []" "no_cr (c # s) = ((of_char c :: nat) \<noteq> 13 \<and> no_cr s)" "no_cr (s @ t) = (no_cr s \<and> no_cr t)"
  by (simp_all add: no_cr_def)

lemma no_cr_hex: "n < 16 \<Longrightarrow> (of_char (hex_digit n) :: nat) \<noteq> 13"
  using hex_code_digit [of n] by (auto simp: hex_code_def simp del: hex_code_digit)

lemma no_cr_esc_char: "no_cr (esc_char c)"
proof -
  have "(of_char c :: nat) div 16 < 16" by (simp add: less_mult_imp_div_less)
  then show ?thesis using no_cr_hex by (auto simp: esc_char_def Let_def)
qed

lemma no_cr_json_str [simp]: "no_cr (json_str k)"
proof -
  have "no_cr (concat (map esc_char k))" by (induction k) (simp_all add: no_cr_esc_char)
  then show ?thesis by (simp add: json_str_def DQ_def)
qed

lemma no_cr_show_nat [simp]: "no_cr (show_nat n)"
  using show_nat_digits [of _ n] by (fastforce simp: no_cr_def list_all_iff is_digit_def)

lemma no_cr_show_int [simp]: "no_cr (show_int i)"
  by (simp add: show_int_def)

definition style_plain :: "json_style \<Rightarrow> bool" where
  "style_plain st = ((\<forall>l. no_cr (js_break st l)) \<and> (\<forall>l. no_cr (js_item st l)) \<and> no_cr (js_key st))"

lemma no_cr_replicate: "(of_char c :: nat) \<noteq> 13 \<Longrightarrow> no_cr (replicate n c)"
  by (simp add: no_cr_def list_all_iff)

lemma style_plain [simp]: "style_plain default_style" "style_plain (indent_style n)"
  by (simp_all add: style_plain_def default_style_def indent_style_def NL_def no_cr_replicate)

lemma layout_no_cr:
  "style_plain st \<Longrightarrow> float_free v \<Longrightarrow> no_cr (json_layout st l v)"
  "style_plain st \<Longrightarrow> float_free_list xs \<Longrightarrow> no_cr (layout_tail st l xs)"
  "style_plain st \<Longrightarrow> float_free_dict d \<Longrightarrow> no_cr (layout_dtail st l d)"
  by (induction st l v and st l xs and st l d rule: json_layout_layout_tail_layout_dtail.induct)
     (simp_all add: style_plain_def)

section \<open>Canonical documents\<close>

lemma keys_ok_insort: "keys_ok_dict (insort_key fst (k, v) d) = (keys_ok v \<and> keys_ok_dict d)"
  by (induction d) auto

lemma insort_fst_set: "fst ` set (insort_key fst p d) = insert (fst p) (fst ` set d)"
  by (simp add: set_insort_key)

lemma distinct_insort_fst: "distinct (map fst (insort_key fst p d)) = (fst p \<notin> fst ` set d \<and> distinct (map fst d))"
  by (induction d) (auto simp: set_insort_key)

lemma canon_dict_keys: "fst ` set (canon_dict d) = fst ` set d"
proof (induction d)
  case (Cons p d)
  then show ?case by (cases p) (simp only: canon_dict.simps insort_fst_set, simp)
qed simp

lemma distinct_canon_dict: "distinct (map fst (canon_dict d)) = distinct (map fst d)"
proof (induction d)
  case (Cons p d)
  then show ?case by (cases p) (simp only: canon_dict.simps distinct_insort_fst canon_dict_keys, simp add: canon_dict_keys)
qed simp

lemma keys_ok_canon [simp]: "keys_ok (canon v) = keys_ok v" "keys_ok_list (canon_list xs) = keys_ok_list xs"
  "keys_ok_dict (canon_dict d) = keys_ok_dict d"
  by (induction v and xs and d rule: canon_canon_list_canon_dict.induct) (auto simp: keys_ok_insort distinct_canon_dict)

lemma json_loads_canonical:
  assumes "float_free v" "keys_ok v"
  shows "json_loads pf (canonical_json v) = Inr (canon v)"
  using assms by (simp add: canonical_json_def json_loads_text)

end
