(* ===== verification/Proof_Engine.thy ===== *)
theory Proof_Engine
  imports Dual_Track Json_Parser "HOL-Library.Product_Lexorder"
begin

text \<open>
  The framework below the services: validation of private inputs against the schema of a circuit
  (\<open>logic/private_input_schema.py\<close>), the registries of circuits and policy packs (\<open>registry.py\<close>,
  \<open>circuit_discovery.py\<close>, \<open>policy_registry.py\<close>, \<open>policies/primitives.py\<close>), parameter files
  (\<open>policy_parameters.py\<close>), the three proof providers (\<open>providers/\<close>), the circuit manager and the proof
  engine (\<open>api/circuit_manager.py\<close>, \<open>api/proof_engine.py\<close>).

  The file system is a parameter (the entries of a directory, the files that exist, their text), as are
  jsonschema, pydantic's parsing of manifests, the gRPC service and the \<open>snarkjs\<close> program. What every
  provider promises is the locale \<open>artifact_backend\<close>; the gRPC and the \<open>snarkjs\<close> provider implement it.
\<close>

section \<open>Schemas of private inputs\<close>

datatype path_item = PathIndex int | PathKey string

record schema_lib =
  sl_check_schema :: "pydict \<Rightarrow> string option"
  sl_iter_errors :: "pydict \<Rightarrow> pydict \<Rightarrow> (path_item list \<times> string) list"

definition json_path :: "path_item list \<Rightarrow> string" where
  "json_path path =
     ''$'' @ concat (map (\<lambda>i. case i of PathIndex n \<Rightarrow> ''['' @ show_int n @ '']'' | PathKey k \<Rightarrow> ''.'' @ k) path)"

definition validation_error_sort_key :: "path_item list \<times> string \<Rightarrow> nat \<times> string" where
  "validation_error_sort_key err = (length (fst err), json_path (fst err))"

definition validate_private_input_schema :: "schema_lib \<Rightarrow> pydict \<Rightarrow> pydict \<Rightarrow> unit res" where
  "validate_private_input_schema lib input_schema private_input =
     (case sl_check_schema lib input_schema of
        Some message \<Rightarrow> Inl (ValueError (''invalid manifest input_schema: '' @ message))
      | None \<Rightarrow>
          (case sort_key validation_error_sort_key (sl_iter_errors lib input_schema private_input) of
             [] \<Rightarrow> Inr ()
           | first # _ \<Rightarrow> Inl (ValueError (json_path (fst first) @ '': '' @ snd first))))"

section \<open>Circuits\<close>

record circuit_manifest =
  cm_circuit_id :: string
  cm_input_schema :: pydict
  cm_public_signals :: "string list"
  cm_version :: string

text \<open>One entry of a directory of packs: its manifest file, if there is one, and its file names.\<close>

record pack_dir =
  pk_name :: string
  pk_is_dir :: bool
  pk_manifest :: "string option"
  pk_files :: "string list"

definition path_join :: "string \<Rightarrow> string \<Rightarrow> string" where
  "path_join base name = (if startswith name ''/'' then name else base @ ''/'' @ name)"

type_synonym circuit_registry = "(string \<times> circuit_manifest) list"

definition register_circuit ::
  "(string \<Rightarrow> pyval) \<Rightarrow> (pyval \<Rightarrow> circuit_manifest res) \<Rightarrow> string \<Rightarrow> circuit_registry \<Rightarrow> pack_dir \<Rightarrow> circuit_registry res" where
  "register_circuit parse_float model_validate circuits_dir manifests candidate =
     (case (if pk_is_dir candidate then pk_manifest candidate else None) of
        None \<Rightarrow> Inr manifests
      | Some raw \<Rightarrow>
          rbind (json_loads parse_float raw) (\<lambda>raw_manifest.
          rbind (model_validate raw_manifest) (\<lambda>manifest.
          let circuit_file = cm_circuit_id manifest @ ''.circom''
          in if circuit_file \<notin> set (pk_files candidate)
             then Inl (ValueError (''Missing circuit file for '' @ cm_circuit_id manifest @ '': '' @
                    path_join (path_join circuits_dir (pk_name candidate)) circuit_file))
             else Inr (dput (cm_circuit_id manifest) manifest manifests))))"

definition refresh_circuits ::
  "(string \<Rightarrow> pyval) \<Rightarrow> (pyval \<Rightarrow> circuit_manifest res) \<Rightarrow> string \<Rightarrow> pack_dir list option \<Rightarrow> circuit_registry res" where
  "refresh_circuits parse_float model_validate circuits_dir entries =
     (case entries of
        None \<Rightarrow> Inr []
      | Some candidates \<Rightarrow> rfold (register_circuit parse_float model_validate circuits_dir) [] candidates)"

definition list_circuits :: "circuit_registry \<Rightarrow> string list" where
  "list_circuits reg = sort (map fst reg)"

text \<open>\<open>CircuitNotFoundError\<close> is the only exception of the lookup; its text is the identifier.\<close>

definition get_circuit_manifest :: "circuit_registry \<Rightarrow> string \<Rightarrow> circuit_manifest res" where
  "get_circuit_manifest reg circuit_id =
     (case map_of reg circuit_id of None \<Rightarrow> Inl (OtherError circuit_id) | Some m \<Rightarrow> Inr m)"

record artifact_paths =
  ap_circuit_dir :: string
  ap_wasm_path :: string
  ap_zkey_path :: string
  ap_verification_key_path :: string

definition get_artifact_paths :: "string \<Rightarrow> circuit_registry \<Rightarrow> string \<Rightarrow> artifact_paths res" where
  "get_artifact_paths shared_assets_dir reg circuit_id =
     rbind (get_circuit_manifest reg circuit_id) (\<lambda>_.
     let artifact_dir = path_join shared_assets_dir circuit_id
     in Inr \<lparr>ap_circuit_dir = artifact_dir, ap_wasm_path = path_join artifact_dir (circuit_id @ ''.wasm''),
             ap_zkey_path = path_join artifact_dir ''final.zkey'',
             ap_verification_key_path = path_join artifact_dir ''verification_key.json''\<rparr>)"

definition runnable_circuit ::
  "(string \<Rightarrow> pyval) \<Rightarrow> string \<Rightarrow> (string \<times> string) list \<Rightarrow> pack_dir \<Rightarrow> (string \<times> string) list res" where
  "runnable_circuit parse_float circuits_dir results child =
     (let dir = path_join circuits_dir (pk_name child)
      in case (if pk_is_dir child then pk_manifest child else None) of
           None \<Rightarrow> Inr results
         | Some raw \<Rightarrow>
             rbind (json_loads parse_float raw) (\<lambda>payload.
             case payload of
               PDict d \<Rightarrow>
                 (case dget d ''circuit_id'' of
                    PStr (c # cs) \<Rightarrow>
                      (if (c # cs) @ ''.circom'' \<notin> set (pk_files child)
                       then Inl (ValueError (''Missing circuit file referenced by manifest: '' @
                              path_join dir ((c # cs) @ ''.circom'')))
                       else Inr (results @ [(dir, c # cs)]))
                  | _ \<Rightarrow> Inl (ValueError (''Invalid manifest circuit_id in '' @ path_join dir ''manifest.json'')))
             | _ \<Rightarrow> Inl (OtherError ''object has no attribute get'')))"

definition discover_runnable_circuits ::
  "(string \<Rightarrow> pyval) \<Rightarrow> string \<Rightarrow> pack_dir list option \<Rightarrow> (string \<times> string) list res" where
  "discover_runnable_circuits parse_float circuits_dir entries =
     (case entries of
        None \<Rightarrow> Inr []
      | Some children \<Rightarrow> rfold (runnable_circuit parse_float circuits_dir) [] (sort_key pk_name children))"

section \<open>Policy packs\<close>

definition ALLOWED_PRIMITIVES :: "string list" where
  "ALLOWED_PRIMITIVES = [''SafeSub'', ''InterestRateValidator'', ''MerkleProof'', ''BalanceGreaterThanLimit'',
     ''ActiveCountBounds'', ''ZeroPaddingInvariant'']"

definition unknown_primitives :: "string list \<Rightarrow> string list" where
  "unknown_primitives primitives = sort (remdups (filter (\<lambda>p. p \<notin> set ALLOWED_PRIMITIVES) primitives))"

record policy_manifest =
  pm_policy_id :: string
  pm_policy_version :: string
  pm_circuit_id :: string
  pm_description :: "string option"
  pm_input_contract :: pydict
  pm_evidence_contract :: pydict
  pm_reference_policy :: string
  pm_primitives :: "string list"
  pm_differential_outputs :: "(string \<times> diff_output) list"
  pm_compiler_metadata :: "(string \<times> string) list"
  pm_expected_attestation :: pydict

type_synonym policy_registry = "(string \<times> policy_manifest) list"

text \<open>\<open>PolicyManifestError\<close> wraps the two errors of reading a manifest and reports unknown primitives.\<close>

definition register_policy ::
  "(pyexc \<Rightarrow> string) \<Rightarrow> (string \<Rightarrow> pyval) \<Rightarrow> (pyval \<Rightarrow> policy_manifest res) \<Rightarrow> string \<Rightarrow> policy_registry \<Rightarrow> pack_dir \<Rightarrow> policy_registry res" where
  "register_policy interp_text parse_float model_validate packs_dir manifests candidate =
     (let manifest_path = path_join (path_join packs_dir (pk_name candidate)) ''manifest.json'';
          invalid = (\<lambda>m. Inl (OtherError (''policy_manifest_invalid: '' @ manifest_path @ '': '' @ m)))
      in case (if pk_is_dir candidate then pk_manifest candidate else None) of
           None \<Rightarrow> Inr manifests
         | Some raw \<Rightarrow>
             (case rbind (json_loads parse_float raw) model_validate of
                Inl e \<Rightarrow> invalid (exc_text interp_text e)
              | Inr manifest \<Rightarrow>
                  (let unknown = unknown_primitives (pm_primitives manifest)
                   in if unknown \<noteq> [] then invalid (''unknown primitives '' @ py_repr (PList (map PStr unknown)))
                      else Inr (dput (pm_policy_id manifest) manifest manifests))))"

definition refresh_policies ::
  "(pyexc \<Rightarrow> string) \<Rightarrow> (string \<Rightarrow> pyval) \<Rightarrow> (pyval \<Rightarrow> policy_manifest res) \<Rightarrow> string \<Rightarrow> pack_dir list option \<Rightarrow> policy_registry res" where
  "refresh_policies interp_text parse_float model_validate packs_dir entries =
     (case entries of
        None \<Rightarrow> Inr []
      | Some candidates \<Rightarrow> rfold (register_policy interp_text parse_float model_validate packs_dir) [] candidates)"

definition list_policies :: "policy_registry \<Rightarrow> string list" where
  "list_policies reg = sort (map fst reg)"

definition get_policy_manifest :: "policy_registry \<Rightarrow> string \<Rightarrow> policy_manifest res" where
  "get_policy_manifest reg policy_id =
     (case map_of reg policy_id of None \<Rightarrow> Inl (OtherError policy_id) | Some m \<Rightarrow> Inr m)"

text \<open>Parameter files, read below the directory of the policy. \<open>read_file\<close> gives the text of an existing file.\<close>

definition resolve_params_ref ::
  "(string \<Rightarrow> pyval) \<Rightarrow> (string \<Rightarrow> string option) \<Rightarrow> string \<Rightarrow> string \<Rightarrow> string option \<Rightarrow> (string \<times> int) list res" where
  "resolve_params_ref parse_float read_file packs_dir policy_id policy_params_ref =
     (case policy_params_ref of
        None \<Rightarrow> Inr []
      | Some given \<Rightarrow>
          (let ref = py_strip given;
               base = [(''policy_id'', PStr policy_id), (''policy_params_ref'', PStr given)];
               path = path_join (path_join (path_join packs_dir policy_id) ''params'') (ref @ ''.json'');
               invalid = (\<lambda>m d. Inl (FrameworkError ''invalid_policy_params_ref'' m (base @ d)))
           in if ref = [] then Inr []
              else if contains ''..'' ref \<or> contains ''/'' ref \<or> contains [char_of (92::nat)] ref
              then invalid ''Policy parameter reference must be a plain file stem'' []
              else case read_file path of
                     None \<Rightarrow> Inl (FrameworkError ''unknown_policy_params_ref'' ''Policy parameter reference not found''
                               (base @ [(''path'', PStr path)]))
                   | Some text \<Rightarrow>
                       (case json_loads parse_float text of
                          Inl e \<Rightarrow> invalid ''Policy parameter file is not valid JSON'' [(''path'', PStr path)]
                        | Inr (PDict payload) \<Rightarrow>
                            rfold (\<lambda>normalized (key, v). case v of
                                     PInt i \<Rightarrow> Inr (dput key i normalized)
                                   | _ \<Rightarrow> invalid ''Policy parameter values must be integers''
                                            [(''parameter'', PStr key), (''value'', v)]) [] payload
                        | Inr _ \<Rightarrow> invalid ''Policy parameter file must decode to an object'' [(''path'', PStr path)])))"

section \<open>Proof providers\<close>

text \<open>The protocol \<open>ProofProvider\<close>: a proof and its public signals are JSON values as the backend returned them.\<close>

record proof_provider =
  pp_ensure_artifacts :: "string \<Rightarrow> unit res"
  pp_generate_proof :: "string \<Rightarrow> pydict \<Rightarrow> (pyval \<times> pyval) res"
  pp_verify_proof :: "string \<Rightarrow> pydict \<Rightarrow> pyval list \<Rightarrow> bool res"

fun py_class_name :: "pyval \<Rightarrow> string" where
  "py_class_name PNone = ''NoneType''"
| "py_class_name (PBool b) = ''bool''"
| "py_class_name (PInt i) = ''int''"
| "py_class_name (PFloat q r) = ''float''"
| "py_class_name (PStr s) = ''str''"
| "py_class_name (PList xs) = ''list''"
| "py_class_name (PDict d) = ''dict''"

fun normalize_json_value :: "pyval \<Rightarrow> pyval res"
and normalize_json_list :: "pyval list \<Rightarrow> pyval list res"
and normalize_json_dict :: "pydict \<Rightarrow> pydict res" where
  "normalize_json_value (PBool b) = Inr (PBool b)"
| "normalize_json_value (PInt i) = Inr (PStr (show_int i))"
| "normalize_json_value (PStr s) = Inr (PStr s)"
| "normalize_json_value (PList xs) = rbind (normalize_json_list xs) (\<lambda>ys. Inr (PList ys))"
| "normalize_json_value (PDict d) = rbind (normalize_json_dict d) (\<lambda>e. Inr (PDict e))"
| "normalize_json_value PNone = Inr PNone"
| "normalize_json_value (PFloat q r) =
     Inl (APIError 422 ''invalid_private_input'' ''Private input contains non-serializable value''
       [(''value_type'', PStr (py_class_name (PFloat q r)))])"
| "normalize_json_list [] = Inr []"
| "normalize_json_list (x # xs) =
     rbind (normalize_json_value x) (\<lambda>y. rbind (normalize_json_list xs) (\<lambda>ys. Inr (y # ys)))"
| "normalize_json_dict [] = Inr []"
| "normalize_json_dict ((k, v) # d) =
     rbind (normalize_json_value v) (\<lambda>w. rbind (normalize_json_dict d) (\<lambda>e. Inr ((k, w) # e)))"

definition missing_artifacts :: "(string \<Rightarrow> bool) \<Rightarrow> artifact_paths \<Rightarrow> string list" where
  "missing_artifacts exists_file p =
     filter (\<lambda>path. \<not> exists_file path) [ap_wasm_path p, ap_zkey_path p, ap_verification_key_path p]"

definition require_artifacts :: "(string \<Rightarrow> bool) \<Rightarrow> string \<Rightarrow> circuit_registry \<Rightarrow> string \<Rightarrow> artifact_paths res" where
  "require_artifacts exists_file assets reg circuit_id =
     rbind (get_artifact_paths assets reg circuit_id) (\<lambda>artifacts.
     let missing = missing_artifacts exists_file artifacts
     in if missing \<noteq> []
        then Inl (APIError 500 ''missing_artifacts'' ''Required circuit artifacts are missing''
               [(''circuit_id'', PStr circuit_id), (''missing'', PList (map PStr missing))])
        else Inr artifacts)"

subsection \<open>The gRPC provider\<close>

text \<open>A call to the native prover answers, fails with an \<open>RpcError\<close>, or is interrupted by another exception.\<close>

datatype 'a grpc_reply = RpcOk 'a | RpcError string | RpcRaised pyexc

record grpc_stub =
  gs_generate :: "string \<Rightarrow> string \<Rightarrow> string \<Rightarrow> string \<Rightarrow> (string \<times> string) grpc_reply"
  gs_verify :: "string \<Rightarrow> string \<Rightarrow> string \<Rightarrow> string \<Rightarrow> bool grpc_reply"

definition grpc_result :: "string \<Rightarrow> string \<Rightarrow> 'a grpc_reply \<Rightarrow> 'a res" where
  "grpc_result what circuit_id r =
     (case r of
        RpcOk x \<Rightarrow> Inr x
      | RpcError reason \<Rightarrow> Inl (APIError 500 ''provider_command_failed'' (''gRPC native prover '' @ what @ '' call failed'')
          [(''circuit_id'', PStr circuit_id), (''reason'', PStr reason)])
      | RpcRaised e \<Rightarrow> Inl e)"

definition grpc_generate_proof ::
  "(string \<Rightarrow> pyval) \<Rightarrow> (string \<Rightarrow> bool) \<Rightarrow> string \<Rightarrow> circuit_registry \<Rightarrow> grpc_stub \<Rightarrow> string \<Rightarrow> pydict \<Rightarrow> (pyval \<times> pyval) res" where
  "grpc_generate_proof parse_float exists_file assets reg stub circuit_id private_input =
     rbind (require_artifacts exists_file assets reg circuit_id) (\<lambda>artifacts.
     rbind (normalize_json_value (PDict private_input)) (\<lambda>normalized.
     rbind (grpc_result ''generate'' circuit_id
              (gs_generate stub circuit_id (canonical_json normalized) (ap_wasm_path artifacts) (ap_zkey_path artifacts)))
       (\<lambda>(proof_json, public_signals_json).
     rbind (json_loads parse_float proof_json) (\<lambda>proof.
     rbind (json_loads parse_float public_signals_json) (\<lambda>public_signals.
     Inr (proof, public_signals))))))"

definition grpc_verify_proof ::
  "(string \<Rightarrow> bool) \<Rightarrow> string \<Rightarrow> circuit_registry \<Rightarrow> grpc_stub \<Rightarrow> string \<Rightarrow> pydict \<Rightarrow> pyval list \<Rightarrow> bool res" where
  "grpc_verify_proof exists_file assets reg stub circuit_id proof public_signals =
     rbind (require_artifacts exists_file assets reg circuit_id) (\<lambda>artifacts.
     grpc_result ''verify'' circuit_id
       (gs_verify stub circuit_id (canonical_json (PDict proof)) (json_text (PList public_signals))
          (ap_verification_key_path artifacts)))"

definition grpc_provider ::
  "(string \<Rightarrow> pyval) \<Rightarrow> (string \<Rightarrow> bool) \<Rightarrow> string \<Rightarrow> circuit_registry \<Rightarrow> grpc_stub \<Rightarrow> proof_provider" where
  "grpc_provider parse_float exists_file assets reg stub =
     \<lparr>pp_ensure_artifacts = (\<lambda>c. rbind (require_artifacts exists_file assets reg c) (\<lambda>_. Inr ())),
      pp_generate_proof = grpc_generate_proof parse_float exists_file assets reg stub,
      pp_verify_proof = grpc_verify_proof exists_file assets reg stub\<rparr>"

subsection \<open>The \<open>snarkjs\<close> provider\<close>

text \<open>
  A run of the program: exit code, standard output and error, and the text of the two files a proving
  run wrote. \<open>tmp\<close> is the name of the temporary directory of the call.
\<close>

record snarkjs_run =
  sr_returncode :: int
  sr_stdout :: string
  sr_stderr :: string
  sr_proof_json :: "string option"
  sr_public_json :: "string option"

definition read_text :: "string \<Rightarrow> string option \<Rightarrow> string res" where
  "read_text path content =
     (case content of None \<Rightarrow> Inl (OtherError (''No such file or directory: '' @ path)) | Some t \<Rightarrow> Inr t)"

definition command_failed :: "string list \<Rightarrow> snarkjs_run \<Rightarrow> pyexc" where
  "command_failed args r =
     APIError 500 ''provider_command_failed'' ''snarkjs command failed''
       [(''command'', PList (map PStr args)), (''stdout'', PStr (sr_stdout r)), (''stderr'', PStr (sr_stderr r))]"

definition snarkjs_generate_proof ::
  "(string \<Rightarrow> pyval) \<Rightarrow> (string \<Rightarrow> bool) \<Rightarrow> string \<Rightarrow> circuit_registry \<Rightarrow> string \<Rightarrow> (string list \<Rightarrow> string list \<Rightarrow> snarkjs_run res) \<Rightarrow> string \<Rightarrow>
   string \<Rightarrow> pydict \<Rightarrow> (pyval \<times> pyval) res" where
  "snarkjs_generate_proof parse_float exists_file assets reg snarkjs_bin run_process tmp circuit_id private_input =
     rbind (require_artifacts exists_file assets reg circuit_id) (\<lambda>artifacts.
     rbind (normalize_json_value (PDict private_input)) (\<lambda>normalized_input.
     let input_path = path_join tmp ''input.json''; proof_path = path_join tmp ''proof.json'';
         public_path = path_join tmp ''public.json'';
         args = [snarkjs_bin, ''groth16'', ''fullprove'', input_path, ap_wasm_path artifacts, ap_zkey_path artifacts,
                 proof_path, public_path]
     in rbind (run_process args [json_text normalized_input]) (\<lambda>r.
        if sr_returncode r \<noteq> 0 then Inl (command_failed args r)
        else rbind (rbind (read_text proof_path (sr_proof_json r)) (json_loads parse_float)) (\<lambda>proof.
             rbind (rbind (read_text public_path (sr_public_json r)) (json_loads parse_float)) (\<lambda>public_signals.
             Inr (proof, public_signals))))))"

text \<open>\<open>dumps\<close> is \<open>json.dumps\<close> with its default separators, which only the program reads.\<close>

definition snarkjs_verify_proof ::
  "(pyval \<Rightarrow> string) \<Rightarrow> (string \<Rightarrow> bool) \<Rightarrow> string \<Rightarrow> circuit_registry \<Rightarrow> string \<Rightarrow> (string list \<Rightarrow> string list \<Rightarrow> snarkjs_run res) \<Rightarrow> string \<Rightarrow>
   string \<Rightarrow> pydict \<Rightarrow> pyval list \<Rightarrow> bool res" where
  "snarkjs_verify_proof dumps exists_file assets reg snarkjs_bin run_process tmp circuit_id proof public_signals =
     rbind (require_artifacts exists_file assets reg circuit_id) (\<lambda>artifacts.
     let args = [snarkjs_bin, ''groth16'', ''verify'', ap_verification_key_path artifacts,
                 path_join tmp ''public.json'', path_join tmp ''proof.json'']
     in rbind (run_process args [dumps (PDict proof), dumps (PList public_signals)]) (\<lambda>r.
        if sr_returncode r \<noteq> 0
        then (if contains ''Invalid proof'' (sr_stdout r @ NL @ sr_stderr r) then Inr False
              else Inl (command_failed args r))
        else Inr (contains ''OK!'' (sr_stdout r))))"

definition snarkjs_provider ::
  "(string \<Rightarrow> pyval) \<Rightarrow> (pyval \<Rightarrow> string) \<Rightarrow> (string \<Rightarrow> bool) \<Rightarrow> string \<Rightarrow> circuit_registry \<Rightarrow> string \<Rightarrow>
   (string list \<Rightarrow> string list \<Rightarrow> snarkjs_run res) \<Rightarrow> string \<Rightarrow> proof_provider" where
  "snarkjs_provider parse_float dumps exists_file assets reg snarkjs_bin run_process tmp =
     \<lparr>pp_ensure_artifacts = (\<lambda>c. rbind (require_artifacts exists_file assets reg c) (\<lambda>_. Inr ())),
      pp_generate_proof = snarkjs_generate_proof parse_float exists_file assets reg snarkjs_bin run_process tmp,
      pp_verify_proof = snarkjs_verify_proof dumps exists_file assets reg snarkjs_bin run_process tmp\<rparr>"

subsection \<open>The shadow provider\<close>

text \<open>Each operation gives its result and the metric events it observed, in order.\<close>

type_synonym shadow_events = "(string \<times> string) list"

definition compare_generate :: "bool \<Rightarrow> pyval \<times> pyval \<Rightarrow> pyval \<times> pyval \<Rightarrow> shadow_events" where
  "compare_generate compare_public_signals p s =
     (if \<not> compare_public_signals then []
      else if \<not> py_eq (snd p) (snd s) then [(''public_signals'', ''mismatch'')]
      else [(''public_signals'', ''match'')])"

definition shadow_ensure_artifacts :: "proof_provider \<Rightarrow> proof_provider \<Rightarrow> string \<Rightarrow> unit res" where
  "shadow_ensure_artifacts primary shadow circuit_id =
     rbind (pp_ensure_artifacts primary circuit_id) (\<lambda>_. pp_ensure_artifacts shadow circuit_id)"

definition shadow_generate_proof ::
  "proof_provider \<Rightarrow> proof_provider \<Rightarrow> bool \<Rightarrow> string \<Rightarrow> pydict \<Rightarrow> (pyval \<times> pyval) res \<times> shadow_events" where
  "shadow_generate_proof primary shadow compare_public_signals circuit_id private_input =
     (case pp_generate_proof primary circuit_id private_input of
        Inl e \<Rightarrow> (Inl e, [])
      | Inr primary_result \<Rightarrow>
          (Inr primary_result,
           (''generate'', ''primary_success'') #
           (case pp_generate_proof shadow circuit_id private_input of
              Inl e \<Rightarrow> [(''generate'', ''shadow_failed'')]
            | Inr shadow_result \<Rightarrow> compare_generate compare_public_signals primary_result shadow_result)))"

definition shadow_verify_proof ::
  "proof_provider \<Rightarrow> proof_provider \<Rightarrow> string \<Rightarrow> pydict \<Rightarrow> pyval list \<Rightarrow> bool res \<times> shadow_events" where
  "shadow_verify_proof primary shadow circuit_id proof public_signals =
     (case pp_verify_proof primary circuit_id proof public_signals of
        Inl e \<Rightarrow> (Inl e, [])
      | Inr primary_valid \<Rightarrow>
          (Inr primary_valid,
           (case pp_verify_proof shadow circuit_id proof public_signals of
              Inl e \<Rightarrow> [(''verify'', ''shadow_failed'')]
            | Inr shadow_valid \<Rightarrow>
                (if shadow_valid \<noteq> primary_valid then [(''verify'', ''mismatch'')] else [(''verify'', ''match'')]))))"

section \<open>The circuit manager and the proof engine\<close>

definition get_manifest_version :: "circuit_registry \<Rightarrow> string \<Rightarrow> string res" where
  "get_manifest_version reg circuit_id =
     (case get_circuit_manifest reg circuit_id of
        Inl _ \<Rightarrow> Inl (FrameworkError ''unknown_circuit'' ''Circuit id not found'' [(''circuit_id'', PStr circuit_id)])
      | Inr manifest \<Rightarrow> Inr (cm_version manifest))"

record circuit_status =
  cs_circuit_id :: string
  cs_version :: string
  cs_artifacts_ready :: bool
  cs_artifact_paths :: "(string \<times> string) list"

definition artifacts_exist :: "(string \<Rightarrow> bool) \<Rightarrow> string \<Rightarrow> circuit_registry \<Rightarrow> string \<Rightarrow> bool res" where
  "artifacts_exist exists_file assets reg circuit_id =
     rbind (get_artifact_paths assets reg circuit_id) (\<lambda>paths.
     Inr (list_all exists_file [ap_wasm_path paths, ap_zkey_path paths, ap_verification_key_path paths]))"

definition validate_circuit :: "(string \<Rightarrow> bool) \<Rightarrow> string \<Rightarrow> circuit_registry \<Rightarrow> string \<Rightarrow> circuit_status res" where
  "validate_circuit exists_file assets reg circuit_id =
     rbind (get_manifest_version reg circuit_id) (\<lambda>version.
     rbind (get_artifact_paths assets reg circuit_id) (\<lambda>paths.
     rbind (artifacts_exist exists_file assets reg circuit_id) (\<lambda>ready.
     Inr \<lparr>cs_circuit_id = circuit_id, cs_version = version, cs_artifacts_ready = ready,
          cs_artifact_paths = [(''wasm_path'', ap_wasm_path paths), (''zkey_path'', ap_zkey_path paths),
            (''verification_key_path'', ap_verification_key_path paths)]\<rparr>)))"

definition list_with_validation :: "(string \<Rightarrow> bool) \<Rightarrow> string \<Rightarrow> circuit_registry \<Rightarrow> circuit_status list res" where
  "list_with_validation exists_file assets reg = rmap (validate_circuit exists_file assets reg) (list_circuits reg)"

definition ensure_artifacts :: "(pyexc \<Rightarrow> string) \<Rightarrow> circuit_registry \<Rightarrow> proof_provider \<Rightarrow> string \<Rightarrow> unit res" where
  "ensure_artifacts interp_text reg provider circuit_id =
     (case get_circuit_manifest reg circuit_id of
        Inl _ \<Rightarrow> Inl (FrameworkError ''unknown_circuit'' ''Circuit id not found'' [(''circuit_id'', PStr circuit_id)])
      | Inr _ \<Rightarrow>
          (case pp_ensure_artifacts provider circuit_id of
             Inl e \<Rightarrow> Inl (FrameworkError ''missing_artifacts'' ''Required circuit artifacts are missing or invalid''
                        [(''circuit_id'', PStr circuit_id), (''reason'', PStr (exc_text interp_text e))])
           | Inr _ \<Rightarrow> Inr ()))"

text \<open>The result model accepts a proof object and a list of signals; \<open>invalid\<close> is pydantic's message otherwise.\<close>

definition proof_generation_result :: "string \<Rightarrow> pyval \<times> pyval \<Rightarrow> (pydict \<times> pyval list) res" where
  "proof_generation_result invalid r =
     (case r of (PDict proof, PList public_signals) \<Rightarrow> Inr (proof, public_signals) | _ \<Rightarrow> Inl (ValueError invalid))"

definition engine_generate ::
  "(pyexc \<Rightarrow> string) \<Rightarrow> string \<Rightarrow> circuit_registry \<Rightarrow> proof_provider \<Rightarrow> string \<Rightarrow> pydict \<Rightarrow> (pydict \<times> pyval list) res" where
  "engine_generate interp_text invalid reg provider circuit_id private_input =
     rbind (ensure_artifacts interp_text reg provider circuit_id) (\<lambda>_.
     case pp_generate_proof provider circuit_id private_input of
       Inl e \<Rightarrow> Inl (FrameworkError ''proof_generation_failed'' ''Proof generation failed''
                  [(''circuit_id'', PStr circuit_id), (''reason'', PStr (exc_text interp_text e))])
     | Inr r \<Rightarrow> proof_generation_result invalid r)"

definition engine_verify ::
  "(pyexc \<Rightarrow> string) \<Rightarrow> circuit_registry \<Rightarrow> proof_provider \<Rightarrow> string \<Rightarrow> pydict \<Rightarrow> pyval list \<Rightarrow> bool res" where
  "engine_verify interp_text reg provider circuit_id proof public_signals =
     rbind (ensure_artifacts interp_text reg provider circuit_id) (\<lambda>_.
     case pp_verify_proof provider circuit_id proof public_signals of
       Inl e \<Rightarrow> Inl (FrameworkError ''proof_verification_failed'' ''Proof verification failed''
                  [(''circuit_id'', PStr circuit_id), (''reason'', PStr (exc_text interp_text e))])
     | Inr valid \<Rightarrow> Inr valid)"

section \<open>Schemas: the reported error\<close>

lemma schema_accepts_iff:
  "validate_private_input_schema lib schema inp = Inr u \<longleftrightarrow>
     sl_check_schema lib schema = None \<and> sl_iter_errors lib schema inp = []"
proof -
  let ?es = "sl_iter_errors lib schema inp"
  have "sort_key validation_error_sort_key ?es = [] \<longleftrightarrow> ?es = []"
    by (metis length_0_conv length_sort)
  then show ?thesis
    by (cases "sl_check_schema lib schema"; cases "sort_key validation_error_sort_key ?es")
       (simp_all add: validate_private_input_schema_def)
qed

lemma sort_key_first:
  assumes "sort_key f es = e # rest" shows "e \<in> set es \<and> (\<forall>x \<in> set es. f e \<le> f x)"
proof -
  have "sorted (map f (e # rest))" using assms by (metis sorted_sort_key)
  moreover have "set es = set (e # rest)" using assms by (metis set_sort)
  ultimately show ?thesis by auto
qed

section \<open>Registries\<close>

lemma rfold_invariant:
  assumes "rfold f s xs = Inr t" "P s" "\<And>s x s'. P s \<Longrightarrow> f s x = Inr s' \<Longrightarrow> P s'"
  shows "P t"
  using assms(1,2)
proof (induction xs arbitrary: s)
  case (Cons x xs)
  from Cons.prems(1) obtain s' where s': "f s x = Inr s'" "rfold f s' xs = Inr t" by (auto simp: rbind_eq_Inr)
  from Cons.IH [OF s'(2) assms(3) [OF Cons.prems(2) s'(1)]] show ?case .
qed simp

definition circuits_wf :: "circuit_registry \<Rightarrow> bool" where
  "circuits_wf reg = (distinct (map fst reg) \<and> (\<forall>(k, m) \<in> set reg. cm_circuit_id m = k))"

definition policies_wf :: "policy_registry \<Rightarrow> bool" where
  "policies_wf reg =
     (distinct (map fst reg) \<and> (\<forall>(k, m) \<in> set reg. pm_policy_id m = k \<and> set (pm_primitives m) \<subseteq> set ALLOWED_PRIMITIVES))"

lemma unknown_primitives_Nil: "unknown_primitives ps = [] \<longleftrightarrow> set ps \<subseteq> set ALLOWED_PRIMITIVES"
proof -
  have "unknown_primitives ps = [] \<longleftrightarrow> set (unknown_primitives ps) = {}" by simp
  also have "\<dots> \<longleftrightarrow> set ps \<subseteq> set ALLOWED_PRIMITIVES" by (auto simp: unknown_primitives_def)
  finally show ?thesis .
qed

lemma register_circuit_wf: "circuits_wf reg \<Longrightarrow> register_circuit pf mv dir reg c = Inr reg' \<Longrightarrow> circuits_wf reg'"
  by (auto simp: register_circuit_def circuits_wf_def rbind_eq_Inr Let_def distinct_dput
           split: option.splits if_splits dest!: set_dput)

lemma refresh_circuits_wf:
  assumes "refresh_circuits pf mv dir entries = Inr reg" shows "circuits_wf reg"
proof (cases entries)
  case None
  with assms show ?thesis by (simp add: refresh_circuits_def circuits_wf_def)
next
  case (Some cs)
  with assms have "rfold (register_circuit pf mv dir) [] cs = Inr reg" by (simp add: refresh_circuits_def)
  then show ?thesis
    by (rule rfold_invariant [where P = circuits_wf]) (auto intro: register_circuit_wf simp: circuits_wf_def [of "[]"])
qed

lemma register_policy_wf:
  assumes "policies_wf reg" "register_policy tx pf mv dir reg c = Inr reg'" shows "policies_wf reg'"
  using assms
  by (auto simp: register_policy_def policies_wf_def Let_def distinct_dput unknown_primitives_Nil
           split: option.splits if_splits sum.splits dest!: set_dput)

lemma refresh_policies_wf:
  assumes "refresh_policies tx pf mv dir entries = Inr reg" shows "policies_wf reg"
proof (cases entries)
  case None
  with assms show ?thesis by (simp add: refresh_policies_def policies_wf_def)
next
  case (Some cs)
  with assms have "rfold (register_policy tx pf mv dir) [] cs = Inr reg" by (simp add: refresh_policies_def)
  then show ?thesis
    by (rule rfold_invariant [where P = policies_wf]) (auto intro: register_policy_wf simp: policies_wf_def [of "[]"])
qed

lemma listed_circuit_iff: "circuit_id \<in> set (list_circuits reg) \<longleftrightarrow> is_ok (get_circuit_manifest reg circuit_id)"
  by (auto simp: list_circuits_def get_circuit_manifest_def map_of_eq_None_iff split: option.splits) (metis fst_conv image_eqI map_of_SomeD)

section \<open>What providers promise\<close>

text \<open>
  A provider with local artifacts: its check succeeds exactly when the artifacts of the circuit are
  there, and neither proving nor verifying succeeds without them.
\<close>

locale artifact_backend =
  fixes provider :: proof_provider and ready :: "string \<Rightarrow> bool"
  assumes ensure_iff: "is_ok (pp_ensure_artifacts provider c) = ready c"
    and generate_ready: "is_ok (pp_generate_proof provider c inp) \<Longrightarrow> ready c"
    and verify_ready: "is_ok (pp_verify_proof provider c proof sigs) \<Longrightarrow> ready c"
begin

lemma ensure_artifacts_ok: "ensure_artifacts tx reg provider c = Inr () \<longleftrightarrow> is_ok (get_circuit_manifest reg c) \<and> ready c"
  using ensure_iff [of c] by (auto simp: ensure_artifacts_def split: sum.splits)

lemma engine_needs_artifacts:
  assumes "is_ok (engine_generate tx invalid reg provider c inp) \<or> is_ok (engine_verify tx reg provider c proof sigs)"
  shows "is_ok (get_circuit_manifest reg c) \<and> ready c"
proof -
  from assms have "is_ok (ensure_artifacts tx reg provider c)"
    by (auto simp: engine_generate_def engine_verify_def is_ok_iff rbind_eq_Inr)
  then show ?thesis using ensure_artifacts_ok [of tx reg c] by (auto simp: is_ok_iff)
qed

end

definition artifacts_ready :: "(string \<Rightarrow> bool) \<Rightarrow> string \<Rightarrow> circuit_registry \<Rightarrow> string \<Rightarrow> bool" where
  "artifacts_ready exists_file assets reg c = is_ok (require_artifacts exists_file assets reg c)"

lemma ready_iff_exist: "artifacts_ready ex assets reg c \<longleftrightarrow> artifacts_exist ex assets reg c = Inr True"
  by (auto simp: artifacts_ready_def require_artifacts_def artifacts_exist_def missing_artifacts_def is_ok_iff rbind_eq_Inr
        Let_def)

interpretation grpc: artifact_backend "grpc_provider pf ex assets reg stub" "artifacts_ready ex assets reg"
  for pf ex assets reg stub
  by unfold_locales
     (auto simp: grpc_provider_def artifacts_ready_def grpc_generate_proof_def grpc_verify_proof_def is_ok_iff rbind_eq_Inr)

interpretation snarkjs: artifact_backend "snarkjs_provider pf dumps ex assets reg bin run tmp" "artifacts_ready ex assets reg"
  for pf dumps ex assets reg bin run tmp
  by unfold_locales
     (auto simp: snarkjs_provider_def artifacts_ready_def snarkjs_generate_proof_def snarkjs_verify_proof_def is_ok_iff rbind_eq_Inr Let_def)

text \<open>Every failure of the engine is a framework error with one of four codes, or a malformed answer.\<close>

lemma engine_generate_errors:
  assumes "engine_generate tx invalid reg p c inp = Inl e"
  shows "e = ValueError invalid \<or>
    (\<exists>code m d. e = FrameworkError code m d \<and> code \<in> {''unknown_circuit'', ''missing_artifacts'', ''proof_generation_failed''})"
  using assms
  by (auto simp: engine_generate_def ensure_artifacts_def proof_generation_result_def rbind_eq_Inl
           split: sum.splits pyval.splits prod.splits)

lemma engine_verify_errors:
  assumes "engine_verify tx reg p c proof sigs = Inl e"
  shows "\<exists>code m d. e = FrameworkError code m d \<and> code \<in> {''unknown_circuit'', ''missing_artifacts'', ''proof_verification_failed''}"
  using assms by (auto simp: engine_verify_def ensure_artifacts_def rbind_eq_Inl split: sum.splits)

section \<open>Properties\<close>

text \<open>
  The shadow provider is transparent. Whatever the shadow backend does, also when it fails, a
  proof and a verification result are those of the primary backend, and so is every exception. A
  mismatch of public signals is counted exactly when both backends prove and, with the comparison on,
  their signals differ; a mismatch of verification results exactly when both decide and differ.
\<close>

theorem shadow_transparent:
  "fst (shadow_generate_proof primary shadow cmp c inp) = pp_generate_proof primary c inp \<and>
   fst (shadow_verify_proof primary shadow c proof sigs) = pp_verify_proof primary c proof sigs \<and>
   ((''public_signals'', ''mismatch'') \<in> set (snd (shadow_generate_proof primary shadow cmp c inp)) \<longleftrightarrow>
     cmp \<and> (\<exists>p s. pp_generate_proof primary c inp = Inr p \<and> pp_generate_proof shadow c inp = Inr s \<and> \<not> py_eq (snd p) (snd s))) \<and>
   ((''verify'', ''mismatch'') \<in> set (snd (shadow_verify_proof primary shadow c proof sigs)) \<longleftrightarrow>
     (\<exists>v. pp_verify_proof primary c proof sigs = Inr v \<and> pp_verify_proof shadow c proof sigs = Inr (\<not> v)))"
  by (auto simp: shadow_generate_proof_def shadow_verify_proof_def compare_generate_def split: sum.splits)

text \<open>
  The circuit listing tells the truth. For a registry loaded from disk the listing never fails,
  has one row per circuit in sorted order, and marks a circuit as ready exactly when the proof engine
  finds its artifacts; only for such circuits can the engine prove or verify anything.
\<close>

theorem circuit_listing_truthful:
  assumes "refresh_circuits pf mv dir entries = Inr reg"
  shows "\<exists>rows. list_with_validation ex assets reg = Inr rows \<and> map cs_circuit_id rows = list_circuits reg \<and>
    sorted (list_circuits reg) \<and> distinct (list_circuits reg) \<and>
    (\<forall>row \<in> set rows.
       (cs_artifacts_ready row \<longleftrightarrow> ensure_artifacts tx reg (grpc_provider pf ex assets reg stub) (cs_circuit_id row) = Inr ()) \<and>
       (is_ok (engine_generate tx invalid reg (grpc_provider pf ex assets reg stub) (cs_circuit_id row) inp) \<longrightarrow> cs_artifacts_ready row) \<and>
       (is_ok (engine_verify tx reg (grpc_provider pf ex assets reg stub) (cs_circuit_id row) proof sigs) \<longrightarrow> cs_artifacts_ready row))"
proof -
  have row: "\<exists>r. validate_circuit ex assets reg c = Inr r \<and> cs_circuit_id r = c \<and> (cs_artifacts_ready r \<longleftrightarrow> artifacts_ready ex assets reg c)"
    if "c \<in> set (list_circuits reg)" for c
    using that unfolding listed_circuit_iff
    by (auto simp: is_ok_iff validate_circuit_def get_manifest_version_def get_artifact_paths_def artifacts_exist_def
          ready_iff_exist Let_def)
  then obtain g where g: "\<And>c. c \<in> set (list_circuits reg) \<Longrightarrow> validate_circuit ex assets reg c = Inr (g c) \<and>
      cs_circuit_id (g c) = c \<and> (cs_artifacts_ready (g c) \<longleftrightarrow> artifacts_ready ex assets reg c)"
    by metis
  have "list_with_validation ex assets reg = Inr (map g (list_circuits reg))"
    unfolding list_with_validation_def using g by (intro rmap_all_Inr) auto
  moreover have "map cs_circuit_id (map g (list_circuits reg)) = list_circuits reg"
    using g by (simp add: map_idI)
  moreover have "sorted (list_circuits reg) \<and> distinct (list_circuits reg)"
    using refresh_circuits_wf [OF assms] by (simp add: list_circuits_def circuits_wf_def)
  moreover have "(cs_artifacts_ready r \<longleftrightarrow> ensure_artifacts tx reg (grpc_provider pf ex assets reg stub) (cs_circuit_id r) = Inr ()) \<and>
       (is_ok (engine_generate tx invalid reg (grpc_provider pf ex assets reg stub) (cs_circuit_id r) inp) \<longrightarrow> cs_artifacts_ready r) \<and>
       (is_ok (engine_verify tx reg (grpc_provider pf ex assets reg stub) (cs_circuit_id r) proof sigs) \<longrightarrow> cs_artifacts_ready r)"
    if "r \<in> set (map g (list_circuits reg))" for r
  proof -
    from that obtain c where c: "c \<in> set (list_circuits reg)" "r = g c" by auto
    with g [OF c(1)] have "cs_circuit_id r = c" "cs_artifacts_ready r = artifacts_ready ex assets reg c" by auto
    moreover from c(1) have "is_ok (get_circuit_manifest reg c)" by (simp add: listed_circuit_iff)
    ultimately show ?thesis
      using grpc.engine_needs_artifacts [of tx invalid reg pf ex assets reg stub c inp "proof" sigs]
      by (auto simp: grpc.ensure_artifacts_ok)
  qed
  ultimately show ?thesis by blast
qed

section \<open>Witness\<close>

definition demo_circuit :: circuit_manifest where
  "demo_circuit = \<lparr>cm_circuit_id = ''c'', cm_input_schema = [], cm_public_signals = [''ok''], cm_version = ''1''\<rparr>"

definition demo_packs :: "pack_dir list" where
  "demo_packs = [\<lparr>pk_name = ''c'', pk_is_dir = True, pk_manifest = Some ''{}'', pk_files = [''c.circom'']\<rparr>,
                 \<lparr>pk_name = ''notes.txt'', pk_is_dir = False, pk_manifest = None, pk_files = []\<rparr>]"

lemma demo_refresh: "refresh_circuits (\<lambda>_. PNone) (\<lambda>_. Inr demo_circuit) ''circuits'' (Some demo_packs) = Inr [(''c'', demo_circuit)]"
  by code_simp

theorem circuit_listing_truthful_witness:
  "\<exists>row. list_with_validation (\<lambda>path. path = ''s/c/c.wasm'') ''s'' [(''c'', demo_circuit)] = Inr [row] \<and>
     cs_circuit_id row = ''c'' \<and> \<not> cs_artifacts_ready row"
proof -
  let ?ex = "\<lambda>path. path = ''s/c/c.wasm''" and ?reg = "[(''c'', demo_circuit)]"
  define stub where "stub = \<lparr>gs_generate = \<lambda>_ _ _ _. RpcError ''down'', gs_verify = \<lambda>_ _ _ _. RpcOk True\<rparr>"
  from circuit_listing_truthful [OF demo_refresh, of ?ex "''s''" "\<lambda>_. ''e''" stub "''i''" "[]" "[]" "[]"]
  obtain rows where rows: "list_with_validation ?ex ''s'' ?reg = Inr rows" "map cs_circuit_id rows = list_circuits ?reg"
    "\<forall>row \<in> set rows. cs_artifacts_ready row \<longleftrightarrow>
       ensure_artifacts (\<lambda>_. ''e'') ?reg (grpc_provider (\<lambda>_. PNone) ?ex ''s'' ?reg stub) (cs_circuit_id row) = Inr ()" by auto
  have "list_circuits ?reg = [''c'']" by (simp add: list_circuits_def)
  with rows(2) obtain row where row: "rows = [row]" "cs_circuit_id row = ''c''" by auto
  have "\<not> artifacts_ready ?ex ''s'' ?reg ''c''"
    by (simp add: artifacts_ready_def require_artifacts_def get_artifact_paths_def get_circuit_manifest_def missing_artifacts_def
          path_join_def startswith_def)
  with rows(1,3) row show ?thesis by (simp add: grpc.ensure_artifacts_ok)
qed

end
