(* ===== verification/Database.thy ===== *)
theory Database
  imports Prelude
begin

text \<open>
  The persistence layer \<open>vellum_core/database.py\<close>: the four tables as lists of records and every
  operation of the gateway as a function of the database and the current time. One call is one
  transaction, so a call is atomic and concurrent callers are interleaved calls. Times are
  microseconds since the epoch. Where SQL leaves the order of equal keys open, the model keeps the
  order of insertion.

  The invariant \<open>db_wf\<close> (unique primary keys, sequence numbers below the counters, a linked audit
  chain) is kept by every operation; \<open>db_step\<close> collects the operations as one step relation and the
  invariant holds in every reachable database.
\<close>

section \<open>Tables\<close>

text \<open>
  A nullable JSON column holds SQL NULL or a JSON value, and the JSON value \<open>null\<close> is a value. Which of
  the two the object-relational mapper writes when \<open>None\<close> is assigned is its configuration, a parameter
  (\<open>orm_none\<close>) of the operations that assign \<open>None\<close>.
\<close>

datatype json_col = SqlNull | JsonVal pyval

record proof_job =
  pj_proof_id :: string
  pj_circuit_id :: string
  pj_status :: string
  pj_sealed_job_payload :: "string option"
  pj_input_fingerprint :: string
  pj_input_summary :: pydict
  pj_sealed_purged_at :: "int option"
  pj_public_signals :: json_col
  pj_proof :: json_col
  pj_proof_path :: "string option"
  pj_error :: "string option"
  pj_meta :: pydict
  pj_created_at :: int
  pj_updated_at :: int

record audit_row =
  ar_id :: nat
  ar_timestamp :: int
  ar_proof_id :: "string option"
  ar_circuit_id :: string
  ar_status :: string
  ar_public_signals :: "pyval list"
  ar_proof_hash :: string
  ar_previous_entry_hash :: string
  ar_entry_hash :: string
  ar_signature :: string
  ar_key_version :: string
  ar_meta :: pydict
  ar_error :: "string option"

record security_event =
  se_id :: nat
  se_timestamp :: int
  se_event_type :: string
  se_outcome :: string
  se_actor :: "string option"
  se_source_ip :: "string option"
  se_proof_id :: "string option"
  se_details :: pydict

record dead_letter_job =
  dl_id :: nat
  dl_proof_id :: string
  dl_circuit_id :: string
  dl_error_class :: string
  dl_retryable :: bool
  dl_failure_reason :: string
  dl_error_message :: string
  dl_attempt_count :: int
  dl_max_attempts :: int
  dl_triage_details :: pydict
  dl_job_metadata :: pydict
  dl_sealed_rerun_payload :: "string option"
  dl_status :: string
  dl_rerun_proof_id :: "string option"
  dl_rerun_requested_by :: "string option"
  dl_rerun_reason :: "string option"
  dl_triaged_at :: int
  dl_requeued_at :: "int option"
  dl_created_at :: int
  dl_updated_at :: int

record database =
  db_jobs :: "proof_job list"
  db_audit :: "audit_row list"
  db_events :: "security_event list"
  db_dlq :: "dead_letter_job list"
  db_next_audit :: nat
  db_next_event :: nat
  db_next_dlq :: nat

definition empty_database :: database where
  "empty_database = \<lparr>db_jobs = [], db_audit = [], db_events = [], db_dlq = [],
     db_next_audit = 1, db_next_event = 1, db_next_dlq = 1\<rparr>"

section \<open>Proof jobs\<close>

definition find_job :: "string \<Rightarrow> proof_job list \<Rightarrow> proof_job option" where
  "find_job proof_id jobs = List.find (\<lambda>j. pj_proof_id j = proof_id) jobs"

definition get_proof_job :: "string \<Rightarrow> database \<Rightarrow> proof_job option" where
  "get_proof_job proof_id db = find_job proof_id (db_jobs db)"

definition create_proof_job ::
  "int \<Rightarrow> string \<Rightarrow> string \<Rightarrow> string \<Rightarrow> string \<Rightarrow> string \<Rightarrow> pydict \<Rightarrow> pydict \<Rightarrow> database \<Rightarrow>
   (proof_job \<times> database) res" where
  "create_proof_job now proof_id circuit_id status sealed_job_payload input_fingerprint input_summary metadata db =
     (let job = \<lparr>pj_proof_id = proof_id, pj_circuit_id = circuit_id, pj_status = status,
                 pj_sealed_job_payload = Some sealed_job_payload, pj_input_fingerprint = input_fingerprint,
                 pj_input_summary = input_summary, pj_sealed_purged_at = None, pj_public_signals = SqlNull,
                 pj_proof = SqlNull, pj_proof_path = None, pj_error = None, pj_meta = metadata,
                 pj_created_at = now, pj_updated_at = now\<rparr>
      in if get_proof_job proof_id db \<noteq> None then Inl (OtherError ''IntegrityError'')
         else Inr (job, db\<lparr>db_jobs := db_jobs db @ [job]\<rparr>))"

definition bound_limit :: "int \<Rightarrow> int \<Rightarrow> nat" where
  "bound_limit limit upper = nat (min (max limit 1) upper)"

definition list_proof_jobs ::
  "string option \<Rightarrow> string option \<Rightarrow> int \<Rightarrow> database \<Rightarrow> proof_job list" where
  "list_proof_jobs status circuit_id limit db =
     take (bound_limit limit 200)
       (sort_key (\<lambda>j. - pj_created_at j)
         (filter (\<lambda>j. (status = None \<or> status = Some (pj_status j)) \<and>
                      (circuit_id = None \<or> circuit_id = Some (pj_circuit_id j))) (db_jobs db)))"

definition map_job :: "string \<Rightarrow> (proof_job \<Rightarrow> proof_job) \<Rightarrow> database \<Rightarrow> proof_job option \<times> database" where
  "map_job proof_id f db =
     (case get_proof_job proof_id db of
        None \<Rightarrow> (None, db)
      | Some j \<Rightarrow>
          (Some (f j), db\<lparr>db_jobs := map (\<lambda>j. if pj_proof_id j = proof_id then f j else j) (db_jobs db)\<rparr>))"

definition or_else :: "'a option \<Rightarrow> 'a option \<Rightarrow> 'a option" where
  "or_else new old = (case new of Some x \<Rightarrow> Some x | None \<Rightarrow> old)"

definition job_updated ::
  "int \<Rightarrow> string \<Rightarrow> pyval list option \<Rightarrow> pydict option \<Rightarrow> string option \<Rightarrow> string option \<Rightarrow> pydict option \<Rightarrow>
   proof_job \<Rightarrow> proof_job" where
  "job_updated now status public_signals proof proof_path error metadata_patch j =
     j\<lparr>pj_status := status, pj_updated_at := now,
       pj_public_signals := (case public_signals of None \<Rightarrow> pj_public_signals j | Some x \<Rightarrow> JsonVal (PList x)),
       pj_proof := (case proof of None \<Rightarrow> pj_proof j | Some x \<Rightarrow> JsonVal (PDict x)), pj_proof_path := or_else proof_path (pj_proof_path j),
       pj_error := or_else error (pj_error j),
       pj_meta := (case metadata_patch of None \<Rightarrow> pj_meta j | Some p \<Rightarrow> dupdate (pj_meta j) p)\<rparr>"

definition update_proof_job ::
  "int \<Rightarrow> string \<Rightarrow> string \<Rightarrow> pyval list option \<Rightarrow> pydict option \<Rightarrow> string option \<Rightarrow> string option \<Rightarrow>
   pydict option \<Rightarrow> database \<Rightarrow> proof_job option \<times> database" where
  "update_proof_job now proof_id status public_signals proof proof_path error metadata_patch db =
     map_job proof_id (job_updated now status public_signals proof proof_path error metadata_patch) db"

definition purge_sealed_job_payload :: "int \<Rightarrow> string \<Rightarrow> database \<Rightarrow> proof_job option \<times> database" where
  "purge_sealed_job_payload now proof_id db =
     map_job proof_id (\<lambda>j. j\<lparr>pj_sealed_job_payload := None, pj_sealed_purged_at := Some now, pj_updated_at := now\<rparr>) db"

definition count_jobs_by_status :: "string \<Rightarrow> database \<Rightarrow> nat" where
  "count_jobs_by_status status db = length (filter (\<lambda>j. pj_status j = status) (db_jobs db))"

section \<open>Audit rows\<close>

record audit_input =
  ai_timestamp :: int
  ai_proof_id :: "string option"
  ai_circuit_id :: string
  ai_status :: string
  ai_public_signals :: "pyval list"
  ai_proof_hash :: string
  ai_previous_entry_hash :: string
  ai_entry_hash :: string
  ai_signature :: string
  ai_key_version :: string
  ai_meta :: pydict
  ai_error :: "string option"

definition get_latest_audit_row :: "database \<Rightarrow> audit_row option" where
  "get_latest_audit_row db =
     (case sort_key ar_id (db_audit db) of [] \<Rightarrow> None | r # rs \<Rightarrow> Some (last (r # rs)))"

definition expected_previous :: "database \<Rightarrow> string" where
  "expected_previous db = (case get_latest_audit_row db of None \<Rightarrow> [] | Some r \<Rightarrow> ar_entry_hash r)"

definition append_audit_row :: "audit_input \<Rightarrow> database \<Rightarrow> (audit_row \<times> database) res" where
  "append_audit_row p db =
     (if ai_previous_entry_hash p \<noteq> expected_previous db then Inl (RuntimeError ''audit_chain_conflict'')
      else let row = \<lparr>ar_id = db_next_audit db, ar_timestamp = ai_timestamp p, ar_proof_id = ai_proof_id p,
                      ar_circuit_id = ai_circuit_id p, ar_status = ai_status p,
                      ar_public_signals = ai_public_signals p, ar_proof_hash = ai_proof_hash p,
                      ar_previous_entry_hash = ai_previous_entry_hash p, ar_entry_hash = ai_entry_hash p,
                      ar_signature = ai_signature p, ar_key_version = ai_key_version p,
                      ar_meta = ai_meta p, ar_error = ai_error p\<rparr>
           in Inr (row, db\<lparr>db_audit := db_audit db @ [row], db_next_audit := Suc (db_next_audit db)\<rparr>))"

definition list_audit_rows :: "database \<Rightarrow> audit_row list" where
  "list_audit_rows db = sort_key ar_id (db_audit db)"

definition list_audit_rows_for_proof :: "string \<Rightarrow> database \<Rightarrow> audit_row list" where
  "list_audit_rows_for_proof proof_id db =
     sort_key ar_id (filter (\<lambda>r. ar_proof_id r = Some proof_id) (db_audit db))"

section \<open>Security events\<close>

definition append_security_event ::
  "int \<Rightarrow> string \<Rightarrow> string \<Rightarrow> string option \<Rightarrow> string option \<Rightarrow> string option \<Rightarrow> pydict \<Rightarrow> database \<Rightarrow>
   security_event \<times> database" where
  "append_security_event now event_type outcome actor source_ip proof_id details db =
     (let row = \<lparr>se_id = db_next_event db, se_timestamp = now, se_event_type = event_type, se_outcome = outcome,
                 se_actor = actor, se_source_ip = source_ip, se_proof_id = proof_id, se_details = details\<rparr>
      in (row, db\<lparr>db_events := db_events db @ [row], db_next_event := Suc (db_next_event db)\<rparr>))"

section \<open>Dead letters\<close>

record dead_letter_input =
  di_proof_id :: string
  di_circuit_id :: string
  di_error_class :: string
  di_retryable :: bool
  di_failure_reason :: string
  di_error_message :: string
  di_attempt_count :: int
  di_max_attempts :: int
  di_triage_details :: pydict
  di_job_metadata :: pydict
  di_sealed_rerun_payload :: "string option"

definition dead_letter_new :: "int \<Rightarrow> nat \<Rightarrow> dead_letter_input \<Rightarrow> dead_letter_job" where
  "dead_letter_new now k d =
     \<lparr>dl_id = k, dl_proof_id = di_proof_id d, dl_circuit_id = di_circuit_id d, dl_error_class = di_error_class d,
      dl_retryable = di_retryable d, dl_failure_reason = di_failure_reason d,
      dl_error_message = di_error_message d, dl_attempt_count = di_attempt_count d,
      dl_max_attempts = di_max_attempts d, dl_triage_details = di_triage_details d,
      dl_job_metadata = di_job_metadata d, dl_sealed_rerun_payload = di_sealed_rerun_payload d,
      dl_status = ''open'', dl_rerun_proof_id = None, dl_rerun_requested_by = None, dl_rerun_reason = None,
      dl_triaged_at = now, dl_requeued_at = None, dl_created_at = now, dl_updated_at = now\<rparr>"

text \<open>The payload of an existing row is replaced only by a non-empty one.\<close>

definition dead_letter_refreshed :: "int \<Rightarrow> dead_letter_input \<Rightarrow> dead_letter_job \<Rightarrow> dead_letter_job" where
  "dead_letter_refreshed now d r =
     r\<lparr>dl_circuit_id := di_circuit_id d, dl_error_class := di_error_class d, dl_retryable := di_retryable d,
       dl_failure_reason := di_failure_reason d, dl_error_message := di_error_message d,
       dl_attempt_count := di_attempt_count d, dl_max_attempts := di_max_attempts d,
       dl_triage_details := di_triage_details d, dl_job_metadata := di_job_metadata d,
       dl_sealed_rerun_payload :=
         (case di_sealed_rerun_payload d of Some (c # cs) \<Rightarrow> Some (c # cs) | _ \<Rightarrow> dl_sealed_rerun_payload r),
       dl_status := ''open'', dl_triaged_at := now, dl_updated_at := now\<rparr>"

definition upsert_dead_letter_job :: "int \<Rightarrow> dead_letter_input \<Rightarrow> database \<Rightarrow> dead_letter_job \<times> database" where
  "upsert_dead_letter_job now d db =
     (case List.find (\<lambda>r. dl_proof_id r = di_proof_id d) (db_dlq db) of
        None \<Rightarrow>
          (let r = dead_letter_new now (db_next_dlq db) d
           in (r, db\<lparr>db_dlq := db_dlq db @ [r], db_next_dlq := Suc (db_next_dlq db)\<rparr>))
      | Some r \<Rightarrow>
          (dead_letter_refreshed now d r,
           db\<lparr>db_dlq := map (\<lambda>q. if dl_proof_id q = di_proof_id d then dead_letter_refreshed now d q else q)
                          (db_dlq db)\<rparr>))"

definition get_dead_letter_job :: "nat \<Rightarrow> database \<Rightarrow> dead_letter_job option" where
  "get_dead_letter_job dlq_id db = List.find (\<lambda>r. dl_id r = dlq_id) (db_dlq db)"

definition list_dead_letter_jobs :: "string option \<Rightarrow> int \<Rightarrow> database \<Rightarrow> dead_letter_job list" where
  "list_dead_letter_jobs status limit db =
     take (bound_limit limit 200)
       (sort_key (\<lambda>r. - dl_created_at r)
         (filter (\<lambda>r. status = None \<or> status = Some (dl_status r)) (db_dlq db)))"

definition dead_letter_requeued ::
  "int \<Rightarrow> string \<Rightarrow> string \<Rightarrow> string option \<Rightarrow> dead_letter_job \<Rightarrow> dead_letter_job" where
  "dead_letter_requeued now rerun_proof_id requested_by reason r =
     r\<lparr>dl_status := ''requeued'', dl_rerun_proof_id := Some rerun_proof_id,
       dl_rerun_requested_by := Some requested_by, dl_rerun_reason := reason,
       dl_requeued_at := Some now, dl_updated_at := now\<rparr>"

definition mark_dead_letter_job_requeued ::
  "int \<Rightarrow> nat \<Rightarrow> string \<Rightarrow> string \<Rightarrow> string option \<Rightarrow> database \<Rightarrow> dead_letter_job option \<times> database" where
  "mark_dead_letter_job_requeued now dlq_id rerun_proof_id requested_by reason db =
     (case get_dead_letter_job dlq_id db of
        None \<Rightarrow> (None, db)
      | Some r \<Rightarrow>
          (Some (dead_letter_requeued now rerun_proof_id requested_by reason r),
           db\<lparr>db_dlq := map (\<lambda>q. if dl_id q = dlq_id
                                 then dead_letter_requeued now rerun_proof_id requested_by reason q else q)
                          (db_dlq db)\<rparr>))"

section \<open>Lifecycle\<close>

definition terminal_status :: "string \<Rightarrow> bool" where
  "terminal_status s = (s = ''completed'' \<or> s = ''failed'')"

definition prunable :: "int \<Rightarrow> proof_job \<Rightarrow> bool" where
  "prunable older_than j =
     (terminal_status (pj_status j) \<and> pj_updated_at j < older_than \<and>
      (pj_proof j \<noteq> SqlNull \<or> pj_public_signals j \<noteq> SqlNull \<or> pj_error j \<noteq> None))"

definition job_pruned :: "json_col \<Rightarrow> int \<Rightarrow> proof_job \<Rightarrow> proof_job" where
  "job_pruned orm_none now j =
     j\<lparr>pj_proof := orm_none, pj_public_signals := orm_none, pj_error := None, pj_updated_at := now\<rparr>"

definition prune_terminal_job_runtime_data ::
  "json_col \<Rightarrow> int \<Rightarrow> int \<Rightarrow> database \<Rightarrow> nat \<times> database" where
  "prune_terminal_job_runtime_data orm_none now older_than db =
     (length (filter (prunable older_than) (db_jobs db)),
      db\<lparr>db_jobs := map (\<lambda>j. if prunable older_than j then job_pruned orm_none now j else j) (db_jobs db)\<rparr>)"

definition archivable :: "int \<Rightarrow> proof_job \<Rightarrow> bool" where
  "archivable older_than j =
     (terminal_status (pj_status j) \<and> pj_proof_path j \<noteq> None \<and> pj_updated_at j < older_than)"

definition list_jobs_for_file_archival :: "int \<Rightarrow> int \<Rightarrow> database \<Rightarrow> proof_job list" where
  "list_jobs_for_file_archival older_than limit db =
     take (bound_limit limit 2000) (sort_key pj_updated_at (filter (archivable older_than) (db_jobs db)))"

section \<open>The invariant\<close>

text \<open>
  The audit chain as a list: the first row links to the empty hash and every other row to the entry
  hash of its predecessor.
\<close>

fun linked_from :: "string \<Rightarrow> audit_row list \<Rightarrow> bool" where
  "linked_from h [] = True"
| "linked_from h (r # rs) = (ar_previous_entry_hash r = h \<and> linked_from (ar_entry_hash r) rs)"

definition last_hash :: "string \<Rightarrow> audit_row list \<Rightarrow> string" where
  "last_hash h rs = (if rs = [] then h else ar_entry_hash (last rs))"

definition audit_wf :: "database \<Rightarrow> bool" where
  "audit_wf db = (sorted (map ar_id (db_audit db)) \<and> distinct (map ar_id (db_audit db)) \<and>
     list_all (\<lambda>r. ar_id r < db_next_audit db) (db_audit db) \<and> linked_from [] (db_audit db))"

definition dlq_wf :: "database \<Rightarrow> bool" where
  "dlq_wf db = (distinct (map dl_id (db_dlq db)) \<and> distinct (map dl_proof_id (db_dlq db)) \<and>
     list_all (\<lambda>r. dl_id r < db_next_dlq db) (db_dlq db))"

definition db_wf :: "database \<Rightarrow> bool" where
  "db_wf db = (distinct (map pj_proof_id (db_jobs db)) \<and> audit_wf db \<and> dlq_wf db)"

lemma linked_from_append: "linked_from h (rs @ qs) \<longleftrightarrow> linked_from h rs \<and> linked_from (last_hash h rs) qs"
  by (induction rs arbitrary: h) (auto simp: last_hash_def)

lemma audit_sorted_self: "audit_wf db \<Longrightarrow> sort_key ar_id (db_audit db) = db_audit db"
  by (simp add: audit_wf_def sort_key_id_if_sorted)

lemma list_audit_rows_wf: "audit_wf db \<Longrightarrow> list_audit_rows db = db_audit db"
  by (simp add: list_audit_rows_def audit_sorted_self)

lemma expected_previous_wf: "audit_wf db \<Longrightarrow> expected_previous db = last_hash [] (db_audit db)"
  by (auto simp: expected_previous_def get_latest_audit_row_def audit_sorted_self last_hash_def
      split: list.splits)

lemma find_job_in: "find_job i js = Some j \<Longrightarrow> j \<in> set js \<and> pj_proof_id j = i"
  by (auto simp: find_job_def find_Some_iff)

lemma get_proof_job_in: "get_proof_job i db = Some j \<Longrightarrow> j \<in> set (db_jobs db) \<and> pj_proof_id j = i"
  by (simp add: get_proof_job_def find_job_in)

lemma get_proof_job_None: "get_proof_job i db = None \<longleftrightarrow> i \<notin> set (map pj_proof_id (db_jobs db))"
  by (auto simp: get_proof_job_def find_job_def find_None_iff)

lemma find_map_same:
  "(\<And>x. P (f x) = P x) \<Longrightarrow> List.find P (map f xs) = map_option f (List.find P xs)"
  by (induction xs) auto

lemma get_map_job:
  assumes "\<And>j. pj_proof_id (f j) = pj_proof_id j" "map_job i f db = (r, db')"
  shows "get_proof_job k db' = (if k = i then map_option f (get_proof_job k db) else get_proof_job k db)"
proof (cases "get_proof_job i db")
  case None
  with assms(2) show ?thesis by (auto simp: map_job_def)
next
  case (Some j)
  let ?g = "\<lambda>j. if pj_proof_id j = i then f j else j"
  have "get_proof_job k db' = map_option ?g (get_proof_job k db)"
    using assms Some unfolding get_proof_job_def find_job_def
    by (auto simp: map_job_def get_proof_job_def find_job_def find_map_same)
  moreover have "map_option ?g (get_proof_job k db) =
      (if k = i then map_option f (get_proof_job k db) else get_proof_job k db)"
    by (cases "get_proof_job k db") (auto dest: get_proof_job_in)
  ultimately show ?thesis by simp
qed

lemma map_job_frame:
  "map_job i f db = (r, db') \<Longrightarrow> db_audit db' = db_audit db \<and> db_events db' = db_events db \<and>
   db_dlq db' = db_dlq db \<and> db_next_audit db' = db_next_audit db \<and> db_next_dlq db' = db_next_dlq db"
  by (auto simp: map_job_def split: option.splits)

lemma map_job_ids:
  "(\<And>j. pj_proof_id (f j) = pj_proof_id j) \<Longrightarrow> map_job i f db = (r, db') \<Longrightarrow>
   map pj_proof_id (db_jobs db') = map pj_proof_id (db_jobs db)"
  by (auto simp: map_job_def split: option.splits)

lemma map_job_wf:
  "(\<And>j. pj_proof_id (f j) = pj_proof_id j) \<Longrightarrow> map_job i f db = (r, db') \<Longrightarrow> db_wf db \<Longrightarrow> db_wf db'"
  using map_job_frame [of i f db r db'] map_job_ids [of f i db r db']
  by (simp add: db_wf_def audit_wf_def dlq_wf_def)

lemma job_updated_id [simp]: "pj_proof_id (job_updated n s ps pr pp e mp j) = pj_proof_id j"
  by (simp add: job_updated_def)

lemma append_audit_row_wf:
  assumes "db_wf db" "append_audit_row p db = Inr (r, db')"
  shows "db_wf db' \<and> db_audit db' = db_audit db @ [r] \<and> db_jobs db' = db_jobs db \<and> db_dlq db' = db_dlq db"
proof -
  from assms(1) have wf: "audit_wf db" by (simp add: db_wf_def)
  from assms(2) have r: "ar_id r = db_next_audit db" "ar_previous_entry_hash r = last_hash [] (db_audit db)"
    and db': "db' = db\<lparr>db_audit := db_audit db @ [r], db_next_audit := Suc (db_next_audit db)\<rparr>"
    using expected_previous_wf [OF wf] by (auto simp: append_audit_row_def Let_def split: if_splits)
  have "\<forall>q \<in> set (db_audit db). ar_id q < db_next_audit db" using wf by (simp add: audit_wf_def list_all_iff)
  then have "audit_wf db'"
    using wf r unfolding db' audit_wf_def
    by (auto simp: sorted_append linked_from_append list_all_iff less_imp_le intro: less_SucI)
  with assms(1) db' show ?thesis by (simp add: db_wf_def dlq_wf_def)
qed

lemma upsert_dead_letter_job_wf:
  assumes "db_wf db" "upsert_dead_letter_job now d db = (r, db')"
  shows "db_wf db'"
proof (cases "List.find (\<lambda>r. dl_proof_id r = di_proof_id d) (db_dlq db)")
  case None
  then have new: "di_proof_id d \<notin> set (map dl_proof_id (db_dlq db))" by (auto simp: find_None_iff)
  have "db_next_dlq db \<notin> set (map dl_id (db_dlq db))"
    using assms(1) by (auto simp: db_wf_def dlq_wf_def list_all_iff)
  with new assms None show ?thesis
    by (auto simp: upsert_dead_letter_job_def Let_def db_wf_def audit_wf_def dlq_wf_def dead_letter_new_def
        list_all_iff less_Suc_eq)
next
  case (Some q)
  have k: "dl_id \<circ> (\<lambda>q. if dl_proof_id q = di_proof_id d then dead_letter_refreshed now d q else q) = dl_id"
    "dl_proof_id \<circ> (\<lambda>q. if dl_proof_id q = di_proof_id d then dead_letter_refreshed now d q else q) = dl_proof_id"
    by (auto simp: dead_letter_refreshed_def)
  with Some assms show ?thesis
    by (auto simp: upsert_dead_letter_job_def db_wf_def audit_wf_def dlq_wf_def k list_all_iff)
       (simp_all add: dead_letter_refreshed_def)
qed

lemma create_proof_job_wf:
  assumes "db_wf db" "create_proof_job now i c st sp fp sm md db = Inr (j, db')"
  shows "db_wf db' \<and> get_proof_job i db' = Some j \<and> (\<forall>k. k \<noteq> i \<longrightarrow> get_proof_job k db' = get_proof_job k db)"
proof -
  from assms(2) have new: "i \<notin> set (map pj_proof_id (db_jobs db))" and db': "db' = db\<lparr>db_jobs := db_jobs db @ [j]\<rparr>"
    and j: "pj_proof_id j = i"
    by (auto simp: create_proof_job_def Let_def get_proof_job_None split: if_splits)
  then have "db_wf db'" using assms(1) by (auto simp: db_wf_def audit_wf_def dlq_wf_def)
  moreover have "List.find P (xs @ [x]) = (case List.find P xs of None \<Rightarrow> if P x then Some x else None | Some y \<Rightarrow> Some y)"
    for P xs and x :: proof_job by (induction xs) auto
  moreover have "get_proof_job i db = None" using new by (simp add: get_proof_job_None)
  ultimately show ?thesis using db' j
    by (auto simp: get_proof_job_def find_job_def split: option.splits)
qed

lemma append_security_event_wf:
  "db_wf db \<Longrightarrow> append_security_event now t out a ip i ds db = (e, db') \<Longrightarrow> db_wf db'"
  by (auto simp: append_security_event_def Let_def db_wf_def audit_wf_def dlq_wf_def)

lemma mark_requeued_wf:
  assumes "db_wf db" "mark_dead_letter_job_requeued now k rid who why db = (r, db')"
  shows "db_wf db'"
proof -
  have e: "dl_id \<circ> (\<lambda>q. if dl_id q = k then dead_letter_requeued now rid who why q else q) = dl_id"
    "dl_proof_id \<circ> (\<lambda>q. if dl_id q = k then dead_letter_requeued now rid who why q else q) = dl_proof_id"
    by (auto simp: dead_letter_requeued_def)
  with assms show ?thesis
    by (auto simp: mark_dead_letter_job_requeued_def db_wf_def audit_wf_def dlq_wf_def e list_all_iff
        split: option.splits) (simp_all add: dead_letter_requeued_def)
qed

lemma prune_wf:
  assumes "db_wf db" "prune_terminal_job_runtime_data o_n now old db = (n, db')"
  shows "db_wf db'"
proof -
  have "pj_proof_id \<circ> (\<lambda>j. if prunable old j then job_pruned o_n now j else j) = pj_proof_id"
    by (auto simp: job_pruned_def)
  with assms show ?thesis
    by (auto simp: prune_terminal_job_runtime_data_def db_wf_def audit_wf_def dlq_wf_def)
qed

section \<open>Reading back what an operation wrote\<close>

text \<open>The row of the dead-letter queue that belongs to a job.\<close>

lemma append_audit_row_frame:
  "append_audit_row p db = Inr (row, db') \<Longrightarrow> db_jobs db' = db_jobs db \<and> db_dlq db' = db_dlq db"
  by (auto simp: append_audit_row_def Let_def split: if_splits)

definition letter_of :: "string \<Rightarrow> database \<Rightarrow> dead_letter_job option" where
  "letter_of proof_id db = List.find (\<lambda>r. dl_proof_id r = proof_id) (db_dlq db)"

lemma get_updated:
  "get_proof_job k (snd (update_proof_job now i s ps pr pp e mp db)) =
     (if k = i then map_option (job_updated now s ps pr pp e mp) (get_proof_job k db) else get_proof_job k db)"
  unfolding update_proof_job_def by (rule get_map_job [of _ i db]) (simp, rule prod.collapse [symmetric])

lemma fst_updated: "fst (update_proof_job now i s ps pr pp e mp db) = map_option (job_updated now s ps pr pp e mp) (get_proof_job i db)"
  by (simp add: update_proof_job_def map_job_def split: option.splits)

definition job_purged :: "int \<Rightarrow> proof_job \<Rightarrow> proof_job" where
  "job_purged now j = j\<lparr>pj_sealed_job_payload := None, pj_sealed_purged_at := Some now, pj_updated_at := now\<rparr>"

lemma get_purged:
  "get_proof_job k (snd (purge_sealed_job_payload now i db)) =
     (if k = i then map_option (job_purged now) (get_proof_job k db) else get_proof_job k db)"
  unfolding purge_sealed_job_payload_def job_purged_def
  by (rule get_map_job [of _ i db]) (simp, rule prod.collapse [symmetric])

lemma updated_frame:
  "db_audit (snd (update_proof_job now i s ps pr pp e mp db)) = db_audit db"
  "db_dlq (snd (update_proof_job now i s ps pr pp e mp db)) = db_dlq db"
  "db_audit (snd (purge_sealed_job_payload now i db)) = db_audit db"
  "db_dlq (snd (purge_sealed_job_payload now i db)) = db_dlq db"
  unfolding update_proof_job_def purge_sealed_job_payload_def map_job_def by (auto split: option.splits)

lemma upsert_frame:
  "db_jobs (snd (upsert_dead_letter_job now d db)) = db_jobs db" "db_audit (snd (upsert_dead_letter_job now d db)) = db_audit db"
  by (auto simp: upsert_dead_letter_job_def Let_def split: option.splits)

lemma find_snoc_None: "\<forall>r \<in> set rs. \<not> P r \<Longrightarrow> List.find P (rs @ [x]) = (if P x then Some x else None)"
  by (induction rs) auto

lemma letter_upserted:
  "letter_of (di_proof_id d) (snd (upsert_dead_letter_job now d db)) =
     Some (case letter_of (di_proof_id d) db of None \<Rightarrow> dead_letter_new now (db_next_dlq db) d | Some r \<Rightarrow> dead_letter_refreshed now d r)"
proof (cases "List.find (\<lambda>r. dl_proof_id r = di_proof_id d) (db_dlq db)")
  case None
  then have "\<forall>r \<in> set (db_dlq db). dl_proof_id r \<noteq> di_proof_id d" by (simp add: find_None_iff)
  then have "List.find (\<lambda>r. dl_proof_id r = di_proof_id d) (db_dlq db @ [x]) = (if dl_proof_id x = di_proof_id d then Some x else None)" for x
    by (rule find_snoc_None)
  with None show ?thesis by (simp add: upsert_dead_letter_job_def letter_of_def Let_def dead_letter_new_def)
next
  case (Some r)
  then have "dl_proof_id r = di_proof_id d" by (auto simp: find_Some_iff)
  with Some show ?thesis
    by (simp add: upsert_dead_letter_job_def letter_of_def find_map_same dead_letter_refreshed_def)
qed

lemma letter_upserted_id:
  "di_proof_id d = k \<Longrightarrow> letter_of k (snd (upsert_dead_letter_job now d db)) =
     Some (case letter_of k db of None \<Rightarrow> dead_letter_new now (db_next_dlq db) d | Some r \<Rightarrow> dead_letter_refreshed now d r)"
  using letter_upserted by blast

lemma get_job_frames:
  "get_proof_job k (snd (upsert_dead_letter_job now d db)) = get_proof_job k db"
  "get_proof_job k (db\<lparr>db_audit := a, db_next_audit := n\<rparr>) = get_proof_job k db"
  "letter_of k (db\<lparr>db_audit := a, db_next_audit := n\<rparr>) = letter_of k db"
  "letter_of k (snd (update_proof_job now i s ps pr pp e mp db)) = letter_of k db"
  "letter_of k (snd (purge_sealed_job_payload now i db)) = letter_of k db"
  by (simp_all add: get_proof_job_def letter_of_def upsert_frame updated_frame)

section \<open>Every operation as a step\<close>

inductive db_step :: "database \<Rightarrow> database \<Rightarrow> bool" where
  create: "create_proof_job now i c st sp fp sm md db = Inr (j, db') \<Longrightarrow> db_step db db'"
| update: "update_proof_job now i st ps pr pp e mp db = (r, db') \<Longrightarrow> db_step db db'"
| purge: "purge_sealed_job_payload now i db = (r, db') \<Longrightarrow> db_step db db'"
| audit: "append_audit_row p db = Inr (row, db') \<Longrightarrow> db_step db db'"
| event: "append_security_event now t out a ip i ds db = (ev, db') \<Longrightarrow> db_step db db'"
| upsert: "upsert_dead_letter_job now d db = (dl, db') \<Longrightarrow> db_step db db'"
| requeue: "mark_dead_letter_job_requeued now k rid who why db = (dr, db') \<Longrightarrow> db_step db db'"
| prune: "prune_terminal_job_runtime_data orm_none now old db = (n, db') \<Longrightarrow> db_step db db'"

inductive_cases db_stepE [elim]: "db_step db db'"

lemma db_step_wf: "db_step db db' \<Longrightarrow> db_wf db \<Longrightarrow> db_wf db'"
proof (induction rule: db_step.induct)
  case (update now i st ps pr pp e mp db r db')
  then show ?case unfolding update_proof_job_def
    by (rule_tac map_job_wf [where f = "job_updated now st ps pr pp e mp"]) auto
next
  case (purge now i db r db')
  show ?case
    by (rule map_job_wf [OF _ purge(1) [unfolded purge_sealed_job_payload_def] purge(2)]) simp
qed (blast dest: create_proof_job_wf append_audit_row_wf append_security_event_wf upsert_dead_letter_job_wf
      mark_requeued_wf prune_wf)+

lemma empty_database_wf: "db_wf empty_database"
  by (simp add: db_wf_def audit_wf_def dlq_wf_def empty_database_def)

interpretation db: invariant_system "\<lambda>db. db = empty_database" db_step db_wf
  by unfold_locales (auto simp: empty_database_wf dest: db_step_wf)

text \<open>Audit rows are never changed or removed: the log only grows at its end.\<close>

lemma db_step_audit_grows: "db_step db db' \<Longrightarrow> \<exists>rows. db_audit db' = db_audit db @ rows"
proof (induction rule: db_step.induct)
  case (update now i st ps pr pp e mp db r db')
  then show ?case unfolding update_proof_job_def by (auto dest: map_job_frame)
next
  case (purge now i db r db')
  then show ?case unfolding purge_sealed_job_payload_def by (auto dest: map_job_frame)
qed (auto simp: create_proof_job_def append_audit_row_def append_security_event_def upsert_dead_letter_job_def
      mark_dead_letter_job_requeued_def prune_terminal_job_runtime_data_def Let_def
      split: if_splits option.splits)

text \<open>
  C21. Integrity of the store under any interleaving of operations. From the empty database, every
  reachable state has unique job identifiers, unique dead-letter identifiers and source jobs, and an
  audit log whose sequence numbers increase and whose rows are linked by their hashes from the empty
  hash on.
\<close>

theorem reachable_database_wf:
  assumes "db_step\<^sup>*\<^sup>* empty_database db"
  shows "distinct (map pj_proof_id (db_jobs db)) \<and> dlq_wf db \<and> sorted (map ar_id (db_audit db)) \<and>
         distinct (map ar_id (db_audit db)) \<and> linked_from [] (list_audit_rows db)"
  using db.reachable_inv [OF refl assms] by (auto simp: db_wf_def audit_wf_def list_audit_rows_wf)

text \<open>
  The audit log is append-only: along any sequence of operations the earlier rows stay, unchanged
  and in place.
\<close>

theorem audit_log_append_only:
  assumes "db_step\<^sup>*\<^sup>* db db'"
  shows "\<exists>rows. db_audit db' = db_audit db @ rows"
  using assms
proof (induction rule: rtranclp_induct)
  case (step y z)
  then show ?case using db_step_audit_grows [of y z] by fastforce
qed simp

definition sample_event_step :: database where
  "sample_event_step = snd (append_security_event 5 ''auth'' ''ok'' None None None [] empty_database)"

lemma sample_step: "db_step empty_database sample_event_step"
  unfolding sample_event_step_def
  by (rule db_step.event [of 5 "''auth''" "''ok''" None None None "[]" _ "fst (append_security_event 5 ''auth'' ''ok'' None None None [] empty_database)"]) simp

theorem reachable_database_wf_witness:
  "distinct (map pj_proof_id (db_jobs sample_event_step)) \<and> dlq_wf sample_event_step \<and>
   sorted (map ar_id (db_audit sample_event_step)) \<and> distinct (map ar_id (db_audit sample_event_step)) \<and>
   linked_from [] (list_audit_rows sample_event_step)"
  by (rule reachable_database_wf) (rule r_into_rtranclp [where r = db_step, OF sample_step])

theorem audit_log_append_only_witness:
  "\<exists>rows. db_audit sample_event_step = db_audit empty_database @ rows"
  by (rule audit_log_append_only) (rule r_into_rtranclp [where r = db_step, OF sample_step])

end
