(* ===== verification/Base64.thy ===== *)
theory Base64
  imports Prelude
begin

text \<open>
  Base64 as the sources use it: \<open>base64.b64encode\<close>, \<open>base64.b64decode\<close> (which drops characters
  outside the alphabet and stops at the padding) and their URL-safe variants without padding in
  \<open>vellum_core/auth.py\<close>. Bytes are characters with codes below 256. The lemmas give the round trip
  of both pairs.
\<close>

section \<open>Alphabets\<close>

definition b64_alphabet :: string where
  "b64_alphabet = ''ABCDEFGHIJKLMNOPQRSTUVWXYZabcdefghijklmnopqrstuvwxyz0123456789+/''"

definition b64_char :: "nat \<Rightarrow> char" where
  "b64_char n = b64_alphabet ! n"

fun pos_of :: "char \<Rightarrow> string \<Rightarrow> nat \<Rightarrow> nat option" where
  "pos_of c [] i = None"
| "pos_of c (d # ds) i = (if c = d then Some i else pos_of c ds (Suc i))"

definition b64_val :: "char \<Rightarrow> nat option" where
  "b64_val c = pos_of c b64_alphabet 0"

definition byte :: "char \<Rightarrow> nat" where
  "byte c = (of_char c :: nat)"

section \<open>Encoding and decoding\<close>

fun b64encode :: "string \<Rightarrow> string" where
  "b64encode [] = []"
| "b64encode [a] = [b64_char (byte a div 4), b64_char (byte a mod 4 * 16), CHR ''='', CHR ''='']"
| "b64encode [a, b] =
     [b64_char (byte a div 4), b64_char (byte a mod 4 * 16 + byte b div 16), b64_char (byte b mod 16 * 4), CHR ''='']"
| "b64encode (a # b # c # rest) =
     [b64_char (byte a div 4), b64_char (byte a mod 4 * 16 + byte b div 16),
      b64_char (byte b mod 16 * 4 + byte c div 64), b64_char (byte c mod 64)] @ b64encode rest"

text \<open>
  The decoder of \<open>binascii.a2b_base64\<close> in its default mode: it collects the sextets, emits a byte for
  every eight bits, ends at enough padding, ignores other characters, and fails when the input ends in
  the middle of a group.
\<close>

fun b64_scan :: "nat \<Rightarrow> nat \<Rightarrow> nat \<Rightarrow> string \<Rightarrow> string res" where
  "b64_scan quad left pads [] =
     (if quad = 0 then Inr [] else Inl (ValueError ''Incorrect padding''))"
| "b64_scan quad left pads (c # cs) =
     (if c = CHR ''=''
      then (if quad \<ge> 2 \<and> quad + Suc pads \<ge> 4 then Inr [] else b64_scan quad left (Suc pads) cs)
      else case b64_val c of
             None \<Rightarrow> b64_scan quad left pads cs
           | Some v \<Rightarrow>
               (if quad = 0 then b64_scan 1 v 0 cs
                else if quad = 1
                then rbind (b64_scan 2 (v mod 16) 0 cs) (\<lambda>r. Inr (char_of (left * 4 + v div 16) # r))
                else if quad = 2
                then rbind (b64_scan 3 (v mod 4) 0 cs) (\<lambda>r. Inr (char_of (left * 16 + v div 4) # r))
                else rbind (b64_scan 0 0 0 cs) (\<lambda>r. Inr (char_of (left * 64 + v) # r))))"

definition b64decode :: "string \<Rightarrow> string res" where
  "b64decode s = b64_scan 0 0 0 s"

definition url_char :: "char \<Rightarrow> char" where
  "url_char c = (if c = CHR ''+'' then CHR ''-'' else if c = CHR ''/'' then CHR ''_'' else c)"

definition std_char :: "char \<Rightarrow> char" where
  "std_char c = (if c = CHR ''-'' then CHR ''+'' else if c = CHR ''_'' then CHR ''/'' else c)"

text \<open>\<open>base64.urlsafe_b64encode(...).rstrip(b"=")\<close> and its inverse with the padding restored.\<close>

definition rstrip_pad :: "string \<Rightarrow> string" where
  "rstrip_pad s = rev (dropWhile (\<lambda>c. c = CHR ''='') (rev s))"

definition b64url_encode :: "string \<Rightarrow> string" where
  "b64url_encode s = rstrip_pad (map url_char (b64encode s))"

definition b64url_decode :: "string \<Rightarrow> string res" where
  "b64url_decode s = b64decode (map std_char (s @ replicate ((4 - length s mod 4) mod 4) (CHR ''='')))"

section \<open>Round trips\<close>

lemma b64_val_char: "n < 64 \<Longrightarrow> b64_val (b64_char n) = Some n"
proof -
  have "list_all (\<lambda>n. b64_val (b64_char n) = Some n) [0..<64]" by code_simp
  then show "n < 64 \<Longrightarrow> b64_val (b64_char n) = Some n" by (simp add: list_all_iff)
qed

lemma b64_char_not_pad: "n < 64 \<Longrightarrow> b64_char n \<noteq> CHR ''=''"
proof -
  have "list_all (\<lambda>n. b64_char n \<noteq> CHR ''='') [0..<64]" by code_simp
  then show "n < 64 \<Longrightarrow> b64_char n \<noteq> CHR ''=''" by (simp add: list_all_iff)
qed

lemma std_url_char: "n < 64 \<Longrightarrow> std_char (url_char (b64_char n)) = b64_char n"
proof -
  have "list_all (\<lambda>n. std_char (url_char (b64_char n)) = b64_char n) [0..<64]" by code_simp
  then show "n < 64 \<Longrightarrow> std_char (url_char (b64_char n)) = b64_char n" by (simp add: list_all_iff)
qed

lemma byte_lt: "byte c < 256"
  by (simp add: byte_def nat_of_char_less_256)

lemma char_of_byte [simp]: "char_of (byte c) = c"
  by (simp add: byte_def)

lemma sextets:
  "byte a div 4 < 64" "byte a mod 4 * 16 + byte b div 16 < 64" "byte b mod 16 * 4 + byte c div 64 < 64"
  "byte c mod 64 < 64" "byte a mod 4 * 16 < 64" "byte b mod 16 * 4 < 64"
proof -
  have "byte b div 16 < 16" "byte c div 64 < 4" "byte a mod 4 < 4" "byte b mod 16 < 16"
    using byte_lt [of b] byte_lt [of c] by (simp_all add: less_mult_imp_div_less)
  then show "byte a mod 4 * 16 + byte b div 16 < 64" "byte b mod 16 * 4 + byte c div 64 < 64"
    "byte a mod 4 * 16 < 64" "byte b mod 16 * 4 < 64" by linarith+
  show "byte a div 4 < 64" using byte_lt [of a] by (simp add: less_mult_imp_div_less)
qed simp

lemma regroup:
  "(byte a div 4) * 4 + (byte a mod 4 * 16 + byte b div 16) div 16 = byte a"
  "(byte a mod 4 * 16 + byte b div 16) mod 16 * 16 + (byte b mod 16 * 4 + byte c div 64) div 4 = byte b"
  "(byte b mod 16 * 4 + byte c div 64) mod 4 * 64 + byte c mod 64 = byte c"
proof -
  have b: "byte b div 16 < 16" and c: "byte c div 64 < 4"
    using byte_lt [of b] byte_lt [of c] by (simp_all add: less_mult_imp_div_less)
  show "(byte a div 4) * 4 + (byte a mod 4 * 16 + byte b div 16) div 16 = byte a" using b by simp
  show "(byte a mod 4 * 16 + byte b div 16) mod 16 * 16 + (byte b mod 16 * 4 + byte c div 64) div 4 = byte b"
    using b c by simp
  show "(byte b mod 16 * 4 + byte c div 64) mod 4 * 64 + byte c mod 64 = byte c" using c by simp
qed

lemma b64_scan_char:
  "n < 64 \<Longrightarrow> b64_scan quad left pads (b64_char n # cs) =
     (if quad = 0 then b64_scan 1 n 0 cs
      else if quad = 1 then rbind (b64_scan 2 (n mod 16) 0 cs) (\<lambda>r. Inr (char_of (left * 4 + n div 16) # r))
      else if quad = 2 then rbind (b64_scan 3 (n mod 4) 0 cs) (\<lambda>r. Inr (char_of (left * 16 + n div 4) # r))
      else rbind (b64_scan 0 0 0 cs) (\<lambda>r. Inr (char_of (left * 64 + n) # r)))"
  by (simp add: b64_val_char b64_char_not_pad)

lemma b64_scan_encode: "b64_scan 0 0 0 (b64encode s) = Inr s"
proof (induction s rule: b64encode.induct)
  case (2 a)
  have "byte a mod 4 * 16 div 16 = byte a mod 4" by simp
  then show ?case using sextets(1) [of a] sextets(5) [of a]
    by (simp add: b64_scan_char del: b64_scan.simps(2)) simp
next
  case (3 a b)
  show ?case using sextets(1) [of a] sextets(2) [of a b] sextets(6) [of b] regroup(1) [of a b]
      regroup(2) [of a b "CHR 0x00"]
    by (simp add: b64_scan_char byte_def del: b64_scan.simps(2)) (simp add: byte_def)
next
  case (4 a b c rest)
  then show ?case using sextets(1) [of a] sextets(2) [of a b] sextets(3) [of b c] sextets(4) [of c]
      regroup(1) [of a b] regroup(2) [of a b c] regroup(3) [of b c]
    by (simp add: b64_scan_char del: b64_scan.simps(2))
qed simp

text \<open>An encoding is a body of alphabet characters followed by fewer than four padding characters.\<close>

lemma b64encode_body:
  "\<exists>ns j. b64encode s = map b64_char ns @ replicate j (CHR ''='') \<and> list_all (\<lambda>n. n < 64) ns \<and>
          j < 4 \<and> (length ns + j) mod 4 = 0"
proof (induction s rule: b64encode.induct)
  case 1
  show ?case by (intro exI [of _ "[]"] exI [of _ 0]) simp
next
  case (2 a)
  show ?case using sextets(1) [of a] sextets(5) [of a]
    by (intro exI [of _ "[byte a div 4, byte a mod 4 * 16]"] exI [of _ 2]) (simp add: numeral_2_eq_2)
next
  case (3 a b)
  show ?case using sextets(1) [of a] sextets(2) [of a b] sextets(6) [of b]
    by (intro exI [of _ "[byte a div 4, byte a mod 4 * 16 + byte b div 16, byte b mod 16 * 4]"] exI [of _ 1]) simp
next
  case (4 a b c rest)
  then obtain ns j where "b64encode rest = map b64_char ns @ replicate j (CHR ''='')"
    "list_all (\<lambda>n. n < 64) ns" "j < 4" "(length ns + j) mod 4 = 0" by auto
  then show ?case using sextets(1) [of a] sextets(2) [of a b] sextets(3) [of b c] sextets(4) [of c]
    by (intro exI [of _ "[byte a div 4, byte a mod 4 * 16 + byte b div 16,
          byte b mod 16 * 4 + byte c div 64, byte c mod 64] @ ns"] exI [of _ j])
       (simp add: mod_add_right_eq [symmetric, of 4] add.assoc)
qed

lemma url_char_pad: "(url_char c = CHR ''='') = (c = CHR ''='')" "std_char (CHR ''='') = CHR ''=''"
  by (simp_all add: url_char_def std_char_def)

lemma dropWhile_none: "(\<And>c. c \<in> set xs \<Longrightarrow> \<not> P c) \<Longrightarrow> dropWhile P xs = xs"
  by (cases xs) auto

lemma dropWhile_replicate: "P x \<Longrightarrow> dropWhile P (replicate n x @ xs) = dropWhile P xs"
  by (induction n) auto

lemma rstrip_body:
  assumes "list_all (\<lambda>n. n < 64) ns"
  shows "rstrip_pad (map url_char (map b64_char ns @ replicate j (CHR ''=''))) = map (url_char \<circ> b64_char) ns"
proof -
  have none: "c \<noteq> CHR ''=''" if "c \<in> set (rev (map (url_char \<circ> b64_char) ns))" for c
    using that assms b64_char_not_pad by (auto simp: list_all_iff url_char_pad)
  have pad: "url_char (CHR ''='') = CHR ''=''" by (simp add: url_char_def)
  have "dropWhile (\<lambda>c. c = CHR ''='') (replicate j (CHR ''='') @ rev (map (url_char \<circ> b64_char) ns)) =
      rev (map (url_char \<circ> b64_char) ns)"
    using dropWhile_none [of "rev (map (url_char \<circ> b64_char) ns)" "\<lambda>c. c = CHR ''=''"] none
    by (simp only: dropWhile_replicate) auto
  then show ?thesis by (simp add: rstrip_pad_def pad del: dropWhile_append)
qed

lemma pad_count:
  fixes j l :: nat
  assumes "j < 4" "(l + j) mod 4 = 0"
  shows "(4 - l mod 4) mod 4 = j"
proof -
  have "(l mod 4 + j) mod 4 = 0" using assms(2) by (simp add: mod_add_left_eq)
  then obtain q where q: "l mod 4 + j = 4 * q" by (auto simp: mod_eq_0_iff_dvd elim!: dvdE)
  moreover have "l mod 4 < 4" by simp
  ultimately have "q = 0 \<or> q = 1" using assms(1) by linarith
  then have "l mod 4 = 0 \<and> j = 0 \<or> j = 4 - l mod 4" using q by auto
  then show ?thesis using assms(1) by auto
qed

lemma b64url_roundtrip: "b64url_decode (b64url_encode s) = Inr s"
proof -
  obtain ns j where e: "b64encode s = map b64_char ns @ replicate j (CHR ''='')"
    and ns: "list_all (\<lambda>n. n < 64) ns" and j: "j < 4" "(length ns + j) mod 4 = 0"
    using b64encode_body [of s] by auto
  have t: "b64url_encode s = map (url_char \<circ> b64_char) ns"
    using rstrip_body [OF ns] by (simp add: b64url_encode_def e)
  have "map std_char (map (url_char \<circ> b64_char) ns) = map b64_char ns"
    using ns std_url_char by (auto simp: list_all_iff)
  then have "map std_char (b64url_encode s @ replicate ((4 - length (b64url_encode s) mod 4) mod 4) (CHR ''='')) =
      b64encode s"
    using pad_count [OF j] by (simp add: t e url_char_pad)
  then show ?thesis by (simp add: b64url_decode_def b64decode_def b64_scan_encode)
qed

lemma b64_roundtrip: "b64decode (b64encode s) = Inr s"
  by (simp add: b64decode_def b64_scan_encode)

lemma b64url_no_dot: "CHR ''.'' \<notin> set (b64url_encode s)"
proof -
  have "list_all (\<lambda>n. url_char (b64_char n) \<noteq> CHR ''.'') [0..<64]" by code_simp
  then have n: "n < 64 \<Longrightarrow> url_char (b64_char n) \<noteq> CHR ''.''" for n by (simp add: list_all_iff)
  obtain ns j where e: "b64encode s = map b64_char ns @ replicate j (CHR ''='')" and ns: "list_all (\<lambda>n. n < 64) ns"
    using b64encode_body [of s] by auto
  have "b64url_encode s = map (url_char \<circ> b64_char) ns" using rstrip_body [OF ns] by (simp add: b64url_encode_def e)
  then show ?thesis using ns n by (auto simp: list_all_iff) metis
qed

end
