(* ===== verification/Vault.thy ===== *)
theory Vault
  imports Base64 Py_Runtime
begin

text \<open>
  The Vault Transit client of \<open>vellum_core/vault.py\<close>: the encoding of requests and the decoding of
  answers, the transit signature format, and the time-limited cache of public keys. The Vault server
  is a record of its four endpoints (sign, read keys, encrypt, decrypt); each may fail with an
  exception. Times are microseconds.

  The lemmas give the round trip of signatures and of sealing, and the exact staleness of the cache:
  a cached version is served for at most the configured time, an unknown one is always looked up.
\<close>

section \<open>Client operations\<close>

record vault_server =
  vs_sign :: "string \<Rightarrow> string \<Rightarrow> string res"
  vs_keys :: "string \<Rightarrow> pydict res"
  vs_encrypt :: "string \<Rightarrow> string \<Rightarrow> string res"
  vs_decrypt :: "string \<Rightarrow> string \<Rightarrow> string res"

record vault_signature =
  sig_raw :: string
  sig_encoded :: string
  sig_key_version :: string

text \<open>The pattern \<open>^vault:v(?P<version>\d+):(?P<sig>.+)$\<close>; a final newline is outside the last group.\<close>

definition sig_group :: "string \<Rightarrow> string option" where
  "sig_group rest =
     (let body = (if rest \<noteq> [] \<and> last rest = char_of (10::nat) then butlast rest else rest)
      in if body \<noteq> [] \<and> list_all (\<lambda>c. c \<noteq> char_of (10::nat)) body then Some body else None)"

definition match_vault_sig :: "string \<Rightarrow> (string \<times> string) option" where
  "match_vault_sig s =
     (if \<not> startswith s ''vault:v'' then None
      else let t = removeprefix s ''vault:v''; version = takeWhile is_digit t; u = dropWhile is_digit t
           in if version = [] then None
              else case u of
                     [] \<Rightarrow> None
                   | c # rest \<Rightarrow>
                       (if c = CHR '':'' then map_option (Pair version) (sig_group rest) else None))"

definition decode_signature :: "string \<Rightarrow> (string \<times> string) res" where
  "decode_signature signature =
     (case match_vault_sig signature of
        None \<Rightarrow> Inl (ValueError ''Vault signature must use transit format vault:vN:<base64>'')
      | Some (key_version, sig_blob) \<Rightarrow> rbind (b64decode sig_blob) (\<lambda>raw. Inr (raw, key_version)))"

definition vault_sign :: "vault_server \<Rightarrow> string \<Rightarrow> string \<Rightarrow> vault_signature res" where
  "vault_sign srv key_name payload =
     rbind (vs_sign srv key_name (b64encode payload)) (\<lambda>signature.
     rbind (decode_signature signature) (\<lambda>(raw, key_version).
     Inr \<lparr>sig_raw = raw, sig_encoded = signature, sig_key_version = key_version\<rparr>))"

definition public_key_entry :: "string \<times> pyval \<Rightarrow> (string \<times> string) list" where
  "public_key_entry e =
     (case e of (version, PDict payload) \<Rightarrow>
        (case dget payload ''public_key'' of PStr k \<Rightarrow> [(version, k)] | _ \<Rightarrow> [])
      | _ \<Rightarrow> [])"

definition read_public_keys :: "vault_server \<Rightarrow> string \<Rightarrow> (string \<times> string) list res" where
  "read_public_keys srv key_name =
     rbind (vs_keys srv key_name) (\<lambda>keys. Inr (concat (map public_key_entry keys)))"

text \<open>\<open>str(max(int(v) for v in keys))\<close> and the lookup of that version.\<close>

definition version_ints :: "(string \<times> string) list \<Rightarrow> int list res" where
  "version_ints keys =
     rmap (\<lambda>(v, _). case int_of_text v of Some i \<Rightarrow> Inr i
                       | None \<Rightarrow> Inl (ValueError (''invalid literal for int() with base 10: '' @ py_repr_str v))) keys"

definition lookup_version :: "(string \<times> string) list \<Rightarrow> string \<Rightarrow> string res" where
  "lookup_version keys v = (case map_of keys v of Some k \<Rightarrow> Inr k | None \<Rightarrow> Inl (KeyError v))"

definition latest_version :: "(string \<times> string) list \<Rightarrow> string res" where
  "latest_version keys = rbind (version_ints keys) (\<lambda>is. Inr (show_int (foldl max (hd is) (tl is))))"

definition read_latest_public_key :: "vault_server \<Rightarrow> string \<Rightarrow> (string \<times> string) res" where
  "read_latest_public_key srv key_name =
     rbind (read_public_keys srv key_name) (\<lambda>keys.
     if keys = [] then Inl (ValueError (''Vault key '' @ SQ @ key_name @ SQ @ '' has no public keys''))
     else rbind (latest_version keys) (\<lambda>v. rbind (lookup_version keys v) (\<lambda>k. Inr (v, k))))"

definition vault_encrypt :: "vault_server \<Rightarrow> string \<Rightarrow> string \<Rightarrow> string res" where
  "vault_encrypt srv key_name plaintext = vs_encrypt srv key_name (b64encode plaintext)"

definition vault_decrypt :: "vault_server \<Rightarrow> string \<Rightarrow> string \<Rightarrow> string res" where
  "vault_decrypt srv key_name ciphertext = rbind (vs_decrypt srv key_name ciphertext) b64decode"

section \<open>The public-key cache\<close>

type_synonym key_cache = "(string \<times> (int \<times> (string \<times> string) list)) list"

definition fetch_versions ::
  "vault_server \<Rightarrow> int \<Rightarrow> int \<Rightarrow> string \<Rightarrow> key_cache \<Rightarrow> (string \<times> string) list res \<times> key_cache" where
  "fetch_versions srv ttl now key_name cache =
     (case read_public_keys srv key_name of
        Inl e \<Rightarrow> (Inl e, cache)
      | Inr versions \<Rightarrow> (Inr versions, dput key_name (now + ttl, versions) cache))"

definition get_versions ::
  "vault_server \<Rightarrow> int \<Rightarrow> int \<Rightarrow> string \<Rightarrow> key_cache \<Rightarrow> (string \<times> string) list res \<times> key_cache" where
  "get_versions srv ttl now key_name cache =
     (case map_of cache key_name of
        Some (expires_at, versions) \<Rightarrow>
          (if expires_at > now then (Inr versions, cache) else fetch_versions srv ttl now key_name cache)
      | None \<Rightarrow> fetch_versions srv ttl now key_name cache)"

definition get_public_key ::
  "vault_server \<Rightarrow> int \<Rightarrow> int \<Rightarrow> string \<Rightarrow> string option \<Rightarrow> key_cache \<Rightarrow> string res \<times> key_cache" where
  "get_public_key srv ttl now key_name key_version cache =
     (case get_versions srv ttl now key_name cache of
        (Inl e, cache1) \<Rightarrow> (Inl e, cache1)
      | (Inr versions, cache1) \<Rightarrow>
          (if versions = []
           then (Inl (ValueError (''No public keys found in Vault for key '' @ SQ @ key_name @ SQ)), cache1)
           else case key_version of
                  None \<Rightarrow> (rbind (latest_version versions) (lookup_version versions), cache1)
                | Some v \<Rightarrow>
                    (case map_of versions v of
                       Some k \<Rightarrow> (Inr k, cache1)
                     | None \<Rightarrow>
                         (case get_versions srv ttl now key_name (ddel key_name cache1) of
                            (Inl e, cache2) \<Rightarrow> (Inl e, cache2)
                          | (Inr versions2, cache2) \<Rightarrow>
                              (case map_of versions2 v of
                                 Some k \<Rightarrow> (Inr k, cache2)
                               | None \<Rightarrow> (Inl (ValueError (''Public key version '' @ SQ @ v @ SQ @ '' not found for '' @
                                           SQ @ key_name @ SQ)), cache2))))))"

section \<open>Signatures and sealing\<close>

definition transit_text :: "nat \<Rightarrow> string \<Rightarrow> string" where
  "transit_text version raw = ''vault:v'' @ show_nat version @ '':'' @ b64encode raw"

lemma b64_char_not_newline: "n < 64 \<Longrightarrow> b64_char n \<noteq> char_of (10::nat)"
proof -
  have "list_all (\<lambda>n. b64_char n \<noteq> char_of (10::nat)) [0..<64]" by code_simp
  then show "n < 64 \<Longrightarrow> b64_char n \<noteq> char_of (10::nat)" by (simp add: list_all_iff)
qed

lemma b64encode_no_newline: "c \<in> set (b64encode s) \<Longrightarrow> c \<noteq> char_of (10::nat)"
proof -
  obtain ns j where e: "b64encode s = map b64_char ns @ replicate j (CHR ''='')" "list_all (\<lambda>n. n < 64) ns"
    using b64encode_body [of s] by auto
  have "CHR ''='' \<noteq> char_of (10::nat)" by code_simp
  moreover have "b64_char n \<noteq> char_of (10::nat)" if "n \<in> set ns" for n
    using that e(2) b64_char_not_newline [of n] by (auto simp: list_all_iff)
  ultimately show "c \<in> set (b64encode s) \<Longrightarrow> c \<noteq> char_of (10::nat)"
    unfolding e(1) by auto blast
qed

lemma b64encode_nonempty: "s \<noteq> [] \<Longrightarrow> b64encode s \<noteq> []"
  by (cases s rule: b64encode.cases) auto

lemma sig_group_encode: "raw \<noteq> [] \<Longrightarrow> sig_group (b64encode raw) = Some (b64encode raw)"
  using b64encode_no_newline [of _ raw] b64encode_nonempty [of raw] last_in_set [of "b64encode raw"]
  by (auto simp: sig_group_def Let_def list_all_iff)

lemma match_transit: "raw \<noteq> [] \<Longrightarrow> match_vault_sig (transit_text v raw) = Some (show_nat v, b64encode raw)"
proof -
  assume raw: "raw \<noteq> []"
  let ?t = "show_nat v @ CHR '':'' # b64encode raw"
  have s: "transit_text v raw = ''vault:v'' @ ?t" by (simp add: transit_text_def)
  have "startswith (''vault:v'' @ ?t) ''vault:v''" by (rule startswith_append)
  moreover have "removeprefix (''vault:v'' @ ?t) ''vault:v'' = ?t"
    by (simp add: removeprefix_def startswith_def)
  moreover have "\<not> is_digit (CHR '':'')" by (simp add: is_digit_def)
  moreover have "takeWhile is_digit ?t = show_nat v" "dropWhile is_digit ?t = CHR '':'' # b64encode raw"
    using show_nat_digits [of _ v] \<open>\<not> is_digit (CHR '':'')\<close> by (simp_all add: takeWhile_tail dropWhile_append2)
  ultimately show ?thesis
    unfolding match_vault_sig_def s by (simp add: Let_def sig_group_encode [OF raw])
qed

lemma decode_transit: "raw \<noteq> [] \<Longrightarrow> decode_signature (transit_text v raw) = Inr (raw, show_nat v)"
  by (simp add: decode_signature_def match_transit b64decode_def b64_scan_encode)

text \<open>
  Transit signatures round-trip: whatever version and non-empty signature the server encodes in
  the transit format, the client decodes exactly that version and signature, and \<open>sign\<close> returns them
  with the original text.
\<close>

theorem transit_signature_roundtrip:
  assumes "raw \<noteq> []" "vs_sign srv key (b64encode payload) = Inr (transit_text v raw)"
  shows "decode_signature (transit_text v raw) = Inr (raw, show_nat v) \<and>
     vault_sign srv key payload =
       Inr \<lparr>sig_raw = raw, sig_encoded = transit_text v raw, sig_key_version = show_nat v\<rparr>"
  using assms decode_transit [OF assms(1)] by (simp add: vault_sign_def)

section \<open>Staleness of the cache\<close>

definition live :: "int \<Rightarrow> key_cache \<Rightarrow> string \<Rightarrow> (string \<times> string) list option" where
  "live now cache key =
     (case map_of cache key of Some (expires_at, vs) \<Rightarrow> if expires_at > now then Some vs else None
      | None \<Rightarrow> None)"

lemma get_versions_live:
  "live now cache key = Some vs \<Longrightarrow> get_versions srv ttl now key cache = (Inr vs, cache)"
  by (auto simp: live_def get_versions_def split: option.splits if_splits)

lemma get_versions_fresh:
  "live now cache key = None \<Longrightarrow> read_public_keys srv key = Inr vs \<Longrightarrow>
   get_versions srv ttl now key cache = (Inr vs, dput key (now + ttl, vs) cache)"
  by (auto simp: live_def get_versions_def fetch_versions_def split: option.splits if_splits)

lemma live_ddel: "distinct (map fst cache) \<Longrightarrow> live now (ddel key cache) key = None"
  by (simp add: live_def map_of_ddel)

text \<open>
  C23. Exact staleness of the key cache, for an explicitly requested version that the server currently
  publishes. A live entry that holds the version is served as it was read and the cache is not
  changed. A live entry without that version, an expired entry and no entry all give the current value
  of the server, and the answer of the server is cached for \<open>ttl\<close>: a key rotated in since the last
  read is found. The one exception is a live entry with no versions at all, from a read when the key had
  none: until it expires the lookup raises, although the server publishes the version.
\<close>

theorem key_cache_exact:
  assumes "distinct (map fst cache)" "read_public_keys srv key = Inr keys" "map_of keys v = Some k"
  shows "\<exists>cache'. get_public_key srv ttl now key (Some v) cache =
     (case live now cache key of
        Some [] \<Rightarrow> (Inl (ValueError (''No public keys found in Vault for key '' @ SQ @ key @ SQ)), cache)
      | Some (e # es) \<Rightarrow> (case map_of (e # es) v of Some old \<Rightarrow> (Inr old, cache) | None \<Rightarrow> (Inr k, cache'))
      | None \<Rightarrow> (Inr k, cache')) \<and>
     distinct (map fst cache') \<and> map_of cache' = (map_of cache)(key \<mapsto> (now + ttl, keys))"
proof (cases "live now cache key")
  case None
  from assms(3) have "keys \<noteq> []" by auto
  then show ?thesis
    using assms None by (auto simp: get_public_key_def get_versions_fresh distinct_dput map_of_dput)
next
  case (Some vs)
  show ?thesis
  proof (cases "vs = [] \<or> map_of vs v \<noteq> None")
    case True
    with Some assms(1) show ?thesis
      by (intro exI [of _ "dput key (now + ttl, keys) cache"])
         (auto simp: get_public_key_def get_versions_live distinct_dput map_of_dput split: list.splits)
  next
    case False
    with Some assms live_ddel [OF assms(1)] show ?thesis
      by (intro exI [of _ "dput key (now + ttl, keys) (ddel key cache)"])
         (auto simp: get_public_key_def get_versions_live get_versions_fresh distinct_dput distinct_ddel
            map_of_dput map_of_ddel split: list.splits)
  qed
qed

text \<open>
  A cache agrees with the published keys of a name when what it holds for that name is a non-empty part
  of them: the server may since have added versions, never changed one.
\<close>

definition cache_agrees :: "(string \<times> string) list \<Rightarrow> string \<Rightarrow> key_cache \<Rightarrow> bool" where
  "cache_agrees keys key cache =
     (distinct (map fst cache) \<and>
      (\<forall>expires vs. map_of cache key = Some (expires, vs) \<longrightarrow> vs \<noteq> [] \<and> map_of vs \<subseteq>\<^sub>m map_of keys))"

lemma cache_agrees_empty [simp]: "cache_agrees keys key []"
  by (simp add: cache_agrees_def)

lemma cache_agrees_dput: "cache_agrees keys key cache \<Longrightarrow> keys \<noteq> [] \<Longrightarrow> cache_agrees keys key (dput key (t, keys) cache)"
  by (auto simp: cache_agrees_def distinct_dput map_of_dput)

lemma get_public_key_agrees:
  assumes "cache_agrees keys key cache" "read_public_keys srv key = Inr keys" "map_of keys v = Some k"
  shows "\<exists>cache'. get_public_key srv ttl now key (Some v) cache = (Inr k, cache') \<and> cache_agrees keys key cache'"
proof -
  from assms(3) have ne: "keys \<noteq> []" by auto
  have d: "distinct (map fst cache)" using assms(1) by (simp add: cache_agrees_def)
  have del: "cache_agrees keys key (ddel key cache)"
    using d by (auto simp: cache_agrees_def map_of_ddel distinct_ddel)
  show ?thesis
  proof (cases "live now cache key")
    case None
    with assms ne cache_agrees_dput [OF assms(1) ne] show ?thesis
      by (simp add: get_public_key_def get_versions_fresh)
  next
    case (Some vs)
    then have vs: "vs \<noteq> []" "map_of vs \<subseteq>\<^sub>m map_of keys"
      using assms(1) by (auto simp: live_def cache_agrees_def split: option.splits if_splits)
    show ?thesis
    proof (cases "map_of vs v")
      case None
      with Some vs assms ne live_ddel [OF d] cache_agrees_dput [OF del ne] show ?thesis
        by (simp add: get_public_key_def get_versions_live get_versions_fresh)
    next
      case (Some k')
      then have "k' = k" using vs(2) assms(3) by (auto simp: map_le_def dom_def)
      with Some \<open>live now cache key = Some vs\<close> vs(1) assms(1) show ?thesis
        by (simp add: get_public_key_def get_versions_live)
    qed
  qed
qed

section \<open>Witnesses\<close>

definition demo_server :: vault_server where
  "demo_server = \<lparr>vs_sign = (\<lambda>k p. Inr (transit_text 3 ''sig'')),
     vs_keys = (\<lambda>k. Inr [(''1'', PDict [(''public_key'', PStr ''pk1'')]), (''2'', PDict [(''public_key'', PStr ''pk2'')])]),
     vs_encrypt = (\<lambda>k p. Inr (''vault:v1:'' @ p)), vs_decrypt = (\<lambda>k c. Inr (removeprefix c ''vault:v1:''))\<rparr>"

theorem transit_signature_roundtrip_witness:
  "decode_signature (transit_text 3 ''sig'') = Inr (''sig'', show_nat 3) \<and>
   vault_sign demo_server ''k'' ''m'' =
     Inr \<lparr>sig_raw = ''sig'', sig_encoded = transit_text 3 ''sig'', sig_key_version = show_nat 3\<rparr>"
  by (rule transit_signature_roundtrip) (simp_all add: demo_server_def)

theorem key_cache_exact_witness:
  "fst (get_public_key demo_server 300 50 ''k'' (Some ''2'') [(''k'', (100, [(''1'', ''pk1'')]))]) = Inr ''pk2'' \<and>
   fst (get_public_key demo_server 300 50 ''k'' (Some ''2'') [(''k'', (100, [(''2'', ''old'')]))]) = Inr ''old'' \<and>
   fst (get_public_key demo_server 300 100 ''k'' (Some ''2'') [(''k'', (100, [(''2'', ''old'')]))]) = Inr ''pk2'' \<and>
   (\<exists>e. fst (get_public_key demo_server 300 50 ''k'' (Some ''2'') [(''k'', (100, []))]) = Inl e)"
proof -
  have keys: "read_public_keys demo_server ''k'' = Inr [(''1'', ''pk1''), (''2'', ''pk2'')]"
    by (simp add: demo_server_def read_public_keys_def public_key_entry_def)
  note exact = key_cache_exact [OF _ keys, of _ "''2''" "''pk2''"]
  show ?thesis
    using exact [of "[(''k'', (100, [(''1'', ''pk1'')]))]" 300 50] exact [of "[(''k'', (100, [(''2'', ''old'')]))]" 300 50]
      exact [of "[(''k'', (100, [(''2'', ''old'')]))]" 300 100] exact [of "[(''k'', (100, []))]" 300 50]
    by (auto simp: live_def)
qed

end
