(* ===== verification/Audit_Chain.thy ===== *)
theory Audit_Chain
  imports Database Vault Canonical_Json
begin

text \<open>
  The signed, hash-linked audit log: \<open>vellum_core/proof_store.py\<close>. \<open>append_event\<close> reads the latest row,
  hashes and signs the new one, and appends it in a transaction that refuses a stale link, retrying
  up to eight times; between the read and the append of one attempt other writers may act, which the
  model makes explicit as a function on the store. \<open>verify_chain\<close> recomputes links, hashes and
  signatures.

  The store is used through the protocol \<open>AuditStoreDB\<close>, the locale \<open>audit_store_db\<close>, interpreted on the
  database. SHA-256, the Vault server and the Ed25519 check are parameters.
\<close>

section \<open>Time stamps as text\<close>

text \<open>The civil date of a day number (days since 1970-01-01), proleptic Gregorian calendar.\<close>

definition civil_of_days :: "int \<Rightarrow> int \<times> int \<times> int" where
  "civil_of_days days =
     (let z = days + 719468; era = z div 146097; doe = z mod 146097;
          yoe = (doe - doe div 1460 + doe div 36524 - doe div 146096) div 365;
          doy = doe - (365 * yoe + yoe div 4 - yoe div 100);
          mp = (5 * doy + 2) div 153; d = doy - (153 * mp + 2) div 5 + 1;
          m = (if mp < 10 then mp + 3 else mp - 9)
      in (yoe + era * 400 + (if m \<le> 2 then 1 else 0), m, d))"

definition pad_int :: "nat \<Rightarrow> int \<Rightarrow> string" where
  "pad_int w i = (let t = show_int i in replicate (w - length t) (CHR ''0'') @ t)"

definition floor_second :: "int \<Rightarrow> int" where
  "floor_second t = t - t mod 1000000"

definition isoformat :: "int \<Rightarrow> string" where
  "isoformat t =
     (let us = t mod 1000000; secs = t div 1000000; days = secs div 86400; sod = secs mod 86400
      in case civil_of_days days of (y, m, d) \<Rightarrow>
           pad_int 4 y @ ''-'' @ pad_int 2 m @ ''-'' @ pad_int 2 d @ ''T'' @ pad_int 2 (sod div 3600) @ '':'' @
           pad_int 2 (sod mod 3600 div 60) @ '':'' @ pad_int 2 (sod mod 60) @
           (if us = 0 then [] else ''.'' @ pad_int 6 us) @ ''+00:00'')"

section \<open>Appending\<close>

definition opt_str :: "string option \<Rightarrow> pyval" where
  "opt_str s = (case s of None \<Rightarrow> PNone | Some t \<Rightarrow> PStr t)"

definition link_payload ::
  "int \<Rightarrow> string option \<Rightarrow> string \<Rightarrow> string \<Rightarrow> pyval list \<Rightarrow> string \<Rightarrow> string \<Rightarrow> pydict \<Rightarrow> string option \<Rightarrow> pydict" where
  "link_payload ts proof_id circuit_id status public_signals proof_hash previous_entry_hash metadata error =
     [(''timestamp'', PStr (isoformat ts)), (''proof_id'', opt_str proof_id), (''circuit_id'', PStr circuit_id),
      (''status'', PStr status), (''public_signals'', PList public_signals), (''proof_hash'', PStr proof_hash),
      (''previous_entry_hash'', PStr previous_entry_hash), (''metadata'', PDict metadata),
      (''error'', opt_str error)]"

record audit_event =
  ev_proof_id :: "string option"
  ev_circuit_id :: string
  ev_status :: string
  ev_public_signals :: "pyval list"
  ev_proof_payload :: pyval
  ev_metadata :: pydict
  ev_error :: "string option"

text \<open>What one attempt writes: the row for the event, linked to the hash it read.\<close>

definition event_input ::
  "(string \<Rightarrow> string) \<Rightarrow> int \<Rightarrow> string \<Rightarrow> audit_event \<Rightarrow> vault_signature \<Rightarrow> audit_input" where
  "event_input sha256 ts previous e sig =
     (let proof_hash = compute_proof_hash sha256 (ev_proof_payload e)
      in \<lparr>ai_timestamp = ts, ai_proof_id = ev_proof_id e, ai_circuit_id = ev_circuit_id e,
          ai_status = ev_status e, ai_public_signals = ev_public_signals e, ai_proof_hash = proof_hash,
          ai_previous_entry_hash = previous,
          ai_entry_hash = hash_record sha256 (link_payload ts (ev_proof_id e) (ev_circuit_id e) (ev_status e)
            (ev_public_signals e) proof_hash previous (ev_metadata e) (ev_error e)),
          ai_signature = sig_encoded sig, ai_key_version = sig_key_version sig, ai_meta = ev_metadata e,
          ai_error = ev_error e\<rparr>)"

definition event_hash :: "(string \<Rightarrow> string) \<Rightarrow> int \<Rightarrow> string \<Rightarrow> audit_event \<Rightarrow> string" where
  "event_hash sha256 ts previous e =
     hash_record sha256 (link_payload ts (ev_proof_id e) (ev_circuit_id e) (ev_status e)
       (ev_public_signals e) (compute_proof_hash sha256 (ev_proof_payload e)) previous (ev_metadata e) (ev_error e))"

definition latest_hash :: "audit_row option \<Rightarrow> string" where
  "latest_hash r = (case r of None \<Rightarrow> [] | Some row \<Rightarrow> ar_entry_hash row)"

text \<open>
  The retry loop over a store given by its two operations. \<open>clock k\<close> is the time of attempt \<open>k\<close> and
  \<open>others k\<close> is what other writers do between its read and its append.
\<close>

fun append_loop ::
  "('s \<Rightarrow> audit_row option) \<Rightarrow> (audit_input \<Rightarrow> 's \<Rightarrow> (audit_row \<times> 's) res) \<Rightarrow> (string \<Rightarrow> string) \<Rightarrow>
   (string \<Rightarrow> vault_signature res) \<Rightarrow> (nat \<Rightarrow> int) \<Rightarrow> (nat \<Rightarrow> 's \<Rightarrow> 's) \<Rightarrow> audit_event \<Rightarrow> nat \<Rightarrow> nat \<Rightarrow> 's \<Rightarrow>
   audit_row res \<times> 's" where
  "append_loop latest app sha256 sign clock others e 0 k s =
     (Inl (RuntimeError ''Failed to append audit event due to persistent chain conflicts''), s)"
| "append_loop latest app sha256 sign clock others e (Suc n) k s =
     (let previous = latest_hash (latest s); ts = floor_second (clock k);
          entry_hash = event_hash sha256 ts previous e
      in case sign entry_hash of
           Inl x \<Rightarrow> (Inl x, s)
         | Inr sig \<Rightarrow>
             (let s1 = others k s
              in case app (event_input sha256 ts previous e sig) s1 of
                   Inr (row, s2) \<Rightarrow> (Inr row, s2)
                 | Inl (RuntimeError m) \<Rightarrow>
                     (if contains ''audit_chain_conflict'' m
                      then append_loop latest app sha256 sign clock others e n (Suc k) s1
                      else (Inl (RuntimeError m), s1))
                 | Inl x \<Rightarrow> (Inl x, s1)))"

definition max_append_attempts :: nat where
  "max_append_attempts = 8"

definition append_event ::
  "(string \<Rightarrow> string) \<Rightarrow> vault_server \<Rightarrow> string \<Rightarrow> (nat \<Rightarrow> int) \<Rightarrow> (nat \<Rightarrow> database \<Rightarrow> database) \<Rightarrow> audit_event \<Rightarrow>
   database \<Rightarrow> audit_row res \<times> database" where
  "append_event sha256 srv audit_key clock others e db =
     append_loop get_latest_audit_row append_audit_row sha256 (vault_sign srv audit_key) clock others e
       max_append_attempts 0 db"

section \<open>Verification\<close>

record chain_report =
  cr_valid :: bool
  cr_checked_entries :: nat
  cr_first_broken_index :: "nat option"
  cr_reason :: "string option"

definition invalid_chain :: "nat \<Rightarrow> string \<Rightarrow> chain_report" where
  "invalid_chain idx reason =
     \<lparr>cr_valid = False, cr_checked_entries = Suc idx, cr_first_broken_index = Some idx, cr_reason = Some reason\<rparr>"

definition row_payload :: "audit_row \<Rightarrow> pydict" where
  "row_payload r =
     link_payload (floor_second (ar_timestamp r)) (ar_proof_id r) (ar_circuit_id r) (ar_status r)
       (ar_public_signals r) (ar_proof_hash r) (ar_previous_entry_hash r) (ar_meta r) (ar_error r)"

definition resolved_version :: "audit_row \<Rightarrow> string \<Rightarrow> string" where
  "resolved_version r key_version = (if ar_key_version r \<noteq> [] then ar_key_version r else key_version)"

fun verify_rows ::
  "(string \<Rightarrow> string) \<Rightarrow> (nat \<Rightarrow> string \<Rightarrow> 'c \<Rightarrow> string res \<times> 'c) \<Rightarrow> (string \<Rightarrow> string \<Rightarrow> string \<Rightarrow> bool) \<Rightarrow> nat \<Rightarrow>
   string \<Rightarrow> audit_row list \<Rightarrow> 'c \<Rightarrow> chain_report res" where
  "verify_rows sha256 key_for ed25519 idx previous [] cache =
     Inr \<lparr>cr_valid = True, cr_checked_entries = idx, cr_first_broken_index = None, cr_reason = None\<rparr>"
| "verify_rows sha256 key_for ed25519 idx previous (r # rs) cache =
     (if ar_previous_entry_hash r \<noteq> previous
      then Inr (invalid_chain idx ''Broken previous_entry_hash link'')
      else if hash_record sha256 (row_payload r) \<noteq> ar_entry_hash r
      then Inr (invalid_chain idx ''Entry hash mismatch'')
      else rbind (decode_signature (ar_signature r)) (\<lambda>(signature_raw, key_version).
           case key_for idx (resolved_version r key_version) cache of
             (Inl e, _) \<Rightarrow> Inl e
           | (Inr public_key, cache') \<Rightarrow>
               (if \<not> ed25519 public_key (ar_entry_hash r) signature_raw
                then Inr (invalid_chain idx ''Invalid signature'')
                else verify_rows sha256 key_for ed25519 (Suc idx) (ar_entry_hash r) rs cache')))"

definition verify_chain ::
  "(string \<Rightarrow> string) \<Rightarrow> vault_server \<Rightarrow> int \<Rightarrow> (nat \<Rightarrow> int) \<Rightarrow> string \<Rightarrow> (string \<Rightarrow> string \<Rightarrow> string \<Rightarrow> bool) \<Rightarrow> key_cache \<Rightarrow>
   database \<Rightarrow> chain_report res" where
  "verify_chain sha256 srv ttl clock audit_key ed25519 cache db =
     verify_rows sha256 (\<lambda>idx v. get_public_key srv ttl (clock idx) audit_key (Some v)) ed25519 0 []
       (list_audit_rows db) cache"

section \<open>The store protocol\<close>

definition row_of_input :: "audit_input \<Rightarrow> audit_row \<Rightarrow> bool" where
  "row_of_input p r =
     (ar_timestamp r = ai_timestamp p \<and> ar_proof_id r = ai_proof_id p \<and> ar_circuit_id r = ai_circuit_id p \<and>
      ar_status r = ai_status p \<and> ar_public_signals r = ai_public_signals p \<and>
      ar_proof_hash r = ai_proof_hash p \<and> ar_previous_entry_hash r = ai_previous_entry_hash p \<and>
      ar_entry_hash r = ai_entry_hash p \<and> ar_signature r = ai_signature p \<and>
      ar_key_version r = ai_key_version p \<and> ar_meta r = ai_meta p \<and> ar_error r = ai_error p)"

text \<open>
  What the audit store relies on: the latest row is the last of the log, an append with the current
  link adds exactly its row at the end, and one with a stale link fails and changes nothing.
\<close>

locale audit_store_db =
  fixes ok :: "'s \<Rightarrow> bool" and rows :: "'s \<Rightarrow> audit_row list" and latest :: "'s \<Rightarrow> audit_row option"
    and app :: "audit_input \<Rightarrow> 's \<Rightarrow> (audit_row \<times> 's) res"
  assumes latest_last: "ok s \<Longrightarrow> latest s = (if rows s = [] then None else Some (last (rows s)))"
    and append_fresh: "ok s \<Longrightarrow> ai_previous_entry_hash p = last_hash [] (rows s) \<Longrightarrow>
      \<exists>r s'. app p s = Inr (r, s') \<and> ok s' \<and> rows s' = rows s @ [r] \<and> row_of_input p r"
    and append_stale: "ok s \<Longrightarrow> ai_previous_entry_hash p \<noteq> last_hash [] (rows s) \<Longrightarrow>
      app p s = Inl (RuntimeError ''audit_chain_conflict'')"
begin

lemma latest_hash_last: "ok s \<Longrightarrow> latest_hash (latest s) = last_hash [] (rows s)"
  by (simp add: latest_last latest_hash_def last_hash_def)

lemma conflict_text: "contains ''audit_chain_conflict'' ''audit_chain_conflict''"
  by code_simp

text \<open>One attempt: success when no other writer moved the end of the log, retry otherwise.\<close>

lemma append_attempt:
  assumes "ok s" "ok (others k s)" "sign (event_hash sha256 (floor_second (clock k)) (last_hash [] (rows s)) e) = Inr sig"
  shows "if last_hash [] (rows (others k s)) = last_hash [] (rows s)
     then \<exists>r s'. append_loop latest app sha256 sign clock others e (Suc n) k s = (Inr r, s') \<and> ok s' \<and>
       rows s' = rows (others k s) @ [r] \<and>
       row_of_input (event_input sha256 (floor_second (clock k)) (last_hash [] (rows s)) e sig) r
     else append_loop latest app sha256 sign clock others e (Suc n) k s =
       append_loop latest app sha256 sign clock others e n (Suc k) (others k s)"
proof -
  let ?p = "event_input sha256 (floor_second (clock k)) (last_hash [] (rows s)) e sig"
  have p: "ai_previous_entry_hash ?p = last_hash [] (rows s)" by (simp add: event_input_def Let_def)
  show ?thesis
  proof (cases "last_hash [] (rows (others k s)) = last_hash [] (rows s)")
    case True
    with append_fresh [OF assms(2), of ?p] p obtain r s' where
      "app ?p (others k s) = Inr (r, s')" "ok s'" "rows s' = rows (others k s) @ [r]" "row_of_input ?p r" by auto
    with True assms show ?thesis by (simp add: latest_hash_last Let_def)
  next
    case False
    with append_stale [OF assms(2), of ?p] p have "app ?p (others k s) = Inl (RuntimeError ''audit_chain_conflict'')"
      by simp
    with False assms conflict_text show ?thesis by (simp add: latest_hash_last Let_def del: contains.simps)
  qed
qed

text \<open>
  The loop returns a row whenever some remaining attempt is not disturbed: the row is the last of the
  log, it is the event, and it is linked and signed.
\<close>

lemma append_loop_succeeds:
  assumes "ok s" "P s" "\<And>k s. ok s \<Longrightarrow> P s \<Longrightarrow> ok (others k s) \<and> P (others k s)" "\<And>h. \<exists>sig. sign h = Inr sig"
    "k \<le> q" "q < k + n" "\<And>s. ok s \<Longrightarrow> last_hash [] (rows (others q s)) = last_hash [] (rows s)"
  shows "\<exists>r s' s1 ts prev sig. append_loop latest app sha256 sign clock others e n k s = (Inr r, s') \<and> ok s' \<and>
     P s1 \<and> rows s' = rows s1 @ [r] \<and> prev = last_hash [] (rows s1) \<and>
     row_of_input (event_input sha256 (floor_second ts) prev e sig) r \<and>
     sign (event_hash sha256 (floor_second ts) prev e) = Inr sig"
  using assms(1,2,5,6)
proof (induction n arbitrary: k s)
  case (Suc n)
  let ?h = "last_hash [] (rows s)"
  have keep: "ok (others k s)" "P (others k s)" using assms(3) [OF Suc.prems(1,2)] by simp_all
  obtain sig where sig: "sign (event_hash sha256 (floor_second (clock k)) ?h e) = Inr sig" using assms(4) by blast
  note att = append_attempt [where others = others and k = k and clock = clock and sign = sign and n = n,
      OF Suc.prems(1) keep(1) sig]
  show ?case
  proof (cases "last_hash [] (rows (others k s)) = ?h")
    case True
    with att obtain r s' where
      "append_loop latest app sha256 sign clock others e (Suc n) k s = (Inr r, s')" "ok s'"
      "rows s' = rows (others k s) @ [r]" "row_of_input (event_input sha256 (floor_second (clock k)) ?h e sig) r" by auto
    with True sig keep(2) show ?thesis
      by (intro exI [of _ r] exI [of _ s'] exI [of _ "others k s"] exI [of _ "clock k"] exI [of _ ?h] exI [of _ sig])
         simp
  next
    case False
    then have "k \<noteq> q" using assms(7) Suc.prems(1) by blast
    moreover have "append_loop latest app sha256 sign clock others e (Suc n) k s =
        append_loop latest app sha256 sign clock others e n (Suc k) (others k s)" using att False by simp
    ultimately show ?thesis
      using Suc.IH [OF keep, of "Suc k"] Suc.prems(3,4) by simp
  qed
qed simp

end

lemma append_audit_row_fresh:
  assumes "db_wf db" "ai_previous_entry_hash p = last_hash [] (db_audit db)"
  shows "\<exists>r db'. append_audit_row p db = Inr (r, db') \<and> db_wf db' \<and> db_audit db' = db_audit db @ [r] \<and> row_of_input p r"
proof -
  from assms have "ai_previous_entry_hash p = expected_previous db"
    by (simp add: expected_previous_wf db_wf_def)
  then obtain r db' where a: "append_audit_row p db = Inr (r, db')" "row_of_input p r"
    by (simp add: append_audit_row_def Let_def row_of_input_def)
  with append_audit_row_wf [OF assms(1) a(1)] show ?thesis by blast
qed

interpretation audit: audit_store_db db_wf db_audit get_latest_audit_row append_audit_row
proof
  fix db
  assume "db_wf db"
  then show "get_latest_audit_row db = (if db_audit db = [] then None else Some (last (db_audit db)))"
    by (auto simp: get_latest_audit_row_def audit_sorted_self db_wf_def split: list.splits)
next
  fix db and p :: audit_input
  assume "db_wf db" "ai_previous_entry_hash p \<noteq> last_hash [] (db_audit db)"
  then show "append_audit_row p db = Inl (RuntimeError ''audit_chain_conflict'')"
    by (simp add: append_audit_row_def expected_previous_wf db_wf_def)
qed (rule append_audit_row_fresh)

section \<open>What verification establishes\<close>

text \<open>A row is sound after \<open>previous\<close> under a key: its link, its hash and its signature check.\<close>

definition row_sound :: "(string \<Rightarrow> string) \<Rightarrow> string \<Rightarrow> audit_row \<Rightarrow> bool" where
  "row_sound sha256 previous r =
     (ar_previous_entry_hash r = previous \<and> ar_entry_hash r = hash_record sha256 (row_payload r))"

fun chain_sound :: "(string \<Rightarrow> string) \<Rightarrow> string \<Rightarrow> audit_row list \<Rightarrow> bool" where
  "chain_sound sha256 previous [] = True"
| "chain_sound sha256 previous (r # rs) =
     (row_sound sha256 previous r \<and> chain_sound sha256 (ar_entry_hash r) rs)"

lemma verify_rows_sound:
  "verify_rows sha256 key_for ed idx previous rows cache = Inr rep \<Longrightarrow> cr_valid rep \<Longrightarrow>
   chain_sound sha256 previous rows \<and> cr_checked_entries rep = idx + length rows"
proof (induction rows arbitrary: idx previous cache)
  case (Cons r rs)
  then show ?case
    by (fastforce simp: rbind_eq_Inr invalid_chain_def row_sound_def state_res_eq_Inr split: if_splits)
qed auto

text \<open>
  The signature check of one row: the key of its version is looked up in the key cache as the rows
  before it left it. \<open>cache_reached\<close> is the cache after the rows of a prefix.
\<close>

definition key_of_row ::
  "(nat \<Rightarrow> string \<Rightarrow> 'c \<Rightarrow> string res \<times> 'c) \<Rightarrow> nat \<Rightarrow> audit_row \<Rightarrow> 'c \<Rightarrow> (string \<times> string \<times> 'c) res" where
  "key_of_row key_for idx r cache =
     rbind (decode_signature (ar_signature r)) (\<lambda>(raw, v).
       case key_for idx (resolved_version r v) cache of
         (Inl e, _) \<Rightarrow> Inl e
       | (Inr public_key, cache') \<Rightarrow> Inr (raw, public_key, cache'))"

fun cache_reached ::
  "(nat \<Rightarrow> string \<Rightarrow> 'c \<Rightarrow> string res \<times> 'c) \<Rightarrow> nat \<Rightarrow> audit_row list \<Rightarrow> 'c \<Rightarrow> 'c" where
  "cache_reached key_for idx [] cache = cache"
| "cache_reached key_for idx (r # rs) cache =
     (case key_of_row key_for idx r cache of
        Inl e \<Rightarrow> cache
      | Inr (raw, public_key, cache') \<Rightarrow> cache_reached key_for (Suc idx) rs cache')"

definition signature_checked ::
  "(nat \<Rightarrow> string \<Rightarrow> 'c \<Rightarrow> string res \<times> 'c) \<Rightarrow> (string \<Rightarrow> string \<Rightarrow> string \<Rightarrow> bool) \<Rightarrow> nat \<Rightarrow> audit_row list \<Rightarrow> 'c \<Rightarrow>
   audit_row \<Rightarrow> bool \<Rightarrow> bool" where
  "signature_checked key_for ed idx before cache r verdict =
     (case key_of_row key_for (idx + length before) r (cache_reached key_for idx before cache) of
        Inl e \<Rightarrow> False
      | Inr (raw, public_key, _) \<Rightarrow> ed public_key (ar_entry_hash r) raw = verdict)"

text \<open>Why a row is refused: the first of its three checks that fails, with the reason reported for it.\<close>

definition refused_with ::
  "(string \<Rightarrow> string) \<Rightarrow> string \<Rightarrow> audit_row \<Rightarrow> bool \<Rightarrow> string option \<Rightarrow> bool" where
  "refused_with sha256 previous r bad_signature reason =
     (if ar_previous_entry_hash r \<noteq> previous then reason = Some ''Broken previous_entry_hash link''
      else if ar_entry_hash r \<noteq> hash_record sha256 (row_payload r) then reason = Some ''Entry hash mismatch''
      else bad_signature \<and> reason = Some ''Invalid signature'')"

lemma last_hash_Cons: "last_hash h (r # rs) = last_hash (ar_entry_hash r) rs"
  by (simp add: last_hash_def)

lemma signature_checked_Cons:
  assumes "key_of_row key_for idx q cache = Inr (raw, pk, cache')"
  shows "signature_checked key_for ed idx (q # before) cache r w =
    signature_checked key_for ed (Suc idx) before cache' r w"
  using assms by (simp add: signature_checked_def)

lemma verify_rows_first_broken:
  "verify_rows sha256 key_for ed idx previous rows cache = Inr rep \<Longrightarrow> \<not> cr_valid rep \<Longrightarrow>
   \<exists>k < length rows. cr_first_broken_index rep = Some (idx + k) \<and> cr_checked_entries rep = Suc (idx + k) \<and>
     (\<forall>j < k. row_sound sha256 (last_hash previous (take j rows)) (rows ! j) \<and>
        signature_checked key_for ed idx (take j rows) cache (rows ! j) True) \<and>
     refused_with sha256 (last_hash previous (take k rows)) (rows ! k)
       (signature_checked key_for ed idx (take k rows) cache (rows ! k) False) (cr_reason rep)"
proof (induction rows arbitrary: idx previous cache)
  case (Cons r rs)
  show ?case
  proof (cases "row_sound sha256 previous r")
    case False
    with Cons.prems show ?thesis
      by (intro exI [of _ 0]) (auto simp: row_sound_def invalid_chain_def refused_with_def last_hash_def split: if_splits)
  next
    case True
    with Cons.prems(1) obtain raw v pk cache' where d: "decode_signature (ar_signature r) = Inr (raw, v)"
      "key_for idx (resolved_version r v) cache = (Inr pk, cache')"
      by (auto simp: row_sound_def rbind_eq_Inr state_res_eq_Inr)
    then have k: "key_of_row key_for idx r cache = Inr (raw, pk, cache')" by (simp add: key_of_row_def)
    then have here: "signature_checked key_for ed idx [] cache r w = (ed pk (ar_entry_hash r) raw = w)" for w
      by (simp add: signature_checked_def)
    show ?thesis
    proof (cases "ed pk (ar_entry_hash r) raw")
      case False
      with Cons.prems True d have "rep = invalid_chain idx ''Invalid signature''" by (simp add: row_sound_def)
      with False True here show ?thesis
        by (intro exI [of _ 0]) (auto simp: invalid_chain_def refused_with_def row_sound_def last_hash_def)
    next
      case ok: True
      with Cons.prems(1) True d have
        "verify_rows sha256 key_for ed (Suc idx) (ar_entry_hash r) rs cache' = Inr rep"
        by (simp add: row_sound_def)
      from Cons.IH [OF this Cons.prems(2)] obtain j where "j < length rs"
        "cr_first_broken_index rep = Some (Suc idx + j)" "cr_checked_entries rep = Suc (Suc idx + j)"
        "\<forall>i < j. row_sound sha256 (last_hash (ar_entry_hash r) (take i rs)) (rs ! i) \<and>
           signature_checked key_for ed (Suc idx) (take i rs) cache' (rs ! i) True"
        "refused_with sha256 (last_hash (ar_entry_hash r) (take j rs)) (rs ! j)
           (signature_checked key_for ed (Suc idx) (take j rs) cache' (rs ! j) False) (cr_reason rep)" by blast
      with True ok here signature_checked_Cons [OF k, of ed] show ?thesis
        by (intro exI [of _ "Suc j"]) (simp add: last_hash_Cons all_less_Suc_shift last_hash_def [of _ "[]"])
    qed
  qed
qed auto

section \<open>Tamper evidence\<close>

text \<open>
  The text a row is hashed from, and a collision between two logs: a row of the one and a row of the
  other whose hashed texts differ and have the same hash.
\<close>

definition hashed_text :: "audit_row \<Rightarrow> string" where
  "hashed_text r = canonical_json (PDict (row_payload r))"

definition rows_collide :: "(string \<Rightarrow> string) \<Rightarrow> audit_row list \<Rightarrow> audit_row list \<Rightarrow> bool" where
  "rows_collide sha256 rs qs =
     list_ex (\<lambda>r. list_ex (\<lambda>q. hashed_text r \<noteq> hashed_text q \<and> sha256 (hashed_text r) = sha256 (hashed_text q)) qs) rs"

definition row_float_free :: "audit_row \<Rightarrow> bool" where
  "row_float_free r = (float_free_list (ar_public_signals r) \<and> float_free_dict (ar_meta r))"

text \<open>The content of a row: everything its hash covers, with dictionaries in canonical order.\<close>

definition row_content :: "audit_row \<Rightarrow> pyval" where
  "row_content r = canon (PDict (row_payload r))"

lemma float_free_payload: "row_float_free r \<Longrightarrow> float_free (PDict (row_payload r))"
  by (auto simp: row_float_free_def row_payload_def link_payload_def opt_str_def split: option.splits)

lemma same_hash_content:
  assumes "row_float_free r" "row_float_free q" "hash_record sha256 (row_payload r) = hash_record sha256 (row_payload q)"
  shows "row_content r = row_content q \<or> hashed_text r \<noteq> hashed_text q \<and> sha256 (hashed_text r) = sha256 (hashed_text q)"
proof (cases "hashed_text r = hashed_text q")
  case True
  then show ?thesis
    using canonical_json_eq_iff [OF float_free_payload [OF assms(1)] float_free_payload [OF assms(2)]]
    by (simp add: row_content_def hashed_text_def)
next
  case False
  with assms(3) show ?thesis by (auto simp: hashed_text_def hash_record_def)
qed

lemma content_previous: "row_content r = row_content q \<Longrightarrow> ar_previous_entry_hash r = ar_previous_entry_hash q"
proof -
  have d: "distinct (map fst (row_payload r))" for r by (simp add: row_payload_def link_payload_def)
  have m: "map_of (canon_dict (row_payload r)) ''previous_entry_hash'' = Some (PStr (ar_previous_entry_hash r))" for r
    by (simp only: map_of_canon_dict [OF d]) (simp add: row_payload_def link_payload_def)
  show "row_content r = row_content q \<Longrightarrow> ar_previous_entry_hash r = ar_previous_entry_hash q"
    using m [of r] m [of q] by (simp add: row_content_def)
qed

lemma chain_sound_append:
  "chain_sound sha256 h (rs @ [r]) \<longleftrightarrow> chain_sound sha256 h rs \<and> row_sound sha256 (last_hash h rs) r"
  by (induction rs arbitrary: h) (auto simp: last_hash_def)

definition nonempty_hash :: "(string \<Rightarrow> string) \<Rightarrow> bool" where
  "nonempty_hash h = (\<forall>x. h x \<noteq> [])"

lemma sound_chain_hash_nonempty:
  assumes "nonempty_hash sha256" "chain_sound sha256 [] rs" "last_hash [] rs = []"
  shows "rs = []"
  using assms by (cases rs rule: rev_cases) (auto simp: chain_sound_append row_sound_def last_hash_def hash_record_def nonempty_hash_def)

lemma chains_equal_or_collision:
  assumes "nonempty_hash sha256"
  shows "chain_sound sha256 [] rs \<Longrightarrow> chain_sound sha256 [] qs \<Longrightarrow> list_all row_float_free rs \<Longrightarrow>
    list_all row_float_free qs \<Longrightarrow> last_hash [] rs = last_hash [] qs \<Longrightarrow>
    map row_content rs = map row_content qs \<or> rows_collide sha256 rs qs"
proof (induction rs arbitrary: qs rule: rev_induct)
  case Nil
  have "last_hash [] ([] :: audit_row list) = []" by (simp add: last_hash_def)
  then have "last_hash [] qs = []" using Nil.prems(5) by (simp only:)
  from sound_chain_hash_nonempty [OF assms Nil.prems(2) this] show ?case by simp
next
  case (snoc r rs)
  have "last_hash [] (rs @ [r]) \<noteq> []"
    using snoc.prems(1) sound_chain_hash_nonempty [OF assms, of "rs @ [r]"] by blast
  then have "qs \<noteq> []" using snoc.prems(5) by (auto simp: last_hash_def)
  then obtain q qs' where qs: "qs = qs' @ [q]" by (cases qs rule: rev_cases) auto
  have s: "chain_sound sha256 [] rs" "row_sound sha256 (last_hash [] rs) r"
    "chain_sound sha256 [] qs'" "row_sound sha256 (last_hash [] qs') q"
    using snoc.prems(1,2) unfolding qs chain_sound_append by blast+
  have ff: "row_float_free r" "row_float_free q" "list_all row_float_free rs" "list_all row_float_free qs'"
    using snoc.prems(3,4) unfolding qs by simp_all
  have "ar_entry_hash r = ar_entry_hash q" using snoc.prems(5) unfolding qs by (simp add: last_hash_def)
  then have "hash_record sha256 (row_payload r) = hash_record sha256 (row_payload q)"
    using s(2,4) by (simp add: row_sound_def)
  from same_hash_content [OF ff(1,2) this] show ?case
  proof
    assume c: "row_content r = row_content q"
    then have "last_hash [] rs = last_hash [] qs'"
      using content_previous [OF c] s(2,4) by (simp add: row_sound_def)
    from snoc.IH [OF s(1,3) ff(3,4) this] c show ?thesis unfolding qs by (auto simp: rows_collide_def list_ex_iff)
  qed (simp add: rows_collide_def qs)
qed

text \<open>
  C8. Tamper evidence. Two audit logs that both verify and end in the same entry hash contain the same
  events, in the same order, with the same hash-covered content (time stamp to the second, identifiers,
  status, signals, proof hash, link, metadata, error); otherwise a row of the one and a row of the other
  are a collision of the hash function: their hashed texts differ and have the same hash. Whoever knows the last entry hash can detect any change to the history.
\<close>

theorem audit_log_tamper_evident:
  assumes "nonempty_hash sha256"
    and "verify_chain sha256 srv ttl clock key ed cache db = Inr rep" "cr_valid rep"
    and "verify_chain sha256 srv' ttl' clock' key' ed' cache' db' = Inr rep'" "cr_valid rep'"
    and "list_all row_float_free (list_audit_rows db)" "list_all row_float_free (list_audit_rows db')"
    and "last_hash [] (list_audit_rows db) = last_hash [] (list_audit_rows db')"
  shows "map row_content (list_audit_rows db) = map row_content (list_audit_rows db') \<or>
    rows_collide sha256 (list_audit_rows db) (list_audit_rows db')"
proof -
  have "chain_sound sha256 [] (list_audit_rows db)"
    using verify_rows_sound [OF assms(2) [unfolded verify_chain_def] assms(3)] by simp
  moreover have "chain_sound sha256 [] (list_audit_rows db')"
    using verify_rows_sound [OF assms(4) [unfolded verify_chain_def] assms(5)] by simp
  ultimately show ?thesis using chains_equal_or_collision [OF assms(1)] assms(6-8) by blast
qed

section \<open>Appended events verify\<close>

lemma floor_second_idem [simp]: "floor_second (floor_second t) = floor_second t"
  by (simp add: floor_second_def)

lemma event_row_sound:
  "row_of_input (event_input sha256 (floor_second ts) prev e sig) r \<Longrightarrow> row_sound sha256 prev r"
  by (simp add: row_of_input_def event_input_def Let_def row_sound_def row_payload_def)

text \<open>
  A signed row: its signature is in the transit format and checks under the published key of its version.
\<close>

definition row_signed :: "(string \<Rightarrow> string \<Rightarrow> string \<Rightarrow> bool) \<Rightarrow> (string \<times> string) list \<Rightarrow> audit_row \<Rightarrow> bool" where
  "row_signed ed keys r =
     (\<exists>v raw k. raw \<noteq> [] \<and> ar_signature r = transit_text v raw \<and> ar_key_version r = show_nat v \<and>
        map_of keys (show_nat v) = Some k \<and> ed k (ar_entry_hash r) raw)"

definition honest_log ::
  "(string \<Rightarrow> string) \<Rightarrow> (string \<Rightarrow> string \<Rightarrow> string \<Rightarrow> bool) \<Rightarrow> (string \<times> string) list \<Rightarrow> database \<Rightarrow> bool" where
  "honest_log sha256 ed keys db =
     (db_wf db \<and> chain_sound sha256 [] (db_audit db) \<and> list_all (row_signed ed keys) (db_audit db))"

text \<open>What the code relies on of Vault: signatures in the transit format that check under a published key.\<close>

definition signer_ok ::
  "(string \<Rightarrow> string \<Rightarrow> string \<Rightarrow> bool) \<Rightarrow> (string \<times> string) list \<Rightarrow> vault_server \<Rightarrow> string \<Rightarrow> bool" where
  "signer_ok ed keys srv key =
     (\<forall>h. \<exists>v raw k. raw \<noteq> [] \<and> vs_sign srv key (b64encode h) = Inr (transit_text v raw) \<and>
        map_of keys (show_nat v) = Some k \<and> ed k h raw)"

lemma vault_sign_ok:
  assumes "signer_ok ed keys srv key"
  shows "\<exists>v raw k. raw \<noteq> [] \<and> map_of keys (show_nat v) = Some k \<and> ed k h raw \<and> vault_sign srv key h =
     Inr \<lparr>sig_raw = raw, sig_encoded = transit_text v raw, sig_key_version = show_nat v\<rparr>"
proof -
  from assms obtain v raw k where "raw \<noteq> []" "vs_sign srv key (b64encode h) = Inr (transit_text v raw)"
    "map_of keys (show_nat v) = Some k" "ed k h raw"
    unfolding signer_ok_def by blast
  then show ?thesis using decode_transit [of raw v] by (auto simp: vault_sign_def)
qed

lemma verify_rows_honest:
  assumes key: "\<And>idx v k cache. I cache \<Longrightarrow> map_of keys v = Some k \<Longrightarrow>
      \<exists>cache'. key_for idx v cache = (Inr k, cache') \<and> I cache'"
  shows "chain_sound sha256 prev rows \<Longrightarrow> list_all (row_signed ed keys) rows \<Longrightarrow> I cache \<Longrightarrow>
   verify_rows sha256 key_for ed idx prev rows cache =
     Inr \<lparr>cr_valid = True, cr_checked_entries = idx + length rows, cr_first_broken_index = None, cr_reason = None\<rparr>"
proof (induction rows arbitrary: idx prev cache)
  case (Cons r rs)
  from Cons.prems(2) obtain v raw k where v: "raw \<noteq> []" "ar_signature r = transit_text v raw"
    "ar_key_version r = show_nat v" "map_of keys (show_nat v) = Some k" "ed k (ar_entry_hash r) raw"
    by (auto simp: row_signed_def)
  from key [OF Cons.prems(3) v(4)] obtain cache' where
    c: "key_for idx (show_nat v) cache = (Inr k, cache')" "I cache'" by blast
  have r: "ar_previous_entry_hash r = prev" "hash_record sha256 (row_payload r) = ar_entry_hash r"
    "chain_sound sha256 (ar_entry_hash r) rs"
    using Cons.prems(1) unfolding chain_sound.simps row_sound_def by (blast intro: sym)+
  have "verify_rows sha256 key_for ed (Suc idx) (ar_entry_hash r) rs cache' =
      Inr \<lparr>cr_valid = True, cr_checked_entries = Suc idx + length rs, cr_first_broken_index = None, cr_reason = None\<rparr>"
    using Cons.IH [OF r(3) _ c(2)] Cons.prems(2) by simp
  with r(1,2) v c(1) decode_transit [OF v(1), of v] show_nat_nonempty [of v] show ?case
    by (simp add: resolved_version_def)
qed simp

lemma append_event_honest:
  assumes h: "honest_log sha256 ed keys db" and sg: "signer_ok ed keys srv key"
    and oth: "\<And>k db. honest_log sha256 ed keys db \<Longrightarrow> honest_log sha256 ed keys (others k db)"
    and q: "q < max_append_attempts" "\<And>db. db_wf db \<Longrightarrow> last_hash [] (db_audit (others q db)) = last_hash [] (db_audit db)"
  shows "\<exists>r db' log. append_event sha256 srv key clock others e db = (Inr r, db') \<and> db_audit db' = log @ [r] \<and>
     honest_log sha256 ed keys db' \<and> ar_status r = ev_status e \<and> ar_proof_id r = ev_proof_id e \<and>
     ar_meta r = ev_metadata e \<and> ar_public_signals r = ev_public_signals e"
proof -
  have oth': "\<And>k db. db_wf db \<Longrightarrow> honest_log sha256 ed keys db \<Longrightarrow>
      db_wf (others k db) \<and> honest_log sha256 ed keys (others k db)"
    using oth by (auto simp: honest_log_def)
  have wf: "db_wf db" using h by (simp add: honest_log_def)
  have sign: "\<And>h. \<exists>sig. vault_sign srv key h = Inr sig" using vault_sign_ok [OF sg] by blast
  from audit.append_loop_succeeds [where P = "honest_log sha256 ed keys" and others = others and k = 0 and
      n = max_append_attempts and q = q and ?sha256.0 = sha256 and clock = clock and e = e and
      sign = "vault_sign srv key",
      OF wf h oth' sign _ _ q(2)] q(1)
  obtain r db' s1 ts prev sig where
    run: "append_event sha256 srv key clock others e db = (Inr r, db')" "db_wf db'" "honest_log sha256 ed keys s1"
    "db_audit db' = db_audit s1 @ [r]" "prev = last_hash [] (db_audit s1)"
    "row_of_input (event_input sha256 (floor_second ts) prev e sig) r"
    "vault_sign srv key (event_hash sha256 (floor_second ts) prev e) = Inr sig"
    unfolding append_event_def by auto
  have "row_sound sha256 (last_hash [] (db_audit s1)) r" using event_row_sound [OF run(6)] run(5) by simp
  with run(3,4) have sound: "chain_sound sha256 [] (db_audit db')"
    by (simp add: honest_log_def chain_sound_append)
  obtain v raw k where v: "raw \<noteq> []" "map_of keys (show_nat v) = Some k"
    "ed k (event_hash sha256 (floor_second ts) prev e) raw"
    "sig = \<lparr>sig_raw = raw, sig_encoded = transit_text v raw, sig_key_version = show_nat v\<rparr>"
    using vault_sign_ok [OF sg, of "event_hash sha256 (floor_second ts) prev e"] run(7) by auto
  have "row_signed ed keys r"
    using run(6) v unfolding row_signed_def
    by (intro exI [of _ v] exI [of _ raw] exI [of _ k])
       (simp add: row_of_input_def event_input_def event_hash_def Let_def)
  with run(2-4) sound have "honest_log sha256 ed keys db'" by (simp add: honest_log_def)
  with run(1,4,6) show ?thesis by (auto simp: row_of_input_def event_input_def Let_def)
qed

text \<open>
  C14. Writers make progress and keep the log verifiable. Start from a log that verifies; let other
  honest writers act between the read and the append of every attempt. If at least one of the eight
  attempts is not overtaken, \<open>append_event\<close> returns a row, that row is the last of the log and carries
  the event, and the log verifies again, every row counted, for every public-key cache that agrees with
  the published keys.
\<close>

theorem append_event_verifies:
  assumes "honest_log sha256 ed keys db" "signer_ok ed keys srv key" "read_public_keys srv key = Inr keys"
    and "\<And>k db. honest_log sha256 ed keys db \<Longrightarrow> honest_log sha256 ed keys (others k db)"
    and "q < max_append_attempts"
    and "\<And>db. db_wf db \<Longrightarrow> last_hash [] (db_audit (others q db)) = last_hash [] (db_audit db)"
    and "cache_agrees keys key cache"
  shows "\<exists>r db' log. append_event sha256 srv key clock others e db = (Inr r, db') \<and>
     list_audit_rows db' = log @ [r] \<and> ar_status r = ev_status e \<and> ar_meta r = ev_metadata e \<and>
     verify_chain sha256 srv ttl vclock key ed cache db' =
       Inr \<lparr>cr_valid = True, cr_checked_entries = length (log @ [r]), cr_first_broken_index = None, cr_reason = None\<rparr>"
proof -
  from append_event_honest [where others = others and clock = clock and e = e, OF assms(1,2,4-6)] obtain r db' log where
    r: "append_event sha256 srv key clock others e db = (Inr r, db')" "db_audit db' = log @ [r]"
    "honest_log sha256 ed keys db'" "ar_status r = ev_status e" "ar_meta r = ev_metadata e" by blast
  then have rows: "list_audit_rows db' = log @ [r]"
    by (simp add: honest_log_def db_wf_def list_audit_rows_wf)
  have "chain_sound sha256 [] (log @ [r])" "list_all (row_signed ed keys) (log @ [r])"
    using r(2,3) unfolding honest_log_def by metis+
  from verify_rows_honest [where I = "cache_agrees keys key", OF get_public_key_agrees [OF _ assms(3)] this assms(7)]
  have "verify_chain sha256 srv ttl vclock key ed cache db' = Inr \<lparr>cr_valid = True,
      cr_checked_entries = length (log @ [r]), cr_first_broken_index = None, cr_reason = None\<rparr>"
    unfolding verify_chain_def rows by simp
  with r(1,4,5) rows show ?thesis by blast
qed

text \<open>
  C22. A report of a broken chain is precise: the index it names is the first row that fails, and the
  number of checked entries is one more. Every row before it is linked, hashes correctly and carries
  a signature that verifies; the reported reason is the first of the three checks of the row itself
  that fails. A signature is checked under the key that \<open>get_public_key\<close> returns for the version of
  the row with the key cache as the rows before it left it.
\<close>

theorem verify_chain_first_broken:
  assumes "verify_chain sha256 srv ttl clock key ed cache db = Inr rep" "\<not> cr_valid rep"
  shows "\<exists>k < length (list_audit_rows db). cr_first_broken_index rep = Some k \<and> cr_checked_entries rep = Suc k \<and>
     (\<forall>j < k. row_sound sha256 (last_hash [] (take j (list_audit_rows db))) (list_audit_rows db ! j) \<and>
        signature_checked (\<lambda>idx v. get_public_key srv ttl (clock idx) key (Some v)) ed 0
          (take j (list_audit_rows db)) cache (list_audit_rows db ! j) True) \<and>
     refused_with sha256 (last_hash [] (take k (list_audit_rows db))) (list_audit_rows db ! k)
       (signature_checked (\<lambda>idx v. get_public_key srv ttl (clock idx) key (Some v)) ed 0
          (take k (list_audit_rows db)) cache (list_audit_rows db ! k) False) (cr_reason rep)"
  using verify_rows_first_broken [OF assms(1) [unfolded verify_chain_def] assms(2)] by simp

section \<open>Witnesses\<close>

text \<open>A log of one appended event, a server that signs with version 2, and a log with a broken link.\<close>

definition demo_hash :: "string \<Rightarrow> string" where
  "demo_hash x = CHR ''h'' # x"

definition demo_signer :: vault_server where
  "demo_signer = demo_server\<lparr>vs_sign := (\<lambda>k p. Inr (transit_text 2 ''sig''))\<rparr>"

definition demo_event :: audit_event where
  "demo_event = \<lparr>ev_proof_id = Some ''p1'', ev_circuit_id = ''batch'', ev_status = ''queued'', ev_public_signals = [],
     ev_proof_payload = PDict [], ev_metadata = [(''request_id'', PStr ''r'')], ev_error = None\<rparr>"

definition broken_db :: database where
  "broken_db = empty_database\<lparr>db_audit := [\<lparr>ar_id = 1, ar_timestamp = 0, ar_proof_id = None, ar_circuit_id = ''c'',
     ar_status = ''queued'', ar_public_signals = [], ar_proof_hash = ''h'', ar_previous_entry_hash = ''x'',
     ar_entry_hash = ''e'', ar_signature = [], ar_key_version = [], ar_meta = [], ar_error = None\<rparr>]\<rparr>"

definition demo_log :: "string \<Rightarrow> database" where
  "demo_log raw =
     (let p = event_input demo_hash 1700000000000000 [] demo_event
            \<lparr>sig_raw = raw, sig_encoded = transit_text 2 raw, sig_key_version = ''2''\<rparr>
      in case append_audit_row p empty_database of Inr (_, db) \<Rightarrow> db | Inl _ \<Rightarrow> empty_database)"

lemma demo_log_row:
  "\<exists>r. list_audit_rows (demo_log raw) = [r] \<and> row_sound demo_hash [] r \<and> row_float_free r \<and>
     ar_entry_hash r = event_hash demo_hash 1700000000000000 [] demo_event \<and>
     ar_signature r = transit_text 2 raw \<and> ar_key_version r = ''2''"
proof -
  have f: "floor_second 1700000000000000 = 1700000000000000" by (simp add: floor_second_def)
  have x: "expected_previous empty_database = []" by code_simp
  show ?thesis
    unfolding demo_log_def append_audit_row_def x
    by (simp add: event_input_def Let_def list_audit_rows_def empty_database_def row_sound_def row_payload_def f
        row_float_free_def demo_event_def event_hash_def)
qed

lemma demo_key:
  obtains c where "get_public_key demo_server 0 0 ''k'' (Some ''2'') [] = (Inr ''pk2'', c)"
  using get_public_key_agrees [of "[(''1'', ''pk1''), (''2'', ''pk2'')]" "''k''" "[]" demo_server "''2''" "''pk2''"]
  by (auto simp: demo_server_def read_public_keys_def public_key_entry_def)

theorem audit_log_tamper_evident_witness:
  "map row_content (list_audit_rows (demo_log ''sig'')) = map row_content (list_audit_rows (demo_log ''other'')) \<or>
   rows_collide demo_hash (list_audit_rows (demo_log ''sig'')) (list_audit_rows (demo_log ''other''))"
proof -
  let ?rep = "\<lparr>cr_valid = True, cr_checked_entries = 1, cr_first_broken_index = None, cr_reason = None\<rparr>"
  have v: "verify_chain demo_hash demo_server 0 (\<lambda>_. 0) ''k'' (\<lambda>_ _ _. True) [] (demo_log raw) = Inr ?rep"
    if "raw \<noteq> []" for raw
  proof -
    obtain r where r: "list_audit_rows (demo_log raw) = [r]" "row_sound demo_hash [] r"
      "ar_signature r = transit_text 2 raw" "ar_key_version r = ''2''" using demo_log_row by blast
    obtain c where "get_public_key demo_server 0 0 ''k'' (Some ''2'') [] = (Inr ''pk2'', c)" by (rule demo_key)
    with r decode_transit [OF that, of 2] show ?thesis
      by (simp add: verify_chain_def row_sound_def resolved_version_def)
  qed
  show ?thesis
    using demo_log_row [of "''sig''"] demo_log_row [of "''other''"]
    by (intro audit_log_tamper_evident [OF _ v _ v]) (auto simp: nonempty_hash_def demo_hash_def last_hash_def)
qed

theorem append_event_verifies_witness:
  "\<exists>r db' log. append_event demo_hash demo_signer ''k'' (\<lambda>_. 1700000000000000) (\<lambda>_ db. db) demo_event empty_database = (Inr r, db') \<and>
     list_audit_rows db' = log @ [r] \<and> ar_status r = ev_status demo_event \<and> ar_meta r = ev_metadata demo_event \<and>
     verify_chain demo_hash demo_signer 300 (\<lambda>_. 0) ''k'' (\<lambda>k _ _. k = ''pk2'') [] db' =
       Inr \<lparr>cr_valid = True, cr_checked_entries = length (log @ [r]), cr_first_broken_index = None, cr_reason = None\<rparr>"
proof (rule append_event_verifies [where keys = "[(''1'', ''pk1''), (''2'', ''pk2'')]" and q = 0])
  have "show_nat 2 = ''2''" by code_simp
  then show "signer_ok (\<lambda>k _ _. k = ''pk2'') [(''1'', ''pk1''), (''2'', ''pk2'')] demo_signer ''k''"
    unfolding signer_ok_def
    by (intro allI exI [of _ 2] exI [of _ "''sig''"] exI [of _ "''pk2''"]) (simp add: demo_signer_def)
  show "honest_log demo_hash (\<lambda>k _ _. k = ''pk2'') [(''1'', ''pk1''), (''2'', ''pk2'')] empty_database"
    by (simp add: honest_log_def empty_database_wf) (simp add: empty_database_def)
qed (simp_all add: demo_signer_def demo_server_def read_public_keys_def public_key_entry_def max_append_attempts_def)

theorem verify_chain_first_broken_witness:
  "refused_with demo_hash [] (hd (list_audit_rows broken_db)) False (Some ''Broken previous_entry_hash link'') \<and>
   (\<exists>r. list_audit_rows (demo_log ''sig'') = [r] \<and>
      refused_with demo_hash [] r (signature_checked (\<lambda>idx v. get_public_key demo_server 0 0 ''k'' (Some v))
        (\<lambda>_ _ _. False) 0 [] [] r False) (Some ''Invalid signature''))"
proof
  show "refused_with demo_hash [] (hd (list_audit_rows broken_db)) False (Some ''Broken previous_entry_hash link'')"
    using verify_chain_first_broken [of demo_hash demo_server 0 "\<lambda>_. 0" "''k''" "\<lambda>_ _ _. True" "[]" broken_db
        "invalid_chain 0 ''Broken previous_entry_hash link''"]
    by (simp add: verify_chain_def list_audit_rows_def broken_db_def invalid_chain_def refused_with_def last_hash_def)
  obtain r where r: "list_audit_rows (demo_log ''sig'') = [r]" "row_sound demo_hash [] r"
    "ar_signature r = transit_text 2 ''sig''" "ar_key_version r = ''2''" using demo_log_row by blast
  obtain c where "get_public_key demo_server 0 0 ''k'' (Some ''2'') [] = (Inr ''pk2'', c)" by (rule demo_key)
  with r decode_transit [of "''sig''" 2] have
    "verify_chain demo_hash demo_server 0 (\<lambda>_. 0) ''k'' (\<lambda>_ _ _. False) [] (demo_log ''sig'') =
       Inr (invalid_chain 0 ''Invalid signature'')"
    by (simp add: verify_chain_def row_sound_def resolved_version_def)
  from verify_chain_first_broken [OF this] r(1)
  show "\<exists>r. list_audit_rows (demo_log ''sig'') = [r] \<and>
      refused_with demo_hash [] r (signature_checked (\<lambda>idx v. get_public_key demo_server 0 0 ''k'' (Some v))
        (\<lambda>_ _ _. False) 0 [] [] r False) (Some ''Invalid signature'')"
    by (simp add: invalid_chain_def last_hash_def)
qed

end
