(* ===== verification/Security.thy ===== *)
theory Security
  imports Database Vault Json_Parser Py_Runtime
begin

text \<open>
  Sensitive data: \<open>vellum_core/security.py\<close>. Fingerprints and shape summaries of inputs, sealing of job
  payloads with Vault, and the recorder of security events, which drops sensitive fields and never
  fails its caller.

  The theorems: a sealed payload is unsealed to the same data, and the recorder stores no sensitive field.
\<close>

section \<open>Fingerprints and summaries\<close>

definition fingerprint_material :: "string \<Rightarrow> pydict \<Rightarrow> pyval" where
  "fingerprint_material source_mode payload =
     (if source_mode = ''private_input'' then dget payload ''private_input''
      else if source_mode = ''policy_run''
      then PDict [(''policy_id'', dget payload ''policy_id''), (''policy_params_ref'', dget payload ''policy_params_ref''),
                  (''evidence'', dget payload ''evidence'')]
      else PDict [(''balances'', dget payload ''balances''), (''limits'', dget payload ''limits''),
                  (''circuit_id'', dget payload ''circuit_id'')])"

definition compute_input_fingerprint :: "(string \<Rightarrow> string) \<Rightarrow> string \<Rightarrow> pydict \<Rightarrow> string" where
  "compute_input_fingerprint sha256 source_mode payload =
     sha256 (canonical_json_bytes (fingerprint_material source_mode payload))"

definition key_list :: "pydict \<Rightarrow> pyval" where
  "key_list d = PList (map PStr (take 25 (sort (map fst d))))"

definition build_input_summary :: "string \<Rightarrow> pydict \<Rightarrow> string \<Rightarrow> pydict" where
  "build_input_summary source_mode payload circuit_id =
     [(''source_mode'', PStr source_mode), (''circuit_id'', PStr circuit_id)] @
     (if source_mode = ''direct''
      then [(''batch_size'', case dget payload ''balances'' of PList xs \<Rightarrow> PInt (int (length xs)) | _ \<Rightarrow> PNone)] else []) @
     (if source_mode = ''private_input''
      then (case dget payload ''private_input'' of PDict d \<Rightarrow> [(''private_input_keys'', key_list d)] | _ \<Rightarrow> []) else []) @
     (if source_mode = ''policy_run''
      then [(''policy_id'', dget payload ''policy_id''), (''policy_params_ref'', dget payload ''policy_params_ref'')] @
           (case dget payload ''evidence'' of
              PDict evidence \<Rightarrow>
                [(''evidence_type'', dget evidence ''type'')] @
                (case dget evidence ''payload'' of PDict e \<Rightarrow> [(''evidence_keys'', key_list e)] | _ \<Rightarrow> []) @
                [(''has_evidence_ref'', PBool (case dget evidence ''ref'' of PStr r \<Rightarrow> True | _ \<Rightarrow> False))]
            | _ \<Rightarrow> [])
      else [])"

section \<open>Sealing\<close>

definition opt_dict :: "pydict option \<Rightarrow> pyval" where
  "opt_dict d = (case d of None \<Rightarrow> PNone | Some e \<Rightarrow> PDict e)"

definition sealed_document :: "pydict \<Rightarrow> pydict option \<Rightarrow> pydict option \<Rightarrow> pydict option \<Rightarrow> pydict" where
  "sealed_document request_payload private_input dual_track_reference policy_parameters =
     [(''request_payload'', PDict request_payload), (''private_input'', opt_dict private_input),
      (''dual_track_reference'', opt_dict dual_track_reference), (''policy_parameters'', opt_dict policy_parameters)]"

definition seal_job_payload ::
  "vault_server \<Rightarrow> string \<Rightarrow> pydict \<Rightarrow> pydict option \<Rightarrow> pydict option \<Rightarrow> pydict option \<Rightarrow> string res" where
  "seal_job_payload srv key_name request_payload private_input dual_track_reference policy_parameters =
     vault_encrypt srv key_name
       (canonical_json_bytes (PDict (sealed_document request_payload private_input dual_track_reference policy_parameters)))"

definition unseal_job_payload :: "(string \<Rightarrow> pyval) \<Rightarrow> vault_server \<Rightarrow> string \<Rightarrow> string \<Rightarrow> pyval res" where
  "unseal_job_payload parse_float srv key_name sealed_payload =
     rbind (vault_decrypt srv key_name sealed_payload) (json_loads parse_float)"

section \<open>Security events\<close>

definition sensitive_keys :: "string list" where
  "sensitive_keys = [''token'', ''authorization'', ''private_input'', ''request_payload'']"

definition safe_details :: "pydict option \<Rightarrow> pydict" where
  "safe_details details =
     (case details of None \<Rightarrow> []
      | Some d \<Rightarrow> dupdate [] (filter (\<lambda>(k, _). py_lower k \<notin> set sensitive_keys) d))"

text \<open>
  The recorder. Whether the insertion succeeds depends on the database server (\<open>available\<close>); a failure
  is swallowed.
\<close>

definition record_security_event ::
  "bool \<Rightarrow> int \<Rightarrow> string \<Rightarrow> string \<Rightarrow> string option \<Rightarrow> string option \<Rightarrow> string option \<Rightarrow> pydict option \<Rightarrow> database \<Rightarrow> database" where
  "record_security_event available now event_type outcome actor source_ip proof_id details db =
     (if available
      then snd (append_security_event now event_type outcome actor source_ip proof_id (safe_details details) db)
      else db)"

section \<open>Properties\<close>

definition seals :: "vault_server \<Rightarrow> string \<Rightarrow> bool" where
  "seals srv key = (\<forall>p c. vs_encrypt srv key p = Inr c \<longrightarrow> vs_decrypt srv key c = Inr p)"

lemma unseal_seal:
  assumes "seals srv key" "seal_job_payload srv key rq inp ref pp = Inr sealed"
    and "float_free (PDict (sealed_document rq inp ref pp))" "keys_ok (PDict (sealed_document rq inp ref pp))"
  shows "unseal_job_payload pf srv key sealed = Inr (canon (PDict (sealed_document rq inp ref pp)))"
proof -
  let ?doc = "PDict (sealed_document rq inp ref pp)"
  from assms(1,2) have "vs_decrypt srv key sealed = Inr (b64encode (canonical_json ?doc))"
    by (simp add: seals_def seal_job_payload_def vault_encrypt_def canonical_json_bytes_def)
  then show ?thesis
    using json_loads_canonical [OF assms(3,4)] b64_roundtrip
    by (simp add: unseal_job_payload_def vault_decrypt_def)
qed

lemma map_of_canon_item:
  assumes "distinct (map fst d)"
  shows "dget (canon_dict d) k = canon (dget d k)"
proof (cases "map_of d k")
  case None
  then show ?thesis using map_of_canon_dict [OF assms] by (simp add: dget_def)
next
  case (Some v)
  then show ?thesis using map_of_canon_dict [OF assms] by (simp add: dget_def)
qed

text \<open>
  C32. Sealing round-trips. If Vault decrypts what it encrypted, a payload sealed by the service is
  unsealed by the worker to the same request payload, private input, reference result and parameters,
  with the keys of every dictionary in sorted order, for all JSON data without floats.
\<close>

theorem sealed_payload_roundtrip:
  assumes "seals srv key" "seal_job_payload srv key rq inp ref pp = Inr sealed"
    and "float_free (PDict (sealed_document rq inp ref pp))" "keys_ok (PDict (sealed_document rq inp ref pp))"
  shows "\<exists>d. unseal_job_payload pf srv key sealed = Inr (PDict d) \<and>
     dget d ''request_payload'' = canon (PDict rq) \<and> dget d ''private_input'' = canon (opt_dict inp) \<and>
     dget d ''dual_track_reference'' = canon (opt_dict ref) \<and> dget d ''policy_parameters'' = canon (opt_dict pp)"
proof -
  have "distinct (map fst (sealed_document rq inp ref pp))" by (simp add: sealed_document_def)
  note item = map_of_canon_item [OF this]
  show ?thesis
    using unseal_seal [OF assms, of pf] item
    by (intro exI [of _ "canon_dict (sealed_document rq inp ref pp)"]) (simp add: sealed_document_def dget_def)
qed

lemma fst_set_dput: "fst ` set (dput k v d) = insert k (fst ` set d)"
proof -
  have "set (map fst (dput k v d)) = insert k (set (map fst d))" unfolding keys_dput by auto
  then show ?thesis by simp
qed

lemma fst_set_dupdate: "fst ` set (dupdate e d) = fst ` set e \<union> fst ` set d"
proof (induction d arbitrary: e)
  case (Cons p d)
  have "dupdate e (p # d) = dupdate (dput (fst p) (snd p) e) d" by (simp add: dupdate_def)
  with Cons.IH [of "dput (fst p) (snd p) e"] show ?case by (simp add: fst_set_dput)
qed simp

lemma safe_details_keys: "k \<in> fst ` set (safe_details details) \<Longrightarrow> py_lower k \<notin> set sensitive_keys"
  by (cases details) (auto simp: safe_details_def fst_set_dupdate)

lemma map_of_filter_key: "map_of (filter (\<lambda>(k, _). P k) d) k = (if P k then map_of d k else None)"
  by (induction d) auto

lemma safe_details_map:
  "distinct (map fst d) \<Longrightarrow>
   map_of (safe_details (Some d)) k = (if py_lower k \<in> set sensitive_keys then None else map_of d k)"
  by (simp add: safe_details_def map_of_dupdate distinct_map_filter map_of_filter_key)

text \<open>
  C39. Recording a security event adds exactly one row, with the given type, outcome, actor, address and proof,
  and changes nothing else of the database. Of the details the row keeps every field except those called
  \<open>token\<close>, \<open>authorization\<close>, \<open>private_input\<close> or \<open>request_payload\<close> in any letter case, and these it drops. When the
  database does not take the row, nothing changes at all: the recorder never fails its caller.
\<close>

theorem security_events_sanitized:
  assumes "distinct (map fst d)"
  shows "record_security_event False now t outcome actor ip pid (Some d) db = db \<and>
    (\<exists>row. record_security_event True now t outcome actor ip pid (Some d) db =
        db\<lparr>db_events := db_events db @ [row], db_next_event := Suc (db_next_event db)\<rparr> \<and>
       se_id row = db_next_event db \<and> se_timestamp row = now \<and> se_event_type row = t \<and> se_outcome row = outcome \<and>
       se_actor row = actor \<and> se_source_ip row = ip \<and> se_proof_id row = pid \<and>
       (\<forall>k. map_of (se_details row) k =
          (if py_lower k = ''token'' \<or> py_lower k = ''authorization'' \<or> py_lower k = ''private_input'' \<or> py_lower k = ''request_payload''
           then None else map_of d k)))"
  using safe_details_map [OF assms]
  by (auto simp: record_security_event_def append_security_event_def Let_def sensitive_keys_def)

section \<open>Witnesses\<close>

theorem sealed_payload_roundtrip_witness:
  "\<exists>sealed d. seal_job_payload demo_server ''k'' [(''x'', PInt 1)] (Some [(''b'', PInt 2), (''a'', PStr ''t'')]) None None = Inr sealed \<and>
     unseal_job_payload (\<lambda>t. PNone) demo_server ''k'' sealed = Inr (PDict d) \<and>
     dget d ''private_input'' = PDict [(''a'', PStr ''t''), (''b'', PInt 2)]"
proof -
  have s: "seals demo_server ''k''" by (simp add: seals_def demo_server_def removeprefix_def startswith_def)
  obtain sealed where e: "seal_job_payload demo_server ''k'' [(''x'', PInt 1)] (Some [(''b'', PInt 2), (''a'', PStr ''t'')]) None None = Inr sealed"
    by (simp add: seal_job_payload_def vault_encrypt_def demo_server_def)
  have c: "canon (opt_dict (Some [(''b'', PInt 2), (''a'', PStr ''t'')])) = PDict [(''a'', PStr ''t''), (''b'', PInt 2)]" by code_simp
  from sealed_payload_roundtrip [OF s e, of "\<lambda>t. PNone"] e show ?thesis
    unfolding c by (auto simp: sealed_document_def opt_dict_def)
qed

theorem security_events_sanitized_witness:
  "\<exists>row. record_security_event True 5 ''jwt_invalid'' ''denied'' None None None
       (Some [(''Authorization'', PStr ''Bearer x''), (''reason'', PStr ''expired'')]) empty_database =
      empty_database\<lparr>db_events := db_events empty_database @ [row], db_next_event := Suc (db_next_event empty_database)\<rparr> \<and>
    map_of (se_details row) ''Authorization'' = None \<and> map_of (se_details row) ''reason'' = Some (PStr ''expired'')"
proof -
  let ?d = "[(''Authorization'', PStr ''Bearer x''), (''reason'', PStr ''expired'')]"
  have l: "py_lower ''Authorization'' = ''authorization''" "py_lower ''reason'' = ''reason''" by code_simp+
  have "distinct (map fst ?d)" by simp
  from security_events_sanitized [OF this, of 5 "''jwt_invalid''" "''denied''" None None None empty_database] obtain row where
    r: "record_security_event True 5 ''jwt_invalid'' ''denied'' None None None (Some ?d) empty_database =
        empty_database\<lparr>db_events := db_events empty_database @ [row], db_next_event := Suc (db_next_event empty_database)\<rparr>"
    "\<forall>k. map_of (se_details row) k =
       (if py_lower k = ''token'' \<or> py_lower k = ''authorization'' \<or> py_lower k = ''private_input'' \<or> py_lower k = ''request_payload''
        then None else map_of ?d k)" by blast
  show ?thesis using r(1) spec [OF r(2), of "''Authorization''"] spec [OF r(2), of "''reason''"] l
    by (intro exI [of _ row] conjI) simp_all
qed

end
