(* ===== verification/Explainability.thy ===== *)
theory Explainability
  imports Policy_DSL Py_Runtime
begin

text \<open>
  Explanations of failed runs: \<open>vellum_core/logic/explainability.py\<close> replays the decision of a policy row
  by row and reports the rows and the comparison rules that failed; the compiler writes the same rules
  to the debug trace (\<open>vellum_core/policy_compiler/debug_renderer.py\<close>). The file with the specification
  is read by a YAML library, so the specification found for a policy, if any, is a parameter.

  The theorems: the explanation reports a failure exactly when the decision, as the compiler understands
  it, is false, with the right rows; the rules it numbers are the rules of the debug trace; and for
  decisions without negation every rule it blames is false at a failed row.
\<close>

section \<open>Rules\<close>

record comparison_rule =
  cr_rule_id :: string
  cr_policy_path :: string
  cr_operator :: comparison_op
  cr_left :: value_ref
  cr_right :: value_ref

definition value_refs :: "value_ref \<Rightarrow> string list" where
  "value_refs v =
     (case vr_ref v of
        Some (c # cs) \<Rightarrow> [c # cs]
      | _ \<Rightarrow> (case vr_param v of Some (p # ps) \<Rightarrow> [''param:'' @ p # ps] | _ \<Rightarrow> []))"

definition rule_input_refs :: "comparison_rule \<Rightarrow> string list" where
  "rule_input_refs r = value_refs (cr_left r) @ value_refs (cr_right r)"

definition arg_path :: "string \<Rightarrow> nat \<Rightarrow> string" where
  "arg_path path idx = path @ ''.args['' @ show_nat idx @ '']''"

fun collect_rules :: "decision_expr \<Rightarrow> string \<Rightarrow> comparison_rule list \<Rightarrow> comparison_rule list res"
and collect_rules_args :: "decision_expr list \<Rightarrow> nat \<Rightarrow> string \<Rightarrow> comparison_rule list \<Rightarrow> comparison_rule list res" where
  "collect_rules (DecisionExpr k c as i) path rules =
     (if k = KComparison
      then (case c of
              None \<Rightarrow> Inl AssertionError
            | Some ce \<Rightarrow> Inr (rules @ [\<lparr>cr_rule_id = ''rule_cmp_'' @ show_nat (length rules), cr_policy_path = path,
                                     cr_operator = cmp_op ce, cr_left = cmp_left ce, cr_right = cmp_right ce\<rparr>]))
      else if k = KAnd \<or> k = KOr then collect_rules_args as 0 path rules
      else case i of None \<Rightarrow> Inr rules | Some e \<Rightarrow> collect_rules e (path @ ''.inner'') rules)"
| "collect_rules_args [] idx path rules = Inr rules"
| "collect_rules_args (e # es) idx path rules =
     rbind (collect_rules e (arg_path path idx) rules) (collect_rules_args es (Suc idx) path)"

section \<open>Values\<close>

definition as_int :: "pyval \<Rightarrow> int \<Rightarrow> int res" where
  "as_int v dflt =
     (case v of PBool b \<Rightarrow> Inr dflt
      | _ \<Rightarrow> (case py_int v of Inr i \<Rightarrow> Inr i | Inl (ValueError m) \<Rightarrow> Inr dflt | Inl TypeError \<Rightarrow> Inr dflt
              | Inl e \<Rightarrow> Inl e))"

definition list_value :: "pydict \<Rightarrow> string \<Rightarrow> nat \<Rightarrow> int res" where
  "list_value private_input name idx =
     (case dget private_input name of
        PList xs \<Rightarrow> if idx < length xs then as_int (xs ! idx) 0 else Inr 0
      | _ \<Rightarrow> Inr 0)"

definition param_value :: "(string \<times> int) list \<Rightarrow> string \<Rightarrow> int" where
  "param_value policy_parameters p = (case map_of policy_parameters p of None \<Rightarrow> 0 | Some i \<Rightarrow> i)"

definition resolve_value :: "value_ref \<Rightarrow> nat \<Rightarrow> pydict \<Rightarrow> (string \<times> int) list \<Rightarrow> int res" where
  "resolve_value v idx private_input policy_parameters =
     (case vr_const_int v of
        Some c \<Rightarrow> Inr c
      | None \<Rightarrow>
          (case vr_param v of
             Some (p # ps) \<Rightarrow> Inr (param_value policy_parameters (p # ps))
           | _ \<Rightarrow>
               (if vr_ref v = Some ''active_count'' then as_int (dget private_input ''active_count'') 0
                else if vr_ref v = Some ''balances'' then list_value private_input ''balances'' idx
                else if vr_ref v = Some ''limits'' then list_value private_input ''limits'' idx
                else case vr_ref v of
                       Some r \<Rightarrow> Inr (if startswith r ''policy_params.''
                                     then param_value policy_parameters (removeprefix r ''policy_params.'') else 0)
                     | None \<Rightarrow> Inr 0)))"

definition comparison_index :: "comparison_rule list \<Rightarrow> value_ref \<Rightarrow> value_ref \<Rightarrow> comparison_op \<Rightarrow> nat" where
  "comparison_index rules l r op =
     (case List.find (\<lambda>q. cr_left q = l \<and> cr_right q = r \<and> cr_operator q = op \<and> startswith (cr_rule_id q) ''rule_cmp_'') rules of
        None \<Rightarrow> 0
      | Some q \<Rightarrow> read_nat (removeprefix (cr_rule_id q) ''rule_cmp_''))"

section \<open>Evaluation of one row\<close>

definition all_outcome :: "(bool \<times> string list) list \<Rightarrow> bool \<times> string list" where
  "all_outcome os = (list_all fst os, concat (map snd os))"

definition any_outcome :: "(bool \<times> string list) list \<Rightarrow> bool \<times> string list" where
  "any_outcome os = (if list_ex fst os then (True, []) else (False, concat (map snd os)))"

fun eval_expr ::
  "pydict \<Rightarrow> (string \<times> int) list \<Rightarrow> comparison_rule list \<Rightarrow> decision_expr \<Rightarrow> nat \<Rightarrow> (bool \<times> string list) res"
and eval_exprs ::
  "pydict \<Rightarrow> (string \<times> int) list \<Rightarrow> comparison_rule list \<Rightarrow> decision_expr list \<Rightarrow> nat \<Rightarrow> (bool \<times> string list) list res" where
  "eval_expr inp pp rules (DecisionExpr k c as i) idx =
     (case k of
        KComparison \<Rightarrow>
          (case c of
             None \<Rightarrow> Inl AssertionError
           | Some ce \<Rightarrow>
               (let n = comparison_index rules (cmp_left ce) (cmp_right ce) (cmp_op ce)
                in if n \<ge> length rules then Inl (OtherError ''list index out of range'')
                   else rbind (resolve_value (cmp_left ce) idx inp pp) (\<lambda>l.
                        rbind (resolve_value (cmp_right ce) idx inp pp) (\<lambda>r.
                        Inr (let v = op_eval (cmp_op ce) l r in (v, if v then [] else [cr_rule_id (rules ! n)]))))))
      | KAnd \<Rightarrow> rbind (eval_exprs inp pp rules as idx) (\<lambda>os. Inr (all_outcome os))
      | KOr \<Rightarrow> rbind (eval_exprs inp pp rules as idx) (\<lambda>os. Inr (any_outcome os))
      | KNot \<Rightarrow>
          (case i of None \<Rightarrow> Inl AssertionError
           | Some e \<Rightarrow> rbind (eval_expr inp pp rules e idx) (\<lambda>(v, ids). Inr (\<not> v, ids)))
      | KAll \<Rightarrow>
          (case i of None \<Rightarrow> Inl AssertionError
           | Some e \<Rightarrow>
               rbind (as_int (dget inp ''active_count'') 0) (\<lambda>n.
               rbind (rmap (eval_expr inp pp rules e) [0..<nat n]) (\<lambda>os. Inr (all_outcome os))))
      | KAny \<Rightarrow>
          (case i of None \<Rightarrow> Inl AssertionError
           | Some e \<Rightarrow>
               rbind (as_int (dget inp ''active_count'') 0) (\<lambda>n.
               rbind (rmap (eval_expr inp pp rules e) [0..<nat n]) (\<lambda>os. Inr (any_outcome os)))))"
| "eval_exprs inp pp rules [] idx = Inr []"
| "eval_exprs inp pp rules (e # es) idx =
     rbind (eval_expr inp pp rules e idx) (\<lambda>out. rbind (eval_exprs inp pp rules es idx) (\<lambda>outs. Inr (out # outs)))"

section \<open>The trace and the explanation\<close>

definition py_strs :: "string list \<Rightarrow> pyval" where
  "py_strs xs = PList (map PStr xs)"

definition py_nats :: "nat list \<Rightarrow> pyval" where
  "py_nats xs = PList (map (\<lambda>n. PInt (int n)) xs)"

definition find_rule :: "comparison_rule list \<Rightarrow> string \<Rightarrow> comparison_rule option" where
  "find_rule rules i = List.find (\<lambda>r. cr_rule_id r = i) rules"

definition first_rule :: "comparison_rule list \<Rightarrow> string list \<Rightarrow> comparison_rule option" where
  "first_rule rules ids =
     (case List.find (\<lambda>i. find_rule rules i \<noteq> None) ids of None \<Rightarrow> None | Some i \<Rightarrow> find_rule rules i)"

definition failure_payload :: "comparison_rule list \<Rightarrow> nat list \<Rightarrow> string list \<Rightarrow> pydict" where
  "failure_payload rules failed_indices failed_rule_ids =
     [(''reason'', PStr ''policy_rule_failed''), (''failed_indices'', py_nats (take 25 failed_indices)),
      (''failed_rule_ids'', py_strs (sort (remdups failed_rule_ids)))] @
     (case first_rule rules failed_rule_ids of
        None \<Rightarrow> []
      | Some r \<Rightarrow> [(''rule_id'', PStr (cr_rule_id r)), (''policy_path'', PStr (cr_policy_path r)),
                  (''operator'', PStr (op_text (cr_operator r))), (''input_refs'', py_strs (rule_input_refs r))])"

definition evaluate_policy_trace ::
  "policy_spec option \<Rightarrow> pydict \<Rightarrow> (string \<times> int) list \<Rightarrow> pydict option res" where
  "evaluate_policy_trace spec private_input policy_parameters =
     (case spec of
        None \<Rightarrow> Inr None
      | Some s \<Rightarrow>
          (case de_inner (sp_decision s) of
             None \<Rightarrow> Inr None
           | Some inner \<Rightarrow>
               rbind (collect_rules inner ''decision.inner'' []) (\<lambda>rules.
               rbind (as_int (dget private_input ''active_count'') 0) (\<lambda>active_count.
               if active_count \<le> 0
               then Inr (Some [(''reason'', PStr ''policy_trace_unavailable''),
                               (''detail'', PStr ''active_count missing or invalid'')])
               else
                 rbind (rmap (eval_expr private_input policy_parameters rules inner) [0..<nat active_count]) (\<lambda>outcomes.
                 let failed = filter (\<lambda>(i, out). \<not> fst out) (zip [0..<nat active_count] outcomes);
                     failed_indices = map fst failed; failed_rule_ids = concat (map (\<lambda>(i, out). snd out) failed);
                     decision_failed = (if de_kind (sp_decision s) = KAll then failed_indices \<noteq> []
                                        else int (length failed_indices) = active_count)
                 in if \<not> decision_failed
                    then Inr (Some [(''reason'', PStr ''policy_trace_passed''), (''failed_indices'', PList []),
                                    (''failed_rule_ids'', PList [])])
                    else Inr (Some (failure_payload rules failed_indices failed_rule_ids)))))))"

definition parse_provider_hint :: "string \<Rightarrow> pydict option" where
  "parse_provider_hint error_message =
     (let msg = py_lower error_message; hint = (\<lambda>c r. Some [(''class'', PStr c), (''reason'', PStr r)])
      in if msg = [] then None
         else if contains ''constraint'' msg \<and> contains ''failed'' msg
           then hint ''constraint_failed'' ''Constraint failed in proving backend.''
         else if contains ''invalid proof'' msg then hint ''invalid_proof'' ''Verifier rejected proof payload.''
         else if contains ''grpc'' msg \<or> contains ''connection refused'' msg
           then hint ''dependency'' ''gRPC/prover dependency failure.''
         else if contains ''wtns calculate failed'' msg then hint ''witness_generation'' ''Witness generation failed.''
         else if contains ''timeout'' msg \<or> contains ''time limit'' msg then hint ''timeout'' ''Proof job timed out.''
         else hint ''runtime_exception'' (take 240 error_message))"

definition build_explainability ::
  "policy_spec option \<Rightarrow> pydict option \<Rightarrow> (string \<times> int) list \<Rightarrow> string \<Rightarrow> pydict res" where
  "build_explainability spec private_input policy_parameters error_message =
     (let provider_hint = parse_provider_hint error_message
      in rbind (case private_input of None \<Rightarrow> Inr None | Some inp \<Rightarrow> evaluate_policy_trace spec inp policy_parameters)
           (\<lambda>primary.
              let payload = dupdate [(''version'', PStr ''v1'')] (case primary of None \<Rightarrow> [] | Some p \<Rightarrow> p);
                  payload1 = (case provider_hint of None \<Rightarrow> payload | Some h \<Rightarrow> dput ''provider_hint'' (PDict h) payload)
              in Inr (if primary = None \<and> provider_hint = None
                      then dput ''reason'' (PStr ''explainability_unavailable'') payload1 else payload1)))"

section \<open>The debug trace of the compiler\<close>

definition serialize_value :: "value_ref \<Rightarrow> pyval" where
  "serialize_value v =
     (case vr_const_int v of
        Some c \<Rightarrow> PDict [(''const_int'', PInt c)]
      | None \<Rightarrow> (case vr_param v of
                   Some p \<Rightarrow> PDict [(''param'', PStr p)]
                 | None \<Rightarrow> PDict [(''ref'', case vr_ref v of None \<Rightarrow> PNone | Some r \<Rightarrow> PStr r)]))"

definition debug_value_refs :: "value_ref \<Rightarrow> string list" where
  "debug_value_refs v =
     (case vr_ref v of Some r \<Rightarrow> [r] | None \<Rightarrow> (case vr_param v of Some p \<Rightarrow> [''param:'' @ p] | None \<Rightarrow> []))"

definition debug_rule :: "nat \<Rightarrow> string \<Rightarrow> comparison_expr \<Rightarrow> pyval" where
  "debug_rule n path ce =
     PDict [(''rule_id'', PStr (''rule_cmp_'' @ show_nat n)), (''policy_path'', PStr path),
            (''operator'', PStr (op_text (cmp_op ce))), (''left'', serialize_value (cmp_left ce)),
            (''right'', serialize_value (cmp_right ce)),
            (''input_refs'', py_strs (debug_value_refs (cmp_left ce) @ debug_value_refs (cmp_right ce)))]"

fun debug_collect_rules :: "decision_expr \<Rightarrow> string \<Rightarrow> pyval list \<Rightarrow> pyval list res"
and debug_collect_rules_args :: "decision_expr list \<Rightarrow> nat \<Rightarrow> string \<Rightarrow> pyval list \<Rightarrow> pyval list res" where
  "debug_collect_rules (DecisionExpr k c as i) path rules =
     (if k = KComparison
      then (case c of None \<Rightarrow> Inl AssertionError | Some ce \<Rightarrow> Inr (rules @ [debug_rule (length rules) path ce]))
      else if k = KAnd \<or> k = KOr then debug_collect_rules_args as 0 path rules
      else case i of None \<Rightarrow> Inr rules | Some e \<Rightarrow> debug_collect_rules e (path @ ''.inner'') rules)"
| "debug_collect_rules_args [] idx path rules = Inr rules"
| "debug_collect_rules_args (e # es) idx path rules =
     rbind (debug_collect_rules e (arg_path path idx) rules) (debug_collect_rules_args es (Suc idx) path)"

definition opt_int :: "int option \<Rightarrow> pyval" where
  "opt_int v = (case v of None \<Rightarrow> PNone | Some i \<Rightarrow> PInt i)"

definition debug_trace_payload :: "policy_spec \<Rightarrow> string \<Rightarrow> pyval res" where
  "debug_trace_payload s spec_hash =
     (case de_inner (sp_decision s) of
        None \<Rightarrow> Inl AssertionError
      | Some inner \<Rightarrow>
          rbind (debug_collect_rules inner ''decision.inner'' []) (\<lambda>rules.
          Inr (PDict
            [(''policy_id'', PStr (sp_policy_id s)), (''reference_policy'', PStr (sp_reference_policy s)),
             (''spec_hash'', PStr spec_hash), (''decision_kind'', PStr (kind_text (de_kind (sp_decision s)))),
             (''policy_parameters'',
               PList (map (\<lambda>(idx, name, p).
                  PDict [(''name'', PStr name), (''index'', PInt (int idx)), (''minimum'', opt_int (ps_minimum p)),
                         (''maximum'', opt_int (ps_maximum p)), (''default'', opt_int (ps_default p))])
                 (enumerate 0 (sp_policy_parameters s)))),
             (''rules'', PList rules)])))"

section \<open>Rule numbers\<close>

fun comparisons :: "decision_expr \<Rightarrow> comparison_expr set"
and comparisons_args :: "decision_expr list \<Rightarrow> comparison_expr set" where
  "comparisons (DecisionExpr k c as i) =
     (if k = KComparison then set_option c
      else if k = KAnd \<or> k = KOr then comparisons_args as
      else case i of None \<Rightarrow> {} | Some e \<Rightarrow> comparisons e)"
| "comparisons_args [] = {}"
| "comparisons_args (e # es) = comparisons e \<union> comparisons_args es"

definition rule_comparison :: "comparison_rule \<Rightarrow> comparison_expr" where
  "rule_comparison r = \<lparr>cmp_op = cr_operator r, cmp_left = cr_left r, cmp_right = cr_right r\<rparr>"

definition numbered :: "comparison_rule list \<Rightarrow> bool" where
  "numbered rules = (\<forall>j < length rules. cr_rule_id (rules ! j) = ''rule_cmp_'' @ show_nat j)"

lemma numbered_Nil [simp]: "numbered []"
  by (simp add: numbered_def)

lemma collect_rules_ok:
  "expr_ok e \<Longrightarrow> numbered rules \<Longrightarrow> \<exists>new. collect_rules e path rules = Inr (rules @ new) \<and> numbered (rules @ new) \<and>
     comparisons e = rule_comparison ` set new"
  "exprs_ok es \<Longrightarrow> numbered rules \<Longrightarrow> \<exists>new. collect_rules_args es idx path rules = Inr (rules @ new) \<and>
     numbered (rules @ new) \<and> comparisons_args es = rule_comparison ` set new"
proof (induction e path rules and es idx path rules rule: collect_rules_collect_rules_args.induct)
  case (1 k c as i path rules)
  show ?case
  proof (cases "k = KComparison")
    case True
    with "1.prems"(1) obtain ce where ce: "c = Some ce" by (auto simp: decision_expr_validate_shape_def split: if_splits)
    show ?thesis
      using "1.prems"(2) True ce
      by (intro exI [of _ "[\<lparr>cr_rule_id = ''rule_cmp_'' @ show_nat (length rules), cr_policy_path = path,
            cr_operator = cmp_op ce, cr_left = cmp_left ce, cr_right = cmp_right ce\<rparr>]"])
         (auto simp: numbered_def nth_append less_Suc_eq rule_comparison_def)
  next
    case not_cmp: False
    show ?thesis
    proof (cases "k = KAnd \<or> k = KOr")
      case True
      with 1 not_cmp show ?thesis by auto
    next
      case False
      with "1.prems"(1) not_cmp obtain e where "i = Some e"
        by (cases k) (auto simp: decision_expr_validate_shape_def split: if_splits)
      with 1 not_cmp False show ?thesis by auto
    qed
  qed
next
  case (3 e es idx path rules)
  from "3.IH"(1) "3.prems" obtain n1 where n1: "collect_rules e (arg_path path idx) rules = Inr (rules @ n1)" "numbered (rules @ n1)"
    "comparisons e = rule_comparison ` set n1" by auto
  from "3.IH"(2) [OF n1(1) _ n1(2)] "3.prems" obtain n2 where "collect_rules_args es (Suc idx) path (rules @ n1) = Inr ((rules @ n1) @ n2)"
    "numbered ((rules @ n1) @ n2)" "comparisons_args es = rule_comparison ` set n2" by auto
  with n1 show ?case by (intro exI [of _ "n1 @ n2"]) (auto simp: image_Un)
qed simp

lemma comparison_index_correct:
  assumes "numbered rules" "ce \<in> rule_comparison ` set rules"
  shows "comparison_index rules (cmp_left ce) (cmp_right ce) (cmp_op ce) < length rules \<and>
     rule_comparison (rules ! comparison_index rules (cmp_left ce) (cmp_right ce) (cmp_op ce)) = ce"
proof -
  let ?P = "\<lambda>q. cr_left q = cmp_left ce \<and> cr_right q = cmp_right ce \<and> cr_operator q = cmp_op ce \<and>
    startswith (cr_rule_id q) ''rule_cmp_''"
  have id: "cr_rule_id q = ''rule_cmp_'' @ show_nat j" if "rules ! j = q" "j < length rules" for q j
    using assms(1) that by (auto simp: numbered_def)
  have pre: "startswith (''rule_cmp_'' @ t) ''rule_cmp_''" for t by (rule startswith_append)
  from assms(2) obtain j0 where j0: "j0 < length rules" "ce = rule_comparison (rules ! j0)"
    by (auto simp: in_set_conv_nth)
  have "?P (rules ! j0)" unfolding id [OF refl j0(1)] using pre by (simp add: j0(2) rule_comparison_def)
  then have "List.find ?P rules \<noteq> None" using j0(1) nth_mem by (auto simp: find_None_iff simp del: nth_mem)
  then obtain r where r: "List.find ?P rules = Some r" by blast
  then obtain j where j: "j < length rules" "?P r" "rules ! j = r" unfolding find_Some_iff by blast
  have "removeprefix (cr_rule_id r) ''rule_cmp_'' = show_nat j"
    unfolding id [OF j(3,1)] removeprefix_def using pre [of "show_nat j"] by simp
  with r have "comparison_index rules (cmp_left ce) (cmp_right ce) (cmp_op ce) = j" by (simp add: comparison_index_def)
  with j show ?thesis by (simp add: rule_comparison_def)
qed

section \<open>The replay computes the meaning of the decision\<close>

definition trace_env :: "int list \<Rightarrow> int list \<Rightarrow> nat \<Rightarrow> (string \<times> int) list \<Rightarrow> dsl_env" where
  "trace_env bs ls n pp =
     \<lparr>env_balances = (\<lambda>i. if i < length bs then bs ! i else 0), env_limits = (\<lambda>i. if i < length ls then ls ! i else 0),
      env_active = n, env_params = param_value pp\<rparr>"

definition batch_input :: "int list \<Rightarrow> int list \<Rightarrow> nat \<Rightarrow> pydict \<Rightarrow> bool" where
  "batch_input bs ls n inp =
     (dget inp ''balances'' = PList (map PInt bs) \<and> dget inp ''limits'' = PList (map PInt ls) \<and>
      dget inp ''active_count'' = PInt (int n))"

lemma as_int_PInt [simp]: "as_int (PInt i) d = Inr i"
  by (simp add: as_int_def py_int_def)

lemma resolve_value_meaning:
  assumes "value_ref_ok v" "abs_value v = Some x" "batch_input bs ls n inp"
  shows "resolve_value v idx inp pp = Inr (veval (trace_env bs ls n pp) idx x)"
  using assms
  by (auto simp: value_ref_ok_def min_len1_def abs_value_def resolve_value_def batch_input_def list_value_def trace_env_def
      split: option.splits if_splits list.splits)

text \<open>A rule identifier is justified when its comparison is false at some row.\<close>

definition blamed :: "comparison_rule list \<Rightarrow> dsl_env \<Rightarrow> nat set \<Rightarrow> string \<Rightarrow> bool" where
  "blamed rules env rows i =
     (\<exists>q \<in> set rules. cr_rule_id q = i \<and>
        (\<exists>l r j. j \<in> rows \<and> abs_value (cr_left q) = Some l \<and> abs_value (cr_right q) = Some r \<and>
           \<not> op_eval (cr_operator q) (veval env j l) (veval env j r)))"

fun negation_free :: "bexp \<Rightarrow> bool" where
  "negation_free (BNot b) = False"
| "negation_free (BAnd bs) = list_all negation_free bs"
| "negation_free (BOr bs) = list_all negation_free bs"
| "negation_free (BAll b) = negation_free b"
| "negation_free (BAny b) = negation_free b"
| "negation_free (BCmp op l r) = True"

definition outcome_ok :: "comparison_rule list \<Rightarrow> dsl_env \<Rightarrow> nat \<Rightarrow> bexp \<Rightarrow> bool \<times> string list \<Rightarrow> bool" where
  "outcome_ok rules env idx b out =
     (fst out = beval env idx b \<and>
      (\<forall>i \<in> set (snd out). blamed rules env (insert idx {0..<env_active env}) i) \<and>
      (negation_free b \<and> \<not> fst out \<longrightarrow> snd out \<noteq> []))"

lemma all_outcome_ok:
  assumes "list_all2 (outcome_ok rules env idx) bs os"
  shows "outcome_ok rules env idx (BAnd bs) (all_outcome os)"
  using assms
  by (induction rule: list_all2_induct) (auto simp: outcome_ok_def all_outcome_def)

lemma any_outcome_ok:
  assumes "list_all2 (outcome_ok rules env idx) bs os" "bs \<noteq> []"
  shows "outcome_ok rules env idx (BOr bs) (any_outcome os)"
proof -
  have v: "list_ex fst os = list_ex (beval env idx) bs"
    using assms(1) by (induction rule: list_all2_induct) (auto simp: outcome_ok_def)
  have i: "\<forall>i \<in> set (concat (map snd os)). blamed rules env (insert idx {0..<env_active env}) i"
    using assms(1) by (induction rule: list_all2_induct) (auto simp: outcome_ok_def)
  have n: "concat (map snd os) \<noteq> []" if "list_all negation_free bs" "\<not> list_ex fst os"
    using assms that by (cases bs; cases os) (auto simp: outcome_ok_def)
  show ?thesis using v i n by (auto simp: outcome_ok_def any_outcome_def)
qed

lemma rmap_list_all2:
  "(\<And>j. j \<in> set xs \<Longrightarrow> \<exists>y. f j = Inr y \<and> Q j y) \<Longrightarrow> \<exists>ys. rmap f xs = Inr ys \<and> list_all2 Q xs ys"
proof (induction xs)
  case (Cons x xs)
  from Cons.prems [of x] obtain y where "f x = Inr y" "Q x y" by auto
  moreover from Cons obtain ys where "rmap f xs = Inr ys" "list_all2 Q xs ys" by auto
  ultimately show ?case by simp
qed simp

lemma blamed_row: "blamed rules env (insert j {0..<n}) i \<Longrightarrow> j < n \<Longrightarrow> blamed rules env (insert idx {0..<n}) i"
  unfolding blamed_def by (metis atLeast0LessThan insertCI insertE lessThan_iff)

lemma all_rows_ok:
  assumes "list_all2 (\<lambda>j. outcome_ok rules env j b) [0..<env_active env] os"
  shows "outcome_ok rules env idx (BAll b) (all_outcome os)"
proof -
  have "list_all2 (\<lambda>j. outcome_ok rules env j b) xs os \<Longrightarrow> (\<And>j. j \<in> set xs \<Longrightarrow> j < env_active env) \<Longrightarrow>
      list_all fst os = list_all (\<lambda>j. beval env j b) xs \<and>
      (\<forall>i \<in> set (concat (map snd os)). blamed rules env (insert idx {0..<env_active env}) i) \<and>
      (negation_free b \<and> \<not> list_all fst os \<longrightarrow> concat (map snd os) \<noteq> [])" for xs
    by (induction rule: list_all2_induct) (auto simp: outcome_ok_def intro: blamed_row)
  from this [OF assms] show ?thesis by (simp add: outcome_ok_def all_outcome_def)
qed

lemma any_rows_ok:
  assumes "list_all2 (\<lambda>j. outcome_ok rules env j b) [0..<env_active env] os" "env_active env > 0"
  shows "outcome_ok rules env idx (BAny b) (any_outcome os)"
proof -
  have main: "list_all2 (\<lambda>j. outcome_ok rules env j b) xs os \<Longrightarrow> (\<And>j. j \<in> set xs \<Longrightarrow> j < env_active env) \<Longrightarrow>
      list_ex fst os = list_ex (\<lambda>j. beval env j b) xs \<and>
      (\<forall>i \<in> set (concat (map snd os)). blamed rules env (insert idx {0..<env_active env}) i)" for xs
    by (induction rule: list_all2_induct) (auto simp: outcome_ok_def intro: blamed_row)
  have n: "concat (map snd os) \<noteq> []" if "negation_free b" "\<not> list_ex fst os"
    using assms that by (cases os) (auto simp: outcome_ok_def list_all2_Cons2 upt_eq_Cons_conv)
  show ?thesis using main [OF assms(1)] n by (auto simp: outcome_ok_def any_outcome_def)
qed

lemma eval_expr_meaning:
  fixes pp :: "(string \<times> int) list"
  assumes batch: "batch_input bs ls n inp" and num: "numbered rules" and n: "n > 0"
  defines "env \<equiv> trace_env bs ls n pp"
  shows "expr_ok e \<Longrightarrow> abs_expr e = Some b \<Longrightarrow> comparisons e \<subseteq> rule_comparison ` set rules \<Longrightarrow>
      \<exists>out. eval_expr inp pp rules e idx = Inr out \<and> outcome_ok rules env idx b out"
    and "exprs_ok es \<Longrightarrow> abs_exprs es = Some cs \<Longrightarrow> comparisons_args es \<subseteq> rule_comparison ` set rules \<Longrightarrow>
      \<exists>outs. eval_exprs inp pp rules es idx = Inr outs \<and> list_all2 (outcome_ok rules env idx) cs outs"
proof (induction e and es arbitrary: idx b and idx cs rule: comparisons_comparisons_args.induct)
  case (1 k c as i)
  have act: "env_active env = n" "dget inp ''active_count'' = PInt (int n)"
    using batch by (simp_all add: env_def trace_env_def batch_input_def)
  show ?case
  proof (cases k)
    case KComparison
    with "1.prems" obtain ce l r where ce: "c = Some ce" "abs_value (cmp_left ce) = Some l" "abs_value (cmp_right ce) = Some r"
      "b = BCmp (cmp_op ce) l r" "value_ref_ok (cmp_left ce)" "value_ref_ok (cmp_right ce)" "ce \<in> rule_comparison ` set rules"
      by (auto simp: abs_comparison_def split: option.splits)
    define m where "m = comparison_index rules (cmp_left ce) (cmp_right ce) (cmp_op ce)"
    have m: "m < length rules" "rule_comparison (rules ! m) = ce"
      using comparison_index_correct [OF num ce(7)] by (simp_all add: m_def)
    have fld: "cr_left (rules ! m) = cmp_left ce" "cr_right (rules ! m) = cmp_right ce" "cr_operator (rules ! m) = cmp_op ce"
      using m(2) by (auto simp: rule_comparison_def)
    show ?thesis
      using KComparison ce m(1) fld resolve_value_meaning [OF ce(5,2) batch] resolve_value_meaning [OF ce(6,3) batch]
      by (auto simp: outcome_ok_def blamed_def env_def Let_def simp flip: m_def intro!: bexI [of _ "rules ! m"])
  next
    case KAnd
    with "1.prems" obtain cs where "abs_exprs as = Some cs" "b = BAnd cs" by (auto split: if_splits)
    with KAnd "1.prems" "1.IH"(1) [of cs idx] obtain os where
      "eval_exprs inp pp rules as idx = Inr os" "list_all2 (outcome_ok rules env idx) cs os" by auto
    with KAnd \<open>b = BAnd cs\<close> all_outcome_ok show ?thesis by simp
  next
    case KOr
    with "1.prems" obtain cs where cs: "abs_exprs as = Some cs" "b = BOr cs" "as \<noteq> []" by (auto split: if_splits)
    then have "cs \<noteq> []" using abs_exprs_Nil_iff by blast
    from cs KOr "1.prems" "1.IH"(1) [of cs idx] obtain os where
      "eval_exprs inp pp rules as idx = Inr os" "list_all2 (outcome_ok rules env idx) cs os" by auto
    with KOr cs \<open>cs \<noteq> []\<close> any_outcome_ok show ?thesis by simp
  next
    case KNot
    with "1.prems" obtain e c where e: "i = Some e" "abs_expr e = Some c" "b = BNot c" by (auto split: option.splits)
    with KNot "1.prems" "1.IH"(2) [of e c idx] obtain out where
      "eval_expr inp pp rules e idx = Inr out" "outcome_ok rules env idx c out" by auto
    with e KNot show ?thesis by (cases out) (auto simp: outcome_ok_def)
  next
    case KAll
    with "1.prems" obtain e c where e: "i = Some e" "abs_expr e = Some c" "b = BAll c" by (auto split: option.splits)
    with KAll "1.prems" "1.IH"(2) [of e c] have "\<exists>out. eval_expr inp pp rules e j = Inr out \<and> outcome_ok rules env j c out" for j
      by auto
    from rmap_list_all2 [of "[0..<n]" "eval_expr inp pp rules e" "\<lambda>j. outcome_ok rules env j c"] this
    obtain os where "rmap (eval_expr inp pp rules e) [0..<n] = Inr os" "list_all2 (\<lambda>j. outcome_ok rules env j c) [0..<n] os" by blast
    with e KAll act all_rows_ok [of rules env c os] show ?thesis by simp
  next
    case KAny
    with "1.prems" obtain e c where e: "i = Some e" "abs_expr e = Some c" "b = BAny c" by (auto split: option.splits)
    with KAny "1.prems" "1.IH"(2) [of e c] have "\<exists>out. eval_expr inp pp rules e j = Inr out \<and> outcome_ok rules env j c out" for j
      by auto
    from rmap_list_all2 [of "[0..<n]" "eval_expr inp pp rules e" "\<lambda>j. outcome_ok rules env j c"] this
    obtain os where "rmap (eval_expr inp pp rules e) [0..<n] = Inr os" "list_all2 (\<lambda>j. outcome_ok rules env j c) [0..<n] os" by blast
    with e KAny act n any_rows_ok [of rules env c os] show ?thesis by simp
  qed
next
  case (3 e es)
  from "3.prems" obtain c ds where "abs_expr e = Some c" "abs_exprs es = Some ds" "cs = c # ds" by (auto split: option.splits)
  with "3.prems" "3.IH"(1) [of c idx] "3.IH"(2) [of ds idx] show ?case by auto
qed simp

section \<open>What an explanation says\<close>

definition decision_meaning :: "policy_spec \<Rightarrow> dsl_env \<Rightarrow> bexp \<Rightarrow> bool" where
  "decision_meaning s env b = beval env 0 (if de_kind (sp_decision s) = KAll then BAll b else BAny b)"

abbreviation failed_rows :: "dsl_env \<Rightarrow> bexp \<Rightarrow> nat list" where
  "failed_rows env b \<equiv> filter (\<lambda>i. \<not> beval env i b) [0..<env_active env]"

lemma decision_fails_iff:
  "\<not> decision_meaning s env b \<longleftrightarrow>
   (if de_kind (sp_decision s) = KAll then failed_rows env b \<noteq> [] else length (failed_rows env b) = env_active env)"
proof -
  have "length (failed_rows env b) = env_active env \<longleftrightarrow> (\<forall>i \<in> set [0..<env_active env]. \<not> beval env i b)"
    using filter_True [of "[0..<env_active env]" "\<lambda>i. \<not> beval env i b"] length_filter_less [of _ "[0..<env_active env]" "\<lambda>i. \<not> beval env i b"]
    by (metis (no_types, lifting) diff_zero length_upt less_irrefl)
  then show ?thesis by (auto simp: decision_meaning_def list_all_iff list_ex_iff filter_empty_conv)
qed

lemma outcomes_rows:
  "list_all2 (\<lambda>j. outcome_ok rules env j b) xs os \<Longrightarrow>
   map fst (filter (\<lambda>(i, out). \<not> fst out) (zip xs os)) = filter (\<lambda>i. \<not> beval env i b) xs"
  by (induction rule: list_all2_induct) (auto simp: outcome_ok_def)

lemma outcomes_rules:
  assumes "list_all2 (\<lambda>j. outcome_ok rules env j b) xs os" "set xs \<subseteq> {0..<env_active env}"
  defines "ids \<equiv> concat (map (\<lambda>(i, out). snd out) (filter (\<lambda>(i, out). \<not> fst out) (zip xs os)))"
  shows "i \<in> set ids \<Longrightarrow> blamed rules env {0..<env_active env} i"
    and "negation_free b \<Longrightarrow> filter (\<lambda>i. \<not> beval env i b) xs \<noteq> [] \<Longrightarrow> ids \<noteq> []"
proof -
  have "(\<forall>i \<in> set ids. blamed rules env {0..<env_active env} i) \<and>
      (negation_free b \<and> filter (\<lambda>i. \<not> beval env i b) xs \<noteq> [] \<longrightarrow> ids \<noteq> [])"
    unfolding ids_def using assms(1,2)
    by (induction rule: list_all2_induct) (auto simp: outcome_ok_def insert_absorb)
  then show "i \<in> set ids \<Longrightarrow> blamed rules env {0..<env_active env} i"
    and "negation_free b \<Longrightarrow> filter (\<lambda>i. \<not> beval env i b) xs \<noteq> [] \<Longrightarrow> ids \<noteq> []" by auto
qed

lemma policy_trace_run:
  fixes pp :: "(string \<times> int) list"
  assumes "expr_ok (sp_decision s)" "de_inner (sp_decision s) = Some inner" "abs_expr inner = Some b"
    and "batch_input bs ls n inp" "n > 0"
  defines "env \<equiv> trace_env bs ls n pp"
  shows "\<exists>rules ids. collect_rules inner ''decision.inner'' [] = Inr rules \<and>
     evaluate_policy_trace (Some s) inp pp = Inr (Some
       (if decision_meaning s env b
        then [(''reason'', PStr ''policy_trace_passed''), (''failed_indices'', PList []), (''failed_rule_ids'', PList [])]
        else failure_payload rules (failed_rows env b) ids)) \<and>
     (\<forall>i \<in> set ids. blamed rules env {0..<n} i) \<and> (negation_free b \<and> failed_rows env b \<noteq> [] \<longrightarrow> ids \<noteq> [])"
proof -
  have inner: "expr_ok inner" using assms(1,2) by (cases "sp_decision s") auto
  obtain rules where rules: "collect_rules inner ''decision.inner'' [] = Inr rules" "numbered rules"
    "comparisons inner = rule_comparison ` set rules"
    using collect_rules_ok(1) [OF inner numbered_Nil, of "''decision.inner''"] by auto
  have act: "dget inp ''active_count'' = PInt (int n)" "env_active env = n"
    using assms(4) by (simp_all add: batch_input_def env_def trace_env_def)
  have "\<exists>out. eval_expr inp pp rules inner j = Inr out \<and> outcome_ok rules env j b out" for j
    unfolding env_def using eval_expr_meaning(1) [OF assms(4) rules(2) assms(5) inner assms(3)] rules(3) by simp
  from rmap_list_all2 [of "[0..<n]" "eval_expr inp pp rules inner" "\<lambda>j. outcome_ok rules env j b", OF this]
  obtain os where os: "rmap (eval_expr inp pp rules inner) [0..<n] = Inr os"
    "list_all2 (\<lambda>j. outcome_ok rules env j b) [0..<env_active env] os" by (auto simp: act)
  define ids where "ids = concat (map (\<lambda>(i, out). snd out) (filter (\<lambda>(i, out). \<not> fst out) (zip [0..<env_active env] os)))"
  note ids = outcomes_rules [OF os(2), folded ids_def]
  have "evaluate_policy_trace (Some s) inp pp = Inr (Some
       (if decision_meaning s env b
        then [(''reason'', PStr ''policy_trace_passed''), (''failed_indices'', PList []), (''failed_rule_ids'', PList [])]
        else failure_payload rules (failed_rows env b) ids))"
    using assms(5) decision_fails_iff [of s env b] outcomes_rows [OF os(2)]
    by (auto simp: evaluate_policy_trace_def assms(2) rules(1) act os(1) Let_def ids_def split: if_splits)
  with rules(1) ids act(2) show ?thesis
    by (intro exI [of _ rules] exI [of _ ids]) auto
qed

text \<open>
  C27. Explanations agree with the decision. For every accepted specification and every batch with an
  active row, the replay returns a trace; the trace reports a failed rule exactly when the decision of
  the policy is false on the batch, and then lists, in order, the first 25 rows that violate it.
\<close>

theorem explanation_matches_decision:
  assumes "expr_ok (sp_decision s)" "ensure_supported_decision s = Inr u" "refs_stripped (sp_decision s)"
    and "batch_input bs ls n inp" "n > 0"
  shows "\<exists>b p. spec_bexp s = Some b \<and> evaluate_policy_trace (Some s) inp pp = Inr (Some p) \<and>
     (dget p ''reason'' = PStr ''policy_rule_failed'' \<longleftrightarrow> \<not> decision_meaning s (trace_env bs ls n pp) b) \<and>
     (\<not> decision_meaning s (trace_env bs ls n pp) b \<longrightarrow>
        dget p ''failed_indices'' =
          py_nats (take 25 (filter (\<lambda>i. \<not> beval (trace_env bs ls n pp) i b) [0..<n])))"
proof -
  from supported_decision_abs [OF assms(1-3)] obtain b where b: "spec_bexp s = Some b" by blast
  then obtain inner where inner: "de_inner (sp_decision s) = Some inner" "abs_expr inner = Some b"
    by (auto simp: spec_bexp_def split: option.splits)
  have act: "env_active (trace_env bs ls n pp) = n" by (simp add: trace_env_def)
  from policy_trace_run [OF assms(1) inner assms(4,5), of pp] b show ?thesis
    by (auto simp: failure_payload_def dget_def act)
qed

text \<open>
  Blamed rules are to blame. When the decision is false and uses no negation, the explanation names
  at least one rule, and every rule it names is a rule of the policy whose comparison is false at an
  active row.
\<close>

theorem explanation_blames_false_rules:
  assumes "expr_ok (sp_decision s)" "ensure_supported_decision s = Inr u" "refs_stripped (sp_decision s)"
    and "batch_input bs ls n inp" "n > 0" "spec_bexp s = Some b" "negation_free b"
    and "\<not> decision_meaning s (trace_env bs ls n pp) b"
  shows "\<exists>inner rules p ids. de_inner (sp_decision s) = Some inner \<and>
     collect_rules inner ''decision.inner'' [] = Inr rules \<and> evaluate_policy_trace (Some s) inp pp = Inr (Some p) \<and>
     dget p ''failed_rule_ids'' = py_strs ids \<and> ids \<noteq> [] \<and>
     (\<forall>i \<in> set ids. blamed rules (trace_env bs ls n pp) {0..<n} i)"
proof -
  from assms(6) obtain inner where inner: "de_inner (sp_decision s) = Some inner" "abs_expr inner = Some b"
    by (auto simp: spec_bexp_def split: option.splits)
  from policy_trace_run [OF assms(1) inner assms(4,5), of pp] assms(8) obtain rules ids where
    r: "collect_rules inner ''decision.inner'' [] = Inr rules"
    "evaluate_policy_trace (Some s) inp pp = Inr (Some (failure_payload rules (failed_rows (trace_env bs ls n pp) b) ids))"
    "\<forall>i \<in> set ids. blamed rules (trace_env bs ls n pp) {0..<n} i"
    "negation_free b \<and> failed_rows (trace_env bs ls n pp) b \<noteq> [] \<longrightarrow> ids \<noteq> []" by auto
  have "failed_rows (trace_env bs ls n pp) b \<noteq> []"
    using decision_fails_iff [of s "trace_env bs ls n pp" b] assms(5,8) by (auto simp: trace_env_def split: if_splits)
  with r(4) assms(7) have "ids \<noteq> []" by blast
  then have "sort (remdups ids) \<noteq> []" by (metis set_empty set_remdups set_sort)
  with inner(1) r(1-3) show ?thesis
    by (intro exI [of _ inner] exI [of _ rules] exI [of _ "failure_payload rules (failed_rows (trace_env bs ls n pp) b) ids"]
        exI [of _ "sort (remdups ids)"]) (auto simp: failure_payload_def dget_def)
qed

section \<open>The debug trace lists the same rules\<close>

definition rule_json :: "comparison_rule \<Rightarrow> pyval" where
  "rule_json r =
     PDict [(''rule_id'', PStr (cr_rule_id r)), (''policy_path'', PStr (cr_policy_path r)),
            (''operator'', PStr (op_text (cr_operator r))), (''left'', serialize_value (cr_left r)),
            (''right'', serialize_value (cr_right r)), (''input_refs'', py_strs (rule_input_refs r))]"

lemma value_refs_debug: "value_ref_ok v \<Longrightarrow> debug_value_refs v = value_refs v"
  by (auto simp: value_ref_ok_def min_len1_def debug_value_refs_def value_refs_def split: option.splits list.splits)

lemma debug_collect_same:
  "expr_ok e \<Longrightarrow> debug_collect_rules e path (map rule_json rules) = map_sum id (map rule_json) (collect_rules e path rules)"
  "exprs_ok es \<Longrightarrow> debug_collect_rules_args es idx path (map rule_json rules) =
     map_sum id (map rule_json) (collect_rules_args es idx path rules)"
proof (induction e path rules and es idx path rules rule: collect_rules_collect_rules_args.induct)
  case (1 k c as i path rules)
  then show ?case
    by (cases c; cases i)
       (auto simp: debug_rule_def rule_json_def rule_input_refs_def value_refs_debug)
next
  case (3 e es idx path rules)
  then show ?case by (cases "collect_rules e (arg_path path idx) rules") auto
qed simp

text \<open>
  The debug trace and the runtime explanations agree: the rules the compiler writes to the trace are
  exactly the rules an explanation refers to, with the same identifiers, paths, operators and inputs.
\<close>

theorem debug_trace_lists_rules:
  assumes "expr_ok (sp_decision s)" "de_inner (sp_decision s) = Some inner"
  shows "\<exists>rules payload. collect_rules inner ''decision.inner'' [] = Inr rules \<and>
     debug_trace_payload s spec_hash = Inr (PDict payload) \<and> dget payload ''rules'' = PList (map rule_json rules)"
proof -
  have inner: "expr_ok inner" using assms by (cases "sp_decision s") auto
  obtain rules where r: "collect_rules inner ''decision.inner'' [] = Inr rules"
    using collect_rules_ok(1) [OF inner numbered_Nil, of "''decision.inner''"] by auto
  with debug_collect_same(1) [OF inner, of "''decision.inner''" "[]"]
  have "debug_collect_rules inner ''decision.inner'' [] = Inr (map rule_json rules)" by simp
  with r assms(2) show ?thesis by (simp add: debug_trace_payload_def dget_def)
qed

section \<open>Witnesses\<close>

definition failing_input :: pydict where
  "failing_input = [(''balances'', PList (map PInt [5, 1])), (''limits'', PList (map PInt [2, 3])), (''active_count'', PInt 2)]"

lemma failing_batch: "batch_input [5, 1] [2, 3] 2 failing_input"
  by (simp add: batch_input_def failing_input_def dget_def)

theorem explanation_matches_decision_witness:
  "\<exists>b p. spec_bexp lending_risk_spec = Some b \<and> evaluate_policy_trace (Some lending_risk_spec) failing_input [] = Inr (Some p) \<and>
     (dget p ''reason'' = PStr ''policy_rule_failed'' \<longleftrightarrow>
        \<not> decision_meaning lending_risk_spec (trace_env [5, 1] [2, 3] 2 []) b)"
  using explanation_matches_decision [of lending_risk_spec "()" "[5, 1]" "[2, 3]" 2 failing_input "[]"] failing_batch by auto

theorem explanation_blames_false_rules_witness:
  "\<exists>inner rules p ids. de_inner (sp_decision lending_risk_spec) = Some inner \<and>
     collect_rules inner ''decision.inner'' [] = Inr rules \<and>
     evaluate_policy_trace (Some lending_risk_spec) failing_input [] = Inr (Some p) \<and>
     dget p ''failed_rule_ids'' = py_strs ids \<and> ids \<noteq> [] \<and>
     (\<forall>i \<in> set ids. blamed rules (trace_env [5, 1] [2, 3] 2 []) {0..<2} i)"
proof (rule explanation_blames_false_rules [where u = "()" and b = "BCmp OpGt VBalance VLimit"])
  show "\<not> decision_meaning lending_risk_spec (trace_env [5, 1] [2, 3] 2 []) (BCmp OpGt VBalance VLimit)"
    by (simp add: decision_meaning_def trace_env_def numeral_2_eq_2)
qed (simp_all add: failing_batch)

theorem debug_trace_lists_rules_witness:
  "\<exists>rules payload. collect_rules (the (de_inner lending_risk_decision)) ''decision.inner'' [] = Inr rules \<and>
     debug_trace_payload lending_risk_spec ''h'' = Inr (PDict payload) \<and> dget payload ''rules'' = PList (map rule_json rules)"
  by (rule debug_trace_lists_rules) (simp_all add: lending_risk_spec_def lending_risk_decision_def, code_simp)

end
