(* ===== verification/Failure_Triage.thy ===== *)
theory Failure_Triage
  imports Py_Runtime
begin

text \<open>
  Bookkeeping of failed jobs: the classification of failures in
  \<open>vellum_core/logic/failure_triage.py\<close> and the attempt counter in \<open>vellum_core/logic/job_attempts.py\<close>.
  The lemmas: retryability is a function of the class, a classification is not changed by the letter
  case of the messages, and the counter grows by one on every delivery.
\<close>

section \<open>Classification\<close>

record failure_triage =
  ft_error_class :: string
  ft_retryable :: bool
  ft_detail :: string

definition contains_any :: "string list \<Rightarrow> string \<Rightarrow> bool" where
  "contains_any ps s = list_ex (\<lambda>p. contains p s) ps"

definition dependency_marks :: "string list" where
  "dependency_marks = [''connection refused'', ''temporarily unavailable'', ''service unavailable'', ''grpc'', ''redis'',
     ''postgres'', ''database'', ''network'']"

definition artifact_marks :: "string list" where
  "artifact_marks = [''missing_artifacts'', ''required circuit artifacts are missing'', ''no such file'', ''final.zkey'',
     ''.wasm'']"

definition schema_marks :: "string list" where
  "schema_marks = [''invalid_private_input_schema'', ''private_input does not satisfy'', ''validation failed'',
     ''dual_track_reference'']"

definition crypto_marks :: "string list" where
  "crypto_marks = [''decrypt'', ''vault'', ''signature'', ''invalid proof'', ''proof verification failed'',
     ''dual_track_mismatch'', ''snarkjs'', ''rapidsnark'']"

definition classify_failure :: "string \<Rightarrow> string \<Rightarrow> failure_triage" where
  "classify_failure failure_reason error_message =
     (let reason = py_lower (py_strip failure_reason); message = py_lower (py_strip error_message);
          combined = py_strip (reason @ '' '' @ message)
      in if contains ''soft_time_limit_exceeded'' reason \<or> contains ''time limit'' combined \<or> contains ''timeout'' combined
         then \<lparr>ft_error_class = ''timeout'', ft_retryable = True, ft_detail = ''Execution exceeded timeout budget.''\<rparr>
         else if contains_any dependency_marks combined
         then \<lparr>ft_error_class = ''dependency'', ft_retryable = True,
               ft_detail = ''External dependency/network failure detected.''\<rparr>
         else if contains_any artifact_marks combined
         then \<lparr>ft_error_class = ''artifact'', ft_retryable = True,
               ft_detail = ''Required proving artifacts are missing or unreadable.''\<rparr>
         else if contains_any schema_marks combined
         then \<lparr>ft_error_class = ''schema'', ft_retryable = False, ft_detail = ''Input/schema validation failure.''\<rparr>
         else if contains_any crypto_marks combined
         then \<lparr>ft_error_class = ''crypto'', ft_retryable = False, ft_detail = ''Cryptographic/proving pipeline failure.''\<rparr>
         else if contains ''max_attempts_exceeded'' reason
         then \<lparr>ft_error_class = ''retry_exhausted'', ft_retryable = False, ft_detail = ''Maximum attempts exceeded.''\<rparr>
         else \<lparr>ft_error_class = ''unknown'', ft_retryable = False, ft_detail = ''Unclassified runtime exception.''\<rparr>)"

section \<open>Attempts\<close>

definition previous_attempts :: "pydict \<Rightarrow> int" where
  "previous_attempts metadata =
     (case dget metadata ''attempt_count'' of PInt i \<Rightarrow> if i \<ge> 0 then i else 0 | _ \<Rightarrow> 0)"

definition next_attempt_metadata :: "pydict \<Rightarrow> int \<Rightarrow> pydict \<times> bool" where
  "next_attempt_metadata metadata max_attempts =
     (let attempt_count = previous_attempts metadata + 1
      in ([(''attempt_count'', PInt attempt_count), (''max_attempts'', PInt max_attempts)], attempt_count > max_attempts))"

section \<open>Properties\<close>

definition retryable_classes :: "string set" where
  "retryable_classes = {''timeout'', ''dependency'', ''artifact''}"

lemma lower_char_idem [simp]: "lower_char (lower_char c) = lower_char c"
proof -
  have "of_char (lower_char c) < (65::nat) \<or> 90 < (of_char (lower_char c) :: nat)"
    by (auto simp: lower_char_def)
  then show ?thesis by (auto simp: lower_char_def)
qed

lemma py_lower_idem [simp]: "py_lower (py_lower s) = py_lower s"
  by (simp add: py_lower_def)

lemma isspace_lower [simp]: "py_isspace (lower_char c) = py_isspace c"
  by (auto simp: py_isspace_def lower_char_def)

lemma dropWhile_lower: "dropWhile py_isspace (map lower_char s) = map lower_char (dropWhile py_isspace s)"
  by (simp add: dropWhile_map o_def)

lemma py_strip_lower: "py_strip (py_lower s) = py_lower (py_strip s)"
  by (simp add: py_strip_def py_lower_def dropWhile_lower rev_map)

lemma triage_class_values:
  "ft_error_class (classify_failure r m) \<in>
     {''timeout'', ''dependency'', ''artifact'', ''schema'', ''crypto'', ''retry_exhausted'', ''unknown''}"
  by (simp add: classify_failure_def Let_def)

lemma triage_retryable: "ft_retryable (classify_failure r m) \<longleftrightarrow> ft_error_class (classify_failure r m) \<in> retryable_classes"
  by (simp add: classify_failure_def Let_def retryable_classes_def)

lemma triage_case_insensitive: "classify_failure (py_lower r) (py_lower m) = classify_failure r m"
  by (simp add: classify_failure_def py_strip_lower)

lemma previous_attempts_dupdate:
  assumes "next_attempt_metadata meta mx = (p, ex)" "previous_attempts meta \<ge> 0"
  shows "previous_attempts (dupdate meta p) = previous_attempts meta + 1"
  using assms by (auto simp: next_attempt_metadata_def Let_def previous_attempts_def dget_def dupdate_def)

lemma previous_attempts_nonneg [simp]: "previous_attempts m \<ge> 0"
  by (auto simp: previous_attempts_def split: pyval.splits)

end
