(* ===== verification/Worker.thy ===== *)
theory Worker
  imports Proof_Engine Audit_Chain Security Explainability Failure_Triage
begin

text \<open>
  The proof worker \<open>worker.py\<close>: one delivery of a proof job from the queue, with every branch of
  \<open>_process_proof_job_async\<close>. The state is the database, the proof files and the local variable
  \<open>decrypted\<close>, which the exception handlers read. The outside world is the record \<open>worker_env\<close>: clocks,
  Vault, the registries, the proof provider, and what other writers do while an audit event is appended.

  Celery's soft time limit raises \<open>SoftTimeLimitExceeded\<close> in the running task. The model lets it arrive at
  any of the numbered points between the statements of the \<open>try\<close> block (\<open>we_interrupt\<close>). Writing the
  proof file may fail (\<open>we_write_error\<close>). Logging and the duration metric have no effect on the state.
\<close>

section \<open>State and environment\<close>

record worker_state =
  w_db :: database
  w_files :: "(string \<times> string) list"
  w_decrypted :: "pyval option"

record worker_env =
  we_interp_text :: "pyexc \<Rightarrow> string"
  we_invalid_text :: string
  we_parse_float :: "string \<Rightarrow> pyval"
  we_sha256 :: "string \<Rightarrow> string"
  we_vault :: vault_server
  we_data_key :: string
  we_audit_key :: string
  we_max_attempts :: int
  we_soft_limit :: int
  we_output_dir :: string
  we_now :: "nat \<Rightarrow> int"
  we_audit_clock :: "nat \<Rightarrow> nat \<Rightarrow> int"
  we_others :: "nat \<Rightarrow> nat \<Rightarrow> database \<Rightarrow> database"
  we_events_available :: bool
  we_circuits :: circuit_registry
  we_policies :: policy_registry
  we_policy_spec :: "string \<Rightarrow> policy_spec option"
  we_schema_lib :: schema_lib
  we_provider :: proof_provider
  we_write_error :: "pyexc option"
  we_interrupt :: "nat option"

definition str_exc :: "worker_env \<Rightarrow> pyexc \<Rightarrow> string" where
  "str_exc env e = exc_text (we_interp_text env) e"

definition on_db :: "(database \<Rightarrow> 'a \<times> database) \<Rightarrow> (worker_state, 'a) prog" where
  "on_db f w = (case f (w_db w) of (x, db) \<Rightarrow> (Inr x, w\<lparr>w_db := db\<rparr>))"

definition audit :: "worker_env \<Rightarrow> nat \<Rightarrow> audit_event \<Rightarrow> (worker_state, unit) prog" where
  "audit env k e w =
     (case append_event (we_sha256 env) (we_vault env) (we_audit_key env) (we_audit_clock env k) (we_others env k) e (w_db w) of
        (r, db) \<Rightarrow> (rbind r (\<lambda>_. Inr ()), w\<lparr>w_db := db\<rparr>))"

definition checkpoint :: "worker_env \<Rightarrow> nat \<Rightarrow> (worker_state, unit) prog" where
  "checkpoint env k = (if we_interrupt env = Some k then sthrow SoftTimeLimitExceeded else sret ())"

definition DEFAULT_BATCH_CIRCUIT_ID :: string where
  "DEFAULT_BATCH_CIRCUIT_ID = ''batch_credit_check''"

section \<open>Failures\<close>

definition explain_params :: "pydict \<Rightarrow> (string \<times> int) list" where
  "explain_params d = concat (map (\<lambda>(k, v). case v of PInt i \<Rightarrow> [(k, i)] | _ \<Rightarrow> []) d)"

definition trace_unavailable :: pydict where
  "trace_unavailable = [(''version'', PStr ''v1''), (''reason'', PStr ''policy_trace_unavailable'')]"

definition build_failure_explainability ::
  "worker_env \<Rightarrow> proof_job \<Rightarrow> pyval option \<Rightarrow> string \<Rightarrow> pydict" where
  "build_failure_explainability env job decrypted_payload error_message =
     (let d = (case decrypted_payload of Some (PDict d) \<Rightarrow> d | _ \<Rightarrow> []);
          private_input = (case dget d ''private_input'' of PDict i \<Rightarrow> Some i | _ \<Rightarrow> None);
          policy_parameters = (case dget d ''policy_parameters'' of PDict p \<Rightarrow> explain_params p | _ \<Rightarrow> [])
      in case dget (pj_meta job) ''policy_id'' of
           PStr (c # cs) \<Rightarrow>
             (case build_explainability (we_policy_spec env (c # cs)) private_input policy_parameters error_message of
                Inl e \<Rightarrow> trace_unavailable | Inr x \<Rightarrow> x)
         | _ \<Rightarrow> trace_unavailable)"

definition attempt_field :: "pydict \<Rightarrow> string \<Rightarrow> int" where
  "attempt_field metadata k = (case dget metadata k of PInt i \<Rightarrow> i | _ \<Rightarrow> 0)"

definition dead_letter_of ::
  "proof_job \<Rightarrow> string \<Rightarrow> string \<Rightarrow> pydict \<Rightarrow> string option \<Rightarrow> pydict \<Rightarrow> dead_letter_input" where
  "dead_letter_of job failure_reason error_message attempt_metadata sealed_rerun_payload explainability =
     (let triage = classify_failure failure_reason error_message
      in \<lparr>di_proof_id = pj_proof_id job, di_circuit_id = pj_circuit_id job, di_error_class = ft_error_class triage,
          di_retryable = ft_retryable triage, di_failure_reason = failure_reason, di_error_message = error_message,
          di_attempt_count = attempt_field attempt_metadata ''attempt_count'',
          di_max_attempts = attempt_field attempt_metadata ''max_attempts'',
          di_triage_details = [(''detail'', PStr (ft_detail triage)), (''explainability'', PDict explainability)],
          di_job_metadata = pj_meta job, di_sealed_rerun_payload = sealed_rerun_payload\<rparr>)"

definition record_dead_letter_job ::
  "worker_env \<Rightarrow> nat \<Rightarrow> proof_job \<Rightarrow> string \<Rightarrow> string \<Rightarrow> pydict \<Rightarrow> string option \<Rightarrow> pydict \<Rightarrow> (worker_state, unit) prog" where
  "record_dead_letter_job env k job failure_reason error_message attempt_metadata sealed_rerun_payload explainability =
     sthen (on_db (upsert_dead_letter_job (we_now env k)
              (dead_letter_of job failure_reason error_message attempt_metadata sealed_rerun_payload explainability)))
       (sret ())"

definition audit_of ::
  "string \<Rightarrow> string \<Rightarrow> string \<Rightarrow> pyval list \<Rightarrow> pyval \<Rightarrow> pydict \<Rightarrow> string option \<Rightarrow> audit_event" where
  "audit_of proof_id circuit_id status public_signals proof_payload metadata error =
     \<lparr>ev_proof_id = Some proof_id, ev_circuit_id = circuit_id, ev_status = status, ev_public_signals = public_signals,
      ev_proof_payload = proof_payload, ev_metadata = metadata, ev_error = error\<rparr>"

definition meta_or :: "proof_job option \<Rightarrow> proof_job \<Rightarrow> pydict" where
  "meta_or failed_job job = (case failed_job of Some j \<Rightarrow> pj_meta j | None \<Rightarrow> pj_meta job)"

text \<open>The body of the two exception handlers of the \<open>try\<close> block, which differ in the reason and the message.\<close>

definition fail_job ::
  "worker_env \<Rightarrow> string \<Rightarrow> proof_job \<Rightarrow> pydict \<Rightarrow> string \<Rightarrow> string \<Rightarrow> (worker_state, unit) prog" where
  "fail_job env proof_id job attempt_metadata reason message =
     sbind (sget w_decrypted) (\<lambda>decrypted.
     let explainability = build_failure_explainability env job decrypted message
     in sbind (on_db (update_proof_job (we_now env 20) proof_id ''failed'' None None None (Some message)
                 (Some ([(''failure_reason'', PStr reason), (''error_details'', PDict [(''explainability'', PDict explainability)])] @
                        attempt_metadata)))) (\<lambda>failed_job.
        sthen (on_db (purge_sealed_job_payload (we_now env 21) proof_id))
       (sthen (audit env 2 (audit_of proof_id (pj_circuit_id job) ''failed'' [] PNone
                 (dupdate (meta_or failed_job job) ([(''failure_reason'', PStr reason)] @ attempt_metadata)) (Some message)))
              (record_dead_letter_job env 22 job reason message attempt_metadata (pj_sealed_job_payload job) explainability))))"

definition exhausted_message :: "worker_env \<Rightarrow> string" where
  "exhausted_message env = ''proof job exceeded max attempts ('' @ show_int (we_max_attempts env) @ '')''"

definition exhaust_job :: "worker_env \<Rightarrow> string \<Rightarrow> proof_job \<Rightarrow> pydict \<Rightarrow> (worker_state, unit) prog" where
  "exhaust_job env proof_id job attempt_metadata =
     (let message = exhausted_message env;
          reason = ''max_attempts_exceeded'';
          explainability = [(''version'', PStr ''v1''), (''reason'', PStr reason)]
      in sbind (on_db (update_proof_job (we_now env 10) proof_id ''failed'' None None None (Some message)
                 (Some (attempt_metadata @ [(''failure_reason'', PStr reason),
                    (''error_details'', PDict [(''explainability'', PDict explainability)])])))) (\<lambda>failed_job.
         sthen (audit env 0 (audit_of proof_id (pj_circuit_id job) ''failed'' [] PNone
                 (dupdate (meta_or failed_job job) (attempt_metadata @ [(''failure_reason'', PStr reason)])) (Some message)))
        (sthen (record_dead_letter_job env 11 job reason message attempt_metadata (pj_sealed_job_payload job) explainability)
        (sthen (on_db (purge_sealed_job_payload (we_now env 12) proof_id))
               (sret ())))))"

section \<open>The job\<close>

definition py_get :: "pyval \<Rightarrow> string \<Rightarrow> pyval res" where
  "py_get v k = (case v of PDict d \<Rightarrow> Inr (dget d k)
     | _ \<Rightarrow> Inl (OtherError (SQ @ py_class_name v @ SQ @ '' object has no attribute '' @ SQ @ ''get'' @ SQ)))"

text \<open>Membership of the decision in a set of two strings: a list or an object is not hashable.\<close>

definition reference_decision :: "pyval \<Rightarrow> policy_decision res" where
  "reference_decision v =
     (case v of
        PStr t \<Rightarrow> (if t = ''pass'' then Inr Pass else if t = ''fail'' then Inr Fail
                   else Inl (ValueError ''dual_track_reference.decision must be pass|fail''))
      | PList _ \<Rightarrow> Inl TypeError
      | PDict _ \<Rightarrow> Inl TypeError
      | _ \<Rightarrow> Inl (ValueError ''dual_track_reference.decision must be pass|fail''))"

text \<open>The part of the \<open>try\<close> block that checks a policy run and gives the metadata it adds to the job.\<close>

definition check_policy_run ::
  "worker_env \<Rightarrow> pydict \<Rightarrow> pyval \<Rightarrow> pyval list \<Rightarrow> bool \<Rightarrow> pydict option res" where
  "check_policy_run env job_meta decrypted public_signals valid =
     (case dget job_meta ''policy_id'' of
        PStr (c # cs) \<Rightarrow>
          rbind (get_policy_manifest (we_policies env) (c # cs)) (\<lambda>policy_manifest.
          rbind (py_get decrypted ''dual_track_reference'') (\<lambda>raw.
          case raw of
            PDict reference \<Rightarrow>
              rbind (reference_decision (dget reference ''decision'')) (\<lambda>decision.
              case dget reference ''outputs'' of
                PDict outputs \<Rightarrow>
                  rbind (evaluate_circuit_track (c # cs) (pm_expected_attestation policy_manifest)
                           (pm_differential_outputs policy_manifest) public_signals valid) (\<lambda>circuit_result.
                  rbind (assert_dual_track_consistency (c # cs)
                           \<lparr>dr_private_input = [], dr_decision = decision, dr_outputs = outputs\<rparr> circuit_result) (\<lambda>_.
                  Inr (Some [(''policy_version'', PStr (pm_policy_version policy_manifest)),
                             (''decision'', PStr (decision_text (dc_decision circuit_result)))])))
              | _ \<Rightarrow> Inl (ValueError ''dual_track_reference.outputs must be an object''))
          | _ \<Rightarrow> Inl (ValueError ''Missing dual_track_reference for policy run'')))
      | _ \<Rightarrow> Inr None)"

definition unseal_step :: "worker_env \<Rightarrow> string \<Rightarrow> string \<Rightarrow> (worker_state, pyval) prog" where
  "unseal_step env proof_id sealed =
     (case unseal_job_payload (we_parse_float env) (we_vault env) (we_data_key env) sealed of
        Inl e \<Rightarrow>
          sthen (supd (\<lambda>w. w\<lparr>w_db := record_security_event (we_events_available env) (we_now env 1)
                   ''payload_decrypt_failed'' ''error'' None None (Some proof_id)
                   (Some [(''reason'', PStr (str_exc env e))]) (w_db w)\<rparr>))
            (sthrow (ValueError ''Unable to decrypt sealed job payload''))
      | Inr d \<Rightarrow> sthen (supd (\<lambda>w. w\<lparr>w_decrypted := Some d\<rparr>)) (sret d))"

definition private_input_of :: "proof_job \<Rightarrow> pyval \<Rightarrow> pydict res" where
  "private_input_of job decrypted =
     rbind (py_get decrypted ''private_input'') (\<lambda>v.
     case v of
       PDict private_input \<Rightarrow>
         (if pj_circuit_id job = DEFAULT_BATCH_CIRCUIT_ID
          then rbind (batch_prepare_from_private_input private_input) (\<lambda>prepared. Inr (to_circuit_input prepared))
          else Inr private_input)
     | _ \<Rightarrow> Inl (ValueError ''Missing private_input for proof job''))"

definition proof_document :: "int \<Rightarrow> pydict \<Rightarrow> pyval list \<Rightarrow> string" where
  "proof_document now proof public_signals =
     json_text (PDict [(''proof'', PDict proof), (''public_signals'', PList public_signals),
                       (''generated_at'', PStr (isoformat now))])"

text \<open>What the job computes: the proof, its signals and the metadata a policy run adds.\<close>

definition prove_job :: "worker_env \<Rightarrow> proof_job \<Rightarrow> pyval \<Rightarrow> (worker_state, pydict \<times> pyval list \<times> pydict option) prog" where
  "prove_job env job decrypted =
     sbind (slift (private_input_of job decrypted)) (\<lambda>private_input.
     sbind (slift (get_circuit_manifest (we_circuits env) (pj_circuit_id job))) (\<lambda>manifest.
     sbind (slift (validate_private_input_schema (we_schema_lib env) (cm_input_schema manifest) private_input)) (\<lambda>_.
     sbind (checkpoint env 2) (\<lambda>_.
     sbind (slift (engine_generate (we_interp_text env) (we_invalid_text env) (we_circuits env) (we_provider env)
              (pj_circuit_id job) private_input)) (\<lambda>(proof, public_signals).
     sbind (checkpoint env 3) (\<lambda>_.
     sbind (slift (engine_verify (we_interp_text env) (we_circuits env) (we_provider env) (pj_circuit_id job) proof public_signals))
       (\<lambda>valid.
     sbind (checkpoint env 4) (\<lambda>_.
     sbind (slift (check_policy_run env (pj_meta job) decrypted public_signals valid)) (\<lambda>metadata_patch.
     sret (proof, public_signals, metadata_patch))))))))))"

definition store_proof ::
  "worker_env \<Rightarrow> string \<Rightarrow> proof_job \<Rightarrow> pydict \<times> pyval list \<times> pydict option \<Rightarrow> (worker_state, unit) prog" where
  "store_proof env proof_id job outcome =
     (case outcome of (proof, public_signals, metadata_patch) \<Rightarrow>
        let proof_path = path_join (we_output_dir env) (proof_id @ ''.json'')
        in sthen (case we_write_error env of Some e \<Rightarrow> sthrow e | None \<Rightarrow> sret ())
          (sthen (supd (\<lambda>w. w\<lparr>w_files := dput proof_path (proof_document (we_now env 2) proof public_signals) (w_files w)\<rparr>))
          (sthen (checkpoint env 5)
          (sthen (on_db (update_proof_job (we_now env 3) proof_id ''completed'' (Some public_signals) (Some proof)
                    (Some proof_path) None metadata_patch))
          (sthen (checkpoint env 6)
          (sthen (on_db (purge_sealed_job_payload (we_now env 4) proof_id))
          (sthen (checkpoint env 7)
          (sthen (audit env 3 (audit_of proof_id (pj_circuit_id job) ''completed'' public_signals (PDict proof)
                    (dupdate (pj_meta job) (case metadata_patch of None \<Rightarrow> [] | Some p \<Rightarrow> p)) None))
                 (checkpoint env 8)))))))))"

definition run_job :: "worker_env \<Rightarrow> string \<Rightarrow> proof_job \<Rightarrow> (worker_state, unit) prog" where
  "run_job env proof_id job =
     sbind (checkpoint env 0) (\<lambda>_.
     sbind (case pj_sealed_job_payload job of
              None \<Rightarrow> sthrow (ValueError ''Missing sealed_job_payload for proof job'')
            | Some sealed \<Rightarrow> unseal_step env proof_id sealed) (\<lambda>decrypted.
     sbind (checkpoint env 1) (\<lambda>_.
     sbind (prove_job env job decrypted) (store_proof env proof_id job))))"

definition failure_of :: "worker_env \<Rightarrow> pyexc \<Rightarrow> string \<times> string" where
  "failure_of env e =
     (if e = SoftTimeLimitExceeded
      then (''soft_time_limit_exceeded'', ''proof job exceeded celery soft time limit ('' @ show_int (we_soft_limit env) @ ''s)'')
      else (''runtime_exception'', str_exc env e))"

definition handle_failure ::
  "worker_env \<Rightarrow> string \<Rightarrow> proof_job \<Rightarrow> pydict \<Rightarrow> pyexc \<Rightarrow> (worker_state, unit) prog" where
  "handle_failure env proof_id job attempt_metadata e =
     (case failure_of env e of (reason, message) \<Rightarrow>
        sthen (fail_job env proof_id job attempt_metadata reason message) (sthrow e))"

text \<open>The transition to \<open>running\<close>, which counts the attempt before any work is done.\<close>

definition begin_attempt :: "worker_env \<Rightarrow> string \<Rightarrow> proof_job \<Rightarrow> pydict \<Rightarrow> (worker_state, proof_job) prog" where
  "begin_attempt env proof_id job attempt_metadata =
     sbind (on_db (update_proof_job (we_now env 0) proof_id ''running'' None None None None (Some attempt_metadata))) (\<lambda>updated_job.
     let job' = (case updated_job of None \<Rightarrow> job | Some j \<Rightarrow> j)
     in sthen (audit env 1 (audit_of proof_id (pj_circuit_id job') ''running'' [] PNone (pj_meta job') None)) (sret job'))"

definition process_proof_job :: "worker_env \<Rightarrow> string \<Rightarrow> (worker_state, unit) prog" where
  "process_proof_job env proof_id =
     sthen (supd (\<lambda>w. w\<lparr>w_decrypted := None\<rparr>))
    (sbind (sget (\<lambda>w. get_proof_job proof_id (w_db w))) (\<lambda>found.
     case found of
       None \<Rightarrow> sret ()
     | Some job \<Rightarrow>
         if pj_status job \<noteq> ''queued'' \<and> pj_status job \<noteq> ''running'' then sret ()
         else case next_attempt_metadata (pj_meta job) (we_max_attempts env) of (attempt_metadata, attempts_exceeded) \<Rightarrow>
           if attempts_exceeded then exhaust_job env proof_id job attempt_metadata
           else sbind (begin_attempt env proof_id job attempt_metadata) (\<lambda>job'.
                scatch (run_job env proof_id job') (handle_failure env proof_id job' attempt_metadata))))"

end
