(* ===== verification/Worker_Correctness.thy ===== *)
theory Worker_Correctness
  imports Worker
begin

text \<open>
  Correctness of the proof worker. Programs are reasoned about with the weakest preconditions of
  \<open>Py_Runtime\<close>: each handler gets one lemma over the state of the job (\<open>unsettled\<close> while it runs, a verdict at its
  end), and the properties compose them. Two hypotheses occur: \<open>bystanders\<close>, that other writers change no
  job and no dead letter while an audit event is appended, and \<open>quiet\<close>, that nobody interferes and the audit
  signer answers.
\<close>

section \<open>Audit events and other writers\<close>

definition bystanders :: "worker_env \<Rightarrow> bool" where
  "bystanders env = (\<forall>k n db. db_jobs (we_others env k n db) = db_jobs db \<and> db_dlq (we_others env k n db) = db_dlq db)"

lemma append_loop_frame:
  assumes "\<And>k db. db_jobs (others k db) = db_jobs db \<and> db_dlq (others k db) = db_dlq db"
    "append_loop get_latest_audit_row append_audit_row sha sign clock others e n k db = (r, db')"
  shows "db_jobs db' = db_jobs db \<and> db_dlq db' = db_dlq db"
  using assms(2)
proof (induction n arbitrary: k db)
  case (Suc n)
  from Suc.prems show ?case
    by (auto simp: Let_def assms(1) append_audit_row_frame split: sum.splits pyexc.splits prod.splits if_splits dest!: Suc.IH append_audit_row_frame)
qed simp

lemma audit_frame:
  assumes "bystanders env" "audit env k e w = (r, w')"
  shows "db_jobs (w_db w') = db_jobs (w_db w) \<and> db_dlq (w_db w') = db_dlq (w_db w) \<and> w_files w' = w_files w \<and>
    w_decrypted w' = w_decrypted w"
proof -
  obtain q db where a: "append_event (we_sha256 env) (we_vault env) (we_audit_key env) (we_audit_clock env k) (we_others env k) e (w_db w) = (q, db)"
    by (cases "append_event (we_sha256 env) (we_vault env) (we_audit_key env) (we_audit_clock env k) (we_others env k) e (w_db w)")
  with assms(2) have "w' = w\<lparr>w_db := db\<rparr>" by (simp add: audit_def)
  moreover have "db_jobs db = db_jobs (w_db w) \<and> db_dlq db = db_dlq (w_db w)"
    by (rule append_loop_frame [OF _ a [unfolded append_event_def]]) (use assms(1) in \<open>simp add: bystanders_def\<close>)
  ultimately show ?thesis by simp
qed

text \<open>
  An environment whose audit log takes every event: no other writer comes between, and the audit signer
  answers. The worker signs its events also outside of its \<open>try\<close> block and inside of its exception handlers,
  so a failing signer is not like any other failure.
\<close>

definition quiet :: "worker_env \<Rightarrow> bool" where
  "quiet env = ((\<forall>k n db. we_others env k n db = db) \<and> (\<forall>p. is_ok (vault_sign (we_vault env) (we_audit_key env) p)))"

lemma quiet_bystanders: "quiet env \<Longrightarrow> bystanders env"
  by (simp add: quiet_def bystanders_def)

definition row_of_event :: "(string \<Rightarrow> string) \<Rightarrow> audit_event \<Rightarrow> audit_row \<Rightarrow> bool" where
  "row_of_event sha256 e r =
     (ar_proof_id r = ev_proof_id e \<and> ar_circuit_id r = ev_circuit_id e \<and> ar_status r = ev_status e \<and>
      ar_public_signals r = ev_public_signals e \<and> ar_proof_hash r = compute_proof_hash sha256 (ev_proof_payload e) \<and>
      ar_meta r = ev_metadata e \<and> ar_error r = ev_error e)"

lemma audit_quiet:
  assumes "quiet env"
  shows "\<exists>row. audit env k e w = (Inr (), w\<lparr>w_db := (w_db w)\<lparr>db_audit := db_audit (w_db w) @ [row],
           db_next_audit := Suc (db_next_audit (w_db w))\<rparr>\<rparr>) \<and> row_of_event (we_sha256 env) e row"
proof -
  let ?ts = "floor_second (we_audit_clock env k 0)" and ?prev = "latest_hash (get_latest_audit_row (w_db w))"
  obtain sig where sig: "vault_sign (we_vault env) (we_audit_key env) (event_hash (we_sha256 env) ?ts ?prev e) = Inr sig"
    using assms unfolding quiet_def is_ok_iff by blast
  have "expected_previous (w_db w) = ?prev" by (simp add: expected_previous_def latest_hash_def)
  then obtain row where row: "append_audit_row (event_input (we_sha256 env) ?ts ?prev e sig) (w_db w) =
      Inr (row, (w_db w)\<lparr>db_audit := db_audit (w_db w) @ [row], db_next_audit := Suc (db_next_audit (w_db w))\<rparr>)"
    "row_of_event (we_sha256 env) e row"
    by (simp add: append_audit_row_def event_input_def Let_def row_of_event_def)
  have "append_event (we_sha256 env) (we_vault env) (we_audit_key env) (we_audit_clock env k) (we_others env k) e (w_db w) =
      (Inr row, (w_db w)\<lparr>db_audit := db_audit (w_db w) @ [row], db_next_audit := Suc (db_next_audit (w_db w))\<rparr>)"
    using assms sig row(1) by (simp add: append_event_def max_append_attempts_def numeral_eq_Suc quiet_def Let_def)
  with row(2) show ?thesis by (intro exI [of _ row]) (simp add: audit_def)
qed

lemma wp_on_db [simp]: "wp (on_db f) Q E = (\<lambda>w. case f (w_db w) of (x, db) \<Rightarrow> Q x (w\<lparr>w_db := db\<rparr>))"
  by (simp add: wp_def on_db_def fun_eq_iff split: prod.splits)

lemma wp_checkpoint [simp]: "wp (checkpoint env k) Q E = (if we_interrupt env = Some k then E SoftTimeLimitExceeded else Q ())"
  by (simp add: checkpoint_def)

lemma wp_audit_quiet:
  assumes "quiet env"
    "\<And>row. row_of_event (we_sha256 env) e row \<Longrightarrow>
       Q () (w\<lparr>w_db := (w_db w)\<lparr>db_audit := db_audit (w_db w) @ [row], db_next_audit := Suc (db_next_audit (w_db w))\<rparr>\<rparr>)"
  shows "wp (audit env k e) Q E w"
  using audit_quiet [OF assms(1), of k e w] assms(2) by (auto simp: wp_def)

lemma wp_audit_bystanders:
  assumes "bystanders env"
    "\<And>w'. (\<And>k. get_proof_job k (w_db w') = get_proof_job k (w_db w)) \<Longrightarrow> db_dlq (w_db w') = db_dlq (w_db w) \<Longrightarrow> w_files w' = w_files w \<Longrightarrow>
        w_decrypted w' = w_decrypted w \<Longrightarrow> Q () w' \<and> (\<forall>x. E x w')"
  shows "wp (audit env k e) Q E w"
proof -
  obtain r w' where a: "audit env k e w = (r, w')" by (cases "audit env k e w")
  from audit_frame [OF assms(1) a] have "Q () w' \<and> (\<forall>x. E x w')" by (intro assms(2)) (simp_all add: get_proof_job_def)
  then show ?thesis by (simp add: wp_def a split: sum.splits)
qed

section \<open>Every delivery ends in a verdict\<close>

text \<open>What every statement of a delivery keeps: the job exists and no other job changes.\<close>

definition same_job :: "string \<Rightarrow> worker_state \<Rightarrow> worker_state \<Rightarrow> bool" where
  "same_job proof_id w0 w =
     (get_proof_job proof_id (w_db w) \<noteq> None \<and>
      (\<forall>k. k \<noteq> proof_id \<longrightarrow> get_proof_job k (w_db w) = get_proof_job k (w_db w0)))"

definition audit_grows :: "string \<Rightarrow> worker_state \<Rightarrow> audit_row list \<Rightarrow> worker_state \<Rightarrow> bool" where
  "audit_grows proof_id w0 rows w =
     (db_audit (w_db w) = db_audit (w_db w0) @ rows \<and> (\<forall>r \<in> set rows. ar_proof_id r = Some proof_id))"

text \<open>A failed job, its purged payload and its row of the dead-letter queue.\<close>

definition failed_verdict :: "string \<Rightarrow> string \<Rightarrow> string \<Rightarrow> worker_state \<Rightarrow> worker_state \<Rightarrow> proof_job \<Rightarrow> bool" where
  "failed_verdict proof_id reason message w0 w job =
     (\<exists>job' row rows.
        same_job proof_id w0 w \<and>
        get_proof_job proof_id (w_db w) = Some job' \<and> pj_status job' = ''failed'' \<and> pj_error job' = Some message \<and>
        pj_sealed_job_payload job' = None \<and> dget (pj_meta job') ''failure_reason'' = PStr reason \<and>
        letter_of proof_id (w_db w) = Some row \<and> dl_status row = ''open'' \<and> dl_failure_reason row = reason \<and>
        dl_error_message row = message \<and> dl_error_class row = ft_error_class (classify_failure reason message) \<and>
        dl_retryable row = ft_retryable (classify_failure reason message) \<and>
        (pj_sealed_job_payload job \<noteq> None \<and> pj_sealed_job_payload job \<noteq> Some [] \<longrightarrow>
           dl_sealed_rerun_payload row = pj_sealed_job_payload job) \<and>
        audit_grows proof_id w0 rows w \<and> rows \<noteq> [] \<and> ar_status (last rows) = ''failed'')"

text \<open>A completed job; its last audit event carries the stored signals and the hash of the stored proof.\<close>

definition completed_verdict :: "(string \<Rightarrow> string) \<Rightarrow> string \<Rightarrow> worker_state \<Rightarrow> worker_state \<Rightarrow> bool" where
  "completed_verdict sha256 proof_id w0 w =
     (\<exists>job' rows proof sigs.
        same_job proof_id w0 w \<and>
        get_proof_job proof_id (w_db w) = Some job' \<and> pj_status job' = ''completed'' \<and> pj_sealed_job_payload job' = None \<and>
        pj_proof job' = JsonVal (PDict proof) \<and> pj_public_signals job' = JsonVal (PList sigs) \<and>
        audit_grows proof_id w0 rows w \<and> rows \<noteq> [] \<and> ar_status (last rows) = ''completed'' \<and>
        ar_public_signals (last rows) = sigs \<and> ar_proof_hash (last rows) = compute_proof_hash sha256 (PDict proof) \<and>
        letter_of proof_id (w_db w) = letter_of proof_id (w_db w0))"

lemma attempt_keys:
  assumes "next_attempt_metadata m mx = (am, ex)"
  shows "map fst am = [''attempt_count'', ''max_attempts'']"
  using assms by (auto simp: next_attempt_metadata_def Let_def)

lemma dget_attempts:
  assumes "map fst am = [''attempt_count'', ''max_attempts'']" "k \<noteq> ''attempt_count''" "k \<noteq> ''max_attempts''"
  shows "dget (dupdate m am) k = dget m k"
proof -
  from assms(1) obtain x y where "am = [(''attempt_count'', x), (''max_attempts'', y)]"
    by (auto simp: map_eq_Cons_conv)
  with assms(2,3) show ?thesis by simp
qed

lemma dead_letter_of_id [simp]: "di_proof_id (dead_letter_of job reason message am sp ex) = pj_proof_id job"
  by (simp add: dead_letter_of_def Let_def)

lemmas verdict_simps = case_pair get_updated fst_updated get_purged updated_frame upsert_frame letter_upserted_id
  get_job_frames job_purged_def job_updated_def or_else_def same_job_def audit_grows_def

lemma failed_verdictI:
  assumes "same_job pid w0 w" "get_proof_job pid (w_db w) = Some j'" "pj_status j' = ''failed''" "pj_error j' = Some message"
    "pj_sealed_job_payload j' = None" "dget (pj_meta j') ''failure_reason'' = PStr reason"
    and l: "letter_of pid (w_db w) = Some (case l of None \<Rightarrow> dead_letter_new now n d | Some r \<Rightarrow> dead_letter_refreshed now d r)"
    and d: "d = dead_letter_of job reason message am (pj_sealed_job_payload job) ex"
    and "audit_grows pid w0 (rows @ [row]) w" "ar_status row = ''failed''"
  shows "failed_verdict pid reason message w0 w job"
proof -
  let ?r = "case l of None \<Rightarrow> dead_letter_new now n d | Some r \<Rightarrow> dead_letter_refreshed now d r"
  have f: "dl_status ?r = ''open''" "dl_failure_reason ?r = reason" "dl_error_message ?r = message"
    "dl_error_class ?r = ft_error_class (classify_failure reason message)"
    "dl_retryable ?r = ft_retryable (classify_failure reason message)"
    unfolding d by (cases l; simp add: dead_letter_new_def dead_letter_refreshed_def dead_letter_of_def Let_def)+
  have p: "dl_sealed_rerun_payload ?r = pj_sealed_job_payload job"
    if "pj_sealed_job_payload job \<noteq> None" "pj_sealed_job_payload job \<noteq> Some []"
    using that unfolding d
    by (cases l) (auto simp: dead_letter_new_def dead_letter_refreshed_def dead_letter_of_def Let_def split: list.splits)
  show ?thesis unfolding failed_verdict_def
    by (rule exI [of _ j'], rule exI [of _ ?r], rule exI [of _ "rows @ [row]"]) (use assms f p in simp)
qed

lemma fail_job_verdict:
  assumes q: "quiet env" and am: "map fst am = [''attempt_count'', ''max_attempts'']" and id: "pj_proof_id job = pid"
    and j: "same_job pid w0 w" and a: "audit_grows pid w0 rows w"
  shows "wp (fail_job env pid job am reason message) (\<lambda>_ w'. failed_verdict pid reason message w0 w' job) E w"
proof -
  from j obtain jw where jw: "get_proof_job pid (w_db w) = Some jw" by (auto simp: same_job_def)
  have fr: "dget (dupdate m am) ''failure_reason'' = dget m ''failure_reason''" for m
    using am by (simp add: dget_attempts)
  show ?thesis
    unfolding fail_job_def Let_def record_dead_letter_job_def
    apply (simp add: case_pair)
    apply (rule wp_audit_quiet [OF q])
    apply (simp add: case_pair)
    apply (rule failed_verdictI [where am = am and rows = rows and l = "letter_of pid (w_db w)"])
    using j a jw id
    by (auto simp: verdict_simps fr row_of_event_def audit_of_def)
qed

lemma exhaust_job_verdict:
  assumes q: "quiet env" and am: "map fst am = [''attempt_count'', ''max_attempts'']" and id: "pj_proof_id job = pid"
    and j: "get_proof_job pid (w_db w) = Some job"
  shows "wp (exhaust_job env pid job am) (\<lambda>_ w'. failed_verdict pid ''max_attempts_exceeded''
     (exhausted_message env) w w' job \<and> w_files w' = w_files w) E w"
proof -
  have p: "dupdate m (am @ [(''failure_reason'', x), (''error_details'', y)]) =
    dput ''error_details'' y (dput ''failure_reason'' x (dupdate m am))" for m x y
    by (simp add: dupdate_def)
  show ?thesis
    unfolding exhaust_job_def Let_def record_dead_letter_job_def
    apply (simp add: case_pair)
    apply (rule wp_audit_quiet [OF q])
    apply (simp add: case_pair)
    apply (rule failed_verdictI [where am = am and rows = "[]" and l = "letter_of pid (w_db w)"])
    using j id
    by (auto simp: verdict_simps p row_of_event_def audit_of_def)
qed

lemma completed_verdictI:
  assumes "same_job pid w0 w" "get_proof_job pid (w_db w) = Some j'" "pj_status j' = ''completed''"
    "pj_sealed_job_payload j' = None" "pj_proof j' = JsonVal (PDict p)" "pj_public_signals j' = JsonVal (PList s)"
    "letter_of pid (w_db w) = letter_of pid (w_db w0)"
    and "audit_grows pid w0 (rows @ [row]) w" "ar_status row = ''completed''" "ar_public_signals row = s"
    "ar_proof_hash row = compute_proof_hash sha (PDict p)"
  shows "completed_verdict sha pid w0 w"
  unfolding completed_verdict_def
  by (rule exI [of _ j'], rule exI [of _ "rows @ [row]"], rule exI [of _ p], rule exI [of _ s]) (use assms in simp)

definition unsettled :: "string \<Rightarrow> worker_state \<Rightarrow> worker_state \<Rightarrow> bool" where
  "unsettled pid w0 w = (same_job pid w0 w \<and> (\<exists>rows. audit_grows pid w0 rows w) \<and> letter_of pid (w_db w) = letter_of pid (w_db w0))"

lemma store_proof_verdict:
  assumes q: "quiet env" and u: "unsettled pid w0 w"
  shows "wp (store_proof env pid job out) (\<lambda>_ w'. completed_verdict (we_sha256 env) pid w0 w') (\<lambda>e w'. unsettled pid w0 w') w"
proof -
  obtain p s m where out: "out = (p, s, m)" by (cases out)
  from u obtain jw rows where jw: "get_proof_job pid (w_db w) = Some jw" and r: "audit_grows pid w0 rows w"
    by (auto simp: unsettled_def same_job_def)
  show ?thesis
  proof (cases "we_write_error env")
    case None
    show ?thesis
      unfolding store_proof_def Let_def out
      apply (simp add: case_pair None)
      using u jw r
      apply (auto simp: verdict_simps unsettled_def row_of_event_def audit_of_def
          intro!: wp_audit_quiet [OF q] completed_verdictI [where rows = rows])
      done
  next
    case (Some e)
    with u show ?thesis by (simp add: store_proof_def Let_def out)
  qed
qed

text \<open>What the computation of a job establishes; it changes no state.\<close>

definition proved :: "worker_env \<Rightarrow> proof_job \<Rightarrow> pyval \<Rightarrow> pydict \<times> pyval list \<times> pydict option \<Rightarrow> bool" where
  "proved env job decrypted out =
     (case out of (proof, public_signals, metadata_patch) \<Rightarrow>
        \<exists>private_input manifest valid.
          private_input_of job decrypted = Inr private_input \<and>
          get_circuit_manifest (we_circuits env) (pj_circuit_id job) = Inr manifest \<and>
          validate_private_input_schema (we_schema_lib env) (cm_input_schema manifest) private_input = Inr () \<and>
          engine_generate (we_interp_text env) (we_invalid_text env) (we_circuits env) (we_provider env)
            (pj_circuit_id job) private_input = Inr (proof, public_signals) \<and>
          engine_verify (we_interp_text env) (we_circuits env) (we_provider env) (pj_circuit_id job) proof public_signals = Inr valid \<and>
          check_policy_run env (pj_meta job) decrypted public_signals valid = Inr metadata_patch)"

lemma prove_job_wp: "wp (prove_job env job d) (\<lambda>out w'. w' = w \<and> proved env job d out) (\<lambda>e w'. w' = w) w"
  unfolding prove_job_def proved_def by (auto simp: split: sum.splits prod.splits)

lemma unseal_step_wp:
  "wp (unseal_step env pid sealed) (\<lambda>d w'. unseal_job_payload (we_parse_float env) (we_vault env) (we_data_key env) sealed = Inr d \<and> w' = w\<lparr>w_decrypted := Some d\<rparr>)
    (\<lambda>e w'. db_jobs (w_db w') = db_jobs (w_db w) \<and> db_dlq (w_db w') = db_dlq (w_db w) \<and> db_audit (w_db w') = db_audit (w_db w) \<and> w_files w' = w_files w) w"
  by (simp add: unseal_step_def record_security_event_def append_security_event_def Let_def split: sum.splits)

lemma unsettled_same:
  "db_jobs (w_db w') = db_jobs (w_db w) \<Longrightarrow> db_dlq (w_db w') = db_dlq (w_db w) \<Longrightarrow> db_audit (w_db w') = db_audit (w_db w) \<Longrightarrow>
   unsettled pid w0 w \<Longrightarrow> unsettled pid w0 w'"
  by (simp add: unsettled_def same_job_def audit_grows_def letter_of_def get_proof_job_def)

lemma run_job_verdict:
  assumes q: "quiet env" and u: "unsettled pid w0 w"
  shows "wp (run_job env pid job) (\<lambda>_ w'. completed_verdict (we_sha256 env) pid w0 w') (\<lambda>e w'. unsettled pid w0 w') w"
proof -
  have cont: "wp (prove_job env job d) (\<lambda>x. wp (store_proof env pid job x) (\<lambda>_. completed_verdict (we_sha256 env) pid w0) (\<lambda>_. unsettled pid w0)) (\<lambda>_. unsettled pid w0) w1"
    if "unsettled pid w0 w1" for d w1
    by (rule wp_mono [OF prove_job_wp]) (use store_proof_verdict [OF q that] that in auto)
  show ?thesis
  proof (cases "pj_sealed_job_payload job")
    case None
    with u show ?thesis by (simp add: run_job_def)
  next
    case (Some sealed)
    have "wp (unseal_step env pid sealed) (\<lambda>d. if we_interrupt env = Some 1 then unsettled pid w0 else wp (prove_job env job d)
        (\<lambda>x. wp (store_proof env pid job x) (\<lambda>_. completed_verdict (we_sha256 env) pid w0) (\<lambda>_. unsettled pid w0)) (\<lambda>_. unsettled pid w0))
        (\<lambda>_. unsettled pid w0) w"
      by (rule wp_mono [OF unseal_step_wp]) (use u in \<open>auto intro!: cont intro: unsettled_same\<close>)
    with Some u show ?thesis by (simp add: run_job_def)
  qed
qed

lemma begin_attempt_wp:
  assumes q: "quiet env" and j: "get_proof_job pid (w_db w) = Some job"
  shows "wp (begin_attempt env pid job am) (\<lambda>job' w'. unsettled pid w w' \<and>
     job' = job_updated (we_now env 0) ''running'' None None None None (Some am) job \<and> get_proof_job pid (w_db w') = Some job' \<and> w_files w' = w_files w) E w"
  unfolding begin_attempt_def Let_def using j
  by (auto simp: verdict_simps unsettled_def row_of_event_def audit_of_def intro!: wp_audit_quiet [OF q])

definition delivered :: "worker_env \<Rightarrow> string \<Rightarrow> proof_job \<Rightarrow> worker_state \<Rightarrow> unit res \<Rightarrow> worker_state \<Rightarrow> bool" where
  "delivered env pid job w r w' =
     (case r of
        Inr _ \<Rightarrow> completed_verdict (we_sha256 env) pid w w' \<or>
           previous_attempts (pj_meta job) \<ge> we_max_attempts env \<and> failed_verdict pid ''max_attempts_exceeded''
             (exhausted_message env) w w' job
      | Inl e \<Rightarrow> failed_verdict pid (fst (failure_of env e)) (snd (failure_of env e)) w w' job)"

lemma handle_failure_verdict:
  assumes q: "quiet env" and am: "map fst am = [''attempt_count'', ''max_attempts'']" and id: "pj_proof_id job' = pid"
    and u: "unsettled pid w0 w" and s: "pj_sealed_job_payload job' = pj_sealed_job_payload job"
  shows "wp (handle_failure env pid job' am e) Q (\<lambda>e' w'. delivered env pid job w0 (Inl e') w') w"
proof -
  from u obtain rows where r: "audit_grows pid w0 rows w" and j: "same_job pid w0 w" by (auto simp: unsettled_def)
  have eq: "failed_verdict pid reason m w0 t job' = failed_verdict pid reason m w0 t job" for reason m t
    by (simp add: failed_verdict_def s)
  show ?thesis unfolding handle_failure_def case_pair wp_sthen wp_rules
    by (rule wp_mono [OF fail_job_verdict [OF q am id j r]]) (auto simp: delivered_def eq)
qed

lemma verdict_locals [simp]:
  "failed_verdict pid r m (w\<lparr>w_decrypted := x\<rparr>) = failed_verdict pid r m w"
  "completed_verdict (we_sha256 env) pid (w\<lparr>w_decrypted := x\<rparr>) = completed_verdict (we_sha256 env) pid w"
  by (simp_all add: failed_verdict_def completed_verdict_def same_job_def audit_grows_def fun_eq_iff)

lemma process_verdict:
  assumes q: "quiet env" and j: "get_proof_job pid (w_db w) = Some job" and st: "pj_status job = ''queued'' \<or> pj_status job = ''running''"
  shows "wp (process_proof_job env pid) (\<lambda>u w'. delivered env pid job w (Inr u) w') (\<lambda>e w'. delivered env pid job w (Inl e) w') w"
proof -
  let ?w = "w\<lparr>w_decrypted := None\<rparr>"
  obtain am ex where am: "next_attempt_metadata (pj_meta job) (we_max_attempts env) = (am, ex)" by fastforce
  note keys = attempt_keys [OF am]
  have id: "pj_proof_id job = pid" using get_proof_job_in [OF j] by simp
  have jw: "get_proof_job pid (w_db ?w) = Some job" using j by simp
  have d0: "delivered env pid job ?w = delivered env pid job w" unfolding delivered_def verdict_locals ..
  show ?thesis
  proof (cases ex)
    case True
    then have "previous_attempts (pj_meta job) \<ge> we_max_attempts env" using am by (auto simp: next_attempt_metadata_def Let_def)
    then have "wp (exhaust_job env pid job am) (\<lambda>u w'. delivered env pid job w (Inr u) w') (\<lambda>e w'. delivered env pid job w (Inl e) w') ?w"
      by (intro wp_mono [OF exhaust_job_verdict [OF q keys id jw]]) (auto simp: delivered_def)
    with True am j st show ?thesis by (auto simp: process_proof_job_def)
  next
    case False
    have "wp (scatch (run_job env pid job') (handle_failure env pid job' am)) (\<lambda>u w'. delivered env pid job w (Inr u) w')
        (\<lambda>e w'. delivered env pid job w (Inl e) w') w1"
      if "unsettled pid ?w w1" "job' = job_updated (we_now env 0) ''running'' None None None None (Some am) job" for job' w1
    proof -
      have "pj_proof_id job' = pid" "pj_sealed_job_payload job' = pj_sealed_job_payload job" using that(2) id by (simp_all add: job_updated_def)
      note h = handle_failure_verdict [OF q keys this(1) _ this(2), of ?w]
      show ?thesis unfolding wp_scatch
        by (rule wp_mono [OF run_job_verdict [OF q that(1)]]) (auto simp: h [unfolded d0] delivered_def [of _ _ _ _ "Inr _"])
    qed
    then have "wp (begin_attempt env pid job am) (\<lambda>job'. wp (scatch (run_job env pid job') (handle_failure env pid job' am))
        (\<lambda>u w'. delivered env pid job w (Inr u) w') (\<lambda>e w'. delivered env pid job w (Inl e) w')) (\<lambda>e w'. delivered env pid job w (Inl e) w') ?w"
      by (intro wp_mono [OF begin_attempt_wp [OF q jw]]) auto
    with False am j st show ?thesis by (auto simp: process_proof_job_def)
  qed
qed

section \<open>What a completed job means\<close>

lemma check_policy_run_Inr:
  assumes "check_policy_run env meta payload sigs valid = Inr patch" "dget meta ''policy_id'' = PStr pol" "pol \<noteq> []"
  shows "\<exists>man doc ref d. get_policy_manifest (we_policies env) pol = Inr man \<and> payload = PDict doc \<and>
    dget doc ''dual_track_reference'' = PDict ref \<and> dget ref ''decision'' = PStr (decision_text d) \<and>
    circuit_decision pol (pm_expected_attestation man) sigs valid = Inr d \<and>
    patch = Some [(''policy_version'', PStr (pm_policy_version man)), (''decision'', PStr (decision_text d))]"
proof -
  obtain c cs where pol: "pol = c # cs" using assms(3) by (cases pol) auto
  with assms(1,2) obtain man raw where m: "get_policy_manifest (we_policies env) pol = Inr man" "py_get payload ''dual_track_reference'' = Inr raw"
    by (auto simp: check_policy_run_def rbind_eq_Inr)
  then obtain doc where doc: "payload = PDict doc" "raw = dget doc ''dual_track_reference''" by (auto simp: py_get_def split: pyval.splits)
  from assms(1,2) pol m obtain ref where ref: "raw = PDict ref" by (auto simp: check_policy_run_def split: pyval.splits)
  from assms(1,2) pol m ref obtain outputs where o: "dget ref ''outputs'' = PDict outputs"
    by (cases "dget ref ''outputs''") (auto simp: check_policy_run_def rbind_eq_Inr)
  from assms(1,2) pol m ref o obtain dec c where
    dec: "reference_decision (dget ref ''decision'') = Inr dec"
    and c: "evaluate_circuit_track pol (pm_expected_attestation man) (pm_differential_outputs man) sigs valid = Inr c"
      "assert_dual_track_consistency pol \<lparr>dr_private_input = [], dr_decision = dec, dr_outputs = outputs\<rparr> c = Inr ()"
      "patch = Some [(''policy_version'', PStr (pm_policy_version man)), (''decision'', PStr (decision_text (dc_decision c)))]"
    by (auto simp: check_policy_run_def rbind_eq_Inr)
  from dec have "dget ref ''decision'' = PStr (decision_text dec)"
    by (auto simp: decision_text_def reference_decision_def split: pyval.splits if_splits)
  moreover from c(2) have "dec = dc_decision c" by (auto simp: assert_dual_track_consistency_def split: if_splits)
  moreover from c(1) have "circuit_decision pol (pm_expected_attestation man) sigs valid = Inr (dc_decision c)"
    by (auto simp: evaluate_circuit_track_def rbind_eq_Inr)
  ultimately show ?thesis using m(1) doc ref c(3) by blast
qed

lemma unverified_fails: "circuit_decision pol att sigs valid = Inr Pass \<Longrightarrow> valid"
  by (cases valid) (auto simp: circuit_decision_def)

definition completed_with ::
  "worker_env \<Rightarrow> string \<Rightarrow> proof_job \<Rightarrow> pydict \<Rightarrow> pyval list \<Rightarrow> pydict option \<Rightarrow> worker_state \<Rightarrow> bool" where
  "completed_with env pid job proof sigs patch w =
     (get_proof_job pid (w_db w) = Some (job_purged (we_now env 4) (job_updated (we_now env 3) ''completed'' (Some sigs) (Some proof)
        (Some (path_join (we_output_dir env) (pid @ ''.json''))) None patch job)) \<and>
      map_of (w_files w) (path_join (we_output_dir env) (pid @ ''.json'')) = Some (proof_document (we_now env 2) proof sigs))"

definition job_present :: "string \<Rightarrow> worker_state \<Rightarrow> bool" where
  "job_present pid w = (get_proof_job pid (w_db w) \<noteq> None)"

definition job_status_is :: "string \<Rightarrow> string \<Rightarrow> worker_state \<Rightarrow> bool" where
  "job_status_is pid s w = (\<exists>j. get_proof_job pid (w_db w) = Some j \<and> pj_status j = s)"

lemma store_proof_completed:
  assumes b: "bystanders env" and j: "get_proof_job pid (w_db w) = Some job"
  shows "wp (store_proof env pid job (p, s, m)) (\<lambda>_ w'. completed_with env pid job p s m w') (\<lambda>_. job_present pid) w"
proof (cases "we_write_error env")
  case None
  show ?thesis
    unfolding store_proof_def Let_def using j
    by (simp add: None case_pair job_present_def get_updated get_purged)
       (auto intro!: wp_audit_bystanders [OF b] simp: completed_with_def job_present_def get_updated get_purged)
next
  case (Some e)
  with j show ?thesis by (simp add: store_proof_def Let_def job_present_def)
qed

definition job_checked :: "worker_env \<Rightarrow> string \<Rightarrow> proof_job \<Rightarrow> worker_state \<Rightarrow> bool" where
  "job_checked env pid job w =
     (\<exists>sealed payload proof sigs patch.
        pj_sealed_job_payload job = Some sealed \<and>
        unseal_job_payload (we_parse_float env) (we_vault env) (we_data_key env) sealed = Inr payload \<and>
        proved env job payload (proof, sigs, patch) \<and> completed_with env pid job proof sigs patch w)"

lemma run_job_checked:
  assumes b: "bystanders env" and j: "get_proof_job pid (w_db w) = Some job"
  shows "wp (run_job env pid job) (\<lambda>_. job_checked env pid job) (\<lambda>_. job_present pid) w"
proof (cases "pj_sealed_job_payload job")
  case None
  with j show ?thesis by (simp add: run_job_def job_present_def)
next
  case (Some sealed)
  have "wp (prove_job env job d) (\<lambda>x. wp (store_proof env pid job x) (\<lambda>_. job_checked env pid job) (\<lambda>_. job_present pid)) (\<lambda>_. job_present pid) w1"
    if "get_proof_job pid (w_db w1) = Some job" "unseal_job_payload (we_parse_float env) (we_vault env) (we_data_key env) sealed = Inr d" for d w1
  proof (rule wp_mono [OF prove_job_wp], goal_cases)
    case (1 out t)
    obtain p s m where out: "out = (p, s, m)" by (cases out)
    with 1 that have "wp (store_proof env pid job out) (\<lambda>_ w'. completed_with env pid job p s m w') (\<lambda>_. job_present pid) t"
      using store_proof_completed [OF b] by simp
    then show ?case by (rule wp_mono) (use 1 out Some that(2) in \<open>auto simp: job_checked_def\<close>)
  qed (use that in \<open>simp add: job_present_def\<close>)
  then have "wp (unseal_step env pid sealed) (\<lambda>d. if we_interrupt env = Some 1 then job_present pid else wp (prove_job env job d)
        (\<lambda>x. wp (store_proof env pid job x) (\<lambda>_. job_checked env pid job) (\<lambda>_. job_present pid)) (\<lambda>_. job_present pid))
        (\<lambda>_. job_present pid) w"
    by (intro wp_mono [OF unseal_step_wp]) (use j in \<open>auto simp: job_present_def get_proof_job_def\<close>)
  with Some j show ?thesis by (simp add: run_job_def job_present_def)
qed

lemma handle_failure_status:
  assumes b: "bystanders env" and j: "job_present pid w"
  shows "wp (handle_failure env pid job am e) Q (\<lambda>_. job_status_is pid ''failed'') w"
  unfolding handle_failure_def fail_job_def Let_def record_dead_letter_job_def using j
  by (auto simp: case_pair job_present_def get_updated get_purged get_job_frames job_status_is_def job_purged_def job_updated_def
       intro!: wp_audit_bystanders [OF b])

definition started_job :: "worker_env \<Rightarrow> proof_job \<Rightarrow> proof_job" where
  "started_job env job = job_updated (we_now env 0) ''running'' None None None None
     (Some (fst (next_attempt_metadata (pj_meta job) (we_max_attempts env)))) job"

lemma process_checked:
  assumes b: "bystanders env" and j: "get_proof_job pid (w_db w) = Some job" and st: "pj_status job = ''queued'' \<or> pj_status job = ''running''"
  shows "wp (process_proof_job env pid) (\<lambda>_ w'. job_checked env pid (started_job env job) w' \<or> job_status_is pid ''failed'' w')
    (\<lambda>_ w'. job_status_is pid ''failed'' w' \<or> job_status_is pid ''running'' w') w"
proof -
  let ?w = "w\<lparr>w_decrypted := None\<rparr>"
  obtain am ex where am: "next_attempt_metadata (pj_meta job) (we_max_attempts env) = (am, ex)" by fastforce
  show ?thesis
  proof (cases ex)
    case True
    have "wp (exhaust_job env pid job am) (\<lambda>_. job_status_is pid ''failed'') (\<lambda>_. job_status_is pid ''failed'') ?w"
      unfolding exhaust_job_def Let_def record_dead_letter_job_def using j
      by (auto simp: case_pair get_updated get_purged get_job_frames job_status_is_def job_purged_def job_updated_def
            intro!: wp_audit_bystanders [OF b])
    then have "wp (exhaust_job env pid job am) (\<lambda>_ w'. job_checked env pid (started_job env job) w' \<or> job_status_is pid ''failed'' w')
      (\<lambda>_ w'. job_status_is pid ''failed'' w' \<or> job_status_is pid ''running'' w') ?w" by (rule wp_mono) auto
    with True am j st show ?thesis by (auto simp: process_proof_job_def)
  next
    case False
    have "wp (scatch (run_job env pid (started_job env job)) (handle_failure env pid (started_job env job) am))
        (\<lambda>_ w'. job_checked env pid (started_job env job) w' \<or> job_status_is pid ''failed'' w')
        (\<lambda>_ w'. job_status_is pid ''failed'' w' \<or> job_status_is pid ''running'' w') w1"
      if "get_proof_job pid (w_db w1) = Some (started_job env job)" for w1
      unfolding wp_scatch
      by (rule wp_mono [OF run_job_checked [OF b that]])
         (auto intro: wp_mono [OF handle_failure_status [OF b]])
    moreover have "job_status_is pid ''running'' w1" if "get_proof_job pid (w_db w1) = Some (started_job env job)" for w1
      using that by (simp add: job_status_is_def started_job_def job_updated_def)
    moreover have "job_updated (we_now env 0) ''running'' None None None None (Some am) job = started_job env job"
      by (simp add: started_job_def am)
    ultimately have "wp (begin_attempt env pid job am) (\<lambda>job'. wp (scatch (run_job env pid job') (handle_failure env pid job' am))
        (\<lambda>_ w'. job_checked env pid (started_job env job) w' \<or> job_status_is pid ''failed'' w')
        (\<lambda>_ w'. job_status_is pid ''failed'' w' \<or> job_status_is pid ''running'' w'))
        (\<lambda>_ w'. job_status_is pid ''failed'' w' \<or> job_status_is pid ''running'' w') ?w"
      unfolding begin_attempt_def Let_def using j
      by (auto simp: case_pair get_updated fst_updated intro!: wp_audit_bystanders [OF b] simp del: wp_scatch)
    with False am j st show ?thesis by (auto simp: process_proof_job_def simp del: wp_scatch)
  qed
qed

lemma started_job_same:
  "pj_sealed_job_payload (started_job env job) = pj_sealed_job_payload job" "pj_circuit_id (started_job env job) = pj_circuit_id job"
  by (auto simp: started_job_def job_updated_def)

lemma started_job_input: "private_input_of (started_job env job) = private_input_of job"
  unfolding private_input_of_def started_job_same ..

lemma started_job_meta:
  "k \<noteq> ''attempt_count'' \<Longrightarrow> k \<noteq> ''max_attempts'' \<Longrightarrow> dget (pj_meta (started_job env job)) k = dget (pj_meta job) k"
  by (simp add: started_job_def job_updated_def next_attempt_metadata_def Let_def)

lemma process_skips:
  assumes "\<And>job. get_proof_job pid (w_db w) = Some job \<Longrightarrow> pj_status job \<noteq> ''queued'' \<and> pj_status job \<noteq> ''running''"
  shows "process_proof_job env pid w = (Inr (), w\<lparr>w_decrypted := None\<rparr>)"
  using assms by (auto simp: process_proof_job_def sthen_def sbind_def prog_defs split: option.splits)

text \<open>
  A delivery whose worker is killed after the attempt was counted and before the verdict: the job row is as
  \<open>begin_attempt\<close> left it.
\<close>

definition crashed_delivery :: "worker_env \<Rightarrow> string \<Rightarrow> worker_state \<Rightarrow> worker_state" where
  "crashed_delivery env pid w =
     (case get_proof_job pid (w_db w) of
        None \<Rightarrow> w
      | Some job \<Rightarrow> snd (begin_attempt env pid job (fst (next_attempt_metadata (pj_meta job) (we_max_attempts env))) w))"

lemma crashed_delivery_job:
  assumes "quiet env" "get_proof_job pid (w_db w) = Some job"
  shows "get_proof_job pid (w_db (crashed_delivery env pid w)) = Some (started_job env job)"
proof -
  let ?am = "fst (next_attempt_metadata (pj_meta job) (we_max_attempts env))"
  have "wp (begin_attempt env pid job ?am) (\<lambda>job' w'. get_proof_job pid (w_db w') = Some (started_job env job)) (\<lambda>_ _. False) w"
    by (rule wp_mono [OF begin_attempt_wp [OF assms]]) (auto simp: started_job_def)
  then show ?thesis using assms(2) by (auto simp: crashed_delivery_def wp_def split: prod.splits sum.splits)
qed

lemma started_attempts: "previous_attempts (pj_meta (started_job env job)) = previous_attempts (pj_meta job) + 1"
  using previous_attempts_dupdate [of "pj_meta job" "we_max_attempts env"]
  by (cases "next_attempt_metadata (pj_meta job) (we_max_attempts env)") (auto simp: started_job_def job_updated_def)

lemma crashes_count:
  assumes "quiet env" "get_proof_job pid (w_db w) = Some job"
  shows "\<exists>job'. get_proof_job pid (w_db ((crashed_delivery env pid ^^ n) w)) = Some job' \<and>
    previous_attempts (pj_meta job') = previous_attempts (pj_meta job) + int n \<and> pj_sealed_job_payload job' = pj_sealed_job_payload job \<and>
    (pj_status job = ''queued'' \<or> pj_status job = ''running'' \<longrightarrow> pj_status job' = ''queued'' \<or> pj_status job' = ''running'')"
proof (induction n)
  case 0
  with assms show ?case by simp
next
  case (Suc n)
  then obtain job' where j: "get_proof_job pid (w_db ((crashed_delivery env pid ^^ n) w)) = Some job'"
    "previous_attempts (pj_meta job') = previous_attempts (pj_meta job) + int n" "pj_sealed_job_payload job' = pj_sealed_job_payload job" by blast
  from crashed_delivery_job [OF assms(1) j(1)] j(2,3) show ?case
    by (simp add: started_attempts started_job_same) (simp add: started_job_def job_updated_def)
qed

lemma exhausted_delivery:
  assumes "quiet env" "get_proof_job pid (w_db w) = Some job" "pj_status job = ''queued'' \<or> pj_status job = ''running''"
    and "we_max_attempts env \<le> previous_attempts (pj_meta job)" "process_proof_job env pid w = (r, w')"
  shows "r = Inr () \<and> w_files w' = w_files w \<and>
    (\<exists>job'. get_proof_job pid (w_db w') = Some job' \<and> pj_status job' = ''failed'' \<and>
       dget (pj_meta job') ''failure_reason'' = PStr ''max_attempts_exceeded'')"
proof -
  obtain am ex where am: "next_attempt_metadata (pj_meta job) (we_max_attempts env) = (am, ex)" by fastforce
  then have ex: "ex" using assms(4) by (auto simp: next_attempt_metadata_def Let_def)
  have id: "pj_proof_id job = pid" using get_proof_job_in [OF assms(2)] by simp
  have "wp (process_proof_job env pid) (\<lambda>_ t. failed_verdict pid ''max_attempts_exceeded'' (exhausted_message env) (w\<lparr>w_decrypted := None\<rparr>) t job \<and>
      w_files t = w_files w) (\<lambda>_ _. False) w"
    using exhaust_job_verdict [OF assms(1) attempt_keys [OF am] id, of "w\<lparr>w_decrypted := None\<rparr>"] assms(2,3) am ex
    by (auto simp: process_proof_job_def)
  from wp_run [OF this assms(5)] show ?thesis by (cases r) (auto simp: failed_verdict_def)
qed

section \<open>Properties\<close>

text \<open>
  C7. Every delivery of a waiting job ends in a verdict, as long as the audit log takes its events: no other
  writer interferes and the audit signer answers (\<open>quiet\<close>). Whatever else fails, the prover, the decryption of
  the payload, the schema, the policy or the time limit: the job is completed
  or failed, its sealed payload is purged, no other job changes, and the audit log grew by events of this job,
  the last of which has the status of the job and, when it completed, the stored signals and the hash of the
  stored proof. A failed job has an open dead-letter row with its reason,
  its message, their triage, and the sealed payload for a rerun; a job fails with
  \<open>max_attempts_exceeded\<close> only when its attempts are used up.
\<close>

theorem delivery_reaches_verdict:
  assumes "quiet env" "get_proof_job pid (w_db w) = Some job" "pj_status job = ''queued'' \<or> pj_status job = ''running''"
    and "process_proof_job env pid w = (r, w')"
  shows "(\<exists>reason message. failed_verdict pid reason message w w' job \<and>
           (reason = ''max_attempts_exceeded'' \<longrightarrow> previous_attempts (pj_meta job) \<ge> we_max_attempts env) \<and>
           (reason = ''max_attempts_exceeded'' \<and> r = Inr () \<or> (\<exists>e. r = Inl e \<and> failure_of env e = (reason, message)))) \<or>
         completed_verdict (we_sha256 env) pid w w' \<and> r = Inr ()"
proof -
  from wp_run [OF process_verdict [OF assms(1-3)] assms(4)] have d: "delivered env pid job w r w'" by (cases r) auto
  show ?thesis
  proof (cases r)
    case (Inl e)
    have "fst (failure_of env e) \<noteq> ''max_attempts_exceeded''" by (simp add: failure_of_def)
    with d Inl show ?thesis
      by (intro disjI1 exI [of _ "fst (failure_of env e)"] exI [of _ "snd (failure_of env e)"]) (simp add: delivered_def)
  next
    case (Inr u)
    with d show ?thesis by (auto simp: delivered_def)
  qed
qed

text \<open>
  What a failing audit signer does: the event of the transition to \<open>running\<close> is signed before the \<open>try\<close> block, so
  the delivery raises and leaves the job running, its payload sealed, without a dead letter or an audit entry.
\<close>

definition signer_down :: "worker_env \<Rightarrow> bool" where
  "signer_down env = (\<forall>p. \<not> is_ok (vault_sign (we_vault env) (we_audit_key env) p))"

lemma audit_unsigned:
  assumes "signer_down env"
  shows "\<exists>x. audit env k e w = (Inl x, w)"
proof -
  let ?t = "event_hash (we_sha256 env) (floor_second (we_audit_clock env k 0)) (latest_hash (get_latest_audit_row (w_db w))) e"
  from assms obtain x where "vault_sign (we_vault env) (we_audit_key env) ?t = Inl x"
    by (cases "vault_sign (we_vault env) (we_audit_key env) ?t") (auto simp: signer_down_def is_ok_iff)
  then have "append_event (we_sha256 env) (we_vault env) (we_audit_key env) (we_audit_clock env k) (we_others env k) e (w_db w) = (Inl x, w_db w)"
    by (simp add: append_event_def max_append_attempts_def numeral_eq_Suc Let_def)
  then show ?thesis by (simp add: audit_def)
qed

lemma unsigned_delivery_strands_job:
  assumes "signer_down env" "get_proof_job pid (w_db w) = Some job" "pj_status job = ''queued'' \<or> pj_status job = ''running''"
    and "previous_attempts (pj_meta job) < we_max_attempts env" "process_proof_job env pid w = (r, w')"
  shows "(\<exists>e. r = Inl e) \<and> (\<exists>job'. get_proof_job pid (w_db w') = Some job' \<and> pj_status job' = ''running'' \<and>
      pj_sealed_job_payload job' = pj_sealed_job_payload job) \<and> db_dlq (w_db w') = db_dlq (w_db w) \<and> db_audit (w_db w') = db_audit (w_db w)"
proof -
  obtain am where am: "next_attempt_metadata (pj_meta job) (we_max_attempts env) = (am, False)"
    using assms(4) by (auto simp: next_attempt_metadata_def Let_def)
  let ?db = "snd (update_proof_job (we_now env 0) pid ''running'' None None None None (Some am) (w_db w))"
  let ?w = "w\<lparr>w_decrypted := None, w_db := ?db\<rparr>"
  have "on_db (update_proof_job (we_now env 0) pid ''running'' None None None None (Some am)) (w\<lparr>w_decrypted := None\<rparr>) =
      (Inr (fst (update_proof_job (we_now env 0) pid ''running'' None None None None (Some am) (w_db w))), ?w)"
    by (simp add: on_db_def case_prod_beta)
  moreover have "\<exists>X. \<forall>e. audit env 1 e ?w = (Inl (X e), ?w)"
    using audit_unsigned [OF assms(1)] by (intro choice) blast
  then obtain X where "audit env 1 e ?w = (Inl (X e), ?w)" for e by blast
  ultimately have "\<exists>x. begin_attempt env pid job am (w\<lparr>w_decrypted := None\<rparr>) = (Inl x, ?w)"
    by (simp add: begin_attempt_def sbind_def sthen_def Let_def)
  then obtain x where b: "begin_attempt env pid job am (w\<lparr>w_decrypted := None\<rparr>) = (Inl x, ?w)" by blast
  have "process_proof_job env pid w = (Inl x, ?w)"
    using assms(2,3) am b by (auto simp: process_proof_job_def sthen_def sbind_def prog_defs)
  moreover have "get_proof_job pid ?db = Some (job_updated (we_now env 0) ''running'' None None None None (Some am) job)"
    using assms(2) by (simp add: get_updated)
  moreover have "db_dlq ?db = db_dlq (w_db w)" "db_audit ?db = db_audit (w_db w)"
    by (simp_all add: update_proof_job_def map_job_def split: option.splits)
  ultimately show ?thesis using assms(5) by (auto simp: job_updated_def)
qed

text \<open>
  C6. A completed job was proved, and the provider answered its verification. Whenever a delivery leaves a job
  completed, also with a failing audit signer, its sealed payload was decrypted, the private input satisfies the
  schema of the circuit, the stored proof, signals and file are those the provider generated, and the provider's
  verification of them returned. What it returned counts only for a policy run: there the reference track and the
  circuit track agree, the recorded decision is the reference
  decision of the sealed payload and the decision read from the public signals, and it is \<open>pass\<close> only if the
  proof verified. A batch job is completed with a proof that verification rejected, too.
\<close>

theorem completed_job_checked:
  assumes "bystanders env" "get_proof_job pid (w_db w) = Some job" "pj_status job = ''queued'' \<or> pj_status job = ''running''"
    and "process_proof_job env pid w = (r, w')" "get_proof_job pid (w_db w') = Some job'" "pj_status job' = ''completed''"
  shows "\<exists>sealed payload inp man proof sigs valid.
    pj_sealed_job_payload job = Some sealed \<and> pj_sealed_job_payload job' = None \<and>
    unseal_job_payload (we_parse_float env) (we_vault env) (we_data_key env) sealed = Inr payload \<and>
    private_input_of job payload = Inr inp \<and> get_circuit_manifest (we_circuits env) (pj_circuit_id job) = Inr man \<and>
    validate_private_input_schema (we_schema_lib env) (cm_input_schema man) inp = Inr () \<and>
    engine_generate (we_interp_text env) (we_invalid_text env) (we_circuits env) (we_provider env) (pj_circuit_id job) inp = Inr (proof, sigs) \<and>
    engine_verify (we_interp_text env) (we_circuits env) (we_provider env) (pj_circuit_id job) proof sigs = Inr valid \<and>
    pj_proof job' = JsonVal (PDict proof) \<and> pj_public_signals job' = JsonVal (PList sigs) \<and>
    map_of (w_files w') (path_join (we_output_dir env) (pid @ ''.json'')) = Some (proof_document (we_now env 2) proof sigs) \<and>
    (\<forall>pol. dget (pj_meta job) ''policy_id'' = PStr pol \<and> pol \<noteq> [] \<longrightarrow>
       (\<exists>pm doc ref d. get_policy_manifest (we_policies env) pol = Inr pm \<and> payload = PDict doc \<and>
          dget doc ''dual_track_reference'' = PDict ref \<and> dget ref ''decision'' = PStr (decision_text d) \<and>
          dget (pj_meta job') ''decision'' = PStr (decision_text d) \<and>
          circuit_decision pol (pm_expected_attestation pm) sigs valid = Inr d \<and> (d = Pass \<longrightarrow> valid)))"
proof -
  have "\<not> job_status_is pid s w'" if "s \<noteq> ''completed''" for s using assms(5,6) that by (simp add: job_status_is_def)
  with wp_run [OF process_checked [OF assms(1-3)] assms(4)] have "job_checked env pid (started_job env job) w'"
    by (cases r) auto
  then obtain sealed payload proof' sigs patch where c: "pj_sealed_job_payload job = Some sealed"
    "unseal_job_payload (we_parse_float env) (we_vault env) (we_data_key env) sealed = Inr payload"
    "proved env (started_job env job) payload (proof', sigs, patch)"
    "completed_with env pid (started_job env job) proof' sigs patch w'"
    by (auto simp: job_checked_def started_job_same)
  from c(3) obtain inp man valid where p: "private_input_of job payload = Inr inp"
    "get_circuit_manifest (we_circuits env) (pj_circuit_id job) = Inr man"
    "validate_private_input_schema (we_schema_lib env) (cm_input_schema man) inp = Inr ()"
    "engine_generate (we_interp_text env) (we_invalid_text env) (we_circuits env) (we_provider env) (pj_circuit_id job) inp = Inr (proof', sigs)"
    "engine_verify (we_interp_text env) (we_circuits env) (we_provider env) (pj_circuit_id job) proof' sigs = Inr valid"
    "check_policy_run env (pj_meta (started_job env job)) payload sigs valid = Inr patch"
    by (auto simp: proved_def started_job_same started_job_input)
  have job': "job' = job_purged (we_now env 4) (job_updated (we_now env 3) ''completed'' (Some sigs) (Some proof')
        (Some (path_join (we_output_dir env) (pid @ ''.json''))) None patch (started_job env job))"
    using c(4) assms(5) by (simp add: completed_with_def)
  have dec: "\<exists>pm doc ref d. get_policy_manifest (we_policies env) pol = Inr pm \<and> payload = PDict doc \<and>
          dget doc ''dual_track_reference'' = PDict ref \<and> dget ref ''decision'' = PStr (decision_text d) \<and>
          dget (pj_meta job') ''decision'' = PStr (decision_text d) \<and>
          circuit_decision pol (pm_expected_attestation pm) sigs valid = Inr d \<and> (d = Pass \<longrightarrow> valid)"
    if "dget (pj_meta job) ''policy_id'' = PStr pol" "pol \<noteq> []" for pol
  proof -
    have "dget (pj_meta (started_job env job)) ''policy_id'' = PStr pol" using that(1) by (simp add: started_job_meta)
    from check_policy_run_Inr [OF p(6) this that(2)] obtain pm doc ref d where
      q: "get_policy_manifest (we_policies env) pol = Inr pm" "payload = PDict doc"
        "dget doc ''dual_track_reference'' = PDict ref" "dget ref ''decision'' = PStr (decision_text d)"
        "circuit_decision pol (pm_expected_attestation pm) sigs valid = Inr d"
        "patch = Some [(''policy_version'', PStr (pm_policy_version pm)), (''decision'', PStr (decision_text d))]" by blast
    moreover have "dget (pj_meta job') ''decision'' = PStr (decision_text d)"
      by (simp add: job' q(6) job_purged_def job_updated_def)
    ultimately show ?thesis using unverified_fails by blast
  qed
  have "map_of (w_files w') (path_join (we_output_dir env) (pid @ ''.json'')) = Some (proof_document (we_now env 2) proof' sigs)"
    using c(4) by (simp add: completed_with_def)
  moreover have "pj_sealed_job_payload job' = None" "pj_proof job' = JsonVal (PDict proof')" "pj_public_signals job' = JsonVal (PList sigs)"
    by (simp_all add: job' job_purged_def job_updated_def)
  ultimately show ?thesis using c(1,2) p(1-5) dec by blast
qed

text \<open>
  C34. Redelivery is harmless. Once a delivery has ended, delivering the same job again, in any
  environment, changes nothing.
\<close>

theorem redelivery_harmless:
  assumes "quiet env" "get_proof_job pid (w_db w) = Some job" "process_proof_job env pid w = (r, w')"
  shows "process_proof_job env' pid w' = (Inr (), w'\<lparr>w_decrypted := None\<rparr>)"
proof (rule process_skips)
  fix j assume j: "get_proof_job pid (w_db w') = Some j"
  show "pj_status j \<noteq> ''queued'' \<and> pj_status j \<noteq> ''running''"
  proof (cases "pj_status job = ''queued'' \<or> pj_status job = ''running''")
    case True
    from wp_run [OF process_verdict [OF assms(1,2) True] assms(3)] have "delivered env pid job w r w'" by (cases r) auto
    with j show ?thesis by (cases r) (auto simp: delivered_def completed_verdict_def failed_verdict_def)
  next
    case False
    then have "process_proof_job env pid w = (Inr (), w\<lparr>w_decrypted := None\<rparr>)" using assms(2) by (intro process_skips) auto
    with assms(2,3) j False show ?thesis by auto
  qed
qed

text \<open>
  C33. Retrying terminates. However often workers are killed in the middle of a job, each delivery counts an
  attempt first, so after as many crashes as attempts remain the next delivery does not prove any more:
  it fails the job with \<open>max_attempts_exceeded\<close> and writes no proof file.
\<close>

theorem retrying_terminates:
  assumes "quiet env" "get_proof_job pid (w_db w) = Some job" "pj_status job = ''queued'' \<or> pj_status job = ''running''"
    and "n = nat (we_max_attempts env - previous_attempts (pj_meta job))"
    and "process_proof_job env pid ((crashed_delivery env pid ^^ n) w) = (r, w')"
  shows "r = Inr () \<and> w_files w' = w_files ((crashed_delivery env pid ^^ n) w) \<and>
    (\<exists>job'. get_proof_job pid (w_db w') = Some job' \<and> pj_status job' = ''failed'' \<and>
       dget (pj_meta job') ''failure_reason'' = PStr ''max_attempts_exceeded'')"
proof -
  let ?w = "(crashed_delivery env pid ^^ n) w"
  from crashes_count [OF assms(1,2), of n] assms(3) obtain job' where
    j: "get_proof_job pid (w_db ?w) = Some job'" "previous_attempts (pj_meta job') = previous_attempts (pj_meta job) + int n"
      "pj_status job' = ''queued'' \<or> pj_status job' = ''running''" by blast
  have "we_max_attempts env \<le> previous_attempts (pj_meta job')" unfolding j(2) assms(4) by linarith
  from exhausted_delivery [OF assms(1) j(1,3) this assms(5)] show ?thesis .
qed

section \<open>A job that completes\<close>

text \<open>A job that completes: nothing interferes and every step succeeds.\<close>

lemma prove_job_proved:
  assumes "we_interrupt env = None" "proved env job d out"
  shows "wp (prove_job env job d) (\<lambda>o' w'. o' = out \<and> w' = w) (\<lambda>_ _. False) w"
  using assms unfolding prove_job_def proved_def by (auto split: prod.splits)

lemma honest_job_completes:
  assumes q: "quiet env" and j: "get_proof_job pid (w_db w) = Some job" and st: "pj_status job = ''queued'' \<or> pj_status job = ''running''"
    and n: "we_interrupt env = None" "we_write_error env = None" "previous_attempts (pj_meta job) < we_max_attempts env"
    and s: "pj_sealed_job_payload job = Some sealed" "unseal_job_payload (we_parse_float env) (we_vault env) (we_data_key env) sealed = Inr d"
    and p: "proved env (started_job env job) d out"
  shows "fst (process_proof_job env pid w) = Inr () \<and> completed_verdict (we_sha256 env) pid w (snd (process_proof_job env pid w))"
proof -
  let ?w = "w\<lparr>w_decrypted := None\<rparr>" and ?j = "started_job env job"
  obtain am ex where am: "next_attempt_metadata (pj_meta job) (we_max_attempts env) = (am, ex)" by fastforce
  with n(3) have ex: "\<not> ex" by (auto simp: next_attempt_metadata_def Let_def)
  have jw: "get_proof_job pid (w_db ?w) = Some job" using j by simp
  have st': "wp (store_proof env pid ?j out) (\<lambda>_. completed_verdict (we_sha256 env) pid ?w) (\<lambda>_ _. False) w1" if "unsettled pid ?w w1" for w1
  proof -
    obtain p s m where out: "out = (p, s, m)" by (cases out)
    from that obtain jw rows where jw: "get_proof_job pid (w_db w1) = Some jw" and r: "audit_grows pid ?w rows w1"
      by (auto simp: unsettled_def same_job_def)
    show ?thesis
      unfolding store_proof_def Let_def out using that jw r
      by (auto simp: case_pair n verdict_simps unsettled_def row_of_event_def audit_of_def
          intro!: wp_audit_quiet [OF q] completed_verdictI [where rows = rows])
  qed
  have run: "wp (run_job env pid ?j) (\<lambda>_. completed_verdict (we_sha256 env) pid ?w) (\<lambda>_ _. False) w1" if "unsettled pid ?w w1" for w1
  proof -
    have u: "unsettled pid ?w (w1\<lparr>w_decrypted := Some d\<rparr>)" using that by (auto intro: unsettled_same)
    have "wp (prove_job env ?j d) (\<lambda>x. wp (store_proof env pid ?j x) (\<lambda>_. completed_verdict (we_sha256 env) pid ?w) (\<lambda>_ _. False)) (\<lambda>_ _. False) (w1\<lparr>w_decrypted := Some d\<rparr>)"
      by (rule wp_mono [OF prove_job_proved [OF n(1) p]]) (use st' [OF u] in auto)
    then show ?thesis by (simp add: run_job_def n s started_job_same unseal_step_def)
  qed
  have "wp (begin_attempt env pid job am) (\<lambda>job'. wp (scatch (run_job env pid job') (handle_failure env pid job' am)) (\<lambda>_. completed_verdict (we_sha256 env) pid ?w) (\<lambda>_ _. False))
      (\<lambda>_ _. False) ?w"
    by (rule wp_mono [OF begin_attempt_wp [OF q jw]]) (auto simp: started_job_def am intro: wp_mono [OF run [unfolded started_job_def am fst_conv]])
  then have "wp (process_proof_job env pid) (\<lambda>_. completed_verdict (we_sha256 env) pid w) (\<lambda>_ _. False) w"
    using j st am ex by (auto simp: process_proof_job_def)
  then show ?thesis by (auto simp: wp_def split: prod.splits sum.splits)
qed

section \<open>Witnesses\<close>

definition demo_payload :: pydict where
  "demo_payload = sealed_document [] (Some [(''x'', PInt 1)])
     (Some [(''decision'', PStr ''pass''), (''outputs'', PDict [(''ok'', PBool True)])]) None"

definition demo_sealed :: string where
  "demo_sealed = ''vault:v1:'' @ b64encode (canonical_json (PDict demo_payload))"

definition demo_policy :: policy_manifest where
  "demo_policy = \<lparr>pm_policy_id = ''pol'', pm_policy_version = ''1'', pm_circuit_id = ''c'', pm_description = None, pm_input_contract = [],
     pm_evidence_contract = [], pm_reference_policy = ''ref'', pm_primitives = [''SafeSub''],
     pm_differential_outputs = [(''ok'', \<lparr>do_signal_index = PInt 0, do_value_type = PStr ''bool''\<rparr>)],
     pm_compiler_metadata = [], pm_expected_attestation = []\<rparr>"

definition demo_worker :: worker_env where
  "demo_worker = \<lparr>we_interp_text = (\<lambda>_. ''error''), we_invalid_text = ''invalid'', we_parse_float = (\<lambda>_. PNone), we_sha256 = (\<lambda>s. s),
     we_vault = demo_server, we_data_key = ''data'', we_audit_key = ''audit'', we_max_attempts = 3, we_soft_limit = 60, we_output_dir = ''out'',
     we_now = int, we_audit_clock = (\<lambda>_ _. 0), we_others = (\<lambda>_ _ db. db), we_events_available = True,
     we_circuits = [(''c'', demo_circuit)], we_policies = [(''pol'', demo_policy)], we_policy_spec = (\<lambda>_. None),
     we_schema_lib = \<lparr>sl_check_schema = \<lambda>_. None, sl_iter_errors = \<lambda>_ _. []\<rparr>,
     we_provider = \<lparr>pp_ensure_artifacts = \<lambda>_. Inr (), pp_generate_proof = \<lambda>_ _. Inr (PDict [(''a'', PInt 1)], PList [PStr ''1'']),
                    pp_verify_proof = \<lambda>_ _ _. Inr True\<rparr>,
     we_write_error = None, we_interrupt = None\<rparr>"

definition demo_job :: proof_job where
  "demo_job = \<lparr>pj_proof_id = ''p'', pj_circuit_id = ''c'', pj_status = ''queued'', pj_sealed_job_payload = Some demo_sealed,
     pj_input_fingerprint = ''f'', pj_input_summary = [], pj_sealed_purged_at = None, pj_public_signals = SqlNull, pj_proof = SqlNull,
     pj_proof_path = None, pj_error = None, pj_meta = [(''policy_id'', PStr ''pol'')], pj_created_at = 0, pj_updated_at = 0\<rparr>"

definition demo_start :: worker_state where
  "demo_start = \<lparr>w_db = empty_database\<lparr>db_jobs := [demo_job]\<rparr>, w_files = [], w_decrypted = None\<rparr>"

lemma demo_get: "get_proof_job ''p'' (w_db demo_start) = Some demo_job"
  by (simp add: demo_start_def get_proof_job_def find_job_def demo_job_def)

lemma demo_quiet: "quiet demo_worker"
proof -
  have "vault_sign demo_server ''audit'' p = Inr \<lparr>sig_raw = ''sig'', sig_encoded = transit_text 3 ''sig'', sig_key_version = show_nat 3\<rparr>" for p
    using decode_transit [of "''sig''" 3] by (simp add: vault_sign_def demo_server_def)
  then show ?thesis by (simp add: quiet_def demo_worker_def)
qed

lemma demo_unseal:
  "unseal_job_payload (we_parse_float demo_worker) (we_vault demo_worker) (we_data_key demo_worker) demo_sealed = Inr (canon (PDict demo_payload))"
proof (unfold demo_payload_def, rule unseal_seal)
  show "seals (we_vault demo_worker) (we_data_key demo_worker)"
    by (simp add: seals_def demo_worker_def demo_server_def removeprefix_def startswith_def)
  show "seal_job_payload (we_vault demo_worker) (we_data_key demo_worker) [] (Some [(''x'', PInt 1)])
      (Some [(''decision'', PStr ''pass''), (''outputs'', PDict [(''ok'', PBool True)])]) None = Inr demo_sealed"
    by (simp add: seal_job_payload_def vault_encrypt_def demo_worker_def demo_server_def demo_sealed_def demo_payload_def canonical_json_bytes_def)
qed (auto simp: sealed_document_def opt_dict_def)

lemma demo_proved_document:
  assumes doc: "dget d ''dual_track_reference'' = PDict [(''decision'', PStr ''pass''), (''outputs'', PDict [(''ok'', PBool True)])]"
    "dget d ''private_input'' = PDict [(''x'', PInt 1)]"
    and job: "pj_circuit_id job = ''c''" "dget (pj_meta job) ''policy_id'' = PStr ''pol''"
  shows "proved demo_worker job (PDict d) ([(''a'', PInt 1)], [PStr ''1''], Some [(''policy_version'', PStr ''1''), (''decision'', PStr ''pass'')])"
proof -
  have ev: "evaluate_circuit_track ''pol'' [] [(''ok'', \<lparr>do_signal_index = PInt 0, do_value_type = PStr ''bool''\<rparr>)] [PStr ''1''] True =
      Inr \<lparr>dc_decision = Pass, dc_outputs = [(''ok'', PBool True)]\<rparr>" by code_simp
  have "check_policy_run demo_worker (pj_meta job) (PDict d) [PStr ''1''] True =
      Inr (Some [(''policy_version'', PStr ''1''), (''decision'', PStr ''pass'')])"
    unfolding check_policy_run_def job
    using ev doc by (simp add: get_policy_manifest_def demo_worker_def py_get_def reference_decision_def demo_policy_def
      assert_dual_track_consistency_def decision_text_def)
  moreover have "private_input_of job (PDict d) = Inr [(''x'', PInt 1)]"
    using doc job by (simp add: private_input_of_def py_get_def DEFAULT_BATCH_CIRCUIT_ID_def)
  moreover have man: "get_circuit_manifest (we_circuits demo_worker) ''c'' = Inr demo_circuit"
    by (simp add: demo_worker_def get_circuit_manifest_def)
  moreover have "validate_private_input_schema (we_schema_lib demo_worker) s i = Inr ()" for s i
    by (simp add: demo_worker_def validate_private_input_schema_def)
  moreover have ens: "ensure_artifacts tx (we_circuits demo_worker) (we_provider demo_worker) ''c'' = Inr ()" for tx
    using man by (simp add: ensure_artifacts_def) (simp add: demo_worker_def)
  have "engine_generate tx i (we_circuits demo_worker) (we_provider demo_worker) ''c'' inp = Inr ([(''a'', PInt 1)], [PStr ''1''])"
    "engine_verify tx (we_circuits demo_worker) (we_provider demo_worker) ''c'' q s = Inr True" for tx i inp q s
    by (simp_all add: engine_generate_def engine_verify_def ens) (simp_all add: demo_worker_def proof_generation_result_def)
  ultimately show ?thesis using job by (simp add: proved_def) (rule exI [of _ True], simp)
qed

lemma demo_proved:
  "proved demo_worker (started_job demo_worker demo_job) (canon (PDict demo_payload))
     ([(''a'', PInt 1)], [PStr ''1''], Some [(''policy_version'', PStr ''1''), (''decision'', PStr ''pass'')])"
proof -
  have c: "canon (PDict demo_payload) = PDict [(''dual_track_reference'', PDict [(''decision'', PStr ''pass''), (''outputs'', PDict [(''ok'', PBool True)])]),
      (''policy_parameters'', PNone), (''private_input'', PDict [(''x'', PInt 1)]), (''request_payload'', PDict [])]" by code_simp
  show ?thesis unfolding c
    by (rule demo_proved_document) (simp_all add: started_job_same started_job_meta, simp_all add: demo_job_def)
qed

lemma demo_completes:
  "fst (process_proof_job demo_worker ''p'' demo_start) = Inr () \<and>
   completed_verdict (we_sha256 demo_worker) ''p'' demo_start (snd (process_proof_job demo_worker ''p'' demo_start))"
  by (rule honest_job_completes [OF demo_quiet demo_get _ _ _ _ _ demo_unseal demo_proved])
     (simp_all add: demo_job_def demo_worker_def previous_attempts_def)

theorem delivery_reaches_verdict_witness:
  "(\<exists>reason message. failed_verdict ''p'' reason message demo_start (snd (process_proof_job demo_worker ''p'' demo_start)) demo_job \<and>
      (reason = ''max_attempts_exceeded'' \<or> (\<exists>e. fst (process_proof_job demo_worker ''p'' demo_start) = Inl e))) \<or>
   completed_verdict (we_sha256 demo_worker) ''p'' demo_start (snd (process_proof_job demo_worker ''p'' demo_start))"
proof -
  have "pj_status demo_job = ''queued'' \<or> pj_status demo_job = ''running''" by (simp add: demo_job_def)
  from delivery_reaches_verdict [OF demo_quiet demo_get this surjective_pairing] show ?thesis by blast
qed

theorem completed_job_checked_witness:
  "\<exists>job'. get_proof_job ''p'' (w_db (snd (process_proof_job demo_worker ''p'' demo_start))) = Some job' \<and>
     pj_status job' = ''completed'' \<and> dget (pj_meta job') ''decision'' = PStr ''pass'' \<and>
     pj_proof job' = JsonVal (PDict [(''a'', PInt 1)])"
proof -
  from demo_completes obtain job' where j: "get_proof_job ''p'' (w_db (snd (process_proof_job demo_worker ''p'' demo_start))) = Some job'"
    "pj_status job' = ''completed''" by (auto simp: completed_verdict_def)
  have st: "pj_status demo_job = ''queued'' \<or> pj_status demo_job = ''running''" by (simp add: demo_job_def)
  from completed_job_checked [OF quiet_bystanders [OF demo_quiet] demo_get st surjective_pairing j]
  obtain payload inp proof' sigs where c:
    "engine_generate (we_interp_text demo_worker) (we_invalid_text demo_worker) (we_circuits demo_worker) (we_provider demo_worker) ''c'' inp = Inr (proof', sigs)"
    "pj_proof job' = JsonVal (PDict proof')"
    "unseal_job_payload (we_parse_float demo_worker) (we_vault demo_worker) (we_data_key demo_worker) demo_sealed = Inr payload"
    "\<exists>doc ref d. payload = PDict doc \<and> dget doc ''dual_track_reference'' = PDict ref \<and> dget ref ''decision'' = PStr (decision_text d) \<and>
       dget (pj_meta job') ''decision'' = PStr (decision_text d)"
    by (fastforce simp: demo_job_def)
  have e: "ensure_artifacts tx (we_circuits demo_worker) (we_provider demo_worker) ''c'' = Inr ()" for tx
    by (simp add: ensure_artifacts_def get_circuit_manifest_def demo_worker_def)
  have "proof' = [(''a'', PInt 1)]"
    using c(1) by (simp add: engine_generate_def e) (simp add: demo_worker_def proof_generation_result_def)
  moreover have "canon (PDict demo_payload) = PDict [(''dual_track_reference'', PDict [(''decision'', PStr ''pass''), (''outputs'', PDict [(''ok'', PBool True)])]),
      (''policy_parameters'', PNone), (''private_input'', PDict [(''x'', PInt 1)]), (''request_payload'', PDict [])]" by code_simp
  ultimately show ?thesis using j c(2,3,4) demo_unseal by auto
qed

theorem redelivery_harmless_witness:
  "process_proof_job demo_worker ''p'' (snd (process_proof_job demo_worker ''p'' demo_start)) =
     (Inr (), (snd (process_proof_job demo_worker ''p'' demo_start))\<lparr>w_decrypted := None\<rparr>)"
  by (rule redelivery_harmless [OF demo_quiet demo_get surjective_pairing])

theorem retrying_terminates_witness:
  "\<exists>job'. get_proof_job ''p'' (w_db (snd (process_proof_job demo_worker ''p'' ((crashed_delivery demo_worker ''p'' ^^ 3) demo_start)))) = Some job' \<and>
     dget (pj_meta job') ''failure_reason'' = PStr ''max_attempts_exceeded''"
proof -
  have "pj_status demo_job = ''queued'' \<or> pj_status demo_job = ''running''" by (simp add: demo_job_def)
  moreover have "3 = nat (we_max_attempts demo_worker - previous_attempts (pj_meta demo_job))"
    by (simp add: demo_worker_def demo_job_def previous_attempts_def)
  ultimately show ?thesis using retrying_terminates [OF demo_quiet demo_get _ _ surjective_pairing, of 3] by blast
qed

end
