(* ===== verification/Auth.thy ===== *)
theory Auth
  imports Vault Py_Runtime
begin

text \<open>
  Authentication: \<open>vellum_core/auth.py\<close> and \<open>vellum_core/http_auth.py\<close>. The replay guard and the rate
  limiter over Redis, the token signer, the check of bearer tokens and the bank handshake, each as a
  program over one state: the Redis store, the cache of public keys and the security events emitted.

  Redis is a record of the three commands the code sends; the cryptographic library, the token library,
  the hash function, the parser of ISO 8601 time stamps and the printing of floats are fields of the
  environment. Times are microseconds; the code reads the clock once per stage of a request, so
  a request carries the clock readings of its stages.

  The theorems: which requests are accepted, that within the window no nonce is accepted twice (and
  what a request must look like to be accepted again later), how many requests a minute can
  be accepted, and that issued tokens carry exactly what was asked for.
\<close>

section \<open>Redis and the cryptographic library\<close>

record 'r redis =
  rs_set_nx :: "int \<Rightarrow> string \<Rightarrow> string \<Rightarrow> int \<Rightarrow> ('r, bool) prog"
  rs_incr :: "int \<Rightarrow> string \<Rightarrow> ('r, int) prog"
  rs_expire :: "int \<Rightarrow> string \<Rightarrow> int \<Rightarrow> ('r, unit) prog"

text \<open>The client used when the package is not installed: every command raises.\<close>

definition missing_redis_client :: "'r redis" where
  "missing_redis_client =
     \<lparr>rs_set_nx = (\<lambda>_ _ _ _. sthrow (RuntimeError ''redis package not installed'')),
      rs_incr = (\<lambda>_ _. sthrow (RuntimeError ''redis package not installed'')),
      rs_expire = (\<lambda>_ _ _. sthrow (RuntimeError ''redis package not installed''))\<rparr>"

definition create_redis_client :: "'r redis option \<Rightarrow> 'r redis" where
  "create_redis_client installed = (case installed of None \<Rightarrow> missing_redis_client | Some c \<Rightarrow> c)"

record 'k ed25519_lib =
  el_load_pem :: "string \<Rightarrow> 'k option"
  el_from_raw :: "string \<Rightarrow> 'k res"
  el_verify :: "'k \<Rightarrow> string \<Rightarrow> string \<Rightarrow> bool"

definition load_ed25519_public_key :: "'k ed25519_lib \<Rightarrow> string \<Rightarrow> 'k res" where
  "load_ed25519_public_key lib v =
     (case el_load_pem lib v of Some k \<Rightarrow> Inr k | None \<Rightarrow> rbind (b64decode v) (el_from_raw lib))"

definition verify_ed25519_signature :: "'k ed25519_lib \<Rightarrow> string \<Rightarrow> string \<Rightarrow> string \<Rightarrow> bool" where
  "verify_ed25519_signature lib public_key_pem payload signature =
     (case load_ed25519_public_key lib public_key_pem of Inl _ \<Rightarrow> False | Inr k \<Rightarrow> el_verify lib k payload signature)"

section \<open>State, configuration and environment\<close>

record sec_event =
  sv_type :: string
  sv_outcome :: string
  sv_actor :: "string option"
  sv_source_ip :: "string option"
  sv_details :: pydict

record 'r auth_state =
  au_redis :: 'r
  au_cache :: key_cache
  au_events :: "sec_event list"

record auth_config =
  ac_jwt_key :: string
  ac_issuer :: string
  ac_audience :: string
  ac_bank_keys :: "(string \<times> string) list"
  ac_window :: int
  ac_max_ttl :: int
  ac_leeway :: int
  ac_max_per_minute :: int
  ac_cache_ttl :: int
  ac_recorder :: bool

record ('r, 'k) auth_env =
  ae_vault :: vault_server
  ae_redis :: "'r redis"
  ae_ed :: "'k ed25519_lib"
  ae_jwt_decode :: "string \<Rightarrow> 'k \<Rightarrow> string \<Rightarrow> string \<Rightarrow> int \<Rightarrow> int \<Rightarrow> string + pydict"
  ae_fromiso :: "string \<Rightarrow> (int \<times> int option) option"
  ae_float_text :: "int \<Rightarrow> string"
  ae_sha256 :: "string \<Rightarrow> string"

text \<open>A request with the lower-cased header names of the server interface and its clock readings.\<close>

record request =
  rq_method :: string
  rq_path :: string
  rq_headers :: "(string \<times> string) list"
  rq_client :: "string option"
  rq_body :: string
  rq_now_keys :: int
  rq_now_guard :: int
  rq_now_limit :: int

definition header :: "request \<Rightarrow> string \<Rightarrow> string option" where
  "header r name = map_of (rq_headers r) (py_lower name)"

definition on_redis :: "('r, 'a) prog \<Rightarrow> ('r auth_state, 'a) prog" where
  "on_redis m st = (case m (au_redis st) of (r, rd) \<Rightarrow> (r, st\<lparr>au_redis := rd\<rparr>))"

definition on_cache :: "(key_cache \<Rightarrow> 'a res \<times> key_cache) \<Rightarrow> ('r auth_state, 'a) prog" where
  "on_cache m st = (case m (au_cache st) of (r, c) \<Rightarrow> (r, st\<lparr>au_cache := c\<rparr>))"

text \<open>
  The calls of the security event recorder are collected in \<open>au_events\<close>; what a call does is the
  recorder's: the services turn them into rows of their database (\<open>on_auth\<close>), the dashboard has no recorder.
\<close>

definition emit_security_event ::
  "auth_config \<Rightarrow> string \<Rightarrow> string option \<Rightarrow> string option \<Rightarrow> pydict \<Rightarrow> ('r auth_state, unit) prog" where
  "emit_security_event cfg event_type actor source_ip details =
     supd (\<lambda>st. if ac_recorder cfg
                then st\<lparr>au_events := au_events st @ [\<lparr>sv_type = event_type, sv_outcome = ''denied'', sv_actor = actor,
                         sv_source_ip = source_ip, sv_details = details\<rparr>]\<rparr>
                else st)"

section \<open>Replay guard and rate limiter\<close>

definition nonce_key :: "string \<Rightarrow> string \<Rightarrow> string" where
  "nonce_key key_id nonce = ''vellum:nonce:'' @ key_id @ '':'' @ nonce"

definition guard_check_and_store ::
  "'r redis \<Rightarrow> (int \<Rightarrow> string) \<Rightarrow> int \<Rightarrow> int \<Rightarrow> string \<Rightarrow> string \<Rightarrow> int \<Rightarrow> ('r, unit) prog" where
  "guard_check_and_store rs float_text window_seconds now key_id nonce timestamp =
     (if \<bar>now - timestamp\<bar> > window_seconds * 1000000
      then sthrow (APIError 401 ''stale_request'' ''Request timestamp outside allowed window''
             [(''window_seconds'', PInt window_seconds)])
      else sbind (rs_set_nx rs now (nonce_key key_id nonce) (float_text timestamp) window_seconds) (\<lambda>stored.
           if \<not> stored
           then sthrow (APIError 409 ''nonce_replay'' ''Replay detected for nonce'' [(''nonce'', PStr nonce)])
           else sret ()))"

definition limit_key :: "string \<Rightarrow> string option \<Rightarrow> int \<Rightarrow> string" where
  "limit_key key_id source_ip window =
     ''vellum:ratelimit:submit:'' @ key_id @ '':'' @
     (case source_ip of Some (c # cs) \<Rightarrow> c # cs | _ \<Rightarrow> ''unknown'') @ '':'' @ show_int window"

definition limiter_check_and_store ::
  "'r redis \<Rightarrow> int \<Rightarrow> int \<Rightarrow> string \<Rightarrow> string option \<Rightarrow> ('r, unit) prog" where
  "limiter_check_and_store rs max_per_minute now key_id source_ip =
     (if max_per_minute < 1 then sret ()
      else let redis_key = limit_key key_id source_ip (now div 60000000)
           in sbind (rs_incr rs now redis_key) (\<lambda>count.
              sthen (if count = 1 then rs_expire rs now redis_key 61 else sret ())
                    (if count > max_per_minute
                     then sthrow (APIError 429 ''rate_limited'' ''Submit rate limit exceeded''
                            [(''limit_per_minute'', PInt max_per_minute)])
                     else sret ())))"

section \<open>Tokens\<close>

definition py_sorted_set :: "string list \<Rightarrow> string list" where
  "py_sorted_set xs = sort (remdups xs)"

definition normalized_scopes :: "string list \<Rightarrow> string list" where
  "normalized_scopes scopes = py_sorted_set (filter (\<lambda>s. s \<noteq> []) (map py_strip scopes))"

definition jwt_payload :: "string \<Rightarrow> string \<Rightarrow> int \<Rightarrow> string \<Rightarrow> string \<Rightarrow> int \<Rightarrow> string list \<Rightarrow> pydict" where
  "jwt_payload issuer audience now jti subject ttl_seconds scopes =
     [(''iss'', PStr issuer), (''aud'', PStr audience), (''sub'', PStr subject), (''iat'', PInt now),
      (''nbf'', PInt now), (''exp'', PInt (now + ttl_seconds)), (''jti'', PStr jti)] @
     (if normalized_scopes scopes = [] then []
      else [(''scope'', PStr (py_join '' '' (normalized_scopes scopes)))])"

definition jwt_header :: pydict where
  "jwt_header = [(''alg'', PStr ''EdDSA''), (''typ'', PStr ''JWT'')]"

definition jwt_sign ::
  "vault_server \<Rightarrow> string \<Rightarrow> string \<Rightarrow> string \<Rightarrow> int \<Rightarrow> string \<Rightarrow> string \<Rightarrow> int \<Rightarrow> string list \<Rightarrow> string res" where
  "jwt_sign srv key_name issuer audience now jti subject ttl_seconds scopes =
     (let header_b64 = b64url_encode (json_text (PDict jwt_header));
          payload_b64 = b64url_encode (json_text (PDict (jwt_payload issuer audience now jti subject ttl_seconds scopes)));
          signing_input = header_b64 @ ''.'' @ payload_b64
      in rbind (vault_sign srv key_name signing_input) (\<lambda>signature.
         Inr (header_b64 @ ''.'' @ payload_b64 @ ''.'' @ b64url_encode (sig_raw signature))))"

definition extract_scope_set :: "pydict \<Rightarrow> string list" where
  "extract_scope_set claims =
     remdups
      ((case dget claims ''scope'' of
          PStr s \<Rightarrow> filter (\<lambda>p. p \<noteq> []) (map py_strip (py_split (CHR '' '') s)) | _ \<Rightarrow> []) @
       (case dget claims ''scopes'' of
          PList xs \<Rightarrow> filter (\<lambda>p. p \<noteq> []) (map (\<lambda>v. py_strip (py_str v)) xs) | _ \<Rightarrow> []))"

definition str_list :: "string list \<Rightarrow> pyval" where
  "str_list xs = PList (map PStr xs)"

definition verify_jwt_credentials ::
  "auth_config \<Rightarrow> ('r, 'k) auth_env \<Rightarrow> int \<Rightarrow> string option \<Rightarrow> string list \<Rightarrow> ('r auth_state, pydict) prog" where
  "verify_jwt_credentials cfg env now credentials required_scopes =
     (case credentials of
        None \<Rightarrow>
          sthen (emit_security_event cfg ''jwt_missing'' None None [(''reason'', PStr ''missing bearer token'')])
                (sthrow (APIError 401 ''missing_token'' ''Missing bearer token'' []))
      | Some token \<Rightarrow>
          sbind (on_cache (get_public_key (ae_vault env) (ac_cache_ttl cfg) now (ac_jwt_key cfg) None)) (\<lambda>public_key_value.
          sbind (slift (load_ed25519_public_key (ae_ed env) public_key_value)) (\<lambda>key.
          case ae_jwt_decode env token key (ac_issuer cfg) (ac_audience cfg) (ac_leeway cfg) now of
            Inl reason \<Rightarrow>
              sthen (emit_security_event cfg ''jwt_invalid'' None None [(''reason'', PStr reason)])
                    (sthrow (APIError 401 ''invalid_token'' ''JWT validation failed'' [(''reason'', PStr reason)]))
          | Inr claims \<Rightarrow>
              sbind (slift (int_item claims ''exp'')) (\<lambda>expires.
              sbind (slift (int_item claims ''iat'')) (\<lambda>issued.
              if expires - issued > ac_max_ttl cfg
              then sthen (emit_security_event cfg ''jwt_ttl_exceeded'' (Some (py_str (dget claims ''sub''))) None
                           [(''max_ttl_seconds'', PInt (ac_max_ttl cfg))])
                         (sthrow (APIError 401 ''invalid_token_ttl'' ''JWT lifetime exceeds configured maximum''
                           [(''max_ttl_seconds'', PInt (ac_max_ttl cfg))]))
              else if required_scopes \<noteq> [] \<and> \<not> set required_scopes \<subseteq> set (extract_scope_set claims)
              then sthen (emit_security_event cfg ''jwt_scope_denied'' (Some (py_str (dget claims ''sub''))) None
                           [(''required_scopes'', str_list (py_sorted_set required_scopes)),
                            (''granted_scopes'', str_list (py_sorted_set (extract_scope_set claims)))])
                         (sthrow (APIError 403 ''insufficient_scope'' ''JWT does not contain required scopes''
                           [(''required_scopes'', str_list (py_sorted_set required_scopes))]))
              else sret claims)))))"

text \<open>The request dependencies: a required scope set, or none while authentication is disabled.\<close>

definition required_scoped_jwt ::
  "auth_config \<Rightarrow> ('r, 'k) auth_env \<Rightarrow> string list \<Rightarrow> int \<Rightarrow> string option \<Rightarrow> ('r auth_state, pydict) prog" where
  "required_scoped_jwt cfg env scopes now credentials =
     verify_jwt_credentials cfg env now credentials (remdups scopes)"

definition optional_scoped_jwt ::
  "auth_config \<Rightarrow> ('r, 'k) auth_env \<Rightarrow> bool \<Rightarrow> string list \<Rightarrow> int \<Rightarrow> string option \<Rightarrow>
   ('r auth_state, pydict option) prog" where
  "optional_scoped_jwt cfg env enabled scopes now credentials =
     (if \<not> enabled then sret None
      else sbind (verify_jwt_credentials cfg env now credentials (remdups scopes)) (\<lambda>c. sret (Some c)))"

section \<open>The bank handshake\<close>

definition build_canonical_request_string ::
  "(string \<Rightarrow> string) \<Rightarrow> string \<Rightarrow> string \<Rightarrow> string \<Rightarrow> string \<Rightarrow> string \<Rightarrow> string" where
  "build_canonical_request_string sha256 method path timestamp nonce raw_body =
     method @ NL @ path @ NL @ timestamp @ NL @ nonce @ NL @ sha256 raw_body"

definition client_ip :: "request \<Rightarrow> string option" where
  "client_ip r =
     (case header r ''X-Forwarded-For'' of
        Some (c # cs) \<Rightarrow> Some (py_strip (hd (py_split (CHR '','') (c # cs))))
      | _ \<Rightarrow> rq_client r)"

definition py_isdigit :: "string \<Rightarrow> bool" where
  "py_isdigit s = (s \<noteq> [] \<and> list_all is_digit s)"

definition parse_timestamp :: "(string \<Rightarrow> (int \<times> int option) option) \<Rightarrow> string \<Rightarrow> int res" where
  "parse_timestamp fromiso timestamp_raw =
     (if py_isdigit timestamp_raw then Inr (int (read_nat timestamp_raw) * 1000000)
      else case fromiso timestamp_raw of
             Some (local, None) \<Rightarrow> Inr local
           | Some (local, Some offset) \<Rightarrow> Inr (local - offset)
           | None \<Rightarrow> Inl (APIError 401 ''invalid_timestamp'' ''X-Bank-Timestamp must be unix seconds or ISO8601''
                           [(''value'', PStr timestamp_raw)]))"

definition handshake_headers :: "string list" where
  "handshake_headers = [''X-Bank-Key-Id'', ''X-Bank-Timestamp'', ''X-Bank-Nonce'', ''X-Bank-Signature'']"

definition missing_headers :: "request \<Rightarrow> string list" where
  "missing_headers r = filter (\<lambda>n. header r n = None \<or> header r n = Some []) handshake_headers"

definition verify_handshake ::
  "auth_config \<Rightarrow> ('r, 'k) auth_env \<Rightarrow> request \<Rightarrow> ('r auth_state, string) prog" where
  "verify_handshake cfg env r =
     (let source_ip = client_ip r; missing = missing_headers r
      in if missing \<noteq> []
         then sthen (emit_security_event cfg ''handshake_headers_missing'' None source_ip
                      [(''missing_headers'', str_list missing)])
                    (sthrow (APIError 401 ''missing_handshake_headers'' ''Missing bank handshake headers''
                      [(''missing_headers'', str_list missing)]))
         else
           let key_id = the (header r ''X-Bank-Key-Id''); timestamp_raw = the (header r ''X-Bank-Timestamp'');
               nonce = the (header r ''X-Bank-Nonce''); signature_value = the (header r ''X-Bank-Signature'');
               denied = (\<lambda>t. emit_security_event cfg t None source_ip [(''key_id'', PStr key_id)])
           in sbind (slift (parse_timestamp (ae_fromiso env) timestamp_raw)) (\<lambda>timestamp_epoch.
              let canonical = build_canonical_request_string (ae_sha256 env) (rq_method r) (rq_path r) timestamp_raw
                    nonce (rq_body r)
              in case map_of (ac_bank_keys cfg) key_id of
                   None \<Rightarrow> sthen (denied ''handshake_unknown_key'')
                             (sthrow (APIError 401 ''unknown_bank_key'' ''Unknown bank key id'' [(''key_id'', PStr key_id)]))
                 | Some bank_vault_key \<Rightarrow>
                     sbind (slift (decode_signature signature_value)) (\<lambda>(signature_raw, signature_key_version).
                     sbind (on_cache (get_public_key (ae_vault env) (ac_cache_ttl cfg) (rq_now_keys r) bank_vault_key
                              (Some signature_key_version))) (\<lambda>public_key_pem.
                     if \<not> verify_ed25519_signature (ae_ed env) public_key_pem canonical signature_raw
                     then sthen (denied ''handshake_signature_invalid'')
                            (sthrow (APIError 401 ''invalid_handshake_signature'' ''Bank request signature invalid'' []))
                     else
                       sthen
                         (scatch (on_redis (guard_check_and_store (ae_redis env) (ae_float_text env) (ac_window cfg)
                                    (rq_now_guard r) key_id nonce timestamp_epoch))
                            (\<lambda>e. case e of APIError st code msg d \<Rightarrow> sthen (denied (''handshake_'' @ code)) (sthrow e)
                                  | _ \<Rightarrow> sthrow e))
                       (sthen
                         (scatch (on_redis (limiter_check_and_store (ae_redis env) (ac_max_per_minute cfg)
                                    (rq_now_limit r) key_id source_ip))
                            (\<lambda>e. case e of APIError st code msg d \<Rightarrow> sthen (denied ''submit_rate_limited'') (sthrow e)
                                  | _ \<Rightarrow> sthrow e))
                       (sret key_id))))))"

section \<open>What an accepted handshake means\<close>

text \<open>A served sequence of requests and its results.\<close>

fun serve :: "auth_config \<Rightarrow> ('r, 'k) auth_env \<Rightarrow> request list \<Rightarrow> 'r auth_state \<Rightarrow> string res list" where
  "serve cfg env [] st = []"
| "serve cfg env (r # rs) st =
     (case verify_handshake cfg env r st of (res, st') \<Rightarrow> res # serve cfg env rs st')"

lemma length_serve [simp]: "length (serve cfg env rs st) = length rs"
  by (induction rs arbitrary: st) (auto split: prod.splits)

lemma guard_Inr:
  "guard_check_and_store rs ft w now key_id nonce ts r = (Inr x, r') \<longleftrightarrow>
   \<bar>now - ts\<bar> \<le> w * 1000000 \<and> rs_set_nx rs now (nonce_key key_id nonce) (ft ts) w r = (Inr True, r')"
  by (auto simp: guard_check_and_store_def sbind_eq_Inr prog_basic_eq split: if_splits)

lemma scatch_api_Inr:
  "scatch m (\<lambda>e. case e of APIError st code msg d \<Rightarrow> sthen (n code) (sthrow e) | _ \<Rightarrow> sthrow e) s = (Inr x, t) \<longleftrightarrow>
   m s = (Inr x, t)"
  by (auto simp: scatch_def sthen_def sbind_def sthrow_def split: prod.splits sum.splits pyexc.splits)

lemma on_redis_eq: "on_redis m st = (res, st') \<longleftrightarrow> (\<exists>rd. m (au_redis st) = (res, rd) \<and> st' = st\<lparr>au_redis := rd\<rparr>)"
  by (auto simp: on_redis_def split: prod.splits)

lemma on_cache_eq: "on_cache m st = (res, st') \<longleftrightarrow> (\<exists>c. m (au_cache st) = (res, c) \<and> st' = st\<lparr>au_cache := c\<rparr>)"
  by (auto simp: on_cache_def split: prod.splits)

text \<open>The checks a request has passed when the handshake returns.\<close>

definition handshake_evidence ::
  "auth_config \<Rightarrow> ('r, 'k) auth_env \<Rightarrow> request \<Rightarrow> 'r auth_state \<Rightarrow> string \<Rightarrow> string \<Rightarrow> string \<Rightarrow> int \<Rightarrow> bool" where
  "handshake_evidence cfg env r st key_id nonce ts_raw ts =
     (\<exists>signature vault_key raw version pem cache.
        header r ''X-Bank-Key-Id'' = Some key_id \<and> header r ''X-Bank-Nonce'' = Some nonce \<and>
        header r ''X-Bank-Timestamp'' = Some ts_raw \<and> header r ''X-Bank-Signature'' = Some signature \<and>
        parse_timestamp (ae_fromiso env) ts_raw = Inr ts \<and>
        map_of (ac_bank_keys cfg) key_id = Some vault_key \<and>
        decode_signature signature = Inr (raw, version) \<and>
        get_public_key (ae_vault env) (ac_cache_ttl cfg) (rq_now_keys r) vault_key (Some version) (au_cache st) =
          (Inr pem, cache) \<and>
        verify_ed25519_signature (ae_ed env) pem
          (build_canonical_request_string (ae_sha256 env) (rq_method r) (rq_path r) ts_raw nonce (rq_body r)) raw \<and>
        \<bar>rq_now_guard r - ts\<bar> \<le> ac_window cfg * 1000000)"

lemma handshake_Inr:
  assumes "verify_handshake cfg env r st = (Inr key_id, st')"
  shows "\<exists>nonce ts_raw ts rd rd'. handshake_evidence cfg env r st key_id nonce ts_raw ts \<and>
     rs_set_nx (ae_redis env) (rq_now_guard r) (nonce_key key_id nonce) (ae_float_text env ts) (ac_window cfg)
       (au_redis st) = (Inr True, rd) \<and>
     limiter_check_and_store (ae_redis env) (ac_max_per_minute cfg) (rq_now_limit r) key_id (client_ip r) rd = (Inr (), rd') \<and>
     au_redis st' = rd'"
proof -
  have m: "missing_headers r = []"
    using assms by (auto simp: verify_handshake_def Let_def sthen_def sbind_eq_Inr prog_basic_eq split: if_splits)
  then obtain nonce ts_raw signature kid where h: "header r ''X-Bank-Nonce'' = Some nonce"
    "header r ''X-Bank-Timestamp'' = Some ts_raw" "header r ''X-Bank-Signature'' = Some signature"
    "header r ''X-Bank-Key-Id'' = Some kid"
    by (auto simp: missing_headers_def handshake_headers_def split: if_splits)
  note run = assms [unfolded verify_handshake_def Let_def, simplified m h, simplified]
  obtain ts where ts: "parse_timestamp (ae_fromiso env) ts_raw = Inr ts"
    using run by (cases "parse_timestamp (ae_fromiso env) ts_raw") (auto simp: prog_basic_eq)
  note run = run [unfolded ts sbind_lifted]
  obtain vault_key where vk: "map_of (ac_bank_keys cfg) kid = Some vault_key"
    using run by (cases "map_of (ac_bank_keys cfg) kid") (auto simp: sthen_def sbind_eq_Inr prog_basic_eq)
  obtain raw version where dec: "decode_signature signature = Inr (raw, version)"
    using run vk by (cases "decode_signature signature") (auto simp: prog_basic_eq)
  obtain pem cache where pem: "get_public_key (ae_vault env) (ac_cache_ttl cfg) (rq_now_keys r) vault_key (Some version)
      (au_cache st) = (Inr pem, cache)"
    using run vk dec
    by (cases "get_public_key (ae_vault env) (ac_cache_ttl cfg) (rq_now_keys r) vault_key (Some version) (au_cache st)")
       (auto simp: sbind_eq_Inr on_cache_eq)
  have run2: "kid = key_id \<and> (\<exists>rd. \<bar>rq_now_guard r - ts\<bar> \<le> ac_window cfg * 1000000 \<and>
      verify_ed25519_signature (ae_ed env) pem
       (build_canonical_request_string (ae_sha256 env) (rq_method r) (rq_path r) ts_raw nonce (rq_body r)) raw \<and>
      rs_set_nx (ae_redis env) (rq_now_guard r) (nonce_key kid nonce) (ae_float_text env ts) (ac_window cfg)
       (au_redis st) = (Inr True, rd) \<and>
      limiter_check_and_store (ae_redis env) (ac_max_per_minute cfg) (rq_now_limit r) kid (client_ip r) rd =
        (Inr (), au_redis st'))"
    using run vk dec pem
    by (auto simp: sthen_def sbind_eq_Inr prog_basic_eq scatch_api_Inr on_redis_eq on_cache_eq guard_Inr split: if_splits)
  then have "handshake_evidence cfg env r st key_id nonce ts_raw ts"
    unfolding handshake_evidence_def
    by (intro exI [of _ signature] exI [of _ vault_key] exI [of _ raw] exI [of _ version] exI [of _ pem] exI [of _ cache])
       (use h ts vk dec pem in auto)
  with run2 show ?thesis by auto
qed

section \<open>What the commands of a handshake leave in Redis\<close>

abbreviation redis_rel :: "('r \<Rightarrow> 'r \<Rightarrow> bool) \<Rightarrow> 'r auth_state \<Rightarrow> 'r auth_state \<Rightarrow> bool" where
  "redis_rel Q st st' \<equiv> Q (au_redis st) (au_redis st')"

lemma keeps_on_redis: "keeps Q m \<Longrightarrow> keeps (redis_rel Q) (on_redis m)"
  by (auto simp: keeps_def on_redis_def split: prod.splits) (metis snd_conv)

lemma keeps_on_cache: "reflp Q \<Longrightarrow> keeps (redis_rel Q) (on_cache m)"
  by (auto simp: keeps_def on_cache_def reflp_def split: prod.splits)

lemma keeps_emit: "reflp Q \<Longrightarrow> keeps (redis_rel Q) (emit_security_event cfg t a ip d)"
  by (auto simp: keeps_def emit_security_event_def supd_def reflp_def)

lemma handshake_keeps:
  fixes Q :: "'r \<Rightarrow> 'r \<Rightarrow> bool" and env :: "('r, 'k) auth_env"
  assumes "reflp Q" "transp Q"
    and set: "\<And>k n v. keeps Q (rs_set_nx (ae_redis env) (rq_now_guard r) (nonce_key k n) v (ac_window cfg))"
    and incr: "\<And>k. keeps Q (rs_incr (ae_redis env) (rq_now_limit r) (limit_key k (client_ip r) (rq_now_limit r div 60000000)))"
    and expire: "\<And>k. keeps Q (rs_expire (ae_redis env) (rq_now_limit r)
                              (limit_key k (client_ip r) (rq_now_limit r div 60000000)) 61)"
  shows "keeps (redis_rel Q) (verify_handshake cfg env r)"
proof -
  have R: "reflp (redis_rel Q)" "transp (redis_rel Q)"
    using assms(1,2) by (auto simp: reflp_def transp_def)
  have guard: "keeps Q (guard_check_and_store (ae_redis env) ft (ac_window cfg) (rq_now_guard r) k n ts)" for ft k n ts
    unfolding guard_check_and_store_def using assms(1,2) by (auto intro!: keeps_rules set)
  have limiter: "keeps Q (limiter_check_and_store (ae_redis env) mx (rq_now_limit r) k (client_ip r))" for mx k
    unfolding limiter_check_and_store_def Let_def using assms(1,2) by (auto intro!: keeps_rules incr expire)
  note rules = keeps_sbind [OF R(2)] keeps_sthen [OF R(2)] keeps_scatch [OF R(2)] keeps_basic [OF R(1)] keeps_emit [OF assms(1)] keeps_on_cache [OF assms(1)]
    keeps_on_redis [OF guard] keeps_on_redis [OF limiter]
  show ?thesis
    unfolding verify_handshake_def Let_def
    by (auto intro!: rules split: option.splits prod.splits pyexc.splits)
qed

section \<open>What a check reports\<close>

text \<open>
  A check that passes reports nothing; one that refuses reports at most one event, with the outcome
  \<open>denied\<close>, and raises.
\<close>

definition silent :: "('r auth_state, 'a) prog \<Rightarrow> bool" where
  "silent m = (\<forall>st. au_events (snd (m st)) = au_events st)"

definition reports :: "('r auth_state, 'a) prog \<Rightarrow> bool" where
  "reports m = (\<forall>st. au_events (snd (m st)) = au_events st \<or>
     (\<exists>e ev. fst (m st) = Inl e \<and> au_events (snd (m st)) = au_events st @ [ev] \<and> sv_outcome ev = ''denied''))"

lemma silent_basic: "silent (sret x)" "silent (sthrow e)" "silent (slift r)" "silent (on_cache c)" "silent (on_redis d)"
  by (simp_all add: silent_def prog_defs on_cache_def on_redis_def split: prod.splits)

lemma reports_silent: "silent m \<Longrightarrow> reports m"
  by (simp add: silent_def reports_def)

lemma reports_denial: "reports (sthen (emit_security_event cfg t a ip d) (sthrow e))"
  by (simp add: reports_def sthen_def sbind_def emit_security_event_def prog_defs)

lemma reports_sbind:
  assumes "reports m" "\<And>x. reports (f x)"
  shows "reports (sbind m f)"
  unfolding reports_def
proof
  fix st
  obtain r s where r: "m st = (r, s)" by fastforce
  show "au_events (snd (sbind m f st)) = au_events st \<or>
     (\<exists>e ev. fst (sbind m f st) = Inl e \<and> au_events (snd (sbind m f st)) = au_events st @ [ev] \<and> sv_outcome ev = ''denied'')"
  proof (cases r)
    case (Inl e)
    with assms(1) [unfolded reports_def, rule_format, of st] r show ?thesis by (simp add: sbind_def)
  next
    case (Inr x)
    with assms(1) [unfolded reports_def, rule_format, of st] r have "au_events s = au_events st" by simp
    with assms(2) [unfolded reports_def, rule_format, of x s] r Inr show ?thesis by (simp add: sbind_def)
  qed
qed

lemma reports_sthen: "reports m \<Longrightarrow> reports n \<Longrightarrow> reports (sthen m n)"
  by (simp add: sthen_def reports_sbind)

lemma reports_scatch:
  assumes "silent m" "\<And>e. reports (h e)"
  shows "reports (scatch m h)"
  unfolding reports_def
proof
  fix st
  obtain r s where r: "m st = (r, s)" by fastforce
  with assms(1) [unfolded silent_def, rule_format, of st] have s: "au_events s = au_events st" by simp
  show "au_events (snd (scatch m h st)) = au_events st \<or>
     (\<exists>e ev. fst (scatch m h st) = Inl e \<and> au_events (snd (scatch m h st)) = au_events st @ [ev] \<and> sv_outcome ev = ''denied'')"
    using assms(2) [unfolded reports_def, rule_format, of _ s] r s by (cases r) (simp_all add: scatch_def)
qed

lemmas reports_rules = reports_sbind reports_denial reports_scatch silent_basic silent_basic [THEN reports_silent]

lemma verify_jwt_reports: "reports (verify_jwt_credentials cfg env now credentials scopes)"
  unfolding verify_jwt_credentials_def by (auto intro!: reports_rules split: option.splits sum.splits)

lemma required_jwt_reports: "reports (required_scoped_jwt cfg env scopes now credentials)"
  unfolding required_scoped_jwt_def by (rule verify_jwt_reports)

lemma handshake_reports: "reports (verify_handshake cfg env r)"
  unfolding verify_handshake_def Let_def
  by (auto intro!: reports_rules reports_sthen [OF reports_scatch] split: option.splits prod.splits pyexc.splits)

section \<open>The documented behaviour of Redis\<close>

text \<open>
  A view of the store gives each key a number and an optional deadline; a key is live before its
  deadline. \<open>SET\<close> with \<open>NX\<close> and \<open>EX\<close> reports success only for a key that is not live and then sets the
  deadline; it never touches a live key. \<open>INCR\<close> counts a live key up and starts an absent or expired one
  at 1 without a deadline; \<open>EXPIRE\<close> sets the deadline. A command that fails may or may not have been
  executed.
\<close>

definition live_value :: "(int \<times> int option) option \<Rightarrow> int \<Rightarrow> int option" where
  "live_value e t =
     (case e of None \<Rightarrow> None | Some (n, None) \<Rightarrow> Some n | Some (n, Some d) \<Rightarrow> if t < d then Some n else None)"

definition bumped :: "(int \<times> int option) option \<Rightarrow> int \<Rightarrow> int \<times> int option" where
  "bumped e t = (case live_value e t of None \<Rightarrow> (1, None) | Some n \<Rightarrow> (n + 1, snd (the e)))"

definition redis_documented :: "'r redis \<Rightarrow> ('r \<Rightarrow> string \<Rightarrow> (int \<times> int option) option) \<Rightarrow> bool" where
  "redis_documented rs view =
     ((\<forall>t k v ex r res r'. ex > 0 \<and> rs_set_nx rs t k v ex r = (res, r') \<longrightarrow>
         (\<forall>k'. k' \<noteq> k \<longrightarrow> view r' k' = view r k') \<and>
         (live_value (view r k) t \<noteq> None \<longrightarrow> res \<noteq> Inr True \<and> view r' k = view r k) \<and>
         (res = Inr True \<longrightarrow> (\<exists>n. view r' k = Some (n, Some (t + ex * 1000000))))) \<and>
      (\<forall>t k r res r'. rs_incr rs t k r = (res, r') \<longrightarrow>
         (\<forall>k'. k' \<noteq> k \<longrightarrow> view r' k' = view r k') \<and>
         (view r' k = view r k \<and> (\<exists>e. res = Inl e) \<or> view r' k = Some (bumped (view r k) t)) \<and>
         (\<forall>c. res = Inr c \<longrightarrow> c = fst (bumped (view r k) t))) \<and>
      (\<forall>t k s r res r'. rs_expire rs t k s r = (res, r') \<longrightarrow>
         (\<forall>k'. k' \<noteq> k \<longrightarrow> view r' k' = view r k') \<and>
         (view r' k = view r k \<or> view r' k = map_option (\<lambda>(n, _). (n, Some (t + s * 1000000))) (view r k))))"

lemma redis_set:
  assumes "redis_documented rs view" "ex > 0" "rs_set_nx rs t k v ex r = (res, r')"
  shows "k' \<noteq> k \<Longrightarrow> view r' k' = view r k'"
    "live_value (view r k) t \<noteq> None \<Longrightarrow> res \<noteq> Inr True \<and> view r' k = view r k"
    "res = Inr True \<Longrightarrow> \<exists>n. view r' k = Some (n, Some (t + ex * 1000000))"
  using assms(1) [unfolded redis_documented_def, THEN conjunct1, rule_format, OF conjI [OF assms(2,3)]] by simp_all

lemma redis_incr:
  assumes "redis_documented rs view" "rs_incr rs t k r = (res, r')"
  shows "k' \<noteq> k \<Longrightarrow> view r' k' = view r k'"
    "view r' k = view r k \<and> (\<exists>e. res = Inl e) \<or> view r' k = Some (bumped (view r k) t)"
    "res = Inr c \<Longrightarrow> c = fst (bumped (view r k) t)"
  using assms(1) [unfolded redis_documented_def, THEN conjunct2, THEN conjunct1, rule_format, OF assms(2)] by simp_all

lemma redis_expire:
  assumes "redis_documented rs view" "rs_expire rs t k s r = (res, r')"
  shows "k' \<noteq> k \<Longrightarrow> view r' k' = view r k'"
    "view r' k = view r k \<or> view r' k = map_option (\<lambda>(n, _). (n, Some (t + s * 1000000))) (view r k)"
  using assms(1) [unfolded redis_documented_def, THEN conjunct2, THEN conjunct2, rule_format, OF assms(2)] by simp_all

lemma nonce_not_limit: "nonce_key k n \<noteq> limit_key k' ip w" "limit_key k' ip w \<noteq> nonce_key k n"
  by (simp_all add: nonce_key_def limit_key_def)

lemma live_value_mono: "live_value e t' \<noteq> None \<Longrightarrow> t \<le> t' \<Longrightarrow> live_value e t \<noteq> None"
  by (auto simp: live_value_def split: option.splits if_splits)

section \<open>Replays\<close>

text \<open>A stored nonce stays as long as its deadline has not passed, whatever is served meanwhile.\<close>

lemma handshake_keeps_nonce:
  fixes env :: "('r, 'k) auth_env"
  assumes doc: "redis_documented (ae_redis env) view" and w: "ac_window cfg > 0" and t: "rq_now_guard r \<le> t"
  shows "keeps (redis_rel (\<lambda>rd rd'. live_value (view rd (nonce_key key nonce)) t \<noteq> None \<longrightarrow>
                                    live_value (view rd' (nonce_key key nonce)) t \<noteq> None)) (verify_handshake cfg env r)"
proof (rule handshake_keeps)
  let ?K = "nonce_key key nonce"
  show "keeps (\<lambda>rd rd'. live_value (view rd ?K) t \<noteq> None \<longrightarrow> live_value (view rd' ?K) t \<noteq> None)
      (rs_set_nx (ae_redis env) (rq_now_guard r) (nonce_key k n) v (ac_window cfg))" for k n v
    unfolding keeps_def
  proof (intro allI impI)
    fix rd
    assume live: "live_value (view rd ?K) t \<noteq> None"
    obtain res rd' where run: "rs_set_nx (ae_redis env) (rq_now_guard r) (nonce_key k n) v (ac_window cfg) rd = (res, rd')"
      by force
    show "live_value (view (snd (rs_set_nx (ae_redis env) (rq_now_guard r) (nonce_key k n) v (ac_window cfg) rd)) ?K) t \<noteq> None"
      using redis_set(1,2) [OF doc w run] live live_value_mono [OF live t] run
      by (cases "nonce_key k n = ?K") auto
  qed
  show "keeps (\<lambda>rd rd'. live_value (view rd ?K) t \<noteq> None \<longrightarrow> live_value (view rd' ?K) t \<noteq> None)
      (rs_incr (ae_redis env) (rq_now_limit r) (limit_key k (client_ip r) (rq_now_limit r div 60000000)))" for k
    unfolding keeps_def using redis_incr(1) [OF doc _ nonce_not_limit(1)] by (metis prod.collapse)
  show "keeps (\<lambda>rd rd'. live_value (view rd ?K) t \<noteq> None \<longrightarrow> live_value (view rd' ?K) t \<noteq> None)
      (rs_expire (ae_redis env) (rq_now_limit r) (limit_key k (client_ip r) (rq_now_limit r div 60000000)) 61)" for k
    unfolding keeps_def using redis_expire(1) [OF doc _ nonce_not_limit(1)] by (metis prod.collapse)
qed (auto simp: reflp_def transp_def)

lemma serve_rejects_live_nonce:
  assumes doc: "redis_documented (ae_redis env) view" and w: "ac_window cfg > 0"
    and sorted: "sorted (map rq_now_guard rs)" and j: "j < length rs"
    and live: "live_value (view (au_redis st) (nonce_key key nonce)) (rq_now_guard (rs ! j)) \<noteq> None"
    and n: "header (rs ! j) ''X-Bank-Nonce'' = Some nonce"
  shows "serve cfg env rs st ! j \<noteq> Inr key"
  using sorted j live n
proof (induction rs arbitrary: j st)
  case (Cons r rs)
  obtain res st' where run: "verify_handshake cfg env r st = (res, st')" by force
  show ?case
  proof (cases j)
    case 0
    show ?thesis
    proof
      assume "serve cfg env (r # rs) st ! j = Inr key"
      then have "verify_handshake cfg env r st = (Inr key, st')" using 0 run by simp
      from handshake_Inr [OF this] obtain nonce' ts_raw ts rd where
        "handshake_evidence cfg env r st key nonce' ts_raw ts"
        and set: "rs_set_nx (ae_redis env) (rq_now_guard r) (nonce_key key nonce') (ae_float_text env ts) (ac_window cfg)
          (au_redis st) = (Inr True, rd)" by blast
      then have "nonce' = nonce" using Cons.prems(4) 0 by (auto simp: handshake_evidence_def)
      then show False using redis_set(2) [OF doc w set] Cons.prems(3) 0 by auto
    qed
  next
    case (Suc i)
    have "rq_now_guard r \<le> rq_now_guard (rs ! i)" using Cons.prems(1,2) Suc by (auto simp: list_all_iff)
    from handshake_keeps_nonce [OF doc w this, of key nonce]
    have "live_value (view (au_redis st') (nonce_key key nonce)) (rq_now_guard (rs ! i)) \<noteq> None"
      using Cons.prems(3) Suc run unfolding keeps_def by (metis nth_Cons_Suc snd_conv)
    then show ?thesis using Cons.IH [of i st'] Cons.prems Suc run by simp
  qed
qed simp

lemma limiter_keeps_nonce:
  assumes doc: "redis_documented rs view"
    and run: "limiter_check_and_store rs mx now k ip r = (res, r')"
  shows "view r' (nonce_key key nonce) = view r (nonce_key key nonce)"
proof -
  let ?Q = "\<lambda>rd rd'. view rd' (nonce_key key nonce) = view rd (nonce_key key nonce)"
  have incr: "keeps ?Q (rs_incr rs now (limit_key k ip (now div 60000000)))"
    unfolding keeps_def using redis_incr(1) [OF doc _ nonce_not_limit(1)] by (metis prod.collapse)
  have expire: "keeps ?Q (rs_expire rs now (limit_key k ip (now div 60000000)) 61)"
    unfolding keeps_def using redis_expire(1) [OF doc _ nonce_not_limit(1)] by (metis prod.collapse)
  have Q: "reflp ?Q" "transp ?Q" by (auto simp: reflp_def transp_def)
  have "keeps ?Q (limiter_check_and_store rs mx now k ip)"
    unfolding limiter_check_and_store_def Let_def using Q by (auto intro!: keeps_rules incr expire)
  with run show ?thesis unfolding keeps_def by (metis snd_conv)
qed

lemma serve_replay_late:
  assumes doc: "redis_documented (ae_redis env) view" and w: "ac_window cfg > 0"
  shows "sorted (map rq_now_guard rs) \<Longrightarrow> i < j \<Longrightarrow> j < length rs \<Longrightarrow>
    serve cfg env rs st ! i = Inr key \<Longrightarrow> serve cfg env rs st ! j = Inr key \<Longrightarrow>
    header (rs ! i) ''X-Bank-Nonce'' = Some nonce \<Longrightarrow> header (rs ! j) ''X-Bank-Nonce'' = Some nonce \<Longrightarrow>
    rq_now_guard (rs ! i) + ac_window cfg * 1000000 \<le> rq_now_guard (rs ! j)"
proof (induction rs arbitrary: i j st)
  case (Cons r rs)
  obtain res st' where run: "verify_handshake cfg env r st = (res, st')" by force
  obtain j' where j: "j = Suc j'" using Cons.prems(2) by (cases j) auto
  show ?case
  proof (cases i)
    case (Suc i')
    then show ?thesis using Cons.IH [of i' j' st'] Cons.prems j run by simp
  next
    case 0
    then have "verify_handshake cfg env r st = (Inr key, st')" using Cons.prems(4) run by simp
    from handshake_Inr [OF this] obtain nonce' ts_raw ts rd rd' where
      ev: "handshake_evidence cfg env r st key nonce' ts_raw ts"
      and set: "rs_set_nx (ae_redis env) (rq_now_guard r) (nonce_key key nonce') (ae_float_text env ts) (ac_window cfg)
        (au_redis st) = (Inr True, rd)"
      and lim: "limiter_check_and_store (ae_redis env) (ac_max_per_minute cfg) (rq_now_limit r) key (client_ip r) rd = (Inr (), rd')"
      and st': "au_redis st' = rd'" by blast
    have "nonce' = nonce" using ev Cons.prems(6) 0 by (auto simp: handshake_evidence_def)
    then obtain n where v: "view (au_redis st') (nonce_key key nonce) = Some (n, Some (rq_now_guard r + ac_window cfg * 1000000))"
      using redis_set(3) [OF doc w set] limiter_keeps_nonce [OF doc lim, of key nonce] st' by auto
    show ?thesis
    proof (rule ccontr)
      assume "\<not> ?thesis"
      then have "live_value (view (au_redis st') (nonce_key key nonce)) (rq_now_guard (rs ! j')) \<noteq> None"
        using v 0 j by (simp add: live_value_def)
      with serve_rejects_live_nonce [OF doc w, of rs j' st' key nonce] Cons.prems 0 j run show False by simp
    qed
  qed
qed simp

lemma serve_evidence:
  "j < length rs \<Longrightarrow> serve cfg env rs st ! j = Inr key \<Longrightarrow>
   \<exists>st' nonce ts_raw ts. handshake_evidence cfg env (rs ! j) st' key nonce ts_raw ts"
proof (induction rs arbitrary: j st)
  case (Cons r rs)
  obtain res st' where run: "verify_handshake cfg env r st = (res, st')" by force
  show ?case
  proof (cases j)
    case 0
    with Cons.prems run handshake_Inr [of cfg env r st key st'] show ?thesis by auto
  next
    case (Suc i)
    then show ?thesis using Cons.IH [of i st'] Cons.prems run by simp
  qed
qed simp

text \<open>
  C25. Replay protection of the bank handshake. Serve any sequence of requests in the order of the
  guard's clock. If two of them are accepted with the same bank key and the same nonce, then
  the second is accepted at least one full window after the first, and its signed time stamp is not
  earlier than the moment the first was accepted. So within the window a nonce is accepted at most
  once, and a request whose time stamp lies before the moment it was accepted can never be replayed.
\<close>

theorem handshake_replay_window:
  assumes "redis_documented (ae_redis env) view" "ac_window cfg > 0" "sorted (map rq_now_guard rs)"
    and "i < j" "j < length rs"
    and "serve cfg env rs st ! i = Inr key" "serve cfg env rs st ! j = Inr key"
    and "header (rs ! i) ''X-Bank-Nonce'' = Some nonce" "header (rs ! j) ''X-Bank-Nonce'' = Some nonce"
    and "header (rs ! j) ''X-Bank-Timestamp'' = Some ts_raw" "parse_timestamp (ae_fromiso env) ts_raw = Inr ts"
  shows "rq_now_guard (rs ! i) + ac_window cfg * 1000000 \<le> rq_now_guard (rs ! j) \<and> rq_now_guard (rs ! i) \<le> ts"
proof -
  have late: "rq_now_guard (rs ! i) + ac_window cfg * 1000000 \<le> rq_now_guard (rs ! j)"
    by (rule serve_replay_late [OF assms(1-9)])
  obtain st' n raw t where "handshake_evidence cfg env (rs ! j) st' key n raw t"
    using serve_evidence [OF assms(5,7)] by blast
  then have "\<bar>rq_now_guard (rs ! j) - ts\<bar> \<le> ac_window cfg * 1000000"
    using assms(10,11) by (auto simp: handshake_evidence_def)
  with late show ?thesis by linarith
qed

section \<open>The rate limit\<close>

text \<open>
  The counter of a limit key during its minute: it holds the number of counted requests and does not
  expire before the minute is over.
\<close>

definition counted :: "(int \<times> int option) option \<Rightarrow> int \<Rightarrow> int \<Rightarrow> bool" where
  "counted e minute n =
     (if e = None then n = 0
      else n \<ge> 1 \<and> fst (the e) = n \<and> (case snd (the e) of None \<Rightarrow> True | Some d \<Rightarrow> (minute + 1) * 60000000 \<le> d))"

lemma counted_bumped:
  assumes "counted e m n" "t div 60000000 = m"
  shows "fst (bumped e t) = n + 1 \<and> counted (Some (bumped e t)) m (n + 1)"
proof (cases e)
  case None
  then show ?thesis using assms by (simp add: counted_def bumped_def live_value_def)
next
  case (Some p)
  have "t < (m + 1) * 60000000" using assms(2) by (simp add: mult.commute div_less_iff_less_mult flip: zless_iff_Suc_zadd) 
  with Some assms(1) show ?thesis
    by (cases p) (auto simp: counted_def bumped_def live_value_def split: option.splits)
qed

lemma counted_expire:
  assumes "counted e m n" "t div 60000000 = m" "e \<noteq> None"
  shows "counted (map_option (\<lambda>(k, _). (k, Some (t + 61 * 1000000))) e) m n"
proof -
  have "m * 60000000 \<le> t" using assms(2) by (simp add: div_int_pos_iff) 
  with assms show ?thesis by (auto simp: counted_def)
qed

lemma show_int_no_colon: "CHR '':'' \<notin> set (show_int i)"
  using show_nat_digits [of "CHR '':''"] by (auto simp: show_int_def is_digit_def)

lemma limit_key_window: "limit_key k ip w = limit_key k' ip' w' \<Longrightarrow> w = w'"
proof -
  have *: "takeWhile (\<lambda>c. c \<noteq> CHR '':'') (rev (limit_key k ip w)) = rev (show_int w)" for k ip w
  proof -
    have "takeWhile (\<lambda>c. c \<noteq> CHR '':'') (rev (show_int w) @ CHR '':'' # xs) = rev (show_int w)" for xs
      using show_int_no_colon [of w] by (subst takeWhile_append2) auto
    then show ?thesis by (simp add: limit_key_def)
  qed
  assume "limit_key k ip w = limit_key k' ip' w'"
  then have "rev (show_int w) = rev (show_int w')" using * [of k ip w] * [of k' ip' w'] by simp
  then show "w = w'" by simp
qed

lemma counted_incr:
  assumes doc: "redis_documented rs view" and c: "counted (view r K) m n"
    and run: "rs_incr rs now (limit_key k ip (now div 60000000)) r = (res, r')"
    and K: "K = limit_key key ip0 m"
  shows "\<exists>n' \<ge> n. counted (view r' K) m n' \<and>
    (\<forall>x. limit_key k ip (now div 60000000) = K \<and> res = Inr x \<longrightarrow> x = n + 1 \<and> n' = n + 1)"
proof (cases "limit_key k ip (now div 60000000) = K")
  case True
  then have m: "now div 60000000 = m" using K limit_key_window by metis
  note b = counted_bumped [OF c m]
  from redis_incr(2) [OF doc run] show ?thesis
  proof
    assume "view r' (limit_key k ip (now div 60000000)) = view r (limit_key k ip (now div 60000000)) \<and> (\<exists>e. res = Inl e)"
    with True c show ?thesis by (intro exI [of _ n]) auto
  next
    assume "view r' (limit_key k ip (now div 60000000)) = Some (bumped (view r (limit_key k ip (now div 60000000))) now)"
    with True b redis_incr(3) [OF doc run] show ?thesis by (intro exI [of _ "n + 1"]) auto
  qed
next
  case False
  then show ?thesis using redis_incr(1) [OF doc run, of K] c by (intro exI [of _ n]) auto
qed

lemma counted_expire_step:
  assumes doc: "redis_documented rs view" and c: "counted (view r K) m n"
    and run: "rs_expire rs now (limit_key k ip (now div 60000000)) 61 r = (res, r')"
    and K: "K = limit_key key ip0 m"
  shows "counted (view r' K) m n"
proof (cases "limit_key k ip (now div 60000000) = K")
  case True
  then have m: "now div 60000000 = m" using K limit_key_window by metis
  show ?thesis
    using redis_expire(2) [OF doc run] counted_expire [OF c m] c True by (cases "view r K") auto
next
  case False
  then show ?thesis using redis_expire(1) [OF doc run, of K] c by auto
qed

lemma limiter_counts:
  assumes doc: "redis_documented rs view" and c: "counted (view r K) m n" and mx: "mx \<ge> 1"
    and run: "limiter_check_and_store rs mx now k ip r = (Inr (), r')"
    and K: "K = limit_key key ip0 m" "limit_key k ip (now div 60000000) = K"
  shows "counted (view r' K) m (n + 1) \<and> n + 1 \<le> mx"
proof -
  have nl: "\<not> mx < 1" using mx by simp
  from run [unfolded limiter_check_and_store_def Let_def if_not_P [OF nl]]
  obtain count r1 x where i: "rs_incr rs now (limit_key k ip (now div 60000000)) r = (Inr count, r1)"
    and e: "(if count = 1 then rs_expire rs now (limit_key k ip (now div 60000000)) 61 else sret ()) r1 = (Inr x, r')"
    and le: "count \<le> mx"
    unfolding sthen_def sbind_eq_Inr by (elim exE conjE) (simp add: prog_basic_eq split: if_splits)
  from counted_incr [OF doc c i K(1)] K(2) have "counted (view r1 K) m (n + 1)" "count = n + 1" by auto
  moreover have "counted (view r' K) m (n + 1)"
  proof (cases "count = 1")
    case True
    with e have "rs_expire rs now (limit_key k ip (now div 60000000)) 61 r1 = (Inr x, r')" by simp
    from counted_expire_step [OF doc calculation(1) this K(1)] show ?thesis .
  next
    case False
    with e calculation(1) show ?thesis by (simp add: prog_basic_eq)
  qed
  ultimately show ?thesis using le by simp
qed

lemma handshake_keeps_count:
  fixes env :: "('r, 'k) auth_env"
  assumes doc: "redis_documented (ae_redis env) view" and w: "ac_window cfg > 0" and K: "K = limit_key key ip0 m"
  shows "keeps (redis_rel (\<lambda>rd rd'. \<forall>n. counted (view rd K) m n \<longrightarrow> (\<exists>n' \<ge> n. counted (view rd' K) m n')))
    (verify_handshake cfg env r)"
proof (rule handshake_keeps)
  let ?Q = "\<lambda>rd rd'. \<forall>n. counted (view rd K) m n \<longrightarrow> (\<exists>n' \<ge> n. counted (view rd' K) m n')"
  show "reflp ?Q" by (auto simp: reflp_def)
  show "transp ?Q"
  proof (rule transpI, intro allI impI)
    fix a b c n
    assume "?Q a b" "?Q b c" "counted (view a K) m n"
    then obtain n1 n2 where "n \<le> n1" "counted (view b K) m n1" "n1 \<le> n2" "counted (view c K) m n2" by blast
    then show "\<exists>n' \<ge> n. counted (view c K) m n'" by (intro exI [of _ n2]) simp
  qed
  show "keeps ?Q (rs_set_nx (ae_redis env) (rq_now_guard r) (nonce_key k n) v (ac_window cfg))" for k n v
  proof -
    have "view (snd (rs_set_nx (ae_redis env) (rq_now_guard r) (nonce_key k n) v (ac_window cfg) rd)) K = view rd K" for rd
      unfolding K by (rule redis_set(1) [OF doc w prod.collapse [symmetric] nonce_not_limit(2)])
    then show ?thesis by (auto simp: keeps_def)
  qed
  show "keeps ?Q (rs_incr (ae_redis env) (rq_now_limit r) (limit_key k (client_ip r) (rq_now_limit r div 60000000)))" for k
    unfolding keeps_def
  proof (intro allI impI)
    fix rd n assume c: "counted (view rd K) m n"
    let ?run = "rs_incr (ae_redis env) (rq_now_limit r) (limit_key k (client_ip r) (rq_now_limit r div 60000000)) rd"
    from counted_incr [OF doc c prod.collapse [of ?run, symmetric] K]
    show "\<exists>n' \<ge> n. counted (view (snd ?run) K) m n'" by blast
  qed
  show "keeps ?Q (rs_expire (ae_redis env) (rq_now_limit r) (limit_key k (client_ip r) (rq_now_limit r div 60000000)) 61)" for k
    unfolding keeps_def
  proof (intro allI impI)
    fix rd n assume c: "counted (view rd K) m n"
    let ?run = "rs_expire (ae_redis env) (rq_now_limit r) (limit_key k (client_ip r) (rq_now_limit r div 60000000)) 61 rd"
    from counted_expire_step [OF doc c prod.collapse [of ?run, symmetric] K]
    show "\<exists>n' \<ge> n. counted (view (snd ?run) K) m n'" by blast
  qed
qed

definition accepted_on :: "string \<Rightarrow> request \<Rightarrow> string res \<Rightarrow> bool" where
  "accepted_on K r res =
     (case res of Inr k \<Rightarrow> limit_key k (client_ip r) (rq_now_limit r div 60000000) = K | Inl _ \<Rightarrow> False)"

lemma serve_rate:
  assumes doc: "redis_documented (ae_redis env) view" and w: "ac_window cfg > 0" and mx: "ac_max_per_minute cfg \<ge> 1"
    and K: "K = limit_key key ip0 m"
  shows "counted (view (au_redis st) K) m n \<Longrightarrow>
    int (length (filter (\<lambda>(r, res). accepted_on K r res) (zip rs (serve cfg env rs st)))) \<le> max 0 (ac_max_per_minute cfg - n)"
proof (induction rs arbitrary: st n)
  case (Cons r rs)
  obtain res st' where run: "verify_handshake cfg env r st = (res, st')" by force
  show ?case
  proof (cases "accepted_on K r res")
    case True
    then obtain k where k: "res = Inr k" "limit_key k (client_ip r) (rq_now_limit r div 60000000) = K"
      by (auto simp: accepted_on_def split: sum.splits)
    from handshake_Inr [of cfg env r st k st'] run k obtain nonce ts rd where
      set: "rs_set_nx (ae_redis env) (rq_now_guard r) (nonce_key k nonce) (ae_float_text env ts) (ac_window cfg)
        (au_redis st) = (Inr True, rd)" and
      lim: "limiter_check_and_store (ae_redis env) (ac_max_per_minute cfg) (rq_now_limit r) k (client_ip r) rd =
        (Inr (), au_redis st')" by blast
    have "view rd K = view (au_redis st) K" using redis_set(1) [OF doc w set, of K] nonce_not_limit(2) K by metis
    with limiter_counts [OF doc _ mx lim K k(2), of n] Cons.prems
    have "counted (view (au_redis st') K) m (n + 1)" "n + 1 \<le> ac_max_per_minute cfg" by auto
    with Cons.IH [of st' "n + 1"] True run show ?thesis by simp
  next
    case False
    from handshake_keeps_count [OF doc w K, of r] Cons.prems run obtain n' where
      "n \<le> n'" "counted (view (au_redis st') K) m n'" unfolding keeps_def by (metis snd_conv)
    with Cons.IH [of st' n'] False run show ?thesis by simp
  qed
qed simp

text \<open>
  C31. The rate limit holds. Whatever sequence of requests is served, in whatever order of the
  clocks, the number of accepted requests of one bank key and source address in one minute is at most
  the configured maximum, when Redis held no counter for that minute at the start.
\<close>

theorem submit_rate_bounded:
  assumes "redis_documented (ae_redis env) view" "ac_window cfg > 0" "ac_max_per_minute cfg \<ge> 1"
    and "view (au_redis st) (limit_key key ip minute) = None"
  shows "int (length (filter (\<lambda>(r, res). accepted_on (limit_key key ip minute) r res) (zip rs (serve cfg env rs st))))
     \<le> ac_max_per_minute cfg"
  using serve_rate [OF assms(1-3) refl, of st key ip minute 0 rs] assms(3,4) by (simp add: counted_def)

section \<open>Authenticity\<close>

definition canonical_of :: "('r, 'k) auth_env \<Rightarrow> request \<Rightarrow> string \<Rightarrow> string \<Rightarrow> string" where
  "canonical_of env r ts_raw nonce =
     build_canonical_request_string (ae_sha256 env) (rq_method r) (rq_path r) ts_raw nonce (rq_body r)"

definition one_line :: "string \<Rightarrow> bool" where
  "one_line s = (char_of (10::nat) \<notin> set s)"

lemma line_cancel:
  assumes "one_line a" "one_line b" "a @ NL @ x = b @ NL @ y"
  shows "a = b \<and> x = y"
proof -
  have "takeWhile (\<lambda>c. c \<noteq> char_of (10::nat)) (s @ NL @ z) = s" if "one_line s" for s z
    using that by (auto simp: one_line_def NL_def takeWhile_tail)
  then have "a = b" using assms by metis
  with assms(3) show ?thesis by simp
qed

lemma canonical_of_inj:
  assumes "list_all one_line [rq_method r, rq_path r, ts, n]" "list_all one_line [rq_method r', rq_path r', ts', n']"
    and "canonical_of env r' ts' n' = canonical_of env r ts n"
  shows "rq_method r' = rq_method r \<and> rq_path r' = rq_path r \<and> ts' = ts \<and> n' = n \<and>
     ae_sha256 env (rq_body r') = ae_sha256 env (rq_body r)"
proof -
  have o: "one_line (rq_method r')" "one_line (rq_method r)" "one_line (rq_path r')" "one_line (rq_path r)"
    "one_line ts'" "one_line ts" "one_line n'" "one_line n"
    using assms(1,2) by simp_all
  note eq = assms(3) [unfolded canonical_of_def build_canonical_request_string_def]
  note m = line_cancel [OF o(1,2) eq]
  note p = line_cancel [OF o(3,4) m [THEN conjunct2]]
  note t = line_cancel [OF o(5,6) p [THEN conjunct2]]
  note n = line_cancel [OF o(7,8) t [THEN conjunct2]]
  from m p t n show ?thesis by blast
qed

text \<open>
  C26. A signature binds the request. When the handshake accepts, the signature checks, under the
  public key of the version it names for that bank, over the method, the path, the time stamp, the
  nonce and the hash of the body that were received, and the time stamp lies in the window. No other
  request has the same signed text: with the header fields on one line, the signed text determines
  all four fields and the hash of the body.
\<close>

theorem accepted_request_is_signed:
  assumes "verify_handshake cfg env r st = (Inr key, st')"
  shows "\<exists>nonce ts_raw ts. handshake_evidence cfg env r st key nonce ts_raw ts \<and>
     (\<forall>r' ts_raw' nonce'. list_all one_line [rq_method r, rq_path r, ts_raw, nonce] \<longrightarrow>
        list_all one_line [rq_method r', rq_path r', ts_raw', nonce'] \<longrightarrow>
        canonical_of env r' ts_raw' nonce' = canonical_of env r ts_raw nonce \<longrightarrow>
        rq_method r' = rq_method r \<and> rq_path r' = rq_path r \<and> ts_raw' = ts_raw \<and> nonce' = nonce \<and>
        ae_sha256 env (rq_body r') = ae_sha256 env (rq_body r))"
proof -
  obtain nonce ts_raw ts where ev: "handshake_evidence cfg env r st key nonce ts_raw ts"
    using handshake_Inr [OF assms] by blast
  show ?thesis
    by (rule exI [of _ nonce], rule exI [of _ ts_raw], rule exI [of _ ts])
       (intro conjI [OF ev] allI impI canonical_of_inj)
qed

section \<open>Tokens\<close>

text \<open>
  Which bearer tokens are accepted, exactly: the token is present, the latest public key can be
  read and loaded, the token library accepts the token for the configured issuer and audience, its
  lifetime is at most the configured maximum and every required scope is granted. An accepted
  token only refreshes the key cache.
\<close>

theorem jwt_accepted_iff:
  "verify_jwt_credentials cfg env now credentials required st = (Inr claims, st') \<longleftrightarrow>
   (\<exists>token pem cache key e i. credentials = Some token \<and>
      get_public_key (ae_vault env) (ac_cache_ttl cfg) now (ac_jwt_key cfg) None (au_cache st) = (Inr pem, cache) \<and>
      load_ed25519_public_key (ae_ed env) pem = Inr key \<and>
      ae_jwt_decode env token key (ac_issuer cfg) (ac_audience cfg) (ac_leeway cfg) now = Inr claims \<and>
      int_item claims ''exp'' = Inr e \<and> int_item claims ''iat'' = Inr i \<and> e - i \<le> ac_max_ttl cfg \<and>
      set required \<subseteq> set (extract_scope_set claims) \<and> st' = st\<lparr>au_cache := cache\<rparr>)"
proof (cases credentials)
  case None
  then show ?thesis by (simp add: verify_jwt_credentials_def sthen_def sbind_eq_Inr prog_basic_eq)
next
  case (Some token)
  obtain pem cache where k: "get_public_key (ae_vault env) (ac_cache_ttl cfg) now (ac_jwt_key cfg) None (au_cache st) = (pem, cache)"
    by force
  let ?st = "st\<lparr>au_cache := cache\<rparr>"
  have run: "verify_jwt_credentials cfg env now credentials required st = (case pem of Inl e \<Rightarrow> (Inl e, ?st) | Inr p \<Rightarrow>
      (case load_ed25519_public_key (ae_ed env) p of Inl e \<Rightarrow> (Inl e, ?st) | Inr key \<Rightarrow>
      (verify_jwt_credentials cfg env now credentials required st)))"
    by (simp add: verify_jwt_credentials_def Some sbind_def on_cache_def k slift_def split: sum.splits)
  show ?thesis
  proof (cases pem)
    case (Inl e)
    with run k show ?thesis by simp
  next
    case pem: (Inr p)
    show ?thesis
    proof (cases "load_ed25519_public_key (ae_ed env) p")
      case (Inl e)
      with run pem k show ?thesis by simp
    next
      case (Inr key)
      have go: "sbind (on_cache (get_public_key (ae_vault env) (ac_cache_ttl cfg) now (ac_jwt_key cfg) None)) f st = f p ?st" for f
        by (simp add: sbind_def on_cache_def k pem)
      show ?thesis
        unfolding verify_jwt_credentials_def Some option.case go Inr sbind_lifted
        by (cases "ae_jwt_decode env token key (ac_issuer cfg) (ac_audience cfg) (ac_leeway cfg) now")
           (auto simp: k pem Inr sthen_def sbind_eq_Inr prog_basic_eq not_less split: if_splits)
    qed
  qed
qed

lemma normalized_scopes_elem:
  "s \<in> set (normalized_scopes scopes) \<longleftrightarrow> s \<noteq> [] \<and> s \<in> set (map py_strip scopes)"
  by (auto simp: normalized_scopes_def py_sorted_set_def)

lemma granted_scopes:
  assumes "\<And>s. s \<in> set scopes \<Longrightarrow> CHR '' '' \<notin> set (py_strip s)"
  shows "set (extract_scope_set (jwt_payload issuer audience now jti subject ttl scopes)) = set (normalized_scopes scopes)"
proof (cases "normalized_scopes scopes = []")
  case True
  then show ?thesis by (simp add: extract_scope_set_def jwt_payload_def dget_def)
next
  case False
  have split: "py_split (CHR '' '') (py_join '' '' (normalized_scopes scopes)) = normalized_scopes scopes"
    using assms False by (intro py_split_join) (auto simp: normalized_scopes_elem)
  have "map py_strip (normalized_scopes scopes) = normalized_scopes scopes"
    by (intro map_idI) (auto simp: normalized_scopes_elem)
  with False split show ?thesis
    by (auto simp: extract_scope_set_def jwt_payload_def dget_def normalized_scopes_elem)
qed

text \<open>
  Issued tokens carry exactly what was asked for. A token has three dot-separated parts that decode
  to the header, to the claims and to the signature of the first two parts; its lifetime is the
  requested one; and the scopes a verifier reads from its claims are the requested scopes, stripped of
  white space, provided no scope contains a space.
\<close>

theorem issued_token_roundtrip:
  assumes "jwt_sign srv key_name issuer audience now jti subject ttl scopes = Inr token"
    and "\<And>s. s \<in> set scopes \<Longrightarrow> CHR '' '' \<notin> set (py_strip s)"
  shows "\<exists>h p s signature claims. py_split (CHR ''.'') token = [h, p, s] \<and>
     claims = jwt_payload issuer audience now jti subject ttl scopes \<and>
     b64url_decode h = Inr (json_text (PDict jwt_header)) \<and> b64url_decode p = Inr (json_text (PDict claims)) \<and>
     vault_sign srv key_name (h @ ''.'' @ p) = Inr signature \<and> b64url_decode s = Inr (sig_raw signature) \<and>
     dget claims ''exp'' = PInt (now + ttl) \<and> dget claims ''iat'' = PInt now \<and>
     set (extract_scope_set claims) = {s. s \<noteq> [] \<and> s \<in> set (map py_strip scopes)}"
proof -
  let ?claims = "jwt_payload issuer audience now jti subject ttl scopes"
  let ?h = "b64url_encode (json_text (PDict jwt_header))" and ?p = "b64url_encode (json_text (PDict ?claims))"
  from assms(1) obtain signature where sig: "vault_sign srv key_name (?h @ ''.'' @ ?p) = Inr signature"
    and tok: "token = ?h @ ''.'' @ ?p @ ''.'' @ b64url_encode (sig_raw signature)"
    by (auto simp: jwt_sign_def Let_def rbind_eq_Inr)
  have "py_split (CHR ''.'') token = [?h, ?p, b64url_encode (sig_raw signature)]"
    unfolding tok using b64url_no_dot by (simp add: py_split_append py_split_no_sep)
  moreover have "set (extract_scope_set ?claims) = {s. s \<noteq> [] \<and> s \<in> set (map py_strip scopes)}"
    using granted_scopes [of scopes, OF assms(2)] normalized_scopes_elem [of _ scopes] by auto
  ultimately show ?thesis
    using sig b64url_roundtrip by (auto simp: dget_def jwt_payload_def)
qed

section \<open>A concrete store, environment and requests\<close>

type_synonym demo_store = "(string \<times> (int \<times> int option)) list"

definition demo_redis :: "demo_store redis" where
  "demo_redis =
     \<lparr>rs_set_nx = (\<lambda>t k v ex r. if live_value (map_of r k) t \<noteq> None then (Inr False, r)
                               else (Inr True, dput k (0, Some (t + ex * 1000000)) r)),
      rs_incr = (\<lambda>t k r. (Inr (fst (bumped (map_of r k) t)), dput k (bumped (map_of r k) t) r)),
      rs_expire = (\<lambda>t k s r. (Inr (), case map_of r k of None \<Rightarrow> r
                                     | Some (n, _) \<Rightarrow> dput k (n, Some (t + s * 1000000)) r))\<rparr>"

lemma demo_redis_documented: "redis_documented demo_redis map_of"
  unfolding redis_documented_def demo_redis_def by (auto split: if_splits option.splits)

definition demo_claims :: pydict where
  "demo_claims = [(''sub'', PStr ''ops''), (''iat'', PInt 1000), (''exp'', PInt 1060),
     (''scope'', PStr ''proofs:write proofs:read ops:write audit:read'')]"

definition demo_env :: "(demo_store, string) auth_env" where
  "demo_env = \<lparr>ae_vault = demo_server, ae_redis = demo_redis,
     ae_ed = \<lparr>el_load_pem = Some, el_from_raw = Inr, el_verify = (\<lambda>k p s. k = ''pk2'' \<and> s = ''sig'')\<rparr>,
     ae_jwt_decode = (\<lambda>token _ _ _ _ _. if token = ''tok'' then Inr demo_claims else Inl ''no token''), ae_fromiso = (\<lambda>_. None), ae_float_text = show_int,
     ae_sha256 = (\<lambda>x. x)\<rparr>"

definition demo_config :: auth_config where
  "demo_config = \<lparr>ac_jwt_key = ''jwt'', ac_issuer = ''vellum'', ac_audience = ''services'',
     ac_bank_keys = [(''bank'', ''bank-key'')], ac_window = 300, ac_max_ttl = 900, ac_leeway = 0,
     ac_max_per_minute = 5, ac_cache_ttl = 300000000, ac_recorder = True\<rparr>"

definition demo_state :: "demo_store auth_state" where
  "demo_state = \<lparr>au_redis = [], au_cache = [], au_events = []\<rparr>"

text \<open>A request signed for second 1300, received at the given second.\<close>

definition demo_request :: "int \<Rightarrow> request" where
  "demo_request t = \<lparr>rq_method = ''POST'', rq_path = ''/v5/proofs'',
     rq_headers = [(''x-bank-key-id'', ''bank''), (''x-bank-timestamp'', ''1300''), (''x-bank-nonce'', ''n1''),
       (''x-bank-signature'', transit_text 2 ''sig'')], rq_client = Some ''10.0.0.1'', rq_body = ''{}'',
     rq_now_keys = t * 1000000, rq_now_guard = t * 1000000, rq_now_limit = t * 1000000\<rparr>"

definition demo_keys :: "(string \<times> string) list" where
  "demo_keys = [(''1'', ''pk1''), (''2'', ''pk2'')]"

lemma demo_published: "read_public_keys (ae_vault demo_env) ''bank-key'' = Inr demo_keys"
  by (simp add: demo_env_def demo_server_def read_public_keys_def public_key_entry_def demo_keys_def)

lemma demo_headers:
  "header (demo_request t) ''X-Bank-Key-Id'' = Some ''bank''" "header (demo_request t) ''X-Bank-Timestamp'' = Some ''1300''"
  "header (demo_request t) ''X-Bank-Nonce'' = Some ''n1''" "header (demo_request t) ''X-Bank-Signature'' = Some (transit_text 2 ''sig'')"
  "header (demo_request t) ''X-Forwarded-For'' = None"
proof -
  have l: "py_lower ''X-Bank-Key-Id'' = ''x-bank-key-id''" "py_lower ''X-Bank-Timestamp'' = ''x-bank-timestamp''"
    "py_lower ''X-Bank-Nonce'' = ''x-bank-nonce''" "py_lower ''X-Bank-Signature'' = ''x-bank-signature''"
    "py_lower ''X-Forwarded-For'' = ''x-forwarded-for''" by code_simp+
  show "header (demo_request t) ''X-Bank-Key-Id'' = Some ''bank''" "header (demo_request t) ''X-Bank-Timestamp'' = Some ''1300''"
    "header (demo_request t) ''X-Bank-Nonce'' = Some ''n1''" "header (demo_request t) ''X-Bank-Signature'' = Some (transit_text 2 ''sig'')"
    "header (demo_request t) ''X-Forwarded-For'' = None"
    unfolding header_def l by (simp_all add: demo_request_def)
qed

abbreviation demo_limit :: "int \<Rightarrow> string" where
  "demo_limit t \<equiv> limit_key ''bank'' (Some ''10.0.0.1'') (t * 1000000 div 60000000)"

text \<open>What serving the request at second \<open>t\<close> does when its nonce is not live.\<close>

lemma demo_accept:
  assumes "cache_agrees demo_keys ''bank-key'' (au_cache st)" "\<bar>t - 1300\<bar> \<le> 300"
    and "live_value (map_of (au_redis st) (nonce_key ''bank'' ''n1'')) (t * 1000000) = None"
    and "map_of (au_redis st) (demo_limit t) = None"
  shows "\<exists>st'. verify_handshake demo_config demo_env (demo_request t) st = (Inr ''bank'', st') \<and>
     cache_agrees demo_keys ''bank-key'' (au_cache st') \<and>
     map_of (au_redis st') = (map_of (au_redis st))(nonce_key ''bank'' ''n1'' \<mapsto> (0, Some ((t + 300) * 1000000)),
       demo_limit t \<mapsto> (1, Some ((t + 61) * 1000000)))"
proof -
  have ts: "parse_timestamp (ae_fromiso demo_env) ''1300'' = Inr 1300000000" by code_simp
  have two: "show_nat 2 = ''2''" by code_simp
  have dec: "decode_signature (transit_text 2 ''sig'') = Inr (''sig'', ''2'')" using decode_transit [of "''sig''" 2] two by simp
  have "map_of demo_keys ''2'' = Some ''pk2''" by (simp add: demo_keys_def)
  from get_public_key_agrees [OF assms(1) demo_published this] obtain c where
    c: "get_public_key (ae_vault demo_env) 300000000 (t * 1000000) ''bank-key'' (Some ''2'') (au_cache st) = (Inr ''pk2'', c)"
    "cache_agrees demo_keys ''bank-key'' c" by blast
  have mh: "missing_headers (demo_request t) = []" by (simp add: missing_headers_def handshake_headers_def demo_headers transit_text_def)
  have ip: "client_ip (demo_request t) = Some ''10.0.0.1''" by (simp add: client_ip_def demo_headers) (simp add: demo_request_def)
  have cfg: "map_of (ac_bank_keys demo_config) ''bank'' = Some ''bank-key''" "ac_cache_ttl demo_config = 300000000"
    "ac_window demo_config = 300" "ac_max_per_minute demo_config = 5" by (simp_all add: demo_config_def)
  have rq: "rq_now_keys (demo_request t) = t * 1000000" "rq_now_guard (demo_request t) = t * 1000000"
    "rq_now_limit (demo_request t) = t * 1000000" by (simp_all add: demo_request_def)
  have ver: "verify_ed25519_signature (ae_ed demo_env) ''pk2'' m ''sig''" for m
    by (simp add: verify_ed25519_signature_def load_ed25519_public_key_def demo_env_def)
  have win: "\<not> \<bar>t * 1000000 - 1300000000\<bar> > 300 * 1000000" using assms(2) by linarith
  have r: "ae_redis demo_env = demo_redis" by (simp add: demo_env_def)
  note nk = nonce_not_limit
  show ?thesis
    unfolding verify_handshake_def Let_def mh demo_headers option.sel ts cfg dec sbind_lifted rq ip r
    using assms(3,4) c win ver nk
    by (simp add: sbind_def sthen_def scatch_def on_cache_def on_redis_def guard_check_and_store_def
        limiter_check_and_store_def Let_def demo_redis_def sret_def bumped_def live_value_def distrib_right)
qed

text \<open>
  The time stamp of a request may lie up to one window in the future, but its nonce is remembered for
  one window only: a request signed for second 1300 is accepted at second 1000, and the identical
  request is accepted again at second 1300.
\<close>

lemma future_dated_request_replayed:
  "serve demo_config demo_env [demo_request 1000, demo_request 1300] demo_state = [Inr ''bank'', Inr ''bank'']"
proof -
  have "cache_agrees demo_keys ''bank-key'' (au_cache demo_state)" by (simp add: demo_state_def)
  from demo_accept [OF this, of 1000] obtain st1 where
    s1: "verify_handshake demo_config demo_env (demo_request 1000) demo_state = (Inr ''bank'', st1)"
      "cache_agrees demo_keys ''bank-key'' (au_cache st1)"
      "map_of (au_redis st1) = [nonce_key ''bank'' ''n1'' \<mapsto> (0, Some 1300000000), demo_limit 1000 \<mapsto> (1, Some 1061000000)]"
    by (auto simp: demo_state_def live_value_def)
  have "demo_limit 1300 \<noteq> demo_limit 1000" using limit_key_window by fastforce
  with demo_accept [OF s1(2), of 1300] s1(3) nonce_not_limit obtain st2 where
    "verify_handshake demo_config demo_env (demo_request 1300) st1 = (Inr ''bank'', st2)"
    by (auto simp: live_value_def)
  with s1(1) show ?thesis by simp
qed

theorem handshake_replay_window_witness:
  "rq_now_guard ([demo_request 1000, demo_request 1300] ! 0) + ac_window demo_config * 1000000 \<le>
     rq_now_guard ([demo_request 1000, demo_request 1300] ! 1) \<and>
   rq_now_guard ([demo_request 1000, demo_request 1300] ! 0) \<le> 1300000000"
proof (rule handshake_replay_window [where view = map_of and env = demo_env and st = demo_state and key = "''bank''"
      and nonce = "''n1''" and ts_raw = "''1300''"])
  show "redis_documented (ae_redis demo_env) map_of" using demo_redis_documented by (simp add: demo_env_def)
  show "parse_timestamp (ae_fromiso demo_env) ''1300'' = Inr 1300000000" by code_simp
qed (simp_all add: future_dated_request_replayed demo_headers del: serve.simps, simp_all add: demo_config_def demo_request_def)

theorem submit_rate_bounded_witness:
  "int (length (filter (\<lambda>(r, res). accepted_on (limit_key ''bank'' (Some ''10.0.0.1'') 16) r res)
     (zip [demo_request 1000] (serve demo_config demo_env [demo_request 1000] demo_state)))) \<le> ac_max_per_minute demo_config"
proof (rule submit_rate_bounded)
  show "redis_documented (ae_redis demo_env) map_of" using demo_redis_documented by (simp add: demo_env_def)
qed (simp_all add: demo_config_def demo_state_def)

theorem accepted_request_is_signed_witness:
  "\<exists>nonce ts_raw ts. handshake_evidence demo_config demo_env (demo_request 1000) demo_state ''bank'' nonce ts_raw ts"
proof -
  obtain st' where "verify_handshake demo_config demo_env (demo_request 1000) demo_state = (Inr ''bank'', st')"
    using demo_accept [of demo_state 1000] by (auto simp: demo_state_def live_value_def)
  from accepted_request_is_signed [OF this] show ?thesis by blast
qed

theorem issued_token_roundtrip_witness:
  "\<exists>token h p s. jwt_sign demo_server ''jwt'' ''vellum'' ''services'' 1000 ''id'' ''ops'' 60 [''proofs:write''] = Inr token \<and>
     py_split (CHR ''.'') token = [h, p, s] \<and>
     set (extract_scope_set (jwt_payload ''vellum'' ''services'' 1000 ''id'' ''ops'' 60 [''proofs:write''])) =
       {s. s \<noteq> [] \<and> s \<in> set (map py_strip [''proofs:write''])}"
proof -
  have dec: "decode_signature (transit_text 3 ''sig'') = Inr (''sig'', show_nat 3)" by (rule decode_transit) simp
  obtain token where t: "jwt_sign demo_server ''jwt'' ''vellum'' ''services'' 1000 ''id'' ''ops'' 60 [''proofs:write''] = Inr token"
    by (simp add: jwt_sign_def Let_def vault_sign_def demo_server_def dec)
  have "CHR '' '' \<notin> set (py_strip s)" if "s \<in> set [''proofs:write'']" for s
    using that by (auto simp: py_strip_def py_isspace_def)
  from issued_token_roundtrip [OF t this] t show ?thesis by auto
qed

end
