(* ===== verification/Prover_Service.thy ===== *)
theory Prover_Service
  imports Worker Auth
begin

text \<open>
  The prover service \<open>prover_service.py\<close>: submission of proof jobs and policy runs, status queries, and the
  dead-letter operations, each as one handler over the state of the service (authentication state, database,
  evidence files, task queue). Also the request models with their validators (\<open>schemas.py\<close>,
  \<open>run_contract.py\<close>) and the evidence store (\<open>runtime/defaults.py\<close>).

  Parsing of a request body into a model is pydantic's, a parameter; the validator of the batch request is
  modelled. The environment extends that of the worker, with which the service shares the vault, the
  registries and the database.
\<close>

section \<open>Requests\<close>

record batch_request =
  br_circuit_id :: string
  br_balances :: "int list option"
  br_limits :: "int list option"
  br_private_input :: "pydict option"
  br_request_id :: "string option"

definition validate_input_mode :: "batch_request \<Rightarrow> unit res" where
  "validate_input_mode q =
     (let using_balances_limits = (br_balances q \<noteq> None \<or> br_limits q \<noteq> None);
          using_private_input = (br_private_input q \<noteq> None)
      in if using_balances_limits = using_private_input
         then Inl (ValueError ''Provide exactly one input mode: balances/limits or private_input'')
         else if \<not> using_balances_limits then Inr ()
         else case (br_balances q, br_limits q) of
                (Some balances, Some limits) \<Rightarrow>
                  (if length balances \<noteq> length limits then Inl (ValueError ''balances and limits length mismatch'')
                   else if br_circuit_id q \<noteq> DEFAULT_BATCH_CIRCUIT_ID
                   then Inl (ValueError ''balances/limits mode is only supported for circuit_id=batch_credit_check'')
                   else Inr ())
              | _ \<Rightarrow> Inl (ValueError ''balances and limits must both be provided for direct mode''))"

definition opt_ints :: "int list option \<Rightarrow> pyval" where
  "opt_ints v = (case v of None \<Rightarrow> PNone | Some xs \<Rightarrow> PList (map PInt xs))"

definition batch_model_dump :: "batch_request \<Rightarrow> pydict" where
  "batch_model_dump q =
     [(''circuit_id'', PStr (br_circuit_id q)), (''balances'', opt_ints (br_balances q)), (''limits'', opt_ints (br_limits q)),
      (''private_input'', opt_dict (br_private_input q)), (''request_id'', opt_str (br_request_id q))]"

datatype evidence_input = EvidenceInline pydict | EvidenceRef string

record run_request =
  rr_policy_id :: string
  rr_evidence :: evidence_input
  rr_policy_params_ref :: "string option"
  rr_context :: pydict
  rr_client_request_id :: "string option"

definition run_model_dump :: "run_request \<Rightarrow> pydict" where
  "run_model_dump q =
     [(''policy_id'', PStr (rr_policy_id q)),
      (''evidence'', case rr_evidence q of
         EvidenceInline payload \<Rightarrow> PDict [(''type'', PStr ''inline''), (''payload'', PDict payload)]
       | EvidenceRef ref \<Rightarrow> PDict [(''type'', PStr ''ref''), (''ref'', PStr ref)]),
      (''policy_params_ref'', opt_str (rr_policy_params_ref q)), (''context'', PDict (rr_context q)),
      (''client_request_id'', opt_str (rr_client_request_id q))]"

section \<open>State and environment\<close>

record 'r service_state =
  ps_auth :: "'r auth_state"
  ps_db :: database
  ps_files :: "(string \<times> string) list"
  ps_queue :: "string list"

record ('r, 'k) prover_env =
  pe_auth_config :: auth_config
  pe_auth :: "('r, 'k) auth_env"
  pe_worker :: worker_env
  pe_jwt_now :: int
  pe_uuid :: string
  pe_max_submit_body_bytes :: int
  pe_evidence_dir :: string
  pe_packs_dir :: string
  pe_read_file :: "string \<Rightarrow> string option"
  pe_reference_policies :: "reference_policy list"
  pe_parse_batch :: "string \<Rightarrow> string + batch_request"
  pe_parse_run :: "string \<Rightarrow> string + run_request"
  pe_model_error :: "string \<Rightarrow> string"
  pe_enqueue_error :: "pyexc option"

text \<open>
  The checks of the authentication layer report to \<open>security_logger.record\<close>, which writes to the database
  of the service. The checks touch nothing else of the database, so the rows of the events a check
  reported are inserted when it ends.
\<close>

definition record_denials :: "bool \<Rightarrow> int \<Rightarrow> sec_event list \<Rightarrow> database \<Rightarrow> database" where
  "record_denials available now events =
     fold (\<lambda>e. record_security_event available now (sv_type e) (sv_outcome e) (sv_actor e) (sv_source_ip e) None (Some (sv_details e))) events"

definition on_auth :: "('r, 'k) prover_env \<Rightarrow> ('r auth_state, 'a) prog \<Rightarrow> ('r service_state, 'a) prog" where
  "on_auth env m st =
     (case m (ps_auth st) of
        (r, au) \<Rightarrow>
          (r, st\<lparr>ps_auth := au,
                ps_db := record_denials (we_events_available (pe_worker env)) (we_now (pe_worker env) 2)
                  (drop (length (au_events (ps_auth st))) (au_events au)) (ps_db st)\<rparr>))"

definition on_data :: "(database \<Rightarrow> 'a \<times> database) \<Rightarrow> ('r service_state, 'a) prog" where
  "on_data f st = (case f (ps_db st) of (x, db) \<Rightarrow> (Inr x, st\<lparr>ps_db := db\<rparr>))"

definition service_audit :: "('r, 'k) prover_env \<Rightarrow> nat \<Rightarrow> audit_event \<Rightarrow> ('r service_state, unit) prog" where
  "service_audit env k e st =
     (let wk = pe_worker env
      in case append_event (we_sha256 wk) (we_vault wk) (we_audit_key wk) (we_audit_clock wk k) (we_others wk k) e (ps_db st) of
           (r, db) \<Rightarrow> (rbind r (\<lambda>_. Inr ()), st\<lparr>ps_db := db\<rparr>))"

definition enqueue :: "('r, 'k) prover_env \<Rightarrow> string \<Rightarrow> ('r service_state, unit) prog" where
  "enqueue env proof_id =
     (case pe_enqueue_error env of
        Some e \<Rightarrow> sthrow e
      | None \<Rightarrow> supd (\<lambda>st. st\<lparr>ps_queue := ps_queue st @ [proof_id]\<rparr>))"

definition require_scope :: "('r, 'k) prover_env \<Rightarrow> string \<Rightarrow> string option \<Rightarrow> ('r service_state, pydict) prog" where
  "require_scope env scope credentials =
     on_auth env (required_scoped_jwt (pe_auth_config env) (pe_auth env) [scope] (pe_jwt_now env) credentials)"

definition create_job_step ::
  "('r, 'k) prover_env \<Rightarrow> string \<Rightarrow> string \<Rightarrow> string \<Rightarrow> string \<Rightarrow> pydict \<Rightarrow> pydict \<Rightarrow> ('r service_state, unit) prog" where
  "create_job_step env proof_id circuit_id sealed_payload input_fingerprint input_summary metadata st =
     (case create_proof_job (we_now (pe_worker env) 0) proof_id circuit_id ''queued'' sealed_payload input_fingerprint
             input_summary metadata (ps_db st) of
        Inl e \<Rightarrow> (Inl e, st)
      | Inr (_, db) \<Rightarrow> (Inr (), st\<lparr>ps_db := db\<rparr>))"

section \<open>Intake\<close>

definition enforce_submit_body_size :: "('r, 'k) prover_env \<Rightarrow> request \<Rightarrow> unit res" where
  "enforce_submit_body_size env rq =
     rcheck (int (length (rq_body rq)) \<le> pe_max_submit_body_bytes env)
       (APIError 413 ''payload_too_large'' ''Request payload exceeds configured size limit''
         [(''path'', PStr (rq_path rq)), (''limit_bytes'', PInt (pe_max_submit_body_bytes env)),
          (''received_bytes'', PInt (int (length (rq_body rq))))])"

definition decode_and_authenticate_payload ::
  "('r, 'k) prover_env \<Rightarrow> (string \<Rightarrow> string + 'p) \<Rightarrow> string \<Rightarrow> request \<Rightarrow> ('r service_state, 'p \<times> string) prog" where
  "decode_and_authenticate_payload env parse validation_message rq =
     sbind (slift (enforce_submit_body_size env rq)) (\<lambda>_.
     sbind (on_auth env (verify_handshake (pe_auth_config env) (pe_auth env) rq)) (\<lambda>bank_key_id.
     case parse (rq_body rq) of
       Inl reason \<Rightarrow> sthrow (APIError 422 ''invalid_request'' validation_message [(''reason'', PStr reason)])
     | Inr payload \<Rightarrow> sret (payload, bank_key_id)))"

text \<open>A batch request is accepted by the model when its fields parse and its validator passes.\<close>

definition batch_model :: "('r, 'k) prover_env \<Rightarrow> string \<Rightarrow> string + batch_request" where
  "batch_model env raw =
     (case pe_parse_batch env raw of
        Inl m \<Rightarrow> Inl m
      | Inr q \<Rightarrow> (case validate_input_mode q of
                   Inl e \<Rightarrow> Inl (pe_model_error env (exc_text (we_interp_text (pe_worker env)) e)) | Inr _ \<Rightarrow> Inr q))"

definition validate_private_input_schema_or_raise :: "('r, 'k) prover_env \<Rightarrow> string \<Rightarrow> pydict \<Rightarrow> unit res" where
  "validate_private_input_schema_or_raise env circuit_id private_input =
     (case get_circuit_manifest (we_circuits (pe_worker env)) circuit_id of
        Inl _ \<Rightarrow> Inl (APIError 404 ''unknown_circuit'' ''Circuit id not found'' [(''circuit_id'', PStr circuit_id)])
      | Inr manifest \<Rightarrow>
          (case validate_private_input_schema (we_schema_lib (pe_worker env)) (cm_input_schema manifest) private_input of
             Inl e \<Rightarrow> Inl (APIError 422 ''invalid_private_input_schema'' ''private_input does not satisfy circuit input_schema''
                        [(''circuit_id'', PStr circuit_id), (''reason'', PStr (exc_text (we_interp_text (pe_worker env)) e))])
           | Inr _ \<Rightarrow> Inr ()))"

definition load_policy_manifest :: "('r, 'k) prover_env \<Rightarrow> string \<Rightarrow> policy_manifest res" where
  "load_policy_manifest env policy_id =
     (case get_policy_manifest (we_policies (pe_worker env)) policy_id of
        Inl _ \<Rightarrow> Inl (APIError 404 ''unknown_policy'' ''Policy id not found'' [(''policy_id'', PStr policy_id)])
      | Inr m \<Rightarrow> Inr m)"

definition persist_and_enqueue_job ::
  "('r, 'k) prover_env \<Rightarrow> string \<Rightarrow> string \<Rightarrow> pydict \<Rightarrow> string \<Rightarrow> string \<Rightarrow> pydict \<Rightarrow> ('r service_state, unit) prog" where
  "persist_and_enqueue_job env proof_id circuit_id request_payload source_mode sealed_payload metadata =
     sthen (create_job_step env proof_id circuit_id sealed_payload
              (compute_input_fingerprint (we_sha256 (pe_worker env)) source_mode request_payload)
              (build_input_summary source_mode request_payload circuit_id) metadata)
    (sthen (service_audit env 0 (audit_of proof_id circuit_id ''queued'' [] PNone metadata None))
           (enqueue env proof_id))"

section \<open>Batch proofs\<close>

definition batch_private_input :: "('r, 'k) prover_env \<Rightarrow> batch_request \<Rightarrow> pydict res" where
  "batch_private_input env q =
     (case br_private_input q of
        Some i \<Rightarrow> Inr i
      | None \<Rightarrow>
          (case (br_balances q, br_limits q) of
             (Some balances, Some limits) \<Rightarrow>
               (case batch_prepare_input (map PInt balances) (map PInt limits) (int MAX_BATCH_SIZE) of
                  Inl e \<Rightarrow> Inl (APIError 422 ''invalid_batch_input'' ''Batch payload invalid''
                             [(''reason'', PStr (exc_text (we_interp_text (pe_worker env)) e))])
                | Inr prepared \<Rightarrow> Inr (to_circuit_input prepared))
           | _ \<Rightarrow> Inl AssertionError))"

definition batch_metadata :: "batch_request \<Rightarrow> pydict \<Rightarrow> string \<Rightarrow> pydict" where
  "batch_metadata q claims bank_key_id =
     [(''mode'', PStr ''batch''), (''request_id'', opt_str (br_request_id q)), (''auth_subject'', dget claims ''sub''),
      (''bank_key_id'', PStr bank_key_id),
      (''source_mode'', PStr (if br_private_input q \<noteq> None then ''private_input'' else ''direct''))] @
     (if br_circuit_id q = DEFAULT_BATCH_CIRCUIT_ID
      then [(''batch_size'', PInt (case br_balances q of Some xs \<Rightarrow> int (length xs) | None \<Rightarrow> int MAX_BATCH_SIZE))] else [])"

definition create_batch_proof :: "('r, 'k) prover_env \<Rightarrow> string option \<Rightarrow> request \<Rightarrow> ('r service_state, string \<times> string) prog" where
  "create_batch_proof env credentials rq =
     sbind (require_scope env ''proofs:write'' credentials) (\<lambda>claims.
     sbind (decode_and_authenticate_payload env (batch_model env) ''Request body does not match schema'' rq) (\<lambda>(payload, bank_key_id).
     sbind (slift (batch_private_input env payload)) (\<lambda>private_input.
     sbind (slift (validate_private_input_schema_or_raise env (br_circuit_id payload) private_input)) (\<lambda>_.
     let metadata = batch_metadata payload claims bank_key_id; proof_id = pe_uuid env; request_payload = batch_model_dump payload
     in sbind (slift (seal_job_payload (we_vault (pe_worker env)) (we_data_key (pe_worker env)) request_payload (Some private_input) None None))
          (\<lambda>sealed_payload.
        sthen (persist_and_enqueue_job env proof_id (br_circuit_id payload) request_payload
                 (if br_private_input payload \<noteq> None then ''private_input'' else ''direct'') sealed_payload metadata)
              (sret (proof_id, ''queued'')))))))"

section \<open>Policy runs\<close>

definition evidence_write :: "string \<Rightarrow> string \<Rightarrow> pydict \<Rightarrow> (string \<times> string) list \<Rightarrow> string \<times> (string \<times> string) list" where
  "evidence_write base_dir run_id payload files =
     (let path = path_join base_dir (run_id @ ''.json'') in (path, dput path (canonical_json (PDict payload)) files))"

definition evidence_read :: "(string \<Rightarrow> pyval) \<Rightarrow> string \<Rightarrow> (string \<times> string) list \<Rightarrow> pydict res" where
  "evidence_read parse_float reference files =
     (case map_of files reference of
        None \<Rightarrow> Inl (OtherError (''evidence reference does not exist: '' @ reference))
      | Some raw \<Rightarrow>
          rbind (json_loads parse_float raw) (\<lambda>data.
          case data of PDict d \<Rightarrow> Inr d | _ \<Rightarrow> Inl (ValueError ''evidence payload must be a JSON object'')))"

definition evidence_put :: "('r, 'k) prover_env \<Rightarrow> string \<Rightarrow> pydict \<Rightarrow> ('r service_state, string) prog" where
  "evidence_put env run_id payload st =
     (case evidence_write (pe_evidence_dir env) run_id payload (ps_files st) of (path, files) \<Rightarrow> (Inr path, st\<lparr>ps_files := files\<rparr>))"

definition evidence_get :: "('r, 'k) prover_env \<Rightarrow> string \<Rightarrow> ('r service_state, pydict) prog" where
  "evidence_get env reference st = (evidence_read (we_parse_float (pe_worker env)) reference (ps_files st), st)"

definition resolve_policy_evidence ::
  "('r, 'k) prover_env \<Rightarrow> string \<Rightarrow> run_request \<Rightarrow> ('r service_state, pydict \<times> string) prog" where
  "resolve_policy_evidence env run_id payload =
     (case rr_evidence payload of
        EvidenceInline p \<Rightarrow> sbind (evidence_put env run_id p) (\<lambda>ref. sret (p, ref))
      | EvidenceRef ref \<Rightarrow>
          sbind (scatch (evidence_get env ref)
                   (\<lambda>e. sthrow (APIError 422 ''invalid_evidence_ref'' ''Unable to resolve evidence_ref''
                          [(''evidence_ref'', PStr ref), (''reason'', PStr (exc_text (we_interp_text (pe_worker env)) e))])))
            (\<lambda>p. sret (p, ref)))"

definition api_of_framework :: "'a res \<Rightarrow> 'a res" where
  "api_of_framework r = (case r of Inl (FrameworkError c m d) \<Rightarrow> Inl (APIError 422 c m d) | _ \<Rightarrow> r)"

definition params_dict :: "(string \<times> int) list \<Rightarrow> pydict" where
  "params_dict ps = map (\<lambda>(k, i). (k, PInt i)) ps"

definition effective_evidence :: "pydict \<Rightarrow> (string \<times> int) list \<Rightarrow> pydict" where
  "effective_evidence evidence params =
     (if params = [] then evidence else dput ''policy_parameters'' (PDict (params_dict params)) evidence)"

definition policy_run_metadata ::
  "run_request \<Rightarrow> pydict \<Rightarrow> string \<Rightarrow> string \<Rightarrow> string \<Rightarrow> string \<Rightarrow> pyval \<Rightarrow> pydict" where
  "policy_run_metadata payload claims bank_key_id policy_version attestation_id evidence_ref policy_params_hash =
     [(''mode'', PStr ''policy_run''), (''api_version'', PStr ''v6''), (''client_request_id'', opt_str (rr_client_request_id payload)),
      (''auth_subject'', dget claims ''sub''), (''bank_key_id'', PStr bank_key_id), (''policy_id'', PStr (rr_policy_id payload)),
      (''policy_version'', PStr policy_version), (''attestation_id'', PStr attestation_id), (''evidence_ref'', PStr evidence_ref),
      (''policy_params_ref'', opt_str (rr_policy_params_ref payload)), (''policy_params_hash'', policy_params_hash),
      (''decision'', PNone), (''context'', PDict (rr_context payload))]"

definition reference_of :: "('r, 'k) prover_env \<Rightarrow> policy_manifest \<Rightarrow> pydict \<Rightarrow> dual_track_reference res" where
  "reference_of env manifest evidence =
     prepare_reference_track (fst (get_reference_policy (pe_reference_policies env) None (pm_reference_policy manifest)))
       (pm_reference_policy manifest) (pm_differential_outputs manifest) evidence"

definition reference_document :: "dual_track_reference \<Rightarrow> pydict" where
  "reference_document ref = [(''decision'', PStr (decision_text (dr_decision ref))), (''outputs'', PDict (dr_outputs ref))]"

record run_accepted =
  ra_run_id :: string
  ra_policy_id :: string
  ra_lifecycle_state :: string
  ra_attestation_id :: string

text \<open>The handler behind its two checks.\<close>

definition submit_policy_run ::
  "('r, 'k) prover_env \<Rightarrow> pydict \<Rightarrow> run_request \<times> string \<Rightarrow> ('r service_state, run_accepted) prog" where
  "submit_policy_run env claims = (\<lambda>(payload, bank_key_id).
     sbind (slift (load_policy_manifest env (rr_policy_id payload))) (\<lambda>policy_manifest.
     let run_id = pe_uuid env; attestation_id = ''att-'' @ run_id
     in sbind (resolve_policy_evidence env run_id payload) (\<lambda>(evidence_payload, evidence_ref).
        sbind (slift (api_of_framework (resolve_params_ref (we_parse_float (pe_worker env)) (pe_read_file env) (pe_packs_dir env)
                 (rr_policy_id payload) (rr_policy_params_ref payload)))) (\<lambda>policy_parameters.
        let policy_params_hash = (if policy_parameters = [] then PNone
                else PStr (compute_policy_params_hash (we_sha256 (pe_worker env)) (params_dict policy_parameters)))
        in sbind (slift (api_of_framework (reference_of env policy_manifest (effective_evidence evidence_payload policy_parameters))))
             (\<lambda>reference_result.
           let metadata = policy_run_metadata payload claims bank_key_id (pm_policy_version policy_manifest) attestation_id
                 evidence_ref policy_params_hash;
               request_payload = run_model_dump payload
           in sbind (slift (validate_private_input_schema_or_raise env (pm_circuit_id policy_manifest) (dr_private_input reference_result))) (\<lambda>_.
              sbind (slift (seal_job_payload (we_vault (pe_worker env)) (we_data_key (pe_worker env)) request_payload
                       (Some (dr_private_input reference_result)) (Some (reference_document reference_result))
                       (if policy_parameters = [] then None else Some (params_dict policy_parameters)))) (\<lambda>sealed_payload.
              sthen (persist_and_enqueue_job env run_id (pm_circuit_id policy_manifest) request_payload ''policy_run'' sealed_payload metadata)
                    (sret \<lparr>ra_run_id = run_id, ra_policy_id = rr_policy_id payload, ra_lifecycle_state = ''queued'',
                           ra_attestation_id = attestation_id\<rparr>))))))))"

definition create_policy_run :: "('r, 'k) prover_env \<Rightarrow> string option \<Rightarrow> request \<Rightarrow> ('r service_state, run_accepted) prog" where
  "create_policy_run env credentials rq =
     sbind (require_scope env ''proofs:write'' credentials) (\<lambda>claims.
     sbind (decode_and_authenticate_payload env (pe_parse_run env) ''Request body does not match v6 run schema'' rq)
       (submit_policy_run env claims))"

section \<open>Dead letters\<close>

definition or_str :: "pyval \<Rightarrow> string \<Rightarrow> string" where
  "or_str v d = (if truthy v then py_str v else d)"

record requeue_response =
  rs_dlq_id :: nat
  rs_source_proof_id :: string
  rs_rerun_proof_id :: string
  rs_status :: string

definition rerun_metadata :: "dead_letter_job \<Rightarrow> proof_job option \<Rightarrow> string \<Rightarrow> string option \<Rightarrow> pydict" where
  "rerun_metadata row source_job actor reason =
     (let base = [(''source_mode'', PStr ''rerun''), (''rerun_of'', PStr (dl_proof_id row)), (''dlq_entry_id'', PInt (int (dl_id row)))];
          inherited = (case source_job of
             None \<Rightarrow> base
           | Some j \<Rightarrow> (let m = dupdate base (pj_meta j) in dput ''source_mode'' (PStr (or_str (dget m ''source_mode'') ''rerun'')) m))
      in dupdate inherited [(''rerun_of'', PStr (dl_proof_id row)), (''dlq_entry_id'', PInt (int (dl_id row))),
           (''rerun_requested_by'', PStr actor), (''rerun_reason'', opt_str reason)])"

definition rerun_fingerprint :: "(string \<Rightarrow> string) \<Rightarrow> dead_letter_job \<Rightarrow> proof_job option \<Rightarrow> string" where
  "rerun_fingerprint sha256 row source_job =
     (let own = compute_input_fingerprint sha256 ''rerun''
            [(''rerun_of'', PStr (dl_proof_id row)), (''dlq_entry_id'', PInt (int (dl_id row)))]
      in case source_job of Some j \<Rightarrow> (if pj_input_fingerprint j \<noteq> [] then pj_input_fingerprint j else own) | None \<Rightarrow> own)"

definition rerun_summary :: "dead_letter_job \<Rightarrow> proof_job option \<Rightarrow> pydict" where
  "rerun_summary row source_job =
     (let own = build_input_summary ''rerun'' [(''rerun_of'', PStr (dl_proof_id row))] (dl_circuit_id row)
      in case source_job of Some j \<Rightarrow> (if pj_input_summary j \<noteq> [] then pj_input_summary j else own) | None \<Rightarrow> own)"

text \<open>The rerun of a dead letter that has a payload and no rerun yet.\<close>

definition submit_rerun ::
  "('r, 'k) prover_env \<Rightarrow> pydict \<Rightarrow> nat \<Rightarrow> string option \<Rightarrow> dead_letter_job \<Rightarrow> string \<Rightarrow> ('r service_state, requeue_response) prog" where
  "submit_rerun env claims dlq_id reason row sealed_rerun_payload =
     sbind (sget (\<lambda>st. get_proof_job (dl_proof_id row) (ps_db st))) (\<lambda>source_job.
     let actor = or_str (dget claims ''sub'') ''ops'';
         metadata = rerun_metadata row source_job actor reason;
         rerun_proof_id = pe_uuid env
     in sthen (create_job_step env rerun_proof_id (dl_circuit_id row) sealed_rerun_payload
                 (rerun_fingerprint (we_sha256 (pe_worker env)) row source_job) (rerun_summary row source_job) metadata)
       (sthen (service_audit env 0 (audit_of rerun_proof_id (dl_circuit_id row) ''queued'' [] PNone metadata None))
       (sthen (service_audit env 1 (audit_of (dl_proof_id row) (dl_circuit_id row) ''rerun_triggered'' [] PNone
                 [(''dlq_entry_id'', PInt (int dlq_id)), (''rerun_proof_id'', PStr rerun_proof_id),
                  (''rerun_requested_by'', PStr actor), (''rerun_reason'', opt_str reason)] None))
       (sthen (enqueue env rerun_proof_id)
       (sthen (on_data (mark_dead_letter_job_requeued (we_now (pe_worker env) 1) dlq_id rerun_proof_id actor reason))
              (sret \<lparr>rs_dlq_id = dlq_id, rs_source_proof_id = dl_proof_id row, rs_rerun_proof_id = rerun_proof_id,
                     rs_status = ''queued''\<rparr>))))))"

definition requeue_dead_letter_job ::
  "('r, 'k) prover_env \<Rightarrow> string option \<Rightarrow> nat \<Rightarrow> string option \<Rightarrow> ('r service_state, requeue_response) prog" where
  "requeue_dead_letter_job env credentials dlq_id reason =
     sbind (require_scope env ''ops:write'' credentials) (\<lambda>claims.
     sbind (sget (\<lambda>st. get_dead_letter_job dlq_id (ps_db st))) (\<lambda>found.
     case found of
       None \<Rightarrow> sthrow (APIError 404 ''unknown_dlq_entry'' ''No dead-letter entry found for id'' [(''dlq_id'', PInt (int dlq_id))])
     | Some row \<Rightarrow>
         (case dl_rerun_proof_id row of
            Some (c # cs) \<Rightarrow>
              sret \<lparr>rs_dlq_id = dlq_id, rs_source_proof_id = dl_proof_id row, rs_rerun_proof_id = c # cs, rs_status = ''already_requeued''\<rparr>
          | _ \<Rightarrow>
              (case dl_sealed_rerun_payload row of
                 Some (b # bs) \<Rightarrow>
                   submit_rerun env claims dlq_id reason row (b # bs)
               | _ \<Rightarrow> sthrow (APIError 409 ''rerun_payload_unavailable'' ''Dead-letter entry cannot be requeued without sealed payload''
                        [(''dlq_id'', PInt (int dlq_id))])))))"

record dead_letter_item =
  di_id :: nat
  di_item_proof_id :: string
  di_item_circuit_id :: string
  di_item_status :: string
  di_item_error_class :: string
  di_item_retryable :: bool
  di_item_failure_reason :: string
  di_item_error_message :: string
  di_item_attempt_count :: int
  di_item_max_attempts :: int
  di_item_rerun_proof_id :: "string option"
  di_item_triage_details :: pydict
  di_item_created_at :: int
  di_item_updated_at :: int

definition dead_letter_item_of :: "dead_letter_job \<Rightarrow> dead_letter_item" where
  "dead_letter_item_of r =
     \<lparr>di_id = dl_id r, di_item_proof_id = dl_proof_id r, di_item_circuit_id = dl_circuit_id r, di_item_status = dl_status r,
      di_item_error_class = dl_error_class r, di_item_retryable = dl_retryable r, di_item_failure_reason = dl_failure_reason r,
      di_item_error_message = dl_error_message r, di_item_attempt_count = dl_attempt_count r, di_item_max_attempts = dl_max_attempts r,
      di_item_rerun_proof_id = (case dl_rerun_proof_id r of Some (c # cs) \<Rightarrow> Some (c # cs) | _ \<Rightarrow> None),
      di_item_triage_details = dl_triage_details r, di_item_created_at = dl_created_at r, di_item_updated_at = dl_updated_at r\<rparr>"

definition list_dead_letters_endpoint ::
  "('r, 'k) prover_env \<Rightarrow> string option \<Rightarrow> string option \<Rightarrow> int \<Rightarrow> ('r service_state, dead_letter_item list) prog" where
  "list_dead_letters_endpoint env credentials status limit =
     sbind (require_scope env ''ops:read'' credentials) (\<lambda>_.
     sget (\<lambda>st. map dead_letter_item_of (list_dead_letter_jobs status limit (ps_db st))))"

section \<open>Status queries\<close>

definition col_value :: "json_col \<Rightarrow> pyval" where
  "col_value c = (case c of SqlNull \<Rightarrow> PNone | JsonVal v \<Rightarrow> v)"

record proof_status =
  st_proof_id :: string
  st_status :: string
  st_circuit_id :: string
  st_public_signals :: pyval
  st_proof :: pyval
  st_error :: "string option"
  st_metadata :: pydict
  st_created_at :: int
  st_updated_at :: int

definition get_proof_status :: "('r, 'k) prover_env \<Rightarrow> string option \<Rightarrow> string \<Rightarrow> ('r service_state, proof_status) prog" where
  "get_proof_status env credentials proof_id =
     sbind (require_scope env ''proofs:read'' credentials) (\<lambda>_.
     sbind (sget (\<lambda>st. get_proof_job proof_id (ps_db st))) (\<lambda>found.
     case found of
       None \<Rightarrow> sthrow (APIError 404 ''unknown_proof_id'' ''No proof found for id'' [(''proof_id'', PStr proof_id)])
     | Some job \<Rightarrow>
         sret \<lparr>st_proof_id = pj_proof_id job, st_status = pj_status job, st_circuit_id = pj_circuit_id job,
               st_public_signals = (if truthy (col_value (pj_public_signals job)) then col_value (pj_public_signals job) else PList []),
               st_proof = col_value (pj_proof job), st_error = pj_error job, st_metadata = pj_meta job,
               st_created_at = pj_created_at job, st_updated_at = pj_updated_at job\<rparr>))"

definition list_proofs ::
  "('r, 'k) prover_env \<Rightarrow> string option \<Rightarrow> string option \<Rightarrow> string option \<Rightarrow> int \<Rightarrow> ('r service_state, proof_job list) prog" where
  "list_proofs env credentials status circuit_id limit =
     sbind (require_scope env ''proofs:read'' credentials) (\<lambda>_.
     sget (\<lambda>st. list_proof_jobs status circuit_id limit (ps_db st)))"

definition normalize_lifecycle_state :: "string \<Rightarrow> string" where
  "normalize_lifecycle_state status =
     (if status = ''queued'' \<or> status = ''running'' \<or> status = ''completed'' \<or> status = ''failed'' then status else ''failed'')"

record run_status =
  ru_run_id :: string
  ru_policy_id :: string
  ru_lifecycle_state :: string
  ru_circuit_id :: string
  ru_decision :: "string option"
  ru_attestation_id :: string
  ru_evidence_ref :: "string option"
  ru_policy_params_ref :: "string option"
  ru_policy_params_hash :: "string option"
  ru_client_request_id :: "string option"
  ru_context :: pydict
  ru_error :: "(string \<times> string \<times> pydict) option"
  ru_submitted_at :: int
  ru_updated_at :: int

definition str_of :: "pyval \<Rightarrow> string option" where
  "str_of v = (case v of PStr s \<Rightarrow> Some s | _ \<Rightarrow> None)"

definition unknown_run_id_error :: "string \<Rightarrow> pyexc" where
  "unknown_run_id_error run_id = APIError 404 ''unknown_run_id'' ''No policy run found for id'' [(''run_id'', PStr run_id)]"

text \<open>
  The decision of a run: the code tests membership in a set, which raises for an unhashable value; the
  services only store strings and \<open>None\<close> there.
\<close>

definition run_decision :: "pyval \<Rightarrow> string option res" where
  "run_decision v =
     (case v of PStr t \<Rightarrow> Inr (if t = ''pass'' \<or> t = ''fail'' then Some t else None)
      | PList _ \<Rightarrow> Inl TypeError | PDict _ \<Rightarrow> Inl TypeError | _ \<Rightarrow> Inr None)"

definition run_error :: "proof_job \<Rightarrow> (string \<times> string \<times> pydict) option" where
  "run_error job =
     (case pj_error job of
        Some (c # cs) \<Rightarrow> Some (or_str (dget (pj_meta job) ''failure_reason'') ''run_failed'', c # cs,
                              (case dget (pj_meta job) ''error_details'' of PDict d \<Rightarrow> d | _ \<Rightarrow> []))
      | _ \<Rightarrow> None)"

definition get_policy_run_status :: "('r, 'k) prover_env \<Rightarrow> string option \<Rightarrow> string \<Rightarrow> ('r service_state, run_status) prog" where
  "get_policy_run_status env credentials run_id =
     sbind (require_scope env ''proofs:read'' credentials) (\<lambda>_.
     sbind (sget (\<lambda>st. get_proof_job run_id (ps_db st))) (\<lambda>found.
     case found of
       None \<Rightarrow> sthrow (unknown_run_id_error run_id)
     | Some job \<Rightarrow>
         (let metadata = pj_meta job
          in case dget metadata ''policy_id'' of
               PStr (c # cs) \<Rightarrow>
                 sbind (slift (run_decision (dget metadata ''decision''))) (\<lambda>decision.
                 sret \<lparr>ru_run_id = run_id, ru_policy_id = c # cs, ru_lifecycle_state = normalize_lifecycle_state (pj_status job),
                       ru_circuit_id = pj_circuit_id job, ru_decision = decision,
                       ru_attestation_id = or_str (dget metadata ''attestation_id'') (''att-'' @ run_id),
                       ru_evidence_ref = (if truthy (dget metadata ''evidence_ref'') then Some (py_str (dget metadata ''evidence_ref'')) else None),
                       ru_policy_params_ref = str_of (dget metadata ''policy_params_ref''),
                       ru_policy_params_hash = str_of (dget metadata ''policy_params_hash''),
                       ru_client_request_id = (case dget metadata ''client_request_id'' of PStr (d # ds) \<Rightarrow> Some (d # ds) | _ \<Rightarrow> None),
                       ru_context = (case dget metadata ''context'' of PDict d \<Rightarrow> d | _ \<Rightarrow> []),
                       ru_error = run_error job, ru_submitted_at = pj_created_at job, ru_updated_at = pj_updated_at job\<rparr>)
             | _ \<Rightarrow> sthrow (unknown_run_id_error run_id))))"

end
