(* ===== verification/Prover_Correctness.thy ===== *)
theory Prover_Correctness
  imports Worker_Correctness Prover_Service
begin

text \<open>
  Correctness of the prover service together with the worker. Access control of the write operations; what an
  accepted submission fixes (\<open>run_submitted\<close>); the path of a policy run from its submission through the worker to
  the status a client reads; and the rerun of dead letters.
\<close>

section \<open>Access control\<close>

definition service_data :: "'r service_state \<Rightarrow> database \<times> (string \<times> string) list \<times> string list" where
  "service_data st = (ps_db st, ps_files st, ps_queue st)"

text \<open>
  A refused request: it raises, and all it changes besides the state of the checks is at most one row
  added to the security events, a denial without any of the sensitive fields.
\<close>

definition denial_row :: "security_event \<Rightarrow> bool" where
  "denial_row row =
     (se_outcome row = ''denied'' \<and> se_proof_id row = None \<and>
      list_all (\<lambda>k. py_lower k \<notin> {''token'', ''authorization'', ''private_input'', ''request_payload''}) (map fst (se_details row)))"

definition refused :: "'r service_state \<Rightarrow> 'a res \<times> 'r service_state \<Rightarrow> bool" where
  "refused st answer =
     (\<exists>e a new. answer = (Inl e, st\<lparr>ps_auth := a, ps_db := (ps_db st)\<lparr>db_events := db_events (ps_db st) @ new,
         db_next_event := db_next_event (ps_db st) + length new\<rparr>\<rparr>) \<and>
        length new \<le> 1 \<and> list_all denial_row new)"

lemma on_auth_granted:
  assumes "reports m" "m (ps_auth st) = (Inr x, a)"
  shows "on_auth env m st = (Inr x, st\<lparr>ps_auth := a\<rparr>)"
  using assms(1) [unfolded reports_def, rule_format, of "ps_auth st"] assms(2)
  by (simp add: on_auth_def record_denials_def)

lemma record_one_denial:
  assumes "sv_outcome ev = ''denied''"
  shows "\<exists>new. record_denials av now [ev] db = db\<lparr>db_events := db_events db @ new, db_next_event := db_next_event db + length new\<rparr> \<and>
    length new \<le> 1 \<and> list_all denial_row new"
proof (cases av)
  case False
  then show ?thesis by (intro exI [of _ "[]"]) (simp add: record_denials_def record_security_event_def)
next
  case True
  have "list_all (\<lambda>k. py_lower k \<notin> {''token'', ''authorization'', ''private_input'', ''request_payload''})
      (map fst (safe_details (Some (sv_details ev))))"
    using safe_details_keys [of _ "Some (sv_details ev)"] by (auto simp: list_all_iff sensitive_keys_def)
  with True assms show ?thesis
    by (intro exI [of _ "[fst (append_security_event now (sv_type ev) (sv_outcome ev) (sv_actor ev) (sv_source_ip ev) None
          (safe_details (Some (sv_details ev))) db)]"])
       (simp add: record_denials_def record_security_event_def append_security_event_def Let_def denial_row_def)
qed

lemma on_auth_refused:
  assumes "reports m" "m (ps_auth st) = (Inl e, a)"
  shows "refused st (on_auth env m st)"
proof (cases "au_events a = au_events (ps_auth st)")
  case True
  with assms(2) show ?thesis
    unfolding refused_def on_auth_def
    by (intro exI [of _ e] exI [of _ a] exI [of _ "[]"]) (simp add: record_denials_def)
next
  case False
  with assms(1) [unfolded reports_def, rule_format, of "ps_auth st"] assms(2) obtain ev where
    ev: "au_events a = au_events (ps_auth st) @ [ev]" "sv_outcome ev = ''denied''" by auto
  from record_one_denial [OF ev(2), of "we_events_available (pe_worker env)" "we_now (pe_worker env) 2" "ps_db st"]
  obtain new where "record_denials (we_events_available (pe_worker env)) (we_now (pe_worker env) 2) [ev] (ps_db st) =
      (ps_db st)\<lparr>db_events := db_events (ps_db st) @ new, db_next_event := db_next_event (ps_db st) + length new\<rparr>"
    "length new \<le> 1" "list_all denial_row new" by blast
  with assms(2) ev(1) show ?thesis
    unfolding refused_def on_auth_def by (intro exI [of _ e] exI [of _ a] exI [of _ new]) simp
qed

lemma refused_Inl: "refused st (r, st') \<Longrightarrow> \<exists>e. r = Inl e"
  by (auto simp: refused_def)

lemma refused_auth: "refused (st\<lparr>ps_auth := a\<rparr>) answer \<Longrightarrow> refused st answer"
  by (auto simp: refused_def)

lemma refused_unchanged: "refused st (Inl e, st)"
  unfolding refused_def by (intro exI [of _ e] exI [of _ "ps_auth st"] exI [of _ "[]"]) simp

lemma refused_answer: "refused st (Inl e :: 'a res, st') \<Longrightarrow> refused st (Inl e' :: 'b res, st')"
  unfolding refused_def prod.inject by blast

lemma refused_bind:
  assumes "refused st (m st)"
  shows "refused st (sbind m f st)"
proof -
  obtain r st1 where m: "m st = (r, st1)" by fastforce
  with assms refused_Inl obtain e where "r = Inl e" by metis
  with m assms refused_answer show ?thesis by (fastforce simp: sbind_def)
qed

lemma data_auth [simp]: "service_data (st\<lparr>ps_auth := a\<rparr>) = service_data st"
  by (simp add: service_data_def)

text \<open>What a request has passed when the handler behind the two checks runs.\<close>

definition admitted ::
  "('r, 'k) prover_env \<Rightarrow> string \<Rightarrow> string option \<Rightarrow> request \<Rightarrow> 'r auth_state \<Rightarrow> 'r auth_state \<Rightarrow> pydict \<Rightarrow> string \<Rightarrow> bool" where
  "admitted env scope credentials rq a a2 claims key_id =
     (\<exists>a1. required_scoped_jwt (pe_auth_config env) (pe_auth env) [scope] (pe_jwt_now env) credentials a = (Inr claims, a1) \<and>
        int (length (rq_body rq)) \<le> pe_max_submit_body_bytes env \<and>
        verify_handshake (pe_auth_config env) (pe_auth env) rq a1 = (Inr key_id, a2))"

lemma decode_cases:
  assumes "decode_and_authenticate_payload env parse msg rq st = (r, st')"
  shows "refused st (r, st') \<or>
    (\<exists>payload key a. r = Inr (payload, key) \<and> st' = st\<lparr>ps_auth := a\<rparr> \<and> parse (rq_body rq) = Inr payload \<and>
       int (length (rq_body rq)) \<le> pe_max_submit_body_bytes env \<and> verify_handshake (pe_auth_config env) (pe_auth env) rq (ps_auth st) = (Inr key, a))"
proof (cases "int (length (rq_body rq)) \<le> pe_max_submit_body_bytes env")
  case True
  let ?m = "verify_handshake (pe_auth_config env) (pe_auth env) rq"
  obtain h a where h: "?m (ps_auth st) = (h, a)" by fastforce
  show ?thesis
  proof (cases h)
    case (Inl e)
    with h have "refused st (on_auth env ?m st)" by (auto intro: on_auth_refused [OF handshake_reports])
    then have "refused st (decode_and_authenticate_payload env parse msg rq st)"
      unfolding decode_and_authenticate_payload_def using True
      by (simp add: enforce_submit_body_size_def rcheck_def refused_bind)
    with assms show ?thesis by simp
  next
    case (Inr key)
    with h have g: "on_auth env ?m st = (Inr key, st\<lparr>ps_auth := a\<rparr>)" by (auto intro: on_auth_granted [OF handshake_reports])
    with True assms h Inr show ?thesis
      using refused_auth [where a = a, OF refused_unchanged]
      by (cases "parse (rq_body rq)")
         (auto simp: decode_and_authenticate_payload_def enforce_submit_body_size_def sbind_def prog_defs)
  qed
next
  case False
  with assms show ?thesis
    by (auto simp: decode_and_authenticate_payload_def enforce_submit_body_size_def prog_defs refused_unchanged)
qed

lemma gate:
  assumes "sbind (require_scope env scope credentials) (\<lambda>claims. sbind (decode_and_authenticate_payload env parse msg rq) (f claims)) st = (r, st')"
  shows "refused st (r, st') \<or>
    (\<exists>claims payload key a. admitted env scope credentials rq (ps_auth st) a claims key \<and> parse (rq_body rq) = Inr payload \<and>
       f claims (payload, key) (st\<lparr>ps_auth := a\<rparr>) = (r, st'))"
proof -
  let ?m = "required_scoped_jwt (pe_auth_config env) (pe_auth env) [scope] (pe_jwt_now env) credentials"
  obtain j a1 where j: "?m (ps_auth st) = (j, a1)" by fastforce
  show ?thesis
  proof (cases j)
    case (Inl e)
    with j have "refused st (require_scope env scope credentials st)"
      by (auto simp: require_scope_def intro: on_auth_refused [OF required_jwt_reports])
    then show ?thesis using refused_bind assms by metis
  next
    case (Inr claims)
    with j have g: "on_auth env ?m st = (Inr claims, st\<lparr>ps_auth := a1\<rparr>)" by (auto intro: on_auth_granted [OF required_jwt_reports])
    obtain q st1 where q: "decode_and_authenticate_payload env parse msg rq (st\<lparr>ps_auth := a1\<rparr>) = (q, st1)" by fastforce
    with assms g have go: "(case q of Inl e \<Rightarrow> (Inl e, st1) | Inr x \<Rightarrow> f claims x st1) = (r, st')"
      by (simp add: require_scope_def sbind_def)
    from decode_cases [OF q] show ?thesis
    proof
      assume "refused (st\<lparr>ps_auth := a1\<rparr>) (q, st1)"
      then have "refused st (q, st1)" by (rule refused_auth)
      moreover from this obtain e where "q = Inl e" by (auto dest: refused_Inl)
      ultimately show ?thesis using go by (auto intro: refused_answer)
    next
      assume "\<exists>payload key a. q = Inr (payload, key) \<and> st1 = st\<lparr>ps_auth := a1\<rparr>\<lparr>ps_auth := a\<rparr> \<and> parse (rq_body rq) = Inr payload \<and>
        int (length (rq_body rq)) \<le> pe_max_submit_body_bytes env \<and>
        verify_handshake (pe_auth_config env) (pe_auth env) rq (ps_auth (st\<lparr>ps_auth := a1\<rparr>)) = (Inr key, a)"
      with go j Inr show ?thesis by (auto simp: admitted_def)
    qed
  qed
qed

lemma require_scope_keeps:
  assumes "require_scope env scope credentials st = (Inr claims, s1)"
  shows "\<exists>a. s1 = st\<lparr>ps_auth := a\<rparr>"
proof -
  let ?m = "required_scoped_jwt (pe_auth_config env) (pe_auth env) [scope] (pe_jwt_now env) credentials"
  from assms obtain a where "?m (ps_auth st) = (Inr claims, a)"
    by (auto simp: require_scope_def on_auth_def split: prod.splits)
  from on_auth_granted [OF required_jwt_reports this, of env] assms show ?thesis by (auto simp: require_scope_def)
qed

section \<open>What an accepted submission leaves behind\<close>

lemma service_audit_frame:
  assumes "bystanders (pe_worker env)" "service_audit env k e st = (r, st')"
  shows "db_jobs (ps_db st') = db_jobs (ps_db st) \<and> db_dlq (ps_db st') = db_dlq (ps_db st) \<and> ps_files st' = ps_files st \<and>
    ps_queue st' = ps_queue st \<and> ps_auth st' = ps_auth st"
proof -
  let ?wk = "pe_worker env"
  obtain q db where a: "append_event (we_sha256 ?wk) (we_vault ?wk) (we_audit_key ?wk) (we_audit_clock ?wk k) (we_others ?wk k) e (ps_db st) = (q, db)"
    by fastforce
  with assms(2) have "st' = st\<lparr>ps_db := db\<rparr>" by (simp add: service_audit_def)
  moreover have "db_jobs db = db_jobs (ps_db st) \<and> db_dlq db = db_dlq (ps_db st)"
    by (rule append_loop_frame [OF _ a [unfolded append_event_def]]) (use assms(1) in \<open>simp add: bystanders_def\<close>)
  ultimately show ?thesis by simp
qed

text \<open>The row a submission creates.\<close>

definition queued_job :: "('r, 'k) prover_env \<Rightarrow> string \<Rightarrow> string \<Rightarrow> string \<Rightarrow> string \<Rightarrow> pydict \<Rightarrow> pydict \<Rightarrow> proof_job" where
  "queued_job env proof_id circuit_id sealed fingerprint summary metadata =
     \<lparr>pj_proof_id = proof_id, pj_circuit_id = circuit_id, pj_status = ''queued'', pj_sealed_job_payload = Some sealed,
      pj_input_fingerprint = fingerprint, pj_input_summary = summary, pj_sealed_purged_at = None, pj_public_signals = SqlNull,
      pj_proof = SqlNull, pj_proof_path = None, pj_error = None, pj_meta = metadata,
      pj_created_at = we_now (pe_worker env) 0, pj_updated_at = we_now (pe_worker env) 0\<rparr>"

lemma create_job_step_eq:
  "create_job_step env pid cid sealed fp sm meta st = (Inr u, st') \<longleftrightarrow>
     get_proof_job pid (ps_db st) = None \<and>
     st' = st\<lparr>ps_db := (ps_db st)\<lparr>db_jobs := db_jobs (ps_db st) @ [queued_job env pid cid sealed fp sm meta]\<rparr>\<rparr>"
  by (auto simp: create_job_step_def create_proof_job_def queued_job_def Let_def)

lemma find_new:
  assumes "get_proof_job pid db = None" "pj_proof_id j = pid" "db_jobs db' = db_jobs db @ [j]"
  shows "get_proof_job pid db' = Some j"
proof -
  have "List.find P (xs @ [x]) = (case List.find P xs of None \<Rightarrow> if P x then Some x else None | Some y \<Rightarrow> Some y)"
    for P xs and x :: proof_job by (induction xs) auto
  with assms show ?thesis by (simp add: get_proof_job_def find_job_def)
qed

lemma persisted:
  assumes "bystanders (pe_worker env)"
    "persist_and_enqueue_job env pid cid rp mode sealed meta st = (Inr u, st')"
  shows "\<exists>fp sm. get_proof_job pid (ps_db st') = Some (queued_job env pid cid sealed fp sm meta) \<and>
    get_proof_job pid (ps_db st) = None \<and> ps_queue st' = ps_queue st @ [pid] \<and> ps_files st' = ps_files st"
proof -
  from assms(2) obtain s1 s2 fp sm where
    s: "create_job_step env pid cid sealed fp sm meta st = (Inr (), s1)"
      "service_audit env 0 (audit_of pid cid ''queued'' [] PNone meta None) s1 = (Inr (), s2)" "enqueue env pid s2 = (Inr (), st')"
    by (auto simp: persist_and_enqueue_job_def sthen_eq_Inr)
  from s(1) have new: "get_proof_job pid (ps_db st) = None"
    "db_jobs (ps_db s1) = db_jobs (ps_db st) @ [queued_job env pid cid sealed fp sm meta]" "ps_queue s1 = ps_queue st" "ps_files s1 = ps_files st"
    by (simp_all add: create_job_step_eq)
  from s(3) have q: "st' = s2\<lparr>ps_queue := ps_queue s2 @ [pid]\<rparr>" by (auto simp: enqueue_def prog_defs split: option.splits)
  from service_audit_frame [OF assms(1) s(2)] new(2) q
  have "db_jobs (ps_db st') = db_jobs (ps_db st) @ [queued_job env pid cid sealed fp sm meta]" by simp
  from find_new [OF new(1) _ this] have "get_proof_job pid (ps_db st') = Some (queued_job env pid cid sealed fp sm meta)"
    by (simp add: queued_job_def)
  with new service_audit_frame [OF assms(1) s(2)] q show ?thesis by auto
qed

text \<open>The evidence a run request names, in the files of the state in which it arrives.\<close>

definition evidence_of :: "('r, 'k) prover_env \<Rightarrow> run_request \<Rightarrow> (string \<times> string) list \<Rightarrow> pydict \<Rightarrow> bool" where
  "evidence_of env payload files ev =
     (case rr_evidence payload of
        EvidenceInline p \<Rightarrow> ev = p
      | EvidenceRef r \<Rightarrow> evidence_read (we_parse_float (pe_worker env)) r files = Inr ev)"

lemma resolve_evidence_Inr:
  assumes "resolve_policy_evidence env run_id payload st = (Inr (ev, ref), st')"
  shows "evidence_of env payload (ps_files st) ev \<and> ps_db st' = ps_db st \<and> ps_queue st' = ps_queue st \<and> ps_auth st' = ps_auth st"
proof (cases "rr_evidence payload")
  case (EvidenceInline p)
  with assms show ?thesis by (auto simp: resolve_policy_evidence_def evidence_put_def evidence_write_def evidence_of_def Let_def sbind_eq_Inr prog_defs)
next
  case (EvidenceRef r)
  with assms show ?thesis
    by (auto simp: resolve_policy_evidence_def evidence_get_def evidence_of_def sbind_def scatch_def prog_defs split: sum.splits)
qed

lemma api_of_framework_Inr [simp]: "api_of_framework r = Inr x \<longleftrightarrow> r = Inr x"
  by (auto simp: api_of_framework_def split: sum.splits pyexc.splits)

definition sealed_params :: "(string \<times> int) list \<Rightarrow> pydict option" where
  "sealed_params params = (if params = [] then None else Some (params_dict params))"

text \<open>Everything an accepted policy run has fixed: the request, its evidence and parameters, the reference result, the sealed row.\<close>

definition run_submitted ::
  "('r, 'k) prover_env \<Rightarrow> request \<Rightarrow> (string \<times> string) list \<Rightarrow> run_request \<Rightarrow> policy_manifest \<Rightarrow> pydict \<Rightarrow> (string \<times> int) list \<Rightarrow>
   dual_track_reference \<Rightarrow> proof_job \<Rightarrow> bool" where
  "run_submitted env rq files payload man ev params ref job =
     (pe_parse_run env (rq_body rq) = Inr payload \<and> get_policy_manifest (we_policies (pe_worker env)) (rr_policy_id payload) = Inr man \<and>
      evidence_of env payload files ev \<and>
      resolve_params_ref (we_parse_float (pe_worker env)) (pe_read_file env) (pe_packs_dir env) (rr_policy_id payload)
        (rr_policy_params_ref payload) = Inr params \<and>
      reference_of env man (effective_evidence ev params) = Inr ref \<and>
      pj_status job = ''queued'' \<and> pj_circuit_id job = pm_circuit_id man \<and> pj_proof_id job = pe_uuid env \<and>
      dget (pj_meta job) ''policy_id'' = PStr (rr_policy_id payload) \<and> previous_attempts (pj_meta job) = 0 \<and>
      (\<exists>sealed. pj_sealed_job_payload job = Some sealed \<and>
         seal_job_payload (we_vault (pe_worker env)) (we_data_key (pe_worker env)) (run_model_dump payload) (Some (dr_private_input ref))
           (Some (reference_document ref)) (sealed_params params) = Inr sealed))"

lemma run_accepted_state:
  assumes b: "bystanders (pe_worker env)" and a: "create_policy_run env credentials rq st = (Inr resp, st')"
  shows "\<exists>payload man ev params ref job. run_submitted env rq (ps_files st) payload man ev params ref job \<and>
    ra_run_id resp = pe_uuid env \<and> get_proof_job (pe_uuid env) (ps_db st') = Some job \<and> ps_queue st' = ps_queue st @ [pe_uuid env]"
proof -
  from gate [OF a [unfolded create_policy_run_def]] obtain claims payload key au where
    p: "pe_parse_run env (rq_body rq) = Inr payload" and
    r: "submit_policy_run env claims (payload, key) (st\<lparr>ps_auth := au\<rparr>) = (Inr resp, st')"
    by (auto dest: refused_Inl)
  define meta where "meta man params eref = policy_run_metadata payload claims key (pm_policy_version man) (''att-'' @ pe_uuid env) eref
    (if params = [] then PNone else PStr (compute_policy_params_hash (we_sha256 (pe_worker env)) (params_dict params)))" for man :: policy_manifest and params eref
  from r obtain man ev eref params ref sealed s1 where
    s: "load_policy_manifest env (rr_policy_id payload) = Inr man"
      "resolve_policy_evidence env (pe_uuid env) payload (st\<lparr>ps_auth := au\<rparr>) = (Inr (ev, eref), s1)"
      "resolve_params_ref (we_parse_float (pe_worker env)) (pe_read_file env) (pe_packs_dir env) (rr_policy_id payload)
        (rr_policy_params_ref payload) = Inr params"
      "reference_of env man (effective_evidence ev params) = Inr ref"
      "seal_job_payload (we_vault (pe_worker env)) (we_data_key (pe_worker env)) (run_model_dump payload) (Some (dr_private_input ref))
           (Some (reference_document ref)) (sealed_params params) = Inr sealed"
      "persist_and_enqueue_job env (pe_uuid env) (pm_circuit_id man) (run_model_dump payload) ''policy_run'' sealed (meta man params eref) s1 = (Inr (), st')"
      "ra_run_id resp = pe_uuid env"
    unfolding submit_policy_run_def meta_def by (auto simp: sbind_eq_Inr sthen_eq_Inr Let_def prog_defs sealed_params_def)
  from persisted [OF b s(6)] obtain fp sm where
    j: "get_proof_job (pe_uuid env) (ps_db st') = Some (queued_job env (pe_uuid env) (pm_circuit_id man) sealed fp sm (meta man params eref))"
      "ps_queue st' = ps_queue s1 @ [pe_uuid env]" by blast
  have m: "get_policy_manifest (we_policies (pe_worker env)) (rr_policy_id payload) = Inr man"
    using s(1) by (auto simp: load_policy_manifest_def split: sum.splits)
  have meta: "dget (meta man params eref) ''policy_id'' = PStr (rr_policy_id payload)" "previous_attempts (meta man params eref) = 0"
    by (simp_all add: meta_def policy_run_metadata_def previous_attempts_def dget_def)
  have "run_submitted env rq (ps_files st) payload man ev params ref (queued_job env (pe_uuid env) (pm_circuit_id man) sealed fp sm (meta man params eref))"
    unfolding run_submitted_def using p m resolve_evidence_Inr [OF s(2)] s(3-5) meta by (simp add: queued_job_def)
  with j resolve_evidence_Inr [OF s(2)] s(7) show ?thesis by fastforce
qed

section \<open>From submission to the reported decision\<close>

text \<open>The document a policy run seals, and the decision that a stored proof carries.\<close>

definition run_document :: "run_request \<Rightarrow> dual_track_reference \<Rightarrow> (string \<times> int) list \<Rightarrow> pyval" where
  "run_document payload ref params = PDict (sealed_document (run_model_dump payload) (Some (dr_private_input ref))
     (Some (reference_document ref)) (sealed_params params))"

definition stored_decision :: "worker_env \<Rightarrow> string \<Rightarrow> string \<Rightarrow> proof_job \<Rightarrow> policy_decision \<Rightarrow> bool" where
  "stored_decision wk policy_id circuit_id job d =
     (\<exists>man pf sigs valid. get_policy_manifest (we_policies wk) policy_id = Inr man \<and>
        engine_verify (we_interp_text wk) (we_circuits wk) (we_provider wk) circuit_id pf sigs = Inr valid \<and>
        pj_proof job = JsonVal (PDict pf) \<and> pj_public_signals job = JsonVal (PList sigs) \<and>
        circuit_decision policy_id (pm_expected_attestation man) sigs valid = Inr d)"

lemma sealed_reference:
  assumes "canon (PDict (sealed_document rq inp (Some ref) pp)) = PDict doc" "dget doc ''dual_track_reference'' = PDict ref'"
    "distinct (map fst ref)" "dget ref ''decision'' = PStr t"
  shows "dget ref' ''decision'' = PStr t"
proof -
  have "distinct (map fst (sealed_document rq inp (Some ref) pp))" by (simp add: sealed_document_def)
  note item = map_of_canon_item [OF this, of "''dual_track_reference''"]
  have "PDict ref' = canon (PDict ref)"
    using assms(1,2) item by (simp add: sealed_document_def opt_dict_def dget_def)
  then show ?thesis using map_of_canon_item [OF assms(3), of "''decision''"] assms(4) by simp
qed

lemma reference_keys:
  "distinct (map fst (reference_document ref))" "dget (reference_document ref) ''decision'' = PStr (decision_text (dr_decision ref))"
  by (simp_all add: reference_document_def dget_def)

lemma delivery_completed:
  assumes "bystanders wk" "get_proof_job pid (w_db w) = Some job" "pj_status job = ''queued'' \<or> pj_status job = ''running''"
    "process_proof_job wk pid w = (r, w')" "get_proof_job pid (w_db w') = Some job'" "pj_status job' = ''completed''"
  shows "\<exists>sealed doc pf sigs patch. pj_sealed_job_payload job = Some sealed \<and>
    unseal_job_payload (we_parse_float wk) (we_vault wk) (we_data_key wk) sealed = Inr doc \<and>
    proved wk (started_job wk job) doc (pf, sigs, patch) \<and>
    job' = job_purged (we_now wk 4) (job_updated (we_now wk 3) ''completed'' (Some sigs) (Some pf)
        (Some (path_join (we_output_dir wk) (pid @ ''.json''))) None patch (started_job wk job))"
proof -
  have "\<not> job_status_is pid s w'" if "s \<noteq> ''completed''" for s using assms(5,6) that by (simp add: job_status_is_def)
  with wp_run [OF process_checked [OF assms(1-3)] assms(4)] have "job_checked wk pid (started_job wk job) w'" by (cases r) auto
  then obtain sealed doc pf sigs patch where c: "pj_sealed_job_payload job = Some sealed"
    "unseal_job_payload (we_parse_float wk) (we_vault wk) (we_data_key wk) sealed = Inr doc"
    "proved wk (started_job wk job) doc (pf, sigs, patch)" "completed_with wk pid (started_job wk job) pf sigs patch w'"
    unfolding job_checked_def started_job_same by blast
  moreover from c(4) assms(5) have "job' = job_purged (we_now wk 4) (job_updated (we_now wk 3) ''completed'' (Some sigs) (Some pf)
        (Some (path_join (we_output_dir wk) (pid @ ''.json''))) None patch (started_job wk job))" by (simp add: completed_with_def)
  ultimately show ?thesis by blast
qed

lemma proved_run_decision:
  assumes c: "proved wk (started_job wk job) doc (pf, sigs, patch)"
    and job': "job' = job_purged t (job_updated t' ''completed'' (Some sigs) (Some pf) p None patch (started_job wk job))"
    and meta: "dget (pj_meta job) ''policy_id'' = PStr pol" "pol \<noteq> []" and cid: "pj_circuit_id job = cid"
    and doc: "doc = canon (PDict (sealed_document rq inp (Some (reference_document ref)) pp))"
  shows "dget (pj_meta job') ''decision'' = PStr (decision_text (dr_decision ref)) \<and> stored_decision wk pol cid job' (dr_decision ref)"
proof -
  from c obtain valid where v: "engine_verify (we_interp_text wk) (we_circuits wk) (we_provider wk) cid pf sigs = Inr valid"
    "check_policy_run wk (pj_meta (started_job wk job)) doc sigs valid = Inr patch"
    by (auto simp: proved_def started_job_same cid)
  have "dget (pj_meta (started_job wk job)) ''policy_id'' = PStr pol" using meta by (simp add: started_job_meta)
  from check_policy_run_Inr [OF v(2) this meta(2)] obtain man' d ref' dec where
    q: "get_policy_manifest (we_policies wk) pol = Inr man'" "doc = PDict d" "dget d ''dual_track_reference'' = PDict ref'"
      "dget ref' ''decision'' = PStr (decision_text dec)"
      "circuit_decision pol (pm_expected_attestation man') sigs valid = Inr dec"
      "patch = Some [(''policy_version'', PStr (pm_policy_version man')), (''decision'', PStr (decision_text dec))]" by blast
  have "dget ref' ''decision'' = PStr (decision_text (dr_decision ref))"
    by (rule sealed_reference [OF _ q(3) reference_keys]) (use doc q(2) in simp)
  with q(4) have dec: "dec = dr_decision ref" by (cases dec; cases "dr_decision ref") (auto simp: decision_text_def)
  moreover have "pj_proof job' = JsonVal (PDict pf)" "pj_public_signals job' = JsonVal (PList sigs)"
    by (simp_all add: job' job_purged_def job_updated_def)
  moreover have "dget (pj_meta job') ''decision'' = PStr (decision_text dec)"
    by (simp add: job' q(6) job_purged_def job_updated_def)
  ultimately show ?thesis using q(1,5) v(1) unfolding stored_decision_def by blast
qed

lemma patch_keeps_policy:
  assumes "proved wk j doc (pf, sigs, patch)"
  shows "dget (pj_meta (job_purged t (job_updated t' st s pr p e patch j))) ''policy_id'' = dget (pj_meta j) ''policy_id''"
proof -
  from assms obtain valid where v: "check_policy_run wk (pj_meta j) doc sigs valid = Inr patch" by (auto simp: proved_def)
  have "patch = None \<or> (\<exists>x y. patch = Some [(''policy_version'', x), (''decision'', y)])"
  proof (cases "\<exists>pol. dget (pj_meta j) ''policy_id'' = PStr pol \<and> pol \<noteq> []")
    case True
    then obtain pol where "dget (pj_meta j) ''policy_id'' = PStr pol" "pol \<noteq> []" by blast
    from check_policy_run_Inr [OF v this] show ?thesis by blast
  next
    case False
    then have "check_policy_run wk (pj_meta j) doc sigs valid = Inr None"
      by (cases "dget (pj_meta j) ''policy_id''") (auto simp: check_policy_run_def neq_Nil_conv split: list.splits)
    with v show ?thesis by simp
  qed
  then show ?thesis by (auto simp: job_purged_def job_updated_def)
qed

lemma status_of_run:
  assumes "get_policy_run_status env credentials run_id st = (Inr s, st')" "get_proof_job run_id (ps_db st) = Some job"
  shows "(\<exists>c cs. dget (pj_meta job) ''policy_id'' = PStr (c # cs) \<and> ru_policy_id s = c # cs) \<and>
    ru_lifecycle_state s = normalize_lifecycle_state (pj_status job) \<and> run_decision (dget (pj_meta job) ''decision'') = Inr (ru_decision s)"
proof -
  from assms(1) obtain claims s1 where a: "require_scope env ''proofs:read'' credentials st = (Inr claims, s1)"
    by (auto simp: get_policy_run_status_def sbind_eq_Inr)
  then have "ps_db s1 = ps_db st" by (auto dest: require_scope_keeps)
  then have "get_proof_job run_id (ps_db s1) = Some job" using assms(2) by simp
  moreover obtain c cs where p: "dget (pj_meta job) ''policy_id'' = PStr (c # cs)"
    using a assms(1) calculation by (cases "dget (pj_meta job) ''policy_id''"; fastforce simp: get_policy_run_status_def sbind_def prog_defs Let_def split: list.splits)
  ultimately show ?thesis using a assms(1)
    by (auto simp: get_policy_run_status_def sbind_eq_Inr Let_def prog_defs)
qed

text \<open>
  C2. The reported decision is the decision of the reference policy on the submitted evidence. A policy run is
  accepted; a worker sharing the vault and its data key takes the submitted job and completes it; a client asks for the
  run. Then the status says \<open>completed\<close> for the policy of the request, and the reported decision is the one the reference
  policy gives on the submitted evidence with the pack's parameters, which is also the decision of
  the public signals of the stored proof. The sealed document has no floats and no duplicate keys, so that its JSON
  round trip is exact.
\<close>

theorem reported_decision_is_reference:
  assumes "bystanders (pe_worker env)" "create_policy_run env credentials rq st = (Inr resp, st1)"
    and "bystanders wk" "we_vault wk = we_vault (pe_worker env)" "we_data_key wk = we_data_key (pe_worker env)"
    and "seals (we_vault wk) (we_data_key wk)"
    and "get_proof_job (ra_run_id resp) (w_db w) = get_proof_job (ra_run_id resp) (ps_db st1)"
    and "process_proof_job wk (ra_run_id resp) w = (r, w')"
    and "get_proof_job (ra_run_id resp) (w_db w') = Some job'" "pj_status job' = ''completed''"
    and "get_proof_job (ra_run_id resp) (ps_db st2) = Some job'"
    and "get_policy_run_status env credentials' (ra_run_id resp) st2 = (Inr s, st3)"
  shows "\<exists>payload man ev params ref. pe_parse_run env (rq_body rq) = Inr payload \<and>
     get_policy_manifest (we_policies (pe_worker env)) (rr_policy_id payload) = Inr man \<and> evidence_of env payload (ps_files st) ev \<and>
     resolve_params_ref (we_parse_float (pe_worker env)) (pe_read_file env) (pe_packs_dir env) (rr_policy_id payload)
       (rr_policy_params_ref payload) = Inr params \<and>
     reference_of env man (effective_evidence ev params) = Inr ref \<and>
     ru_policy_id s = rr_policy_id payload \<and> ru_lifecycle_state s = ''completed'' \<and>
     (float_free (run_document payload ref params) \<and> keys_ok (run_document payload ref params) \<longrightarrow>
        ru_decision s = Some (decision_text (dr_decision ref)) \<and>
        stored_decision wk (rr_policy_id payload) (pm_circuit_id man) job' (dr_decision ref))"
proof -
  from run_accepted_state [OF assms(1,2)] obtain payload man ev params ref job where
    sub: "run_submitted env rq (ps_files st) payload man ev params ref job" and
    j: "ra_run_id resp = pe_uuid env" "get_proof_job (pe_uuid env) (ps_db st1) = Some job" by blast
  have jw: "get_proof_job (ra_run_id resp) (w_db w) = Some job" and q: "pj_status job = ''queued'' \<or> pj_status job = ''running''"
    using assms(7) j sub by (simp_all add: run_submitted_def)
  from delivery_completed [OF assms(3) jw q assms(8-10)] obtain sealed doc pf sigs patch where
    c: "pj_sealed_job_payload job = Some sealed" "unseal_job_payload (we_parse_float wk) (we_vault wk) (we_data_key wk) sealed = Inr doc"
      "proved wk (started_job wk job) doc (pf, sigs, patch)"
      "job' = job_purged (we_now wk 4) (job_updated (we_now wk 3) ''completed'' (Some sigs) (Some pf)
        (Some (path_join (we_output_dir wk) (ra_run_id resp @ ''.json''))) None patch (started_job wk job))" by blast
  have m: "dget (pj_meta job) ''policy_id'' = PStr (rr_policy_id payload)" "pj_circuit_id job = pm_circuit_id man"
    using sub by (simp_all add: run_submitted_def)
  have "dget (pj_meta job') ''policy_id'' = PStr (rr_policy_id payload)"
    using m(1) by (simp add: c(4) patch_keeps_policy [OF c(3)] started_job_meta)
  with status_of_run [OF assms(12,11)] assms(10) have
    s: "rr_policy_id payload \<noteq> []" "ru_policy_id s = rr_policy_id payload" "ru_lifecycle_state s = ''completed''"
      "run_decision (dget (pj_meta job') ''decision'') = Inr (ru_decision s)" by (auto simp: normalize_lifecycle_state_def)
  have "ru_decision s = Some (decision_text (dr_decision ref)) \<and>
        stored_decision wk (rr_policy_id payload) (pm_circuit_id man) job' (dr_decision ref)"
    if ok: "float_free (run_document payload ref params)" "keys_ok (run_document payload ref params)"
  proof -
    have "doc = canon (run_document payload ref params)"
      using unseal_seal [OF assms(6) _ ok [unfolded run_document_def], of sealed "we_parse_float wk"] sub c(1,2) assms(4,5)
      by (auto simp: run_submitted_def run_document_def)
    from proved_run_decision [OF c(3,4) m(1) s(1) m(2) this [unfolded run_document_def]] s(4) show ?thesis
      by (auto simp: run_decision_def decision_text_def split: policy_decision.splits)
  qed
  then show ?thesis using sub s(2,3) unfolding run_submitted_def by blast
qed

section \<open>A concrete service\<close>

definition demo_reference :: reference_policy where
  "demo_reference = \<lparr>rp_reference_policy = ''ref'', rp_normalize = Inr, rp_to_private_input = Inr,
     rp_evaluate_reference = (\<lambda>d. Inr (if dget d ''x'' = PInt 1 then Pass else Fail)), rp_project_public_outputs = (\<lambda>d. Inr [(''ok'', PBool True)])\<rparr>"

definition demo_run :: run_request where
  "demo_run = \<lparr>rr_policy_id = ''pol'', rr_evidence = EvidenceInline [(''x'', PInt 1)], rr_policy_params_ref = None, rr_context = [],
     rr_client_request_id = None\<rparr>"

definition demo_prover :: "(demo_store, string) prover_env" where
  "demo_prover = \<lparr>pe_auth_config = demo_config, pe_auth = demo_env, pe_worker = demo_worker, pe_jwt_now = 1000000000, pe_uuid = ''p'',
     pe_max_submit_body_bytes = 100, pe_evidence_dir = ''evidence'', pe_packs_dir = ''packs'', pe_read_file = (\<lambda>_. None),
     pe_reference_policies = [demo_reference], pe_parse_batch = (\<lambda>_. Inl ''no batch''), pe_parse_run = (\<lambda>_. Inr demo_run),
     pe_model_error = id, pe_enqueue_error = None\<rparr>"

definition demo_service :: "demo_store service_state" where
  "demo_service = \<lparr>ps_auth = demo_state, ps_db = empty_database, ps_files = [], ps_queue = []\<rparr>"

lemma demo_scopes: "extract_scope_set demo_claims = [''proofs:write'', ''proofs:read'', ''ops:write'', ''audit:read'']"
  by code_simp

definition demo_cached :: "demo_store auth_state" where
  "demo_cached = demo_state\<lparr>au_cache := [(''jwt'', (1300000000, demo_keys))]\<rparr>"

lemma demo_jwt:
  assumes "scope \<in> {''proofs:write'', ''proofs:read'', ''ops:write'', ''audit:read''}"
  shows "required_scoped_jwt demo_config demo_env [scope] 1000000000 (Some ''tok'') demo_state = (Inr demo_claims, demo_cached)"
proof -
  have k: "get_public_key demo_server 300000000 1000000000 ''jwt'' None [] = (Inr ''pk2'', [(''jwt'', (1300000000, demo_keys))])" by code_simp
  have pem: "load_ed25519_public_key (ae_ed demo_env) ''pk2'' = Inr ''pk2''" by (simp add: load_ed25519_public_key_def demo_env_def)
  have cfg: "ac_cache_ttl demo_config = 300000000" "ac_jwt_key demo_config = ''jwt''" "ac_max_ttl demo_config = 900" "ae_vault demo_env = demo_server"
    by (simp_all add: demo_config_def demo_env_def)
  have d: "ae_jwt_decode demo_env ''tok'' x i a l t = Inr demo_claims" for x i a l t by (simp add: demo_env_def)
  have cl: "int_item demo_claims ''exp'' = Inr 1060" "int_item demo_claims ''iat'' = Inr 1000" by code_simp+
  have c: "on_cache (get_public_key demo_server 300000000 1000000000 ''jwt'' None) demo_state = (Inr ''pk2'', demo_cached)"
    by (simp add: on_cache_def demo_state_def demo_cached_def k)
  have go: "sbind (on_cache (get_public_key demo_server 300000000 1000000000 ''jwt'' None)) f demo_state = f ''pk2'' demo_cached" for f
    by (simp add: sbind_def c)
  show ?thesis
    unfolding required_scoped_jwt_def verify_jwt_credentials_def cfg option.case go pem sbind_lifted d sum.case cl
    using assms by (auto simp: demo_scopes sret_def)
qed

lemma demo_token:
  assumes "scope \<in> {''proofs:write'', ''proofs:read'', ''ops:write'', ''audit:read''}" "ps_auth st = demo_state"
  shows "require_scope demo_prover scope (Some ''tok'') st = (Inr demo_claims, st\<lparr>ps_auth := demo_cached\<rparr>)"
  using on_auth_granted [OF required_jwt_reports, of _ _ _ _ _ st demo_claims demo_cached demo_prover] demo_jwt [OF assms(1)] assms(2)
  by (simp add: require_scope_def demo_prover_def)

lemma demo_handshake:
  "\<exists>a. verify_handshake demo_config demo_env (demo_request 1000) demo_cached = (Inr ''bank'', a)"
proof -
  have "cache_agrees demo_keys ''bank-key'' (au_cache demo_cached)" by (simp add: demo_cached_def cache_agrees_def)
  from demo_accept [OF this, of 1000] show ?thesis by (auto simp: demo_cached_def demo_state_def live_value_def)
qed

definition demo_ref_result :: dual_track_reference where
  "demo_ref_result = \<lparr>dr_private_input = [(''x'', PInt 1)], dr_decision = Pass, dr_outputs = [(''ok'', PBool True)]\<rparr>"

definition demo_run_sealed :: string where
  "demo_run_sealed = ''vault:v1:'' @ b64encode (canonical_json (run_document demo_run demo_ref_result []))"

definition demo_run_meta :: pydict where
  "demo_run_meta = policy_run_metadata demo_run demo_claims ''bank'' ''1'' ''att-p'' ''evidence/p.json'' PNone"

definition demo_run_job :: proof_job where
  "demo_run_job = queued_job demo_prover ''p'' ''c'' demo_run_sealed
     (compute_input_fingerprint (\<lambda>s. s) ''policy_run'' (run_model_dump demo_run))
     (build_input_summary ''policy_run'' (run_model_dump demo_run) ''c'') demo_run_meta"

lemma service_audit_quiet:
  assumes "quiet (pe_worker env)"
  shows "\<exists>db. service_audit env k e st = (Inr (), st\<lparr>ps_db := db\<rparr>) \<and> db_jobs db = db_jobs (ps_db st) \<and> db_dlq db = db_dlq (ps_db st)"
proof -
  obtain row where "audit (pe_worker env) k e \<lparr>w_db = ps_db st, w_files = [], w_decrypted = None\<rparr> =
      (Inr (), \<lparr>w_db = (ps_db st)\<lparr>db_audit := db_audit (ps_db st) @ [row], db_next_audit := Suc (db_next_audit (ps_db st))\<rparr>,
                w_files = [], w_decrypted = None\<rparr>)"
    using audit_quiet [OF assms, of k e "\<lparr>w_db = ps_db st, w_files = [], w_decrypted = None\<rparr>"] by auto
  then show ?thesis by (auto simp: audit_def service_audit_def Let_def split: prod.splits)
qed

lemma demo_submit:
  "\<exists>st'. submit_policy_run demo_prover demo_claims (demo_run, ''bank'') (demo_service\<lparr>ps_auth := a\<rparr>) =
     (Inr \<lparr>ra_run_id = ''p'', ra_policy_id = ''pol'', ra_lifecycle_state = ''queued'', ra_attestation_id = ''att-p''\<rparr>, st') \<and>
     get_proof_job ''p'' (ps_db st') = Some demo_run_job"
proof -
  have ref: "reference_of demo_prover demo_policy [(''x'', PInt 1)] = Inr demo_ref_result" by code_simp
  have sch: "validate_private_input_schema_or_raise demo_prover ''c'' i = Inr ()" for i
    by (simp add: validate_private_input_schema_or_raise_def demo_prover_def demo_worker_def get_circuit_manifest_def validate_private_input_schema_def)
  have man: "load_policy_manifest demo_prover ''pol'' = Inr demo_policy"
    by (simp add: load_policy_manifest_def get_policy_manifest_def demo_prover_def demo_worker_def)
  have seal: "seal_job_payload demo_server ''data'' (run_model_dump demo_run) (Some (dr_private_input demo_ref_result))
      (Some (reference_document demo_ref_result)) None = Inr demo_run_sealed"
    by (simp add: seal_job_payload_def vault_encrypt_def demo_server_def demo_run_sealed_def run_document_def sealed_params_def canonical_json_bytes_def)
  have cfg: "rr_policy_id demo_run = ''pol''" "rr_evidence demo_run = EvidenceInline [(''x'', PInt 1)]" "rr_policy_params_ref demo_run = None"
    "pe_uuid demo_prover = ''p''" "pe_worker demo_prover = demo_worker" "we_vault demo_worker = demo_server" "we_data_key demo_worker = ''data''"
    "pe_evidence_dir demo_prover = ''evidence''" "pm_circuit_id demo_policy = ''c''" "pm_policy_version demo_policy = ''1''"
    "we_sha256 demo_worker = (\<lambda>s. s)" "pe_enqueue_error demo_prover = None"
    by (simp_all add: demo_run_def demo_prover_def demo_worker_def demo_policy_def)
  have path: "path_join ''evidence'' ''p.json'' = ''evidence/p.json''" by code_simp
  let ?st = "demo_service\<lparr>ps_auth := a, ps_files := [(''evidence/p.json'', canonical_json (PDict [(''x'', PInt 1)]))]\<rparr>"
  have ev: "resolve_policy_evidence demo_prover ''p'' demo_run (demo_service\<lparr>ps_auth := a\<rparr>) = (Inr ([(''x'', PInt 1)], ''evidence/p.json''), ?st)"
    by (simp add: resolve_policy_evidence_def cfg evidence_put_def evidence_write_def Let_def path sbind_def prog_defs demo_service_def)
  have go: "sbind (resolve_policy_evidence demo_prover ''p'' demo_run) f (demo_service\<lparr>ps_auth := a\<rparr>) = f ([(''x'', PInt 1)], ''evidence/p.json'') ?st" for f
    by (simp add: sbind_def ev)
  let ?st1 = "?st\<lparr>ps_db := empty_database\<lparr>db_jobs := [demo_run_job]\<rparr>\<rparr>"
  have "create_job_step demo_prover ''p'' ''c'' demo_run_sealed (compute_input_fingerprint (\<lambda>s. s) ''policy_run'' (run_model_dump demo_run))
     (build_input_summary ''policy_run'' (run_model_dump demo_run) ''c'') demo_run_meta ?st = (Inr (), ?st1)"
    unfolding create_job_step_eq demo_run_job_def by (simp add: demo_service_def get_proof_job_def find_job_def empty_database_def)
  moreover obtain db where db: "service_audit demo_prover 0 (audit_of ''p'' ''c'' ''queued'' [] PNone demo_run_meta None) ?st1 = (Inr (), ?st1\<lparr>ps_db := db\<rparr>)"
    "db_jobs db = [demo_run_job]"
    using service_audit_quiet [of demo_prover 0 _ ?st1] demo_quiet cfg(5) by fastforce
  ultimately have pers: "persist_and_enqueue_job demo_prover ''p'' ''c'' (run_model_dump demo_run) ''policy_run'' demo_run_sealed demo_run_meta ?st =
      (Inr (), ?st1\<lparr>ps_db := db, ps_queue := [''p'']\<rparr>)"
    unfolding persist_and_enqueue_job_def cfg sthen_def
    by (simp add: sbind_def enqueue_def cfg supd_def) (simp add: demo_service_def)
  have "get_proof_job ''p'' db = Some demo_run_job" using db(2) by (simp add: get_proof_job_def find_job_def demo_run_job_def queued_job_def)
  moreover have meta: "policy_run_metadata demo_run demo_claims ''bank'' ''1'' (''att-'' @ ''p'') ''evidence/p.json'' PNone = demo_run_meta"
    by (simp add: demo_run_meta_def)
  have fx: "effective_evidence [(''x'', PInt 1)] [] = [(''x'', PInt 1)]" by (simp add: effective_evidence_def)
  have rp: "resolve_params_ref pf rf pd pol None = Inr []" for pf rf pd pol by (simp add: resolve_params_ref_def)
  have af: "api_of_framework (Inr x) = Inr x" for x :: "'x" by (simp add: api_of_framework_def)
  have "submit_policy_run demo_prover demo_claims (demo_run, ''bank'') (demo_service\<lparr>ps_auth := a\<rparr>) =
     (Inr \<lparr>ra_run_id = ''p'', ra_policy_id = ''pol'', ra_lifecycle_state = ''queued'', ra_attestation_id = ''att-p''\<rparr>, ?st1\<lparr>ps_db := db, ps_queue := [''p'']\<rparr>)"
    unfolding submit_policy_run_def cfg prod.case man sbind_lifted Let_def go rp af fx ref sch if_True refl seal meta
    by (simp add: seal sthen_def sbind_def pers [unfolded demo_run_meta_def] sret_def)
  ultimately show ?thesis by simp
qed

lemma demo_create:
  "\<exists>st'. create_policy_run demo_prover (Some ''tok'') (demo_request 1000) demo_service =
     (Inr \<lparr>ra_run_id = ''p'', ra_policy_id = ''pol'', ra_lifecycle_state = ''queued'', ra_attestation_id = ''att-p''\<rparr>, st') \<and>
     get_proof_job ''p'' (ps_db st') = Some demo_run_job"
proof -
  have t: "require_scope demo_prover ''proofs:write'' (Some ''tok'') demo_service = (Inr demo_claims, demo_service\<lparr>ps_auth := demo_cached\<rparr>)"
    by (rule demo_token) (simp_all add: demo_service_def)
  obtain a where a: "verify_handshake demo_config demo_env (demo_request 1000) demo_cached = (Inr ''bank'', a)" using demo_handshake by blast
  have "decode_and_authenticate_payload demo_prover (pe_parse_run demo_prover) m (demo_request 1000) (demo_service\<lparr>ps_auth := demo_cached\<rparr>) =
      (Inr (demo_run, ''bank''), demo_service\<lparr>ps_auth := a\<rparr>)" for m
    using a on_auth_granted [OF handshake_reports, of demo_config demo_env "demo_request 1000" "demo_service\<lparr>ps_auth := demo_cached\<rparr>" "''bank''" a demo_prover]
    by (simp add: decode_and_authenticate_payload_def sbind_def enforce_submit_body_size_def prog_defs rcheck_def)
      (simp add: demo_prover_def demo_request_def sret_def)
  with t demo_submit [of a] show ?thesis by (simp add: create_policy_run_def sbind_def)
qed

lemma demo_run_completes:
  assumes "get_proof_job ''p'' (w_db w) = Some demo_run_job"
  shows "\<exists>r w' job'. process_proof_job demo_worker ''p'' w = (r, w') \<and> get_proof_job ''p'' (w_db w') = Some job' \<and> pj_status job' = ''completed''"
proof -
  let ?doc = "run_document demo_run demo_ref_result []"
  have c: "canon ?doc = PDict (canon_dict (sealed_document (run_model_dump demo_run) (Some [(''x'', PInt 1)])
      (Some [(''decision'', PStr ''pass''), (''outputs'', PDict [(''ok'', PBool True)])]) None))"
    by (simp add: run_document_def demo_ref_result_def reference_document_def decision_text_def sealed_params_def)
  have s: "seals demo_server ''data''" by (simp add: seals_def demo_server_def removeprefix_def startswith_def)
  have seal: "seal_job_payload demo_server ''data'' (run_model_dump demo_run) (Some (dr_private_input demo_ref_result))
      (Some (reference_document demo_ref_result)) (sealed_params []) = Inr demo_run_sealed"
    by (simp add: seal_job_payload_def vault_encrypt_def demo_server_def demo_run_sealed_def run_document_def canonical_json_bytes_def)
  have ok: "float_free ?doc" "keys_ok ?doc" by code_simp+
  have u: "unseal_job_payload (we_parse_float demo_worker) (we_vault demo_worker) (we_data_key demo_worker) demo_run_sealed = Inr (canon ?doc)"
    using unseal_seal [OF s seal ok [unfolded run_document_def]] by (simp add: run_document_def) (simp add: demo_worker_def)
  have p: "proved demo_worker (started_job demo_worker demo_run_job) (canon ?doc)
     ([(''a'', PInt 1)], [PStr ''1''], Some [(''policy_version'', PStr ''1''), (''decision'', PStr ''pass'')])"
    unfolding c
    apply (rule demo_proved_document)
    subgoal by code_simp
    subgoal by code_simp
    subgoal by (simp add: started_job_same) (simp add: demo_run_job_def queued_job_def)
    subgoal by (simp add: started_job_meta) (simp add: demo_run_job_def queued_job_def demo_run_meta_def policy_run_metadata_def demo_run_def dget_def)
    done
  have "previous_attempts (pj_meta demo_run_job) < we_max_attempts demo_worker"
    by (simp add: demo_run_job_def queued_job_def demo_run_meta_def policy_run_metadata_def previous_attempts_def dget_def demo_worker_def)
  from honest_job_completes [OF demo_quiet assms _ _ _ this _ u p]
  have "completed_verdict (we_sha256 demo_worker) ''p'' w (snd (process_proof_job demo_worker ''p'' w))"
    by (simp add: demo_run_job_def queued_job_def demo_worker_def)
  then show ?thesis by (auto simp: completed_verdict_def intro: exI surjective_pairing)
qed

lemma demo_status:
  assumes "get_proof_job ''p'' (ps_db st) = Some job'" "ps_auth st = demo_state" "dget (pj_meta job') ''policy_id'' = PStr ''pol''"
    "run_decision (dget (pj_meta job') ''decision'') = Inr d"
  shows "\<exists>s st'. get_policy_run_status demo_prover (Some ''tok'') ''p'' st = (Inr s, st')"
proof -
  have "require_scope demo_prover ''proofs:read'' (Some ''tok'') st = (Inr demo_claims, st\<lparr>ps_auth := demo_cached\<rparr>)"
    by (rule demo_token) (simp_all add: assms)
  then show ?thesis using assms by (simp add: get_policy_run_status_def sbind_def prog_defs Let_def)
qed

theorem reported_decision_is_reference_witness:
  "\<exists>(w' :: worker_state) job' s st3. get_proof_job ''p'' (w_db w') = Some job' \<and>
     get_policy_run_status demo_prover (Some ''tok'') ''p'' (demo_service\<lparr>ps_db := w_db w'\<rparr>) = (Inr s, st3) \<and>
     ru_lifecycle_state s = ''completed'' \<and> ru_policy_id s = ''pol'' \<and> ru_decision s = Some ''pass''"
proof -
  obtain st1 where st1: "create_policy_run demo_prover (Some ''tok'') (demo_request 1000) demo_service =
     (Inr \<lparr>ra_run_id = ''p'', ra_policy_id = ''pol'', ra_lifecycle_state = ''queued'', ra_attestation_id = ''att-p''\<rparr>, st1)"
     "get_proof_job ''p'' (ps_db st1) = Some demo_run_job" using demo_create by blast
  define w where "w = \<lparr>w_db = ps_db st1, w_files = [], w_decrypted = None\<rparr>"
  have w: "get_proof_job ''p'' (w_db w) = Some demo_run_job" using st1(2) by (simp add: w_def)
  from demo_run_completes [OF w] obtain r w' job' where
    d: "process_proof_job demo_worker ''p'' w = (r, w')" "get_proof_job ''p'' (w_db w') = Some job'" "pj_status job' = ''completed''" by blast
  have j: "dget (pj_meta demo_run_job) ''policy_id'' = PStr ''pol''" "pj_status demo_run_job = ''queued''"
    by (simp_all add: demo_run_job_def queued_job_def demo_run_meta_def policy_run_metadata_def demo_run_def dget_def)
  from delivery_completed [OF quiet_bystanders [OF demo_quiet] w _ d] j(2) obtain doc pf sigs patch t t' p where
    c: "proved demo_worker (started_job demo_worker demo_run_job) doc (pf, sigs, patch)"
      "job' = job_purged t (job_updated t' ''completed'' (Some sigs) (Some pf) p None patch (started_job demo_worker demo_run_job))" by blast
  have m: "dget (pj_meta job') ''policy_id'' = PStr ''pol''"
    using j(1) by (simp add: c(2) patch_keeps_policy [OF c(1)] started_job_meta)
  from c(1) obtain valid where v: "check_policy_run demo_worker (pj_meta (started_job demo_worker demo_run_job)) doc sigs valid = Inr patch"
    by (auto simp: proved_def)
  have "dget (pj_meta (started_job demo_worker demo_run_job)) ''policy_id'' = PStr ''pol''" using j(1) by (simp add: started_job_meta)
  from check_policy_run_Inr [OF v this] obtain dec x where
    "patch = Some [(''policy_version'', x), (''decision'', PStr (decision_text dec))]" by blast
  then have "run_decision (dget (pj_meta job') ''decision'') = Inr (Some (decision_text dec))"
    by (cases dec) (simp_all add: c(2) job_purged_def job_updated_def run_decision_def decision_text_def)
  from demo_status [of "demo_service\<lparr>ps_db := w_db w'\<rparr>", OF _ _ m this] d(2) obtain s st3 where
    s: "get_policy_run_status demo_prover (Some ''tok'') ''p'' (demo_service\<lparr>ps_db := w_db w'\<rparr>) = (Inr s, st3)"
    by (auto simp: demo_service_def)
  have e: "bystanders (pe_worker demo_prover)" "we_vault demo_worker = we_vault (pe_worker demo_prover)"
    "we_data_key demo_worker = we_data_key (pe_worker demo_prover)" "seals (we_vault demo_worker) (we_data_key demo_worker)"
    using quiet_bystanders [OF demo_quiet]
    by (simp_all add: demo_prover_def) (simp add: seals_def demo_worker_def demo_server_def removeprefix_def startswith_def)
  from reported_decision_is_reference [OF e(1) st1(1) quiet_bystanders [OF demo_quiet] e(2-4), of w r w' job' "demo_service\<lparr>ps_db := w_db w'\<rparr>" "Some ''tok''" s st3]
    w st1(2) d s
  have "\<exists>payload man ev params ref. pe_parse_run demo_prover (rq_body (demo_request 1000)) = Inr payload \<and>
    get_policy_manifest (we_policies (pe_worker demo_prover)) (rr_policy_id payload) = Inr man \<and>
    evidence_of demo_prover payload (ps_files demo_service) ev \<and>
    resolve_params_ref (we_parse_float (pe_worker demo_prover)) (pe_read_file demo_prover) (pe_packs_dir demo_prover) (rr_policy_id payload)
       (rr_policy_params_ref payload) = Inr params \<and>
    reference_of demo_prover man (effective_evidence ev params) = Inr ref \<and>
    ru_policy_id s = rr_policy_id payload \<and> ru_lifecycle_state s = ''completed'' \<and>
    (float_free (run_document payload ref params) \<and> keys_ok (run_document payload ref params) \<longrightarrow>
       ru_decision s = Some (decision_text (dr_decision ref)) \<and>
       stored_decision demo_worker (rr_policy_id payload) (pm_circuit_id man) job' (dr_decision ref))" by simp
  then obtain payload man ev params ref where f: "pe_parse_run demo_prover (rq_body (demo_request 1000)) = Inr payload"
    "get_policy_manifest (we_policies (pe_worker demo_prover)) (rr_policy_id payload) = Inr man"
    "evidence_of demo_prover payload (ps_files demo_service) ev"
    "resolve_params_ref (we_parse_float (pe_worker demo_prover)) (pe_read_file demo_prover) (pe_packs_dir demo_prover) (rr_policy_id payload)
       (rr_policy_params_ref payload) = Inr params"
    "reference_of demo_prover man (effective_evidence ev params) = Inr ref"
    "ru_policy_id s = rr_policy_id payload" "ru_lifecycle_state s = ''completed''"
    "float_free (run_document payload ref params) \<and> keys_ok (run_document payload ref params) \<longrightarrow> ru_decision s = Some (decision_text (dr_decision ref))"
    by blast
  have p: "payload = demo_run" using f(1) by (simp add: demo_prover_def)
  have q: "man = demo_policy" "ev = [(''x'', PInt 1)]" "params = []"
    using f(2-4) p by (auto simp: demo_prover_def demo_worker_def demo_run_def get_policy_manifest_def evidence_of_def resolve_params_ref_def)
  have "reference_of demo_prover demo_policy (effective_evidence [(''x'', PInt 1)] []) = Inr demo_ref_result" by code_simp
  with f(5) q have ref: "ref = demo_ref_result" by simp
  have "float_free (run_document demo_run demo_ref_result []) \<and> keys_ok (run_document demo_run demo_ref_result [])" by code_simp
  with f(8) have "ru_decision s = Some ''pass''" unfolding p q ref by (simp add: demo_ref_result_def decision_text_def)
  moreover have "ru_policy_id s = ''pol''" using f(6) p by (simp add: demo_run_def)
  ultimately show ?thesis using d(2) s f(7) by (intro exI conjI)
qed

section \<open>Requeued dead letters\<close>

lemma rerun_attempts:
  assumes "distinct (map fst (pj_meta j))"
  shows "previous_attempts (rerun_metadata row (Some j) actor reason) = previous_attempts (pj_meta j)"
proof -
  have "dget (rerun_metadata row (Some j) actor reason) ''attempt_count'' = dget (pj_meta j) ''attempt_count''"
    using assms by (simp add: rerun_metadata_def Let_def dget_dupdate) (simp add: dget_def split: option.splits)
  then show ?thesis by (simp add: previous_attempts_def)
qed

lemma get_requeued:
  assumes "get_dead_letter_job k db = Some row" "mark_dead_letter_job_requeued now k rid who why db = (r, db')"
  shows "get_dead_letter_job k db' = Some (dead_letter_requeued now rid who why row)" "db_jobs db' = db_jobs db"
proof -
  have "List.find (\<lambda>r. dl_id r = k) (map (\<lambda>q. if dl_id q = k then dead_letter_requeued now rid who why q else q) xs) =
      map_option (dead_letter_requeued now rid who why) (List.find (\<lambda>r. dl_id r = k) xs)" for xs
    by (induction xs) (auto simp: dead_letter_requeued_def)
  with assms show "get_dead_letter_job k db' = Some (dead_letter_requeued now rid who why row)" "db_jobs db' = db_jobs db"
    by (auto simp: mark_dead_letter_job_requeued_def get_dead_letter_job_def)
qed

lemma requeue_Inr:
  assumes b: "bystanders (pe_worker env)" and a: "requeue_dead_letter_job env credentials dlq_id reason st = (Inr resp, st')"
    and l: "get_dead_letter_job dlq_id (ps_db st) = Some row" "\<nexists>c cs. dl_rerun_proof_id row = Some (c # cs)"
  shows "\<exists>sealed fp sm actor. dl_sealed_rerun_payload row = Some sealed \<and> rs_status resp = ''queued'' \<and>
    rs_rerun_proof_id resp = pe_uuid env \<and> get_proof_job (pe_uuid env) (ps_db st) = None \<and>
    get_proof_job (pe_uuid env) (ps_db st') = Some (queued_job env (pe_uuid env) (dl_circuit_id row) sealed fp sm
       (rerun_metadata row (get_proof_job (dl_proof_id row) (ps_db st)) actor reason)) \<and>
    ps_queue st' = ps_queue st @ [pe_uuid env] \<and>
    (\<exists>now. get_dead_letter_job dlq_id (ps_db st') = Some (dead_letter_requeued now (pe_uuid env) actor reason row))"
proof -
  from a obtain claims s0 where s0: "require_scope env ''ops:write'' credentials st = (Inr claims, s0)"
    by (auto simp: requeue_dead_letter_job_def sbind_eq_Inr)
  from require_scope_keeps [OF s0] have f0: "ps_db s0 = ps_db st" "ps_queue s0 = ps_queue st" by auto
  from a s0 l f0 obtain sealed where sealed: "dl_sealed_rerun_payload row = Some sealed"
    and sub: "submit_rerun env claims dlq_id reason row sealed s0 = (Inr resp, st')"
    by (cases "dl_sealed_rerun_payload row"; cases "dl_rerun_proof_id row")
       (auto simp: requeue_dead_letter_job_def sbind_def prog_defs split: list.splits)
  define actor where "actor = or_str (dget claims ''sub'') ''ops''"
  let ?src = "get_proof_job (dl_proof_id row) (ps_db st)" and ?pid = "pe_uuid env"
  let ?meta = "rerun_metadata row ?src actor reason"
  from sub obtain s1 s2 s3 s4 fp sm x e0 e1 where
    s: "create_job_step env ?pid (dl_circuit_id row) sealed fp sm ?meta s0 = (Inr (), s1)"
      "service_audit env 0 e0 s1 = (Inr (), s2)" "service_audit env 1 e1 s2 = (Inr (), s3)" "enqueue env ?pid s3 = (Inr (), s4)"
      "on_data (mark_dead_letter_job_requeued (we_now (pe_worker env) 1) dlq_id ?pid actor reason) s4 = (Inr x, st')"
      "rs_status resp = ''queued''" "rs_rerun_proof_id resp = ?pid"
    unfolding submit_rerun_def Let_def sthen_eq_Inr sbind_eq_Inr prog_basic_eq f0 actor_def [symmetric]
    by (force simp: f0 sret_def)
  from s(1) have new: "get_proof_job ?pid (ps_db st) = None" "db_jobs (ps_db s1) = db_jobs (ps_db st) @ [queued_job env ?pid (dl_circuit_id row) sealed fp sm ?meta]"
    "db_dlq (ps_db s1) = db_dlq (ps_db st)" "ps_queue s1 = ps_queue st"
    using f0 by (auto simp: create_job_step_eq)
  from s(4) have q: "s4 = s3\<lparr>ps_queue := ps_queue s3 @ [?pid]\<rparr>" by (auto simp: enqueue_def prog_defs split: option.splits)
  from s(2,3) service_audit_frame [OF b] have f: "db_jobs (ps_db s3) = db_jobs (ps_db s1)" "db_dlq (ps_db s3) = db_dlq (ps_db s1)" "ps_queue s3 = ps_queue s1"
    by metis+
  obtain db where m: "mark_dead_letter_job_requeued (we_now (pe_worker env) 1) dlq_id ?pid actor reason (ps_db s4) = (x, db)" "st' = s4\<lparr>ps_db := db\<rparr>"
    using s(5) by (auto simp: on_data_def split: prod.splits)
  have "get_dead_letter_job dlq_id (ps_db s4) = Some row" using l(1) q f(2) new(3) by (simp add: get_dead_letter_job_def)
  note g = get_requeued [OF this m(1)]
  have "db_jobs (ps_db st') = db_jobs (ps_db st) @ [queued_job env ?pid (dl_circuit_id row) sealed fp sm ?meta]"
    using g(2) m(2) q f(1) new(2) by simp
  from find_new [OF new(1) _ this] have "get_proof_job ?pid (ps_db st') = Some (queued_job env ?pid (dl_circuit_id row) sealed fp sm ?meta)"
    by (simp add: queued_job_def)
  moreover have "ps_queue st' = ps_queue st @ [?pid]" using m(2) q f(3) new(4) by simp
  ultimately show ?thesis using sealed s(6,7) g(1) m(2) new(1) by auto
qed

text \<open>
  C36. A dead letter is rerun once. When a requeue of a dead letter that has no rerun yet is accepted, exactly one new job is
  queued: it carries the sealed payload of the letter and its circuit. Every later requeue of the same letter, by
  whomever, that finds the letter as this one left it reports \<open>already_requeued\<close> with the id of that rerun and changes nothing.
\<close>

theorem requeue_once:
  assumes "bystanders (pe_worker env)" "pe_uuid env \<noteq> []" "get_dead_letter_job dlq_id (ps_db st) = Some row"
    and "\<nexists>c cs. dl_rerun_proof_id row = Some (c # cs)"
    and "requeue_dead_letter_job env credentials dlq_id reason st = (Inr resp, st1)"
    and "get_dead_letter_job dlq_id (ps_db st2) = get_dead_letter_job dlq_id (ps_db st1)"
    and "requeue_dead_letter_job env' credentials' dlq_id reason' st2 = (Inr resp', st3)"
  shows "rs_status resp = ''queued'' \<and> ps_queue st1 = ps_queue st @ [rs_rerun_proof_id resp] \<and>
    get_proof_job (rs_rerun_proof_id resp) (ps_db st) = None \<and>
    (\<exists>job. get_proof_job (rs_rerun_proof_id resp) (ps_db st1) = Some job \<and> pj_status job = ''queued'' \<and>
       pj_circuit_id job = dl_circuit_id row \<and> pj_sealed_job_payload job = dl_sealed_rerun_payload row) \<and>
    rs_status resp' = ''already_requeued'' \<and> rs_rerun_proof_id resp' = rs_rerun_proof_id resp \<and> service_data st3 = service_data st2"
proof -
  from requeue_Inr [OF assms(1,5,3,4)] obtain sealed fp sm actor now where
    r: "dl_sealed_rerun_payload row = Some sealed" "rs_status resp = ''queued''" "rs_rerun_proof_id resp = pe_uuid env"
      "get_proof_job (pe_uuid env) (ps_db st) = None"
      "get_proof_job (pe_uuid env) (ps_db st1) = Some (queued_job env (pe_uuid env) (dl_circuit_id row) sealed fp sm
         (rerun_metadata row (get_proof_job (dl_proof_id row) (ps_db st)) actor reason))"
      "ps_queue st1 = ps_queue st @ [pe_uuid env]"
      "get_dead_letter_job dlq_id (ps_db st1) = Some (dead_letter_requeued now (pe_uuid env) actor reason row)" by blast
  obtain c cs where u: "pe_uuid env = c # cs" using assms(2) by (cases "pe_uuid env") auto
  from assms(7) obtain claims s0 where s0: "require_scope env' ''ops:write'' credentials' st2 = (Inr claims, s0)"
    by (auto simp: requeue_dead_letter_job_def sbind_eq_Inr)
  from require_scope_keeps [OF s0] obtain a where a: "s0 = st2\<lparr>ps_auth := a\<rparr>" by blast
  with assms(7) s0 r(7) assms(6) u have "rs_status resp' = ''already_requeued''" "rs_rerun_proof_id resp' = pe_uuid env" "st3 = s0"
    by (auto simp: requeue_dead_letter_job_def sbind_def prog_defs dead_letter_requeued_def)
  with r a show ?thesis by (simp add: queued_job_def)
qed

text \<open>
  C38. A rerun inherits the attempts of the failed job. The requeue copies the metadata of the source job, its
  attempt counter included: when the source job has used up the attempts the worker allows, the rerun fails on its first delivery
  with \<open>max_attempts_exceeded\<close>, and no proof is attempted.
\<close>

theorem rerun_of_exhausted_job_fails:
  assumes "bystanders (pe_worker env)" "get_dead_letter_job dlq_id (ps_db st) = Some row"
    and "\<nexists>c cs. dl_rerun_proof_id row = Some (c # cs)"
    and "get_proof_job (dl_proof_id row) (ps_db st) = Some source" "distinct (map fst (pj_meta source))"
    and "we_max_attempts wk \<le> previous_attempts (pj_meta source)"
    and "requeue_dead_letter_job env credentials dlq_id reason st = (Inr resp, st1)"
    and "quiet wk" "get_proof_job (rs_rerun_proof_id resp) (w_db w) = get_proof_job (rs_rerun_proof_id resp) (ps_db st1)"
    and "process_proof_job wk (rs_rerun_proof_id resp) w = (r, w')"
  shows "r = Inr () \<and> w_files w' = w_files w \<and>
    (\<exists>job'. get_proof_job (rs_rerun_proof_id resp) (w_db w') = Some job' \<and> pj_status job' = ''failed'' \<and>
       dget (pj_meta job') ''failure_reason'' = PStr ''max_attempts_exceeded'')"
proof -
  from requeue_Inr [OF assms(1,7,2,3)] obtain sealed fp sm actor where
    j: "get_proof_job (rs_rerun_proof_id resp) (w_db w) = Some (queued_job env (pe_uuid env) (dl_circuit_id row) sealed fp sm
         (rerun_metadata row (Some source) actor reason))" using assms(4,9) by auto
  show ?thesis
    by (rule exhausted_delivery [OF assms(8) j _ _ assms(10)])
       (use assms(6) rerun_attempts [OF assms(5)] in \<open>simp_all add: queued_job_def\<close>)
qed

definition demo_letter :: dead_letter_job where
  "demo_letter = \<lparr>dl_id = 7, dl_proof_id = ''s'', dl_circuit_id = ''c'', dl_error_class = ''unknown'', dl_retryable = False,
     dl_failure_reason = ''runtime_exception'', dl_error_message = ''m'', dl_attempt_count = 3, dl_max_attempts = 3, dl_triage_details = [],
     dl_job_metadata = [], dl_sealed_rerun_payload = Some ''sealed'', dl_status = ''open'', dl_rerun_proof_id = None,
     dl_rerun_requested_by = None, dl_rerun_reason = None, dl_triaged_at = 0, dl_requeued_at = None, dl_created_at = 0, dl_updated_at = 0\<rparr>"

definition demo_source :: proof_job where
  "demo_source = demo_job\<lparr>pj_proof_id := ''s'', pj_status := ''failed'', pj_meta := [(''attempt_count'', PInt 3)]\<rparr>"

definition demo_letters :: "demo_store service_state" where
  "demo_letters = demo_service\<lparr>ps_db := empty_database\<lparr>db_jobs := [demo_source], db_dlq := [demo_letter]\<rparr>\<rparr>"

lemma demo_letters_get: "get_dead_letter_job 7 (ps_db demo_letters) = Some demo_letter" "get_proof_job ''s'' (ps_db demo_letters) = Some demo_source"
  "dl_proof_id demo_letter = ''s''" "\<nexists>c cs. dl_rerun_proof_id demo_letter = Some (c # cs)"
  by (simp_all add: demo_letters_def get_dead_letter_job_def demo_letter_def get_proof_job_def find_job_def demo_source_def)

lemma wp_on_data [simp]: "wp (on_data f) Q E = (\<lambda>st. case f (ps_db st) of (x, db) \<Rightarrow> Q x (st\<lparr>ps_db := db\<rparr>))"
  by (simp add: wp_def on_data_def fun_eq_iff split: prod.splits)

lemma wp_service_audit:
  assumes "quiet (pe_worker env)" "\<And>db. Q () (st\<lparr>ps_db := db\<rparr>)"
  shows "wp (service_audit env k e) Q E st"
  using service_audit_quiet [OF assms(1), of k e st] assms(2) by (auto simp: wp_def)

lemma wp_exact: "m st = (Inr x, st') \<Longrightarrow> Q x st' \<Longrightarrow> wp m Q E st"
  by (simp add: wp_def)

lemma demo_requeue:
  "\<exists>resp st'. requeue_dead_letter_job demo_prover (Some ''tok'') 7 None demo_letters = (Inr resp, st') \<and> rs_rerun_proof_id resp = ''p''"
proof -
  have t: "require_scope demo_prover ''ops:write'' (Some ''tok'') demo_letters = (Inr demo_claims, demo_letters\<lparr>ps_auth := demo_cached\<rparr>)"
    by (rule demo_token) (simp_all add: demo_letters_def demo_service_def)
  have q: "quiet (pe_worker demo_prover)" "pe_uuid demo_prover = ''p''" "pe_enqueue_error demo_prover = None"
    using demo_quiet by (simp_all add: demo_prover_def)
  have c: "create_job_step demo_prover ''p'' cid sealed fp sm meta (demo_letters\<lparr>ps_auth := demo_cached\<rparr>) =
    (Inr (), demo_letters\<lparr>ps_auth := demo_cached, ps_db := empty_database\<lparr>db_jobs := [demo_source, queued_job demo_prover ''p'' cid sealed fp sm meta], db_dlq := [demo_letter]\<rparr>\<rparr>)"
    for cid sealed fp sm meta
    unfolding create_job_step_eq by (simp add: demo_letters_def get_proof_job_def find_job_def demo_source_def)
  have "wp (submit_rerun demo_prover demo_claims 7 None demo_letter ''sealed'') (\<lambda>resp _. rs_rerun_proof_id resp = ''p'') (\<lambda>_ _. False)
      (demo_letters\<lparr>ps_auth := demo_cached\<rparr>)"
    unfolding submit_rerun_def Let_def q(2) wp_sbind wp_sthen wp_rules
    by (rule wp_exact, rule c) (auto simp: enqueue_def q wp_rules case_pair intro!: wp_service_audit [OF q(1)])
  moreover have "requeue_dead_letter_job demo_prover (Some ''tok'') 7 None demo_letters =
      submit_rerun demo_prover demo_claims 7 None demo_letter ''sealed'' (demo_letters\<lparr>ps_auth := demo_cached\<rparr>)"
    unfolding requeue_dead_letter_job_def sbind_def t
    by (simp add: sget_def demo_letters_get(1)) (simp add: demo_letter_def)
  ultimately show ?thesis by (auto simp: wp_def split: prod.splits sum.splits)
qed

text \<open>
  C3. Nothing is accepted without both checks. A submission, of a batch or of a policy run, whose bearer token is not
  accepted with the scope \<open>proofs:write\<close>, whose body exceeds the size limit or whose bank handshake over that body is
  not accepted raises, and so does a requeue without an accepted token of scope \<open>ops:write\<close>. Besides the key cache and
  the counters in Redis, such a request changes nothing, in particular no job, audit entry, dead letter, evidence file or
  queued task, but for at most one new row of the security events, a denial without any sensitive field.
\<close>

theorem submissions_authorized:
  "((\<nexists>claims key a. admitted env ''proofs:write'' credentials rq (ps_auth st) a claims key) \<longrightarrow>
     refused st (create_batch_proof env credentials rq st) \<and> refused st (create_policy_run env credentials rq st)) \<and>
   ((\<nexists>claims a. required_scoped_jwt (pe_auth_config env) (pe_auth env) [''ops:write''] (pe_jwt_now env) credentials (ps_auth st) = (Inr claims, a)) \<longrightarrow>
     refused st (requeue_dead_letter_job env credentials dlq_id reason st))"
proof (intro conjI impI)
  assume a: "\<nexists>claims key a. admitted env ''proofs:write'' credentials rq (ps_auth st) a claims key"
  show "refused st (create_batch_proof env credentials rq st)"
    using a gate [OF surjective_pairing [of "create_batch_proof env credentials rq st", unfolded create_batch_proof_def], folded create_batch_proof_def]
    by auto
  show "refused st (create_policy_run env credentials rq st)"
    using a gate [OF surjective_pairing [of "create_policy_run env credentials rq st", unfolded create_policy_run_def], folded create_policy_run_def]
    by auto
next
  let ?m = "required_scoped_jwt (pe_auth_config env) (pe_auth env) [''ops:write''] (pe_jwt_now env) credentials"
  assume "\<nexists>claims a. ?m (ps_auth st) = (Inr claims, a)"
  then obtain e a where j: "?m (ps_auth st) = (Inl e, a)" by (cases "?m (ps_auth st)"; cases "fst (?m (ps_auth st))") auto
  then show "refused st (requeue_dead_letter_job env credentials dlq_id reason st)"
    unfolding requeue_dead_letter_job_def require_scope_def by (intro refused_bind on_auth_refused [OF required_jwt_reports])
qed

theorem submissions_authorized_witness:
  "refused demo_service (create_policy_run demo_prover None (demo_request 1000) demo_service) \<and>
   refused demo_service (requeue_dead_letter_job demo_prover None 7 None demo_service) \<and>
   \<not> refused demo_service (create_policy_run demo_prover (Some ''tok'') (demo_request 1000) demo_service)"
proof (intro conjI)
  have jwt: "\<not> (\<exists>claims a. required_scoped_jwt cfg en scopes now None st = (Inr claims, a))" for cfg en scopes now st
    by (auto simp: required_scoped_jwt_def verify_jwt_credentials_def sthen_def sbind_def emit_security_event_def prog_defs)
  then have "\<not> (\<exists>claims key a. admitted demo_prover ''proofs:write'' None (demo_request 1000) st a claims key)" for st
    unfolding admitted_def by blast
  with submissions_authorized [of demo_prover None "demo_request 1000" demo_service] jwt
  show "refused demo_service (create_policy_run demo_prover None (demo_request 1000) demo_service)"
    "refused demo_service (requeue_dead_letter_job demo_prover None 7 None demo_service)" by blast+
  obtain resp st' where "create_policy_run demo_prover (Some ''tok'') (demo_request 1000) demo_service = (Inr resp, st')"
    using demo_create by blast
  then show "\<not> refused demo_service (create_policy_run demo_prover (Some ''tok'') (demo_request 1000) demo_service)"
    by (simp add: refused_def)
qed

theorem requeue_once_witness:
  "\<exists>resp st1. requeue_dead_letter_job demo_prover (Some ''tok'') 7 None demo_letters = (Inr resp, st1) \<and> ps_queue st1 = [''p''] \<and>
     (\<exists>resp' st3. requeue_dead_letter_job demo_prover (Some ''tok'') 7 None (demo_letters\<lparr>ps_db := ps_db st1\<rparr>) = (Inr resp', st3) \<and>
        rs_status resp' = ''already_requeued'' \<and> rs_rerun_proof_id resp' = ''p'')"
proof -
  obtain resp st1 where r: "requeue_dead_letter_job demo_prover (Some ''tok'') 7 None demo_letters = (Inr resp, st1)" "rs_rerun_proof_id resp = ''p''"
    using demo_requeue by blast
  have b: "bystanders (pe_worker demo_prover)" "pe_uuid demo_prover = ''p''"
    using quiet_bystanders [OF demo_quiet] by (simp_all add: demo_prover_def)
  let ?st2 = "demo_letters\<lparr>ps_db := ps_db st1\<rparr>"
  from requeue_Inr [OF b(1) r(1) demo_letters_get(1,4)] obtain now actor where
    g: "get_dead_letter_job 7 (ps_db st1) = Some (dead_letter_requeued now ''p'' actor None demo_letter)" using b(2) by auto
  have t: "require_scope demo_prover ''ops:write'' (Some ''tok'') ?st2 = (Inr demo_claims, ?st2\<lparr>ps_auth := demo_cached\<rparr>)"
    by (rule demo_token) (simp_all add: demo_letters_def demo_service_def)
  then obtain resp' st3 where again: "requeue_dead_letter_job demo_prover (Some ''tok'') 7 None ?st2 = (Inr resp', st3)"
    using g by (auto simp: requeue_dead_letter_job_def sbind_def prog_defs dead_letter_requeued_def)
  have "ps_queue demo_letters = []" by (simp add: demo_letters_def demo_service_def)
  with requeue_once [OF b(1) _ demo_letters_get(1,4) r(1) _ again] b(2) r again show ?thesis by auto
qed

theorem rerun_of_exhausted_job_fails_witness:
  "\<exists>(w :: worker_state) job'. get_proof_job ''p'' (w_db (snd (process_proof_job demo_worker ''p'' w))) = Some job' \<and> pj_status job' = ''failed'' \<and>
     dget (pj_meta job') ''failure_reason'' = PStr ''max_attempts_exceeded''"
proof -
  obtain resp st1 where r: "requeue_dead_letter_job demo_prover (Some ''tok'') 7 None demo_letters = (Inr resp, st1)" "rs_rerun_proof_id resp = ''p''"
    using demo_requeue by blast
  have b: "bystanders (pe_worker demo_prover)" using quiet_bystanders [OF demo_quiet] by (simp add: demo_prover_def)
  have s: "get_proof_job (dl_proof_id demo_letter) (ps_db demo_letters) = Some demo_source" using demo_letters_get by simp
  have m: "distinct (map fst (pj_meta demo_source))" "we_max_attempts demo_worker \<le> previous_attempts (pj_meta demo_source)"
    by (simp_all add: demo_source_def demo_worker_def previous_attempts_def)
  define w where "w = \<lparr>w_db = ps_db st1, w_files = [], w_decrypted = None\<rparr>"
  have w: "get_proof_job (rs_rerun_proof_id resp) (w_db w) = get_proof_job (rs_rerun_proof_id resp) (ps_db st1)" by (simp add: w_def)
  from rerun_of_exhausted_job_fails [OF b demo_letters_get(1,4) s m r(1) demo_quiet w surjective_pairing] r(2) show ?thesis by auto
qed

end
