(* ===== verification/Attestation.thy ===== *)
theory Attestation
  imports Prover_Service
begin

text \<open>
  Attestations and verification: the export helpers \<open>attestation_bundle.py\<close>, the in-process attestation service
  \<open>api/attestation_service.py\<close>, the policy engine \<open>api/policy_engine.py\<close> that runs a policy without a queue, and the
  verifier service \<open>verifier_service.py\<close> with its handlers \<open>verify\<close>, \<open>list_circuits\<close>, \<open>verify_audit_chain\<close> and
  \<open>export_attestation\<close>.

  The content of artifact files is the parameter \<open>read_file\<close>, which is \<open>None\<close> for a path that is no regular file. Hashing in
  chunks is hashing of the whole content. Durations (\<open>verification_ms\<close>, \<open>timings\<close>, the trust-speed snapshot)
  are observations of the clock and not modelled.
\<close>

section \<open>Bundle parts\<close>

definition sha256_json :: "(string \<Rightarrow> string) \<Rightarrow> pyval \<Rightarrow> string" where
  "sha256_json sha256 payload = sha256 (canonical_json payload)"

definition sha256_file :: "(string \<Rightarrow> string) \<Rightarrow> (string \<Rightarrow> string option) \<Rightarrow> string \<Rightarrow> string" where
  "sha256_file sha256 read_file path = (case read_file path of None \<Rightarrow> [] | Some content \<Rightarrow> sha256 content)"

definition artifact_digests ::
  "(string \<Rightarrow> string) \<Rightarrow> (string \<Rightarrow> string option) \<Rightarrow> artifact_paths \<Rightarrow> (string \<times> string) list" where
  "artifact_digests sha256 read_file paths =
     [(''wasm_sha256'', sha256_file sha256 read_file (ap_wasm_path paths)),
      (''zkey_sha256'', sha256_file sha256 read_file (ap_zkey_path paths)),
      (''verification_key_sha256'', sha256_file sha256 read_file (ap_verification_key_path paths))]"

definition signature_chain :: "audit_row list \<Rightarrow> pydict list" where
  "signature_chain rows =
     map (\<lambda>row. [(''audit_id'', PInt (int (ar_id row))), (''timestamp'', PStr (isoformat (ar_timestamp row))),
                 (''status'', PStr (ar_status row)), (''entry_hash'', PStr (ar_entry_hash row)),
                 (''signature'', PStr (ar_signature row)), (''key_version'', PStr (ar_key_version row))]) rows"

section \<open>The attestation service\<close>

record attestation_bundle =
  ab_attestation_id :: string
  ab_run_id :: string
  ab_policy_id :: string
  ab_policy_version :: string
  ab_circuit_id :: string
  ab_decision :: string
  ab_proof_hash :: string
  ab_public_signals_hash :: string
  ab_artifact_digests :: "(string \<times> string) list"
  ab_signature_chain :: "pydict list"
  ab_metadata :: pydict
  ab_exported_at :: int

definition str_dict :: "(string \<times> string) list \<Rightarrow> pydict" where
  "str_dict d = map (\<lambda>(k, v). (k, PStr v)) d"

text \<open>The document that is signed: every field of the bundle but the signature and the export time.\<close>

definition unsigned_document :: "attestation_bundle \<Rightarrow> pydict" where
  "unsigned_document b =
     [(''attestation_id'', PStr (ab_attestation_id b)), (''run_id'', PStr (ab_run_id b)), (''policy_id'', PStr (ab_policy_id b)),
      (''policy_version'', PStr (ab_policy_version b)), (''circuit_id'', PStr (ab_circuit_id b)), (''decision'', PStr (ab_decision b)),
      (''proof_hash'', PStr (ab_proof_hash b)), (''public_signals_hash'', PStr (ab_public_signals_hash b)),
      (''artifact_digests'', PDict (str_dict (ab_artifact_digests b))), (''metadata'', PDict (ab_metadata b))]"

record engine_env =
  en_worker :: worker_env
  en_assets :: string
  en_read_file :: "string \<Rightarrow> string option"
  en_signing_key :: string
  en_evidence_dir :: string
  en_packs_dir :: string
  en_reference_policies :: "reference_policy list"
  en_uuid :: string
  en_now :: int

record engine_state =
  es_files :: "(string \<times> string) list"
  es_bundles :: "(string \<times> attestation_bundle) list"

definition sign_attestation :: "engine_env \<Rightarrow> string \<Rightarrow> string res" where
  "sign_attestation env payload =
     rbind (vault_sign (we_vault (en_worker env)) (en_signing_key env) payload) (\<lambda>sig. Inr (sig_encoded sig))"

definition service_digests :: "engine_env \<Rightarrow> string \<Rightarrow> (string \<times> string) list res" where
  "service_digests env circuit_id =
     rbind (get_artifact_paths (en_assets env) (we_circuits (en_worker env)) circuit_id) (\<lambda>paths.
     Inr (artifact_digests (we_sha256 (en_worker env)) (en_read_file env) paths))"

text \<open>
  \<open>create\<close> is called with a decision of the type \<open>policy_decision\<close>, so that the decision in the signed document is the text of
  the decision in the bundle.
\<close>

definition attestation_create ::
  "engine_env \<Rightarrow> string \<Rightarrow> string \<Rightarrow> string \<Rightarrow> string \<Rightarrow> string \<Rightarrow> string \<Rightarrow> pydict \<Rightarrow> pyval list \<Rightarrow> pydict \<Rightarrow>
   (engine_state, attestation_bundle) prog" where
  "attestation_create env attestation_id run_id policy_id policy_version circuit_id decision proof public_signals metadata =
     sbind (slift (service_digests env circuit_id)) (\<lambda>digests.
     let sha256 = we_sha256 (en_worker env);
         unsigned = \<lparr>ab_attestation_id = attestation_id, ab_run_id = run_id, ab_policy_id = policy_id, ab_policy_version = policy_version,
           ab_circuit_id = circuit_id, ab_decision = decision, ab_proof_hash = sha256_json sha256 (PDict proof),
           ab_public_signals_hash = sha256_json sha256 (PList public_signals), ab_artifact_digests = digests,
           ab_signature_chain = [], ab_metadata = metadata, ab_exported_at = en_now env\<rparr>
     in sbind (slift (sign_attestation env (canonical_json (PDict (unsigned_document unsigned))))) (\<lambda>signature.
        let bundle = unsigned\<lparr>ab_decision := (if decision = ''pass'' then ''pass'' else ''fail''),
              ab_signature_chain := [[(''type'', PStr ''attestation_bundle_signature''), (''signature'', PStr signature)]]\<rparr>
        in sthen (supd (\<lambda>st. st\<lparr>es_bundles := dput attestation_id bundle (es_bundles st)\<rparr>)) (sret bundle)))"

definition attestation_export :: "string \<Rightarrow> (engine_state, attestation_bundle) prog" where
  "attestation_export attestation_id =
     sbind (sget (\<lambda>st. map_of (es_bundles st) attestation_id)) (\<lambda>found.
     case found of
       None \<Rightarrow> sthrow (FrameworkError ''unknown_attestation_id'' ''Attestation id not found'' [(''attestation_id'', PStr attestation_id)])
     | Some bundle \<Rightarrow> sret bundle)"

section \<open>The policy engine\<close>

record policy_run_result =
  rr_run_id :: string
  rr_result_policy_id :: string
  rr_decision :: string
  rr_attestation_id :: string

definition resolve_evidence :: "engine_env \<Rightarrow> string \<Rightarrow> run_request \<Rightarrow> (engine_state, pydict \<times> string) prog" where
  "resolve_evidence env run_id request =
     (case rr_evidence request of
        EvidenceInline payload \<Rightarrow>
          sbind (sget (\<lambda>st. evidence_write (en_evidence_dir env) run_id payload (es_files st))) (\<lambda>(path, files).
          sthen (supd (\<lambda>st. st\<lparr>es_files := files\<rparr>)) (sret (payload, path)))
      | EvidenceRef ref \<Rightarrow>
          sbind (sget (\<lambda>st. evidence_read (we_parse_float (en_worker env)) ref (es_files st))) (\<lambda>r.
          sbind (slift r) (\<lambda>payload. sret (payload, ref))))"

definition run_metadata ::
  "(string \<Rightarrow> string) \<Rightarrow> run_request \<Rightarrow> string \<Rightarrow> (string \<times> int) list \<Rightarrow> dual_track_reference \<Rightarrow> dual_track_circuit \<Rightarrow> pydict" where
  "run_metadata sha256 request evidence_ref policy_parameters reference circuit =
     [(''context'', PDict (rr_context request)), (''evidence_ref'', PStr evidence_ref),
      (''policy_params_ref'', opt_str (rr_policy_params_ref request)),
      (''policy_params_hash'', if policy_parameters = [] then PNone
         else PStr (compute_policy_params_hash sha256 (params_dict policy_parameters))),
      (''dual_track'', PDict [(''reference_outputs'', PDict (dr_outputs reference)), (''circuit_outputs'', PDict (dc_outputs circuit))])]"

definition policy_engine_run :: "engine_env \<Rightarrow> run_request \<Rightarrow> (engine_state, policy_run_result) prog" where
  "policy_engine_run env request =
     (let wk = en_worker env
      in sbind (slift (case get_policy_manifest (we_policies wk) (rr_policy_id request) of
                  Inl _ \<Rightarrow> Inl (FrameworkError ''unknown_policy'' ''Policy id not found'' [(''policy_id'', PStr (rr_policy_id request))])
                | Inr m \<Rightarrow> Inr m)) (\<lambda>manifest.
         let run_id = en_uuid env; attestation_id = ''att-'' @ run_id
         in sbind (resolve_evidence env run_id request) (\<lambda>(evidence_payload, evidence_ref).
            sbind (slift (resolve_params_ref (we_parse_float wk) (en_read_file env) (en_packs_dir env) (rr_policy_id request)
                     (rr_policy_params_ref request))) (\<lambda>policy_parameters.
            sbind (slift (prepare_reference_track
                     (fst (get_reference_policy (en_reference_policies env) None (pm_reference_policy manifest)))
                     (pm_reference_policy manifest) (pm_differential_outputs manifest)
                     (effective_evidence evidence_payload policy_parameters))) (\<lambda>reference_result.
            sbind (slift (engine_generate (we_interp_text wk) (we_invalid_text wk) (we_circuits wk) (we_provider wk)
                     (pm_circuit_id manifest) (dr_private_input reference_result))) (\<lambda>(proof, public_signals).
            sbind (slift (engine_verify (we_interp_text wk) (we_circuits wk) (we_provider wk) (pm_circuit_id manifest) proof public_signals))
              (\<lambda>valid.
            sbind (slift (evaluate_circuit_track (rr_policy_id request) (pm_expected_attestation manifest)
                     (pm_differential_outputs manifest) public_signals valid)) (\<lambda>circuit_result.
            sbind (slift (assert_dual_track_consistency (rr_policy_id request) reference_result circuit_result)) (\<lambda>_.
            let decision = decision_text (dc_decision circuit_result)
            in sthen (attestation_create env attestation_id run_id (rr_policy_id request) (pm_policy_version manifest)
                        (pm_circuit_id manifest) decision proof public_signals
                        (run_metadata (we_sha256 wk) request evidence_ref policy_parameters reference_result circuit_result))
                     (sret \<lparr>rr_run_id = run_id, rr_result_policy_id = rr_policy_id request, rr_decision = decision,
                            rr_attestation_id = attestation_id\<rparr>))))))))))"

section \<open>The verifier service\<close>

record 'r verifier_state =
  vr_auth :: "'r auth_state"
  vr_db :: database

record ('r, 'k) verifier_env =
  ve_auth_config :: auth_config
  ve_auth :: "('r, 'k) auth_env"
  ve_worker :: worker_env
  ve_assets :: string
  ve_read_file :: "string \<Rightarrow> string option"
  ve_exists :: "string \<Rightarrow> bool"
  ve_jwt_now :: int
  ve_now :: int
  ve_key_clock :: "nat \<Rightarrow> int"

definition verifier_scope :: "('r, 'k) verifier_env \<Rightarrow> string \<Rightarrow> string option \<Rightarrow> ('r verifier_state, pydict) prog" where
  "verifier_scope env scope credentials st =
     (case required_scoped_jwt (ve_auth_config env) (ve_auth env) [scope] (ve_jwt_now env) credentials (vr_auth st) of
        (r, au) \<Rightarrow>
          (r, st\<lparr>vr_auth := au,
                vr_db := record_denials (we_events_available (ve_worker env)) (we_now (ve_worker env) 0)
                  (drop (length (au_events (vr_auth st))) (au_events au)) (vr_db st)\<rparr>))"

definition verifier_audit :: "('r, 'k) verifier_env \<Rightarrow> audit_event \<Rightarrow> ('r verifier_state, unit) prog" where
  "verifier_audit env e st =
     (let wk = ve_worker env
      in case append_event (we_sha256 wk) (we_vault wk) (we_audit_key wk) (we_audit_clock wk 0) (we_others wk 0) e (vr_db st) of
           (r, db) \<Rightarrow> (rbind r (\<lambda>_. Inr ()), st\<lparr>vr_db := db\<rparr>))"

record verify_response =
  vp_valid :: bool
  vp_verified_at :: int

definition verification_event :: "string \<Rightarrow> pydict \<Rightarrow> pyval list \<Rightarrow> bool \<Rightarrow> audit_event" where
  "verification_event circuit_id proof public_signals valid =
     \<lparr>ev_proof_id = None, ev_circuit_id = circuit_id, ev_status = (if valid then ''completed'' else ''failed''),
      ev_public_signals = public_signals, ev_proof_payload = PDict proof,
      ev_metadata = [(''event'', PStr ''verification''), (''result'', PStr (if valid then ''valid'' else ''invalid''))], ev_error = None\<rparr>"

definition verify_endpoint ::
  "('r, 'k) verifier_env \<Rightarrow> string option \<Rightarrow> string \<Rightarrow> pydict \<Rightarrow> pyval list \<Rightarrow> ('r verifier_state, verify_response) prog" where
  "verify_endpoint env credentials circuit_id proof public_signals =
     (let wk = ve_worker env
      in sbind (verifier_scope env ''proofs:write'' credentials) (\<lambda>_.
         sbind (slift (engine_verify (we_interp_text wk) (we_circuits wk) (we_provider wk) circuit_id proof public_signals)) (\<lambda>valid.
         sthen (verifier_audit env (verification_event circuit_id proof public_signals valid))
               (sret \<lparr>vp_valid = valid, vp_verified_at = ve_now env\<rparr>))))"

definition list_circuits_endpoint :: "('r, 'k) verifier_env \<Rightarrow> string option \<Rightarrow> ('r verifier_state, circuit_status list) prog" where
  "list_circuits_endpoint env credentials =
     sbind (verifier_scope env ''proofs:read'' credentials) (\<lambda>_.
     slift (list_with_validation (ve_exists env) (ve_assets env) (we_circuits (ve_worker env))))"

text \<open>
  The integrity service verifies the chain through the key cache it shares with the authentication; that the
  lookups may refresh this cache is not tracked.
\<close>

definition verify_audit_chain ::
  "('r, 'k) verifier_env \<Rightarrow> string option \<Rightarrow> ('r verifier_state, chain_report) prog" where
  "verify_audit_chain env credentials =
     (let wk = ve_worker env
      in sbind (verifier_scope env ''audit:read'' credentials) (\<lambda>_.
         sbind (sget (\<lambda>st. verify_chain (we_sha256 wk) (we_vault wk) (ac_cache_ttl (ve_auth_config env)) (ve_key_clock env)
                  (we_audit_key wk) (verify_ed25519_signature (ae_ed (ve_auth env))) (au_cache (vr_auth st)) (vr_db st))) slift))"

definition verifier_unknown_run :: "string \<Rightarrow> pyexc" where
  "verifier_unknown_run run_id = APIError 404 ''unknown_run_id'' ''No run found for id'' [(''run_id'', PStr run_id)]"

definition policy_id_from_job_metadata :: "string \<Rightarrow> pydict \<Rightarrow> string res" where
  "policy_id_from_job_metadata run_id metadata =
     (case dget metadata ''policy_id'' of PStr (c # cs) \<Rightarrow> Inr (c # cs) | _ \<Rightarrow> Inl (verifier_unknown_run run_id))"

definition attested_version :: "policy_registry \<Rightarrow> string \<Rightarrow> pydict \<Rightarrow> string" where
  "attested_version policies policy_id metadata =
     (case get_policy_manifest policies policy_id of
        Inr m \<Rightarrow> pm_policy_version m | Inl _ \<Rightarrow> or_str (dget metadata ''policy_version'') [])"

definition latest_completed :: "audit_row list \<Rightarrow> audit_row option" where
  "latest_completed rows =
     (let completed_rows = filter (\<lambda>row. ar_status row = ''completed'') rows
      in if completed_rows = [] then None else Some (last completed_rows))"

text \<open>The two hashes: from the job while its proof is stored, afterwards from its last completed audit row.\<close>

definition attested_hashes :: "(string \<Rightarrow> string) \<Rightarrow> string \<Rightarrow> proof_job \<Rightarrow> audit_row list \<Rightarrow> (string \<times> string) res" where
  "attested_hashes sha256 run_id job rows =
     (if col_value (pj_proof job) \<noteq> PNone
      then Inr (sha256_json sha256 (col_value (pj_proof job)),
                sha256_json sha256 (if truthy (col_value (pj_public_signals job)) then col_value (pj_public_signals job) else PList []))
      else case latest_completed rows of
             Some row \<Rightarrow> Inr (ar_proof_hash row, sha256_json sha256 (PList (ar_public_signals row)))
           | None \<Rightarrow> Inl (APIError 409 ''attestation_not_ready''
                       ''Attestation not available: proof payload was pruned and no audit fallback exists'' [(''run_id'', PStr run_id)]))"

definition export_attestation :: "('r, 'k) verifier_env \<Rightarrow> string option \<Rightarrow> string \<Rightarrow> ('r verifier_state, attestation_bundle) prog" where
  "export_attestation env credentials run_id =
     (let wk = ve_worker env
      in sbind (verifier_scope env ''audit:read'' credentials) (\<lambda>_.
         sbind (sget vr_db) (\<lambda>db.
         case get_proof_job run_id db of
           None \<Rightarrow> sthrow (verifier_unknown_run run_id)
         | Some job \<Rightarrow>
             (let metadata = pj_meta job
              in sbind (slift (policy_id_from_job_metadata run_id metadata)) (\<lambda>policy_id.
                 if pj_status job \<noteq> ''completed''
                 then sthrow (APIError 409 ''attestation_not_ready'' ''Attestation not ready for incomplete run''
                        [(''run_id'', PStr run_id), (''status'', PStr (pj_status job))])
                 else
                   sbind (slift (get_artifact_paths (ve_assets env) (we_circuits wk) (pj_circuit_id job))) (\<lambda>paths.
                   let rows = list_audit_rows_for_proof run_id db
                   in sbind (slift (attested_hashes (we_sha256 wk) run_id job rows)) (\<lambda>(proof_hash, public_signals_hash).
                      sret \<lparr>ab_attestation_id = ''att-'' @ run_id, ab_run_id = run_id, ab_policy_id = policy_id,
                            ab_policy_version = attested_version (we_policies wk) policy_id metadata, ab_circuit_id = pj_circuit_id job,
                            ab_decision = (if dget metadata ''decision'' = PStr ''pass'' then ''pass'' else ''fail''),
                            ab_proof_hash = proof_hash, ab_public_signals_hash = public_signals_hash,
                            ab_artifact_digests = artifact_digests (we_sha256 wk) (ve_read_file env) paths,
                            ab_signature_chain = signature_chain rows,
                            ab_metadata = [(''policy_params_ref'', dget metadata ''policy_params_ref''),
                                           (''policy_params_hash'', dget metadata ''policy_params_hash'')],
                            ab_exported_at = ve_now env\<rparr>)))))))"

end
