(* ===== verification/Gateway_Clients.thy ===== *)
theory Gateway_Clients
  imports Prover_Correctness Attestation
begin

text \<open>
  The services as clients of the database gateway. Worker, prover service and verifier service hold the database in
  states of different shapes; the locale \<open>gateway_client\<close> is what they have in common, a database that is read and
  replaced. Its lemmas carry the invariants of the gateway (\<open>Database\<close>) to every program that changes the database by
  gateway operations only; the interpretations give them to the three services.
\<close>

section \<open>Clients\<close>

text \<open>The other writers that run while an audit event is appended use the gateway as well.\<close>

definition gateway_writers :: "worker_env \<Rightarrow> bool" where
  "gateway_writers env = (\<forall>k n db. db_step\<^sup>*\<^sup>* db (we_others env k n db))"

definition by_gateway :: "('s \<Rightarrow> database) \<Rightarrow> 's \<Rightarrow> 's \<Rightarrow> bool" where
  "by_gateway dbof s t = db_step\<^sup>*\<^sup>* (dbof s) (dbof t)"

lemma by_gateway_order: "transp (by_gateway dbof)" "reflp (by_gateway dbof)"
  by (auto simp: by_gateway_def transp_def reflp_def)

lemma append_loop_steps:
  assumes "\<And>k db. db_step\<^sup>*\<^sup>* db (others k db)"
    "append_loop get_latest_audit_row append_audit_row sha sign clock others e n k db = (r, db')"
  shows "db_step\<^sup>*\<^sup>* db db'"
  using assms(2)
proof (induction n arbitrary: k db)
  case (Suc n)
  show ?case
  proof (cases "sign (event_hash sha (floor_second (clock k)) (latest_hash (get_latest_audit_row db)) e)")
    case (Inl x)
    with Suc.prems show ?thesis by (simp add: Let_def)
  next
    case (Inr sig)
    show ?thesis
    proof (cases "append_audit_row (event_input sha (floor_second (clock k)) (latest_hash (get_latest_audit_row db)) e sig) (others k db)")
      case (Inl x)
      with Suc.prems Inr have "db' = others k db \<or> append_loop get_latest_audit_row append_audit_row sha sign clock others e n (Suc k) (others k db) = (r, db')"
        by (auto simp: Let_def split: pyexc.splits if_splits)
      then show ?thesis using assms(1) [of db k] Suc.IH by (auto intro: rtranclp_trans)
    next
      case (Inr q)
      with Suc.prems \<open>sign _ = Inr sig\<close> show ?thesis
        by (auto simp: Let_def split: prod.splits intro: rtranclp.rtrancl_into_rtrancl [OF assms(1)] db_step.audit)
    qed
  qed
qed simp

lemma append_event_steps:
  "gateway_writers wk \<Longrightarrow> append_event sha srv key clock (we_others wk k) e db = (r, db') \<Longrightarrow> db_step\<^sup>*\<^sup>* db db'"
  unfolding append_event_def gateway_writers_def by (rule append_loop_steps) auto

lemma db_steps_kept:
  assumes "db_step\<^sup>*\<^sup>* db db'"
  shows "db_wf db \<Longrightarrow> db_wf db'" and "\<exists>rows. db_audit db' = db_audit db @ rows"
proof -
  show "db_wf db \<Longrightarrow> db_wf db'" using assms by (induction rule: rtranclp_induct) (auto dest: db_step_wf)
  show "\<exists>rows. db_audit db' = db_audit db @ rows" using assms
  proof (induction rule: rtranclp_induct)
    case (step y z)
    then show ?case using db_step_audit_grows [of y z] by fastforce
  qed simp
qed

text \<open>The branches of a program.\<close>

lemma keeps_branches:
  "keeps R m \<Longrightarrow> keeps R n \<Longrightarrow> keeps R (if b then m else n)"
  "keeps R m \<Longrightarrow> (\<And>x. keeps R (f x)) \<Longrightarrow> keeps R (case opt of None \<Rightarrow> m | Some x \<Rightarrow> f x)"
  "(\<And>x. keeps R (g x)) \<Longrightarrow> (\<And>x. keeps R (h x)) \<Longrightarrow> keeps R (case s of Inl x \<Rightarrow> g x | Inr x \<Rightarrow> h x)"
  "(\<And>x y. keeps R (k x y)) \<Longrightarrow> keeps R (case p of (x, y) \<Rightarrow> k x y)"
  "keeps R m \<Longrightarrow> (\<And>x xs. keeps R (l x xs)) \<Longrightarrow> keeps R (case xs of [] \<Rightarrow> m | x # xs \<Rightarrow> l x xs)"
  by (auto split: option.split sum.split prod.split list.split)

locale gateway_client =
  fixes dbof :: "'s \<Rightarrow> database" and update :: "(database \<Rightarrow> database) \<Rightarrow> 's \<Rightarrow> 's"
  assumes dbof_update: "dbof (update f s) = f (dbof s)"
begin

lemmas keeps_programs = keeps_sbind [OF by_gateway_order(1)] keeps_sthen [OF by_gateway_order(1)] keeps_scatch [OF by_gateway_order(1)]
  keeps_basic [OF by_gateway_order(2)] keeps_branches

lemma keeps_same: "(\<And>s. dbof (snd (m s)) = dbof s) \<Longrightarrow> keeps (by_gateway dbof) m"
  by (simp add: keeps_def by_gateway_def)

lemma keeps_operation:
  assumes "\<And>s. snd (m s) = update (\<lambda>_. db s) s" "\<And>s. db_step\<^sup>*\<^sup>* (dbof s) (db s)"
  shows "keeps (by_gateway dbof) m"
  by (simp add: keeps_def by_gateway_def assms dbof_update)

lemma kept_invariant:
  assumes "keeps (by_gateway dbof) m"
  shows "db_wf (dbof s) \<Longrightarrow> db_wf (dbof (snd (m s)))"
    and "\<exists>rows. db_audit (dbof (snd (m s))) = db_audit (dbof s) @ rows"
  using assms db_steps_kept [of "dbof s" "dbof (snd (m s))"] by (simp_all add: keeps_def by_gateway_def)

end

section \<open>The worker\<close>

interpretation wdb: gateway_client w_db w_db_update
  by unfold_locales simp

lemma on_db_gateway:
  assumes "\<And>db. db_step\<^sup>*\<^sup>* db (snd (f db))"
  shows "keeps (by_gateway w_db) (on_db f)"
  by (rule wdb.keeps_operation [where db = "\<lambda>s. snd (f (w_db s))"]) (auto simp: on_db_def assms split: prod.splits)

lemma gateway_ops:
  "db_step\<^sup>*\<^sup>* db (snd (update_proof_job now i st ps pr pp e mp db))" "db_step\<^sup>*\<^sup>* db (snd (purge_sealed_job_payload now i db))"
  "db_step\<^sup>*\<^sup>* db (snd (upsert_dead_letter_job now d db))" "db_step\<^sup>*\<^sup>* db (snd (mark_dead_letter_job_requeued now k rid who why db))"
  "db_step\<^sup>*\<^sup>* db (record_security_event av now t oc ac ip pid ds db)"
  by (auto simp: record_security_event_def intro!: r_into_rtranclp [where r = db_step]
      intro: db_step.update [OF surjective_pairing] db_step.purge [OF surjective_pairing] db_step.upsert [OF surjective_pairing]
        db_step.requeue [OF surjective_pairing] db_step.event [OF surjective_pairing])

lemma audit_gateway: "gateway_writers env \<Longrightarrow> keeps (by_gateway w_db) (audit env k e)"
  by (rule wdb.keeps_operation [where db = "\<lambda>s. snd (append_event (we_sha256 env) (we_vault env) (we_audit_key env) (we_audit_clock env k) (we_others env k) e (w_db s))"])
     (auto simp: audit_def split: prod.splits intro: append_event_steps [OF _ surjective_pairing])

lemma supd_db_gateway: "(\<And>w. db_step\<^sup>*\<^sup>* (w_db w) (w_db (f w))) \<Longrightarrow> keeps (by_gateway w_db) (supd f)"
  by (simp add: keeps_def by_gateway_def supd_def)

lemmas worker_parts = wdb.keeps_programs on_db_gateway gateway_ops audit_gateway supd_db_gateway

lemma worker_gateway:
  assumes "gateway_writers env"
  shows "keeps (by_gateway w_db) (process_proof_job env pid)"
proof -
  note parts = worker_parts audit_gateway [OF assms]
  have f: "keeps (by_gateway w_db) (fail_job env pid job am reason msg)" for job am reason msg
    unfolding fail_job_def record_dead_letter_job_def Let_def by (intro parts)
  have e: "keeps (by_gateway w_db) (exhaust_job env pid job am)" for job am
    unfolding exhaust_job_def record_dead_letter_job_def Let_def by (intro parts)
  have h: "keeps (by_gateway w_db) (handle_failure env pid job am x)" for job am x
    unfolding handle_failure_def by (intro parts f)
  have c: "keeps (by_gateway w_db) (checkpoint env k)" for k unfolding checkpoint_def by (intro parts)
  have u: "keeps (by_gateway w_db) (unseal_step env pid sealed)" for sealed
    unfolding unseal_step_def by (intro parts) (auto intro: gateway_ops)
  have p: "keeps (by_gateway w_db) (prove_job env job d)" for job d unfolding prove_job_def by (intro parts c)
  have s: "keeps (by_gateway w_db) (store_proof env pid job out)" for job out
    unfolding store_proof_def Let_def by (intro parts c) auto
  have r: "keeps (by_gateway w_db) (run_job env pid job)" for job unfolding run_job_def by (intro parts c u p s)
  have b: "keeps (by_gateway w_db) (begin_attempt env pid job am)" for job am unfolding begin_attempt_def Let_def by (intro parts)
  show ?thesis unfolding process_proof_job_def by (intro parts e b r h) auto
qed

section \<open>The prover service\<close>

interpretation pdb: gateway_client ps_db ps_db_update
  by unfold_locales simp

lemma denials_gateway: "db_step\<^sup>*\<^sup>* db (record_denials av now evs db)"
proof (induction evs arbitrary: db)
  case (Cons e evs)
  from gateway_ops(5) Cons.IH show ?case unfolding record_denials_def fold.simps comp_def by (rule rtranclp_trans)
qed (simp add: record_denials_def)

lemma on_auth_gateway: "keeps (by_gateway ps_db) (on_auth env m)"
  by (auto simp: keeps_def by_gateway_def on_auth_def denials_gateway split: prod.splits)

lemma on_data_gateway:
  assumes "\<And>db. db_step\<^sup>*\<^sup>* db (snd (f db))"
  shows "keeps (by_gateway ps_db) (on_data f)"
  by (rule pdb.keeps_operation [where db = "\<lambda>s. snd (f (ps_db s))"]) (auto simp: on_data_def assms split: prod.splits)

lemma service_audit_gateway: "gateway_writers (pe_worker env) \<Longrightarrow> keeps (by_gateway ps_db) (service_audit env k e)"
  by (rule pdb.keeps_operation [where db = "\<lambda>s. snd (append_event (we_sha256 (pe_worker env)) (we_vault (pe_worker env)) (we_audit_key (pe_worker env))
        (we_audit_clock (pe_worker env) k) (we_others (pe_worker env) k) e (ps_db s))"])
     (auto simp: service_audit_def Let_def split: prod.splits intro: append_event_steps [OF _ surjective_pairing])

lemma create_job_gateway: "keeps (by_gateway ps_db) (create_job_step env pid cid sealed fp sm meta)"
  by (auto simp: keeps_def by_gateway_def create_job_step_def split: sum.splits intro: db_step.create)

lemma files_gateway: "keeps (by_gateway ps_db) (enqueue env pid)" "keeps (by_gateway ps_db) (evidence_put env run_id p)"
  "keeps (by_gateway ps_db) (evidence_get env ref)"
  by (auto intro!: pdb.keeps_same simp: enqueue_def prog_defs evidence_put_def evidence_get_def split: option.splits prod.splits)

lemmas service_parts = pdb.keeps_programs on_auth_gateway on_data_gateway gateway_ops create_job_gateway files_gateway

lemma prover_gateway:
  assumes "gateway_writers (pe_worker env)"
  shows "keeps (by_gateway ps_db) (create_batch_proof env credentials rq)" "keeps (by_gateway ps_db) (create_policy_run env credentials rq)"
    "keeps (by_gateway ps_db) (requeue_dead_letter_job env credentials dlq_id reason)"
proof -
  note parts = service_parts service_audit_gateway [OF assms]
  have p: "keeps (by_gateway ps_db) (persist_and_enqueue_job env pid cid rp mode sealed meta)" for pid cid rp mode sealed meta
    unfolding persist_and_enqueue_job_def by (intro parts)
  have d: "keeps (by_gateway ps_db) (decode_and_authenticate_payload env parse msg rq)" for parse :: "string \<Rightarrow> string + 'p" and msg
    unfolding decode_and_authenticate_payload_def by (intro parts)
  have sc: "keeps (by_gateway ps_db) (require_scope env scope credentials)" for scope unfolding require_scope_def by (intro parts)
  have ev: "keeps (by_gateway ps_db) (resolve_policy_evidence env run_id payload)" for run_id payload
    unfolding resolve_policy_evidence_def by (cases "rr_evidence payload") (auto intro!: parts)
  have sub: "keeps (by_gateway ps_db) (submit_policy_run env claims x)" for claims x
    unfolding submit_policy_run_def Let_def by (intro parts p ev)
  have re: "keeps (by_gateway ps_db) (submit_rerun env claims dlq_id reason row sealed)" for claims row sealed
    unfolding submit_rerun_def Let_def by (intro parts)
  show "keeps (by_gateway ps_db) (create_batch_proof env credentials rq)" unfolding create_batch_proof_def Let_def by (intro parts p d sc)
  show "keeps (by_gateway ps_db) (create_policy_run env credentials rq)" unfolding create_policy_run_def by (intro parts d sc sub)
  show "keeps (by_gateway ps_db) (requeue_dead_letter_job env credentials dlq_id reason)"
    unfolding requeue_dead_letter_job_def by (intro parts sc re)
qed

section \<open>The verifier service\<close>

interpretation vdb: gateway_client vr_db vr_db_update
  by unfold_locales simp

lemma verifier_gateway:
  assumes "gateway_writers (ve_worker env)"
  shows "keeps (by_gateway vr_db) (verify_endpoint env credentials cid pf sigs)"
proof -
  have sc: "keeps (by_gateway vr_db) (verifier_scope env scope credentials)" for scope
    by (auto simp: keeps_def by_gateway_def verifier_scope_def denials_gateway split: prod.splits)
  have au: "keeps (by_gateway vr_db) (verifier_audit env e)" for e
    by (rule vdb.keeps_operation [where db = "\<lambda>s. snd (append_event (we_sha256 (ve_worker env)) (we_vault (ve_worker env)) (we_audit_key (ve_worker env))
        (we_audit_clock (ve_worker env) 0) (we_others (ve_worker env) 0) e (vr_db s))"])
       (auto simp: verifier_audit_def Let_def assms split: prod.splits intro: append_event_steps [OF assms surjective_pairing])
  show ?thesis unfolding verify_endpoint_def Let_def by (intro vdb.keeps_programs sc au)
qed

section \<open>Properties\<close>

text \<open>
  The running system: workers, prover services and verifier services, each step in one of the given environments
  (their clocks, identifiers and external answers), and the pruning of the maintenance worker.
\<close>

inductive service_step ::
  "worker_env set \<Rightarrow> ('r, 'k) prover_env set \<Rightarrow> ('r, 'k) verifier_env set \<Rightarrow> database \<Rightarrow> database \<Rightarrow> bool"
  for W P V where
  delivery: "wk \<in> W \<Longrightarrow> process_proof_job wk pid w = (r, w') \<Longrightarrow> service_step W P V (w_db w) (w_db w')"
| batch: "env \<in> P \<Longrightarrow> create_batch_proof env credentials rq st = (br, st') \<Longrightarrow> service_step W P V (ps_db st) (ps_db st')"
| run: "env \<in> P \<Longrightarrow> create_policy_run env credentials rq st = (pr, st') \<Longrightarrow> service_step W P V (ps_db st) (ps_db st')"
| requeue: "env \<in> P \<Longrightarrow> requeue_dead_letter_job env credentials dlq_id reason st = (qr, st') \<Longrightarrow> service_step W P V (ps_db st) (ps_db st')"
| verification: "env' \<in> V \<Longrightarrow> verify_endpoint env' credentials cid pf sigs vst = (vr, vst') \<Longrightarrow> service_step W P V (vr_db vst) (vr_db vst')"
| pruning: "prune_terminal_job_runtime_data orm now old db = (n, db') \<Longrightarrow> service_step W P V db db'"

definition gateway_system :: "worker_env set \<Rightarrow> ('r, 'k) prover_env set \<Rightarrow> ('r, 'k) verifier_env set \<Rightarrow> bool" where
  "gateway_system W P V = (\<forall>wk \<in> W \<union> pe_worker ` P \<union> ve_worker ` V. gateway_writers wk)"

lemma keeps_run: "keeps (by_gateway dbof) m \<Longrightarrow> m s = (r, t) \<Longrightarrow> db_step\<^sup>*\<^sup>* (dbof s) (dbof t)"
  unfolding keeps_def by_gateway_def by (metis snd_conv)

lemma service_step_gateway:
  assumes "gateway_system W P V" "service_step W P V db db'"
  shows "db_step\<^sup>*\<^sup>* db db'"
  using assms(2)
proof cases
  case delivery
  with assms(1) show ?thesis by (auto simp: gateway_system_def intro: keeps_run [OF worker_gateway])
next
  case batch
  with assms(1) show ?thesis by (auto simp: gateway_system_def intro: keeps_run [OF prover_gateway(1)])
next
  case run
  with assms(1) show ?thesis by (auto simp: gateway_system_def intro: keeps_run [OF prover_gateway(2)])
next
  case requeue
  with assms(1) show ?thesis by (auto simp: gateway_system_def intro: keeps_run [OF prover_gateway(3)])
next
  case verification
  with assms(1) show ?thesis by (auto simp: gateway_system_def intro: keeps_run [OF verifier_gateway])
next
  case pruning
  then show ?thesis by (blast intro: db_step.prune)
qed

text \<open>
  C11. The running system keeps the integrity of the database. Along any sequence of deliveries, submissions of batches and of
  policy runs, requeues, verifications and prunings, each succeeding or failing at any point, with other writers using the
  gateway in between: the job identifiers stay unique, the dead letters well-formed, the audit log linked, and the
  earlier audit rows stay, unchanged and in place.
\<close>

theorem services_keep_database:
  assumes "gateway_system W P V" "(service_step W P V)\<^sup>*\<^sup>* db db'" "db_wf db"
  shows "db_wf db' \<and> (\<exists>rows. db_audit db' = db_audit db @ rows)"
proof -
  have "db_step\<^sup>*\<^sup>* db db'"
    using assms(2)
  proof (induction rule: rtranclp_induct)
    case (step y z)
    from service_step_gateway [OF assms(1) step(2)] step(3) show ?case by (rule rtranclp_trans [rotated])
  qed simp
  from db_steps_kept [OF this] assms(3) show ?thesis by blast
qed

theorem services_keep_database_witness:
  "\<exists>rows. db_audit (w_db (snd (process_proof_job demo_worker ''p'' demo_start))) = db_audit (w_db demo_start) @ rows"
proof -
  have "gateway_system {demo_worker} ({} :: (demo_store, string) prover_env set) {}"
    by (simp add: gateway_system_def gateway_writers_def demo_worker_def)
  moreover have "service_step {demo_worker} ({} :: (demo_store, string) prover_env set) {} (w_db demo_start) (w_db (snd (process_proof_job demo_worker ''p'' demo_start)))"
    by (rule service_step.delivery [OF _ surjective_pairing]) simp
  then have "(service_step {demo_worker} ({} :: (demo_store, string) prover_env set) {})\<^sup>*\<^sup>* (w_db demo_start) (w_db (snd (process_proof_job demo_worker ''p'' demo_start)))"
    by (rule r_into_rtranclp)
  moreover have "db_wf (w_db demo_start)" by (simp add: demo_start_def db_wf_def audit_wf_def dlq_wf_def empty_database_def)
  ultimately show ?thesis using services_keep_database by blast
qed
end
