(* ===== verification/Maintenance.thy ===== *)
theory Maintenance
  imports Audit_Chain Py_Runtime "HOL-Library.AList"
begin

text \<open>
  The lifecycle maintenance \<open>maintenance.py\<close> and the loop of \<open>maintenance_worker.py\<close>: pruning of old job rows and
  archival of proof and evidence files, which are moved below \<open>archive/\<close> and replaced by a relative symbolic link.

  A path is the list of its components, with \<open>/\<close> as the first one of an absolute path. The file system holds directories, regular
  files with content and modification time in microseconds, and symbolic links. A path is resolved component by component as the
  kernel does (\<open>walk\<close>): links are followed in directories, too, \<open>..\<close> is the parent of the directory reached so far,
  a missing entry, a file in place of a directory and more than 40 links are errors. A move stays within one file system.
  Which moves and which links fail, and the expansion of \<open>~\<close>, are parameters.
\<close>

section \<open>Paths and files\<close>

datatype fnode = RegFile string int | Link fpath | Dir

type_synonym filesystem = "(fpath \<times> fnode) list"

definition up :: string where
  "up = ''..''"

text \<open>A path without \<open>..\<close>, with \<open>/\<close> at most as its first component.\<close>

definition plain :: "fpath \<Rightarrow> bool" where
  "plain p = (up \<notin> set p \<and> ''/'' \<notin> set (tl p))"

fun common_length :: "fpath \<Rightarrow> fpath \<Rightarrow> nat" where
  "common_length (x # xs) (y # ys) = (if x = y then Suc (common_length xs ys) else 0)"
| "common_length _ _ = 0"

definition relpath :: "fpath \<Rightarrow> fpath \<Rightarrow> fpath" where
  "relpath path start =
     (let i = common_length start path in replicate (length start - i) up @ drop i path)"

definition is_relative_to :: "fpath \<Rightarrow> fpath \<Rightarrow> bool" where
  "is_relative_to p base = (take (length base) p = base)"

datatype walk_error = NoEntry | NotDirectory | TooManyLinks

definition absolute :: "fpath \<Rightarrow> bool" where
  "absolute p = (take 1 p = [''/''])"

definition parent_dir :: "fpath \<Rightarrow> fpath" where
  "parent_dir d = (if d = [''/''] then d else butlast d)"

definition link_start :: "fpath \<Rightarrow> fpath \<Rightarrow> fpath" where
  "link_start d target = (if absolute target then [] else d)"

fun walk :: "nat \<Rightarrow> filesystem \<Rightarrow> fpath \<Rightarrow> fpath \<Rightarrow> walk_error + fpath" where
  "walk n fs d [] = Inr d"
| "walk n fs d (c # rest) =
     (if c = up then walk n fs (parent_dir d) rest
      else case map_of fs (d @ [c]) of
             None \<Rightarrow> Inl NoEntry
           | Some Dir \<Rightarrow> walk n fs (d @ [c]) rest
           | Some (RegFile content mtime) \<Rightarrow> if rest = [] then Inr (d @ [c]) else Inl NotDirectory
           | Some (Link target) \<Rightarrow>
               (case n of 0 \<Rightarrow> Inl TooManyLinks
                | Suc m \<Rightarrow> walk m fs (link_start d target) (target @ rest)))"

definition max_links :: nat where
  "max_links = 40"

definition dir_at :: "filesystem \<Rightarrow> fpath \<Rightarrow> bool" where
  "dir_at fs d = (d = [] \<or> map_of fs d = Some Dir)"

text \<open>The place a path names, its last component not followed; whether something is there; its file, followed.\<close>

definition place :: "filesystem \<Rightarrow> fpath \<Rightarrow> walk_error + fpath" where
  "place fs p =
     (if p = [] then Inl NoEntry
      else case walk max_links fs [] (butlast p) of
             Inl e \<Rightarrow> Inl e
           | Inr d \<Rightarrow> if dir_at fs d then Inr (d @ [last p]) else Inl NotDirectory)"

definition path_exists_at :: "filesystem \<Rightarrow> fpath \<Rightarrow> bool" where
  "path_exists_at fs p =
     (case place fs p of
        Inl _ \<Rightarrow> False
      | Inr q \<Rightarrow> (case map_of fs q of
                   None \<Rightarrow> False
                 | Some (Link _) \<Rightarrow> (case walk max_links fs [] p of Inl _ \<Rightarrow> False | Inr _ \<Rightarrow> True)
                 | Some _ \<Rightarrow> True))"

definition os_error :: "walk_error \<Rightarrow> pyexc" where
  "os_error e = OtherError (case e of NoEntry \<Rightarrow> ''No such file or directory'' | NotDirectory \<Rightarrow> ''Not a directory''
     | TooManyLinks \<Rightarrow> ''Too many levels of symbolic links'')"

section \<open>State and environment\<close>

record maintenance_state =
  ms_db :: database
  ms_fs :: filesystem

record maintenance_env =
  me_now :: int
  me_retention_days :: int
  me_archive_after_days :: int
  me_scan_limit :: int
  me_root :: fpath
  me_orm_none :: json_col
  me_expanduser :: "fpath \<Rightarrow> fpath"
  me_move_error :: "fpath \<Rightarrow> pyexc option"
  me_link_error :: "fpath \<Rightarrow> pyexc option"

definition days_us :: "int \<Rightarrow> int" where
  "days_us d = d * 86400 * 1000000"

section \<open>Archival\<close>

definition year_month :: "int \<Rightarrow> string \<times> string" where
  "year_month t = (case civil_of_days (t div 1000000 div 86400) of (y, m, d) \<Rightarrow> (show_int y, pad_int 2 m))"

definition archive_target :: "fpath \<Rightarrow> string \<Rightarrow> int \<Rightarrow> fpath \<Rightarrow> fpath" where
  "archive_target base bucket mtime source =
     (case year_month mtime of (y, m) \<Rightarrow> base @ [''archive'', bucket] @ [y, m] @ [last source])"

text \<open>\<open>mkdir(parents=True, exist_ok=True)\<close>: the directories of the path from the top; those made before an error stay.\<close>

definition ensure_dir :: "fpath \<Rightarrow> (filesystem, unit) prog" where
  "ensure_dir p fs =
     (case walk max_links fs [] p of
        Inr d \<Rightarrow> (if dir_at fs d then Inr () else Inl (OtherError ''File exists''), fs)
      | Inl NoEntry \<Rightarrow>
          (case place fs p of
             Inl e \<Rightarrow> (Inl (os_error e), fs)
           | Inr q \<Rightarrow> (if map_of fs q = None then (Inr (), AList.update q Dir fs) else (Inl (OtherError ''File exists''), fs)))
      | Inl e \<Rightarrow> (Inl (os_error e), fs))"

fun mkdir_parents :: "fpath \<Rightarrow> fpath \<Rightarrow> (filesystem, unit) prog" where
  "mkdir_parents d [] = sret ()"
| "mkdir_parents d (c # cs) = sthen (ensure_dir (d @ [c])) (mkdir_parents (d @ [c]) cs)"

text \<open>The move of a file and the link that replaces it are two steps; when the second one fails the first one stays.\<close>

definition shutil_move :: "maintenance_env \<Rightarrow> fpath \<Rightarrow> fpath \<Rightarrow> fpath \<Rightarrow> string \<Rightarrow> int \<Rightarrow> (filesystem, unit) prog" where
  "shutil_move env source q target content mtime fs =
     (case me_move_error env source of
        Some e \<Rightarrow> (Inl e, fs)
      | None \<Rightarrow> (case place fs target of
                  Inl e \<Rightarrow> (Inl (os_error e), fs)
                | Inr tq \<Rightarrow> (Inr (), AList.update tq (RegFile content mtime) (AList.delete q fs))))"

definition symlink_to :: "maintenance_env \<Rightarrow> fpath \<Rightarrow> fpath \<Rightarrow> (filesystem, unit) prog" where
  "symlink_to env source relative_target fs =
     (case me_link_error env source of
        Some e \<Rightarrow> (Inl e, fs)
      | None \<Rightarrow> (case place fs source of
                  Inl e \<Rightarrow> (Inl (os_error e), fs)
                | Inr q \<Rightarrow> (if map_of fs q = None then (Inr (), AList.update q (Link relative_target) fs)
                            else (Inl (OtherError ''File exists''), fs))))"

definition file_node :: "filesystem \<Rightarrow> fpath \<Rightarrow> (fpath \<times> fnode) option" where
  "file_node fs p = (case place fs p of Inl _ \<Rightarrow> None | Inr q \<Rightarrow> map_option (Pair q) (map_of fs q))"

definition archive_path :: "maintenance_env \<Rightarrow> fpath \<Rightarrow> string \<Rightarrow> (filesystem, bool) prog" where
  "archive_path env source bucket =
     sbind (sget (\<lambda>fs. file_node fs source)) (\<lambda>found.
     case found of
       Some (q, RegFile content mtime) \<Rightarrow>
         (if \<not> is_relative_to source (me_root env) then sret False
          else if is_relative_to source (me_root env @ [''archive'', bucket]) then sret False
          else
            let target = archive_target (me_root env) bucket mtime source
            in sthen (mkdir_parents [] (butlast target))
              (sbind (sget (\<lambda>fs. path_exists_at fs target)) (\<lambda>taken.
               if taken then sret False
               else sthen (shutil_move env source q target content mtime)
                   (sthen (symlink_to env source (relpath target (butlast source)))
                          (sret True)))))
     | _ \<Rightarrow> sret False)"

text \<open>A directory has no modification time here and counts as recent: \<open>archive_path\<close> refuses directories of any age.\<close>

definition path_older_than :: "filesystem \<Rightarrow> fpath \<Rightarrow> int \<Rightarrow> bool res" where
  "path_older_than fs p cutoff =
     (case walk max_links fs [] p of
        Inl NoEntry \<Rightarrow> Inr False
      | Inl e \<Rightarrow> Inl (os_error e)
      | Inr q \<Rightarrow> Inr (case map_of fs q of Some (RegFile content mtime) \<Rightarrow> mtime < cutoff | _ \<Rightarrow> False))"

text \<open>The entries of a directory, which may be reached through a link, under the path they are listed by.\<close>

definition glob_json :: "filesystem \<Rightarrow> fpath \<Rightarrow> fpath list" where
  "glob_json fs dir =
     (case walk max_links fs [] dir of
        Inl _ \<Rightarrow> []
      | Inr d \<Rightarrow>
          (if dir_at fs d
           then map (\<lambda>n. dir @ [n])
                  (sort (remdups (map last (filter (\<lambda>p. p \<noteq> [] \<and> butlast p = d \<and> endswith (last p) ''.json'') (map fst fs)))))
           else []))"

fun archive_evidence_loop :: "maintenance_env \<Rightarrow> int \<Rightarrow> int \<Rightarrow> fpath list \<Rightarrow> int \<Rightarrow> (filesystem, int) prog" where
  "archive_evidence_loop env older_than max_files [] archived = sret archived"
| "archive_evidence_loop env older_than max_files (source # sources) archived =
     (if archived \<ge> max_files then sret archived
      else sbind (sget (\<lambda>fs. path_older_than fs source older_than)) (\<lambda>r.
           sbind (slift r) (\<lambda>old.
           if \<not> old then archive_evidence_loop env older_than max_files sources archived
           else sbind (archive_path env source ''evidence'') (\<lambda>moved.
                archive_evidence_loop env older_than max_files sources (if moved then archived + 1 else archived)))))"

definition archive_evidence_files :: "maintenance_env \<Rightarrow> int \<Rightarrow> int \<Rightarrow> (filesystem, int) prog" where
  "archive_evidence_files env older_than max_files =
     sbind (sget (\<lambda>fs. glob_json fs (me_root env @ [''evidence'']))) (\<lambda>sources.
     archive_evidence_loop env older_than max_files sources 0)"

fun archive_proof_loop :: "maintenance_env \<Rightarrow> proof_job list \<Rightarrow> int \<Rightarrow> (filesystem, int) prog" where
  "archive_proof_loop env [] archived = sret archived"
| "archive_proof_loop env (job # jobs) archived =
     (case pj_proof_path job of
        None \<Rightarrow> archive_proof_loop env jobs archived
      | Some path \<Rightarrow>
          (if py_strip path = [] then archive_proof_loop env jobs archived
           else sbind (archive_path env (me_expanduser env (path_parts path)) ''proofs'') (\<lambda>moved.
                archive_proof_loop env jobs (if moved then archived + 1 else archived))))"

section \<open>The cycle\<close>

record maintenance_report =
  mr_runtime_rows_pruned :: int
  mr_proof_files_archived :: int
  mr_evidence_files_archived :: int

definition on_fs :: "(filesystem, 'a) prog \<Rightarrow> (maintenance_state, 'a) prog" where
  "on_fs m st = (case m (ms_fs st) of (r, fs) \<Rightarrow> (r, st\<lparr>ms_fs := fs\<rparr>))"

definition prune_step :: "maintenance_env \<Rightarrow> int \<Rightarrow> (maintenance_state, int) prog" where
  "prune_step env cutoff st =
     (case prune_terminal_job_runtime_data (me_orm_none env) (me_now env) cutoff (ms_db st) of
        (n, db) \<Rightarrow> (Inr (int n), st\<lparr>ms_db := db\<rparr>))"

definition run_maintenance_cycle :: "maintenance_env \<Rightarrow> (maintenance_state, maintenance_report) prog" where
  "run_maintenance_cycle env =
     (let prune_cutoff = me_now env - days_us (me_retention_days env);
          archive_cutoff = me_now env - days_us (me_archive_after_days env)
      in sbind (prune_step env prune_cutoff) (\<lambda>runtime_rows_pruned.
         sbind (sget (\<lambda>st. list_jobs_for_file_archival archive_cutoff (me_scan_limit env) (ms_db st))) (\<lambda>candidates.
         sbind (on_fs (archive_proof_loop env candidates 0)) (\<lambda>proof_files_archived.
         sbind (on_fs (archive_evidence_files env archive_cutoff (me_scan_limit env))) (\<lambda>evidence_files_archived.
         sret \<lparr>mr_runtime_rows_pruned = runtime_rows_pruned, mr_proof_files_archived = proof_files_archived,
               mr_evidence_files_archived = evidence_files_archived\<rparr>)))))"

text \<open>The first cycles of the endless loop, each in its own environment; a cycle that raises is logged and the loop goes on.\<close>

fun run_cycles :: "maintenance_env list \<Rightarrow> maintenance_state \<Rightarrow> maintenance_state" where
  "run_cycles [] st = st"
| "run_cycles (env # envs) st = run_cycles envs (snd (run_maintenance_cycle env st))"

section \<open>Walking\<close>

definition tree_ok :: "filesystem \<Rightarrow> bool" where
  "tree_ok fs = (\<forall>p x. map_of fs p = Some x \<longrightarrow> p \<noteq> [] \<and> plain p \<and> dir_at fs (butlast p))"

lemma tree_parent: "tree_ok fs \<Longrightarrow> dir_at fs d \<Longrightarrow> dir_at fs (parent_dir d)"
  by (auto simp: tree_ok_def dir_at_def parent_dir_def)

lemma link_start_dir: "dir_at fs d \<Longrightarrow> dir_at fs (link_start d t)"
  by (simp add: link_start_def dir_at_def)

lemma dir_at_Dir: "map_of fs d = Some Dir \<Longrightarrow> dir_at fs d"
  by (simp add: dir_at_def)

lemma tree_prefix:
  assumes "tree_ok fs" "dir_at fs d"
  shows "dir_at fs (take k d)"
  using assms(2)
proof (induction d arbitrary: k rule: rev_induct)
  case (snoc c d)
  then have "dir_at fs d" using assms(1) by (auto simp: tree_ok_def dir_at_def)
  with snoc show ?case by (cases "k \<le> length d") auto
qed (simp add: dir_at_def)

lemma plain_append: "plain (p @ q) \<longleftrightarrow> plain p \<and> up \<notin> set q \<and> (if p = [] then ''/'' \<notin> set (tl q) else ''/'' \<notin> set q)"
  by (cases p) (auto simp: plain_def)

lemma walk_dirs:
  assumes "up \<notin> set r" "\<forall>k \<le> length r. dir_at fs (d @ take k r)"
  shows "walk n fs d (r @ q) = walk n fs (d @ r) q"
  using assms
proof (induction r arbitrary: d)
  case (Cons c r)
  from Cons.prems(2) [rule_format, of 1] have "map_of fs (d @ [c]) = Some Dir" by (simp add: dir_at_def)
  moreover have "\<forall>k \<le> length r. dir_at fs ((d @ [c]) @ take k r)"
    using Cons.prems(2) by (metis Suc_le_mono append_Cons append_Nil append_assoc length_Cons take_Suc_Cons)
  ultimately show ?case using Cons by auto
qed simp

lemma walk_known:
  assumes "tree_ok fs" "dir_at fs d"
  shows "walk n fs [] (d @ q) = walk n fs d q"
proof -
  have "up \<notin> set d" using assms by (cases "d = []") (auto simp: tree_ok_def dir_at_def plain_def)
  then show ?thesis using walk_dirs [of d fs "[]" n q] tree_prefix [OF assms] by simp
qed

lemma walk_agree: "walk n fs d r = Inr x \<Longrightarrow> walk m fs d r = Inr y \<Longrightarrow> x = y"
proof (induction n fs d r arbitrary: m rule: walk.induct)
  case (2 n fs d c rest)
  then show ?case by (cases m) (auto split: if_splits option.splits fnode.splits nat.splits)
qed simp

lemma walk_part:
  "tree_ok fs \<Longrightarrow> walk n fs d (r @ q) = Inr x \<Longrightarrow> q \<noteq> [] \<Longrightarrow> dir_at fs d \<Longrightarrow> \<exists>y. walk n fs d r = Inr y \<and> dir_at fs y"
proof (induction n fs d r rule: walk.induct)
  case (2 n fs d c rest)
  note d = tree_parent [OF "2.prems"(1,4)] link_start_dir [OF "2.prems"(4)]
  show ?case
    using 2 d by (auto simp: dir_at_Dir split: if_splits option.splits fnode.splits nat.splits)
qed simp

text \<open>A path whose links all lead to files is, when it leads to a directory, the place of that directory.\<close>

definition readable :: "filesystem \<Rightarrow> fpath \<Rightarrow> string \<times> int \<Rightarrow> bool" where
  "readable fs p c = (\<exists>n q. walk n fs [] p = Inr q \<and> map_of fs q = Some (RegFile (fst c) (snd c)))"

lemma walk_straight:
  assumes "tree_ok fs"
  shows "walk n fs d r = Inr x \<Longrightarrow> dir_at fs x \<Longrightarrow> dir_at fs d \<Longrightarrow> up \<notin> set r \<Longrightarrow>
    \<forall>k t. map_of fs (d @ take k r) = Some (Link t) \<longrightarrow> (\<exists>c. readable fs (d @ take k r) c) \<Longrightarrow> x = d @ r"
proof (induction r arbitrary: d)
  case (Cons c r)
  let ?p = "d @ [c]"
  from Cons.prems(1,4) show ?case
  proof (cases "map_of fs ?p")
    case None
    with Cons.prems show ?thesis by auto
  next
    case (Some node)
    show ?thesis
    proof (cases node)
      case (RegFile a b)
      with Some Cons.prems show ?thesis by (auto simp: dir_at_def split: if_splits)
    next
      case (Link t)
      with Some Cons.prems(5) [rule_format, of 1] obtain a m z where z: "walk m fs [] ?p = Inr z" "map_of fs z = Some (RegFile (fst a) (snd a))"
        by (auto simp: readable_def)
      from z(1) walk_known [OF assms Cons.prems(3), of m "[c]"] have zd: "walk m fs d [c] = Inr z" by simp
      let ?d = "link_start d t"
      from zd Some Link Cons.prems(4) obtain m' where z': "walk m' fs ?d t = Inr z" by (cases m) auto
      from Cons.prems(1,4) Some Link obtain n' where x: "walk n' fs ?d (t @ r) = Inr x" by (cases n) auto
      have dd: "dir_at fs ?d" using Cons.prems(3) by (rule link_start_dir)
      have nd: "\<not> dir_at fs z" using z(2) assms by (auto simp: dir_at_def tree_ok_def)
      show ?thesis
      proof (cases "r = []")
        case True
        with x z' have "x = z" using walk_agree [of n' fs ?d t x m' z] by simp
        with nd Cons.prems(2) show ?thesis by simp
      next
        case False
        from walk_part [OF assms x False dd] obtain y where "walk n' fs ?d t = Inr y" "dir_at fs y" by blast
        with z' nd walk_agree show ?thesis by blast
      qed
    next
      case Dir
      have "\<forall>k s. map_of fs (?p @ take k r) = Some (Link s) \<longrightarrow> (\<exists>c. readable fs (?p @ take k r) c)"
        using Cons.prems(5) by (metis append_Cons append_Nil append_assoc take_Suc_Cons)
      moreover have "walk n fs ?p r = Inr x" "dir_at fs ?p" using Cons.prems(1,4) Some Dir by (auto simp: dir_at_def split: if_splits)
      ultimately have "x = ?p @ r" using Cons.IH [of ?p] Cons.prems(2,4) by simp
      then show ?thesis by simp
    qed
  qed
qed simp

section \<open>Relative links\<close>

lemma common_prefix: "take (common_length xs ys) xs = take (common_length xs ys) ys" "common_length xs ys \<le> length xs" "common_length xs ys \<le> length ys"
  by (induction xs ys rule: common_length.induct) auto

lemma common_length_base: "is_relative_to p base \<Longrightarrow> is_relative_to q base \<Longrightarrow> length base \<le> common_length p q"
proof (induction base arbitrary: p q)
  case (Cons c base)
  then show ?case by (cases p; cases q) (auto simp: is_relative_to_def)
qed simp

lemma walk_ups: "k < length d \<Longrightarrow> walk n fs d (replicate k up @ r) = walk n fs (take (length d - k) d) r"
proof (induction k arbitrary: d)
  case (Suc k)
  then have "d \<noteq> [''/'']" by auto
  with Suc have "walk n fs d (replicate (Suc k) up @ r) = walk n fs (butlast d) (replicate k up @ r)" by (simp add: parent_dir_def)
  also have "\<dots> = walk n fs (take (length (butlast d) - k) (butlast d)) r" using Suc by simp
  finally show ?case by (simp add: take_butlast butlast_conv_take min_def)
qed simp

text \<open>From the directory of the source the relative link leads to the target, when there are real directories all the way.\<close>

lemma walk_relpath:
  assumes "tree_ok fs" "dir_at fs start" "target \<noteq> []" "map_of fs target = Some (RegFile c t)" "is_relative_to start base" "is_relative_to target base" "base \<noteq> []"
  shows "walk n fs start (relpath target start) = Inr target" "\<not> absolute (relpath target start)"
proof -
  let ?i = "common_length start target"
  have i: "0 < ?i" "?i \<le> length start" "?i \<le> length target"
    using common_length_base [OF assms(5,6)] assms(7) common_prefix(2,3) [of start target] by (cases base; simp)+
  have tgt: "plain target" "dir_at fs (butlast target)" using assms(1,4) by (auto simp: tree_ok_def)
  have "?i \<noteq> length target"
  proof
    assume "?i = length target"
    then have "target = take (length target) start" using common_prefix(1) [of start target] by simp
    then have "dir_at fs target" using tree_prefix [OF assms(1,2), of "length target"] by simp
    with assms(3,4) show False by (simp add: dir_at_def)
  qed
  then obtain r where r: "drop ?i target = r @ [last target]" using i(3) assms(3)
    by (metis append_butlast_last_id drop_eq_Nil last_drop le_antisym not_le)
  have t: "target = take ?i start @ r @ [last target]"
    using append_take_drop_id [of ?i target] r common_prefix(1) [of start target] by simp
  have "walk n fs start (relpath target start) = walk n fs (take ?i start) (r @ [last target])"
  proof (cases "?i = length start")
    case True
    then show ?thesis using r by (simp add: relpath_def Let_def)
  next
    case False
    then show ?thesis using walk_ups [of "length start - ?i" start n fs "r @ [last target]"] r i by (simp add: relpath_def Let_def)
  qed
  also have "\<dots> = walk n fs (take ?i start @ r) [last target]"
  proof (rule walk_dirs)
    show "up \<notin> set r" using tgt(1) t by (metis UnCI plain_def set_append)
    have b: "butlast target = take ?i start @ r" using t by (metis append_assoc butlast_snoc)
    show "\<forall>k \<le> length r. dir_at fs (take ?i start @ take k r)"
    proof (intro allI impI)
      fix k
      assume "k \<le> length r"
      then have "take ?i start @ take k r = take (?i + k) (butlast target)" unfolding b using i(2) by simp
      with tree_prefix [OF assms(1) tgt(2), of "?i + k"] show "dir_at fs (take ?i start @ take k r)" by simp
    qed
  qed
  also have "\<dots> = Inr target"
  proof -
    have "last target \<noteq> up" using tgt(1) assms(3) last_in_set [of target] by (metis plain_def)
    moreover have "(take ?i start @ r) @ [last target] = target" using t by simp
    ultimately show ?thesis using assms(4) by simp
  qed
  finally show "walk n fs start (relpath target start) = Inr target" .
  have "drop ?i target = drop (?i - 1) (tl target)" using i(1) by (cases ?i) (simp_all add: drop_Suc)
  then have "''/'' \<notin> set (drop ?i target)" using tgt(1) by (auto simp: plain_def dest: in_set_dropD)
  then have "take 1 (drop ?i target) \<noteq> [''/'']" by (metis in_set_takeD list.set_intros(1))
  then show "\<not> absolute (relpath target start)"
    by (cases "length start - ?i") (auto simp: absolute_def relpath_def Let_def up_def)
qed

section \<open>What a step keeps\<close>

definition keeps_readable :: "filesystem \<Rightarrow> filesystem \<Rightarrow> bool" where
  "keeps_readable fs fs' = (\<forall>p c. readable fs p c \<longrightarrow> readable fs' p c)"

lemma keeps_readable_order: "transp keeps_readable" "reflp keeps_readable"
  by (auto simp: keeps_readable_def transp_def reflp_def)

text \<open>More directories change no reading.\<close>

lemma walk_extended: "walk n fs d r = Inr x \<Longrightarrow> map_of fs \<subseteq>\<^sub>m map_of fs' \<Longrightarrow> walk n fs' d r = Inr x"
proof (induction n fs d r rule: walk.induct)
  case (2 n fs d c rest)
  have m: "map_of fs p = Some y \<Longrightarrow> map_of fs' p = Some y" for p y using "2.prems"(2) by (auto simp: map_le_def dom_def)
  show ?case using 2 by (auto dest!: m split: if_splits option.splits fnode.splits nat.splits)
qed simp

lemma extended_readable:
  assumes "map_of fs \<subseteq>\<^sub>m map_of fs'"
  shows "keeps_readable fs fs'"
proof -
  have m: "map_of fs p = Some y \<Longrightarrow> map_of fs' p = Some y" for p y using assms by (auto simp: map_le_def dom_def)
  then show ?thesis unfolding keeps_readable_def readable_def using walk_extended [OF _ assms] by blast
qed

text \<open>A file moved to a free place and replaced by a link that leads there stays readable, and so does everything that was read through it.\<close>

lemma walk_moved:
  assumes fs': "\<And>p. map_of fs' p = (if p = s then Some (Link rel) else if p = t then Some (RegFile a b) else map_of fs p)"
    and rel: "\<And>n. walk n fs' (butlast s) rel = Inr t" "\<not> absolute rel"
    and fs: "tree_ok fs" "map_of fs s = Some (RegFile a b)" "map_of fs t = None"
  shows "walk n fs d r = Inr x \<Longrightarrow> map_of fs x = Some (RegFile u v) \<Longrightarrow> dir_at fs d \<Longrightarrow>
    \<exists>m y. walk m fs' d r = Inr y \<and> map_of fs' y = Some (RegFile u v)"
  using fs fs'
proof (induction n fs d r rule: walk.induct)
  case (1 n fs d)
  then show ?case by (auto simp: dir_at_def tree_ok_def)
next
  case (2 n fs d c rest)
  note prems = "2.prems"
  note d = tree_parent [OF prems(4,3)] link_start_dir [OF prems(3)]
  let ?p = "d @ [c]"
  have at: "map_of fs' p = (if p = s then Some (Link rel) else if p = t then Some (RegFile a b) else map_of fs p)" for p by (rule prems(7))
  show ?case
  proof (cases "c = up")
    case True
    with "2.IH"(1) [OF True _ prems(2) d(1) prems(4-6)] prems(1,7) show ?thesis by simp
  next
    case False
    show ?thesis
    proof (cases "map_of fs ?p")
      case None
      with False prems(1) show ?thesis by simp
    next
      case (Some node)
      show ?thesis
      proof (cases node)
        case (RegFile u' v')
        with False Some prems(1) have x: "rest = []" "x = ?p" by (auto split: if_splits)
        show ?thesis
        proof (cases "?p = s")
          case True
          then have ds: "butlast s = d" by (metis butlast_snoc)
          have "?p \<noteq> t" using Some prems(6) by auto
          have "walk 1 fs' d (c # rest) = walk 0 fs' d rel"
            using False x True rel(2) by (simp add: at link_start_def)
          also have "\<dots> = Inr t" using rel(1) [of 0] ds by simp
          finally have "walk 1 fs' d (c # rest) = Inr t" .
          moreover have "map_of fs' t = Some (RegFile u v)"
            using prems(2,5,6) x True by (auto simp: at)
          ultimately show ?thesis by blast
        next
          case pne: False
          have "?p \<noteq> t" using Some prems(6) by auto
          with pne Some RegFile have "map_of fs' ?p = Some (RegFile u' v')" by (simp add: at)
          moreover have "u' = u" "v' = v" using prems(2) x Some RegFile by auto
          ultimately show ?thesis using False x by (intro exI [of _ 0] exI [of _ ?p]) simp
        qed
      next
        case (Link tt)
        with False Some prems(1) obtain m where m: "n = Suc m" "walk m fs (link_start d tt) (tt @ rest) = Inr x" by (cases n) auto
        from "2.IH"(2) [OF False Some Link m(1) m(2) prems(2) d(2) prems(4-6)] prems(7) obtain k y where
          y: "walk k fs' (link_start d tt) (tt @ rest) = Inr y" "map_of fs' y = Some (RegFile u v)" by auto
        have "?p \<noteq> s" "?p \<noteq> t" using Some Link prems(5,6) by auto
        then have "map_of fs' ?p = Some (Link tt)" using Some Link by (simp add: at)
        with False y show ?thesis by (intro exI [of _ "Suc k"] exI [of _ y]) simp
      next
        case Dir
        with False Some prems(1) have "walk n fs ?p rest = Inr x" by simp
        from "2.IH"(3) [OF False Some Dir this prems(2) dir_at_Dir prems(4-6)] Some Dir prems(7) obtain k y where
          y: "walk k fs' ?p rest = Inr y" "map_of fs' y = Some (RegFile u v)" by auto
        have "?p \<noteq> s" "?p \<noteq> t" using Some Dir prems(5,6) by auto
        then have "map_of fs' ?p = Some Dir" using Some Dir by (simp add: at)
        with False y show ?thesis by (intro exI [of _ k] exI [of _ y]) simp
      qed
    qed
  qed
qed

section \<open>Making directories\<close>

definition grows :: "filesystem \<Rightarrow> filesystem \<Rightarrow> bool" where
  "grows fs fs' = (map_of fs \<subseteq>\<^sub>m map_of fs' \<and> (tree_ok fs \<longrightarrow> tree_ok fs') \<and>
     (\<forall>p t. map_of fs' p = Some (Link t) \<longrightarrow> map_of fs p = Some (Link t)))"

lemma grows_order: "transp grows" "reflp grows"
  by (auto simp: grows_def transp_def reflp_def intro: map_le_trans)

lemma place_plain:
  assumes "tree_ok fs" "place fs p = Inr q" "plain p"
  shows "plain q \<and> q \<noteq> [] \<and> dir_at fs (butlast q)"
proof -
  from assms(2) obtain d where d: "p \<noteq> []" "walk max_links fs [] (butlast p) = Inr d" "dir_at fs d" "q = d @ [last p]"
    by (auto simp: place_def split: if_splits sum.splits)
  have "plain d" using assms(1) d(3) by (cases "d = []") (auto simp: tree_ok_def dir_at_def plain_def)
  moreover have "last p \<noteq> up" using assms(3) d(1) last_in_set [of p] by (metis plain_def)
  moreover have "last p \<noteq> ''/''" if "d \<noteq> []"
  proof -
    have "butlast p \<noteq> []" using d(2) that by auto
    then have "last p \<in> set (tl p)" by (cases p) (auto split: if_splits)
    then show ?thesis using assms(3) by (auto simp: plain_def)
  qed
  ultimately show ?thesis using d(3,4) by (auto simp: plain_append)
qed

lemma new_dir_grows:
  assumes "place fs p = Inr q" "map_of fs q = None" "plain p"
  shows "grows fs (AList.update q Dir fs)"
proof -
  have at: "map_of (AList.update q Dir fs) x = (if x = q then Some Dir else map_of fs x)" for x by (simp add: update_conv')
  have "tree_ok (AList.update q Dir fs)" if t: "tree_ok fs"
    unfolding tree_ok_def
  proof (intro allI impI)
    fix x y
    assume "map_of (AList.update q Dir fs) x = Some y"
    then have "x = q \<or> map_of fs x = Some y" by (auto simp: at split: if_splits)
    then show "x \<noteq> [] \<and> plain x \<and> dir_at (AList.update q Dir fs) (butlast x)"
      using place_plain [OF t assms(1,3)] t by (auto simp: tree_ok_def dir_at_def at)
  qed
  with assms(2) show ?thesis by (auto simp: grows_def at map_le_def dom_def)
qed

lemma ensure_dir_grows: "plain p \<Longrightarrow> keeps grows (ensure_dir p)"
  using new_dir_grows reflpD [OF grows_order(2)]
  by (auto simp: keeps_def ensure_dir_def split: sum.splits walk_error.splits)

lemma mkdir_grows: "plain (d @ cs) \<Longrightarrow> keeps grows (mkdir_parents d cs)"
proof (induction cs arbitrary: d)
  case Nil
  then show ?case by (simp add: keeps_basic grows_order)
next
  case (Cons c cs)
  then have "plain (d @ [c])" "plain ((d @ [c]) @ cs)" by (auto simp: plain_append split: if_splits)
  with Cons.IH [of "d @ [c]"] ensure_dir_grows show ?case by (simp add: keeps_sthen [OF grows_order(1)])
qed

lemma walk_dir: "tree_ok fs \<Longrightarrow> dir_at fs d \<Longrightarrow> walk n fs [] d = Inr d"
  using walk_known [of fs d n "[]"] by simp

lemma place_dir: "tree_ok fs \<Longrightarrow> dir_at fs (butlast p) \<Longrightarrow> p \<noteq> [] \<Longrightarrow> place fs p = Inr p"
  by (simp add: place_def walk_dir)

lemma ensure_dir_makes:
  assumes "tree_ok fs" "dir_at fs d" "c \<noteq> up" "\<nexists>t. map_of fs (d @ [c]) = Some (Link t)" "ensure_dir (d @ [c]) fs = (Inr u, fs')"
  shows "dir_at fs' (d @ [c])"
proof -
  have w: "walk max_links fs [] (d @ [c]) = walk max_links fs d [c]" by (rule walk_known [OF assms(1,2)])
  have p: "place fs (d @ [c]) = Inr (d @ [c])" using place_dir [OF assms(1), of "d @ [c]"] assms(2) by simp
  show ?thesis using assms(3-5) w p
    by (cases "map_of fs (d @ [c])") (auto simp: ensure_dir_def dir_at_def update_conv' split: fnode.splits if_splits)
qed

lemma mkdir_makes:
  "tree_ok fs \<Longrightarrow> dir_at fs d \<Longrightarrow> plain (d @ cs) \<Longrightarrow> \<forall>k t. map_of fs (d @ take k cs) \<noteq> Some (Link t) \<Longrightarrow>
   mkdir_parents d cs fs = (Inr u, fs') \<Longrightarrow> dir_at fs' (d @ cs)"
proof (induction cs arbitrary: d fs)
  case Nil
  then show ?case by (simp add: sret_def)
next
  case (Cons c cs)
  from Cons.prems(5) obtain u1 fs1 where e: "ensure_dir (d @ [c]) fs = (Inr u1, fs1)" "mkdir_parents (d @ [c]) cs fs1 = (Inr u, fs')"
    by (auto simp: sthen_def sbind_eq_Inr)
  have pl: "plain (d @ [c])" "plain ((d @ [c]) @ cs)" "c \<noteq> up" using Cons.prems(3) by (auto simp: plain_append split: if_splits)
  have g: "grows fs fs1" using ensure_dir_grows [OF pl(1)] e(1) unfolding keeps_def by (metis snd_conv)
  have l: "map_of fs ((d @ [c]) @ take k cs) \<noteq> Some (Link t)" for k t
    using Cons.prems(4) [rule_format, of "Suc k" t] by simp
  have "dir_at fs1 (d @ [c])"
    using ensure_dir_makes [OF Cons.prems(1,2) pl(3) _ e(1)] l [of 0] by simp
  moreover have "\<forall>k t. map_of fs1 ((d @ [c]) @ take k cs) \<noteq> Some (Link t)" using g l by (auto simp: grows_def)
  ultimately have "dir_at fs' ((d @ [c]) @ cs)" using Cons.IH [of fs1 "d @ [c]"] g Cons.prems(1) pl(2) e(2) by (simp add: grows_def)
  then show ?case by simp
qed

section \<open>Archiving one file\<close>

text \<open>
  The file system as archival assumes it: a tree, no link on the way to the root or in the archive, and every other link below the
  root leads to a file.
\<close>

definition orderly :: "fpath \<Rightarrow> filesystem \<Rightarrow> bool" where
  "orderly base fs = (tree_ok fs \<and> (\<forall>p t. map_of fs p = Some (Link t) \<longrightarrow>
     \<not> is_relative_to base p \<and> \<not> is_relative_to p (base @ [''archive'']) \<and> (is_relative_to p base \<longrightarrow> (\<exists>c. readable fs p c))))"

lemma orderly_grows:
  assumes "grows fs fs'" "orderly base fs"
  shows "orderly base fs' \<and> keeps_readable fs fs'"
proof -
  have k: "keeps_readable fs fs'" using assms(1) by (simp add: grows_def extended_readable)
  then show ?thesis using assms unfolding orderly_def grows_def keeps_readable_def by blast
qed

lemma relative_iff: "is_relative_to p base \<longleftrightarrow> (\<exists>r. p = base @ r)"
  unfolding is_relative_to_def by (metis append_eq_conv_conj append_take_drop_id)

lemma relative_take:
  assumes "is_relative_to p base"
  shows "is_relative_to base (take k p) \<or> is_relative_to (take k p) base"
proof (cases "k \<le> length base")
  case True
  then have "take k p = take k base" using assms unfolding is_relative_to_def by (metis min.absorb1 take_take)
  then show ?thesis using True by (simp add: is_relative_to_def min_def)
next
  case False
  then show ?thesis using assms by (simp add: is_relative_to_def min_def)
qed

lemma orderly_source:
  assumes "orderly base fs" "is_relative_to source base" "plain source" "file_node fs source = Some (q, node)"
  shows "q = source \<and> map_of fs source = Some node \<and> dir_at fs (butlast source)"
proof -
  have t: "tree_ok fs" using assms(1) by (simp add: orderly_def)
  from assms(4) obtain d where d: "source \<noteq> []" "walk max_links fs [] (butlast source) = Inr d" "dir_at fs d" "q = d @ [last source]" "map_of fs q = Some node"
    by (auto simp: file_node_def place_def split: sum.splits if_splits)
  have "\<forall>k x. map_of fs ([] @ take k (butlast source)) = Some (Link x) \<longrightarrow> (\<exists>c. readable fs ([] @ take k (butlast source)) c)"
  proof (intro allI impI)
    fix k x
    assume l: "map_of fs ([] @ take k (butlast source)) = Some (Link x)"
    have "take k (butlast source) = take (min k (length source - 1)) source" by (simp add: butlast_conv_take)
    with l relative_take [OF assms(2)] assms(1) show "\<exists>c. readable fs ([] @ take k (butlast source)) c"
      unfolding orderly_def by (metis append_Nil)
  qed
  moreover have "up \<notin> set (butlast source)" using assms(3) by (auto simp: plain_def dest: in_set_butlastD)
  ultimately have "d = butlast source" using walk_straight [OF t d(2,3)] by (simp add: dir_at_def)
  with d show ?thesis by simp
qed

lemma number_names: "show_int i \<notin> {up, ''/''}" "pad_int w i \<notin> {up, ''/''}"
proof -
  have no: "c \<in> set (show_int j) \<Longrightarrow> c = CHR ''-'' \<or> is_digit c" for c j
    using show_nat_digits by (auto simp: show_int_def split: if_splits)
  then have pad: "c \<in> set (pad_int w i) \<Longrightarrow> c = CHR ''-'' \<or> is_digit c" for c
    by (auto simp: pad_int_def Let_def is_digit_def)
  show "show_int i \<notin> {up, ''/''}" using no [of "CHR ''.''" i] no [of "CHR ''/''" i] by (auto simp: up_def is_digit_def)
  show "pad_int w i \<notin> {up, ''/''}" using pad [of "CHR ''.''"] pad [of "CHR ''/''"] by (auto simp: up_def is_digit_def)
qed

text \<open>The place of the archived file, in a part of the tree that has no links.\<close>

lemma target_dir:
  assumes "plain base" "base \<noteq> []" "bucket \<in> {''proofs'', ''evidence''}"
  shows "plain (butlast (archive_target base bucket t source))" "is_relative_to (butlast (archive_target base bucket t source)) (base @ [''archive''])"
    "archive_target base bucket t source = butlast (archive_target base bucket t source) @ [last source]"
proof -
  obtain y m where ym: "year_month t = (y, m)" by fastforce
  then have "y \<notin> {up, ''/''}" "m \<notin> {up, ''/''}" using number_names by (auto simp: year_month_def split: prod.splits)
  moreover have "''archive'' \<notin> {up, ''/''}" "bucket \<notin> {up, ''/''}" using assms(3) by (auto simp: up_def)
  ultimately show "plain (butlast (archive_target base bucket t source))"
    unfolding archive_target_def ym using assms(1,2) by (auto simp: plain_append butlast_append)
  show "is_relative_to (butlast (archive_target base bucket t source)) (base @ [''archive''])"
    "archive_target base bucket t source = butlast (archive_target base bucket t source) @ [last source]"
    unfolding archive_target_def ym by (simp_all add: is_relative_to_def butlast_append)
qed

lemma target_plain:
  assumes "plain base" "base \<noteq> []" "bucket \<in> {''proofs'', ''evidence''}" "plain source" "butlast source \<noteq> []"
  shows "plain (archive_target base bucket t source)"
proof -
  have "last source \<in> set (tl source)" using assms(5) by (cases source) (auto split: if_splits)
  then have "last source \<notin> {up, ''/''}" using assms(4) by (cases source) (auto simp: plain_def)
  then show ?thesis
    using target_dir(1) [OF assms(1-3), of t source] by (subst target_dir(3) [OF assms(1-3)]) (auto simp: plain_append)
qed

lemma moved_and_linked:
  assumes ord: "orderly base fs" and base: "base \<noteq> []" "is_relative_to source base" "source \<noteq> base" "\<not> is_relative_to base source"
      "\<not> is_relative_to source (base @ [''archive''])"
    and src: "map_of fs source = Some (RegFile c t)" "dir_at fs (butlast source)"
    and tgt: "map_of fs target = None" "plain target" "target \<noteq> []" "dir_at fs (butlast target)" "is_relative_to target (base @ [''archive''])"
    and fs': "\<And>p. map_of fs' p = (if p = source then Some (Link (relpath target (butlast source))) else if p = target then Some (RegFile c t) else map_of fs p)"
  shows "orderly base fs' \<and> keeps_readable fs fs'"
proof -
  have t: "tree_ok fs" using ord by (simp add: orderly_def)
  have ne: "source \<noteq> target" using src(1) tgt(1) by auto
  have dir: "dir_at fs' d" if "dir_at fs d" for d using that src(1) tgt(1) by (auto simp: dir_at_def fs')
  have s: "source \<noteq> []" "plain source" using t src(1) by (auto simp: tree_ok_def)
  have t': "tree_ok fs'"
    unfolding tree_ok_def
  proof (intro allI impI)
    fix p x
    assume "map_of fs' p = Some x"
    then have "p = source \<or> p = target \<or> map_of fs p = Some x" by (auto simp: fs' split: if_splits)
    then show "p \<noteq> [] \<and> plain p \<and> dir_at fs' (butlast p)" using s src(2) tgt(2-4) t dir by (auto simp: tree_ok_def)
  qed
  have rb: "is_relative_to (butlast source) base" using base(2,3) by (auto simp: relative_iff butlast_append)
  have tb: "is_relative_to target base" using tgt(5) by (auto simp: relative_iff)
  have tf: "map_of fs' target = Some (RegFile c t)" using ne by (simp add: fs')
  note rel = walk_relpath [OF t' dir [OF src(2)] tgt(3) tf rb tb base(1)]
  have k: "keeps_readable fs fs'"
    unfolding keeps_readable_def readable_def
    using walk_moved [where d = "[]" and a = c and b = t, OF fs' rel t src(1) tgt(1)] by (auto simp: dir_at_def)
  have "readable fs source (c, t)"
  proof -
    have "last source \<noteq> up" using s last_in_set [of source] by (metis plain_def)
    moreover have "walk 0 fs [] (butlast source @ [last source]) = walk 0 fs (butlast source) [last source]" by (rule walk_known [OF t src(2)])
    ultimately show ?thesis using src(1) s(1) unfolding readable_def by (intro exI [of _ 0] exI [of _ source]) simp
  qed
  with k have new: "readable fs' source (c, t)" by (auto simp: keeps_readable_def)
  have "orderly base fs'"
    unfolding orderly_def
  proof (intro conjI allI impI t')
    fix p x
    assume l: "map_of fs' p = Some (Link x)"
    then have "p = source \<or> map_of fs p = Some (Link x)" by (auto simp: fs' split: if_splits)
    then show "\<not> is_relative_to base p" "\<not> is_relative_to p (base @ [''archive''])" using ord base(4,5) by (auto simp: orderly_def)
    assume "is_relative_to p base"
    then show "\<exists>c. readable fs' p c"
      using \<open>p = source \<or> map_of fs p = Some (Link x)\<close> new ord k unfolding orderly_def keeps_readable_def by blast
  qed
  with k show ?thesis by blast
qed

definition archives :: "fpath \<Rightarrow> filesystem \<Rightarrow> filesystem \<Rightarrow> bool" where
  "archives base fs fs' = (orderly base fs \<longrightarrow> orderly base fs' \<and> keeps_readable fs fs')"

lemma archives_order: "transp (archives base)" "reflp (archives base)"
  using keeps_readable_order by (auto simp: archives_def transp_def reflp_def)

lemma grows_archives: "grows fs fs' \<Longrightarrow> archives base fs fs'"
  using orderly_grows by (auto simp: archives_def)

lemma moved_archives:
  assumes "orderly base fs" "me_root env = base" "base \<noteq> []" "is_relative_to source base" "source \<noteq> base" "\<not> is_relative_to base source"
      "\<not> is_relative_to source (base @ [''archive''])"
    and "map_of fs source = Some (RegFile c t)" "dir_at fs (butlast source)" "me_link_error env source = None"
    and "map_of fs target = None" "plain target" "target \<noteq> []" "dir_at fs (butlast target)" "is_relative_to target (base @ [''archive''])"
  shows "archives base fs (snd (sthen (shutil_move env source source target c t)
      (sthen (symlink_to env source (relpath target (butlast source))) (sret True)) fs))"
proof -
  have t: "tree_ok fs" using assms(1) by (simp add: orderly_def)
  let ?fs2 = "AList.update target (RegFile c t) (AList.delete source fs)"
  let ?fs3 = "AList.update source (Link (relpath target (butlast source))) ?fs2"
  have ne: "source \<noteq> target" "source \<noteq> []" using assms(8,11) t by (auto simp: tree_ok_def)
  have at2: "map_of ?fs2 p = (if p = target then Some (RegFile c t) else if p = source then None else map_of fs p)" for p
    by (simp add: update_conv' delete_conv')
  have dir: "dir_at ?fs2 d" if "dir_at fs d" for d using that assms(8,11) by (auto simp: dir_at_def at2)
  have t2: "tree_ok ?fs2"
    unfolding tree_ok_def
  proof (intro allI impI)
    fix p x
    assume "map_of ?fs2 p = Some x"
    then have "p = target \<or> map_of fs p = Some x" by (auto simp: at2 split: if_splits)
    then show "p \<noteq> [] \<and> plain p \<and> dir_at ?fs2 (butlast p)" using assms(12-14) t dir by (auto simp: tree_ok_def)
  qed
  have p: "place fs target = Inr target" "place ?fs2 source = Inr source"
    using place_dir [OF t assms(14,13)] place_dir [OF t2 dir [OF assms(9)] ne(2)] by simp_all
  have "orderly base ?fs3 \<and> keeps_readable fs ?fs3"
    by (rule moved_and_linked [OF assms(1,3-9,11-15)]) (auto simp: update_conv' delete_conv')
  moreover have "archives base fs fs" using archives_order(2) by (simp add: reflp_def)
  moreover have "map_of ?fs2 source = None" using ne(1) by (simp add: at2)
  ultimately show ?thesis using p assms(10)
    by (cases "me_move_error env source")
       (simp_all add: sthen_def sbind_def shutil_move_def symlink_to_def sret_def archives_def)
qed

lemma prefix_snoc:
  assumes "is_relative_to (base @ [a]) p"
  shows "is_relative_to base p \<or> p = base @ [a]"
proof -
  from assms obtain r where "base @ [a] = p @ r" by (auto simp: relative_iff)
  then show ?thesis by (cases r rule: rev_cases) (auto simp: relative_iff)
qed

lemma no_links_to_archive:
  assumes "orderly base fs" "is_relative_to d (base @ [''archive''])"
  shows "map_of fs (take k d) \<noteq> Some (Link x)"
proof
  assume l: "map_of fs (take k d) = Some (Link x)"
  have "is_relative_to base (take k d) \<or> is_relative_to (take k d) (base @ [''archive''])"
    using relative_take [OF assms(2), of k] prefix_snoc [of base "''archive''" "take k d"] by (auto simp: relative_iff)
  with l assms(1) show False by (auto simp: orderly_def)
qed

lemma free_place:
  assumes "orderly base fs" "dir_at fs (butlast p)" "p \<noteq> []" "is_relative_to p (base @ [''archive''])" "\<not> path_exists_at fs p"
  shows "map_of fs p = None"
proof -
  have "place fs p = Inr p" using assms(1-3) by (intro place_dir) (simp_all add: orderly_def)
  moreover have "map_of fs p \<noteq> Some (Link x)" for x using assms(1,4) by (auto simp: orderly_def)
  ultimately show ?thesis using assms(5) by (cases "map_of fs p") (auto simp: path_exists_at_def split: fnode.splits)
qed

lemma made_and_moved:
  assumes "orderly base fs" "me_root env = base" "base \<noteq> []" "plain base" "plain source" "\<not> is_relative_to source (base @ [''archive''])"
    and "bucket \<in> {''proofs'', ''evidence''}" "is_relative_to source base"
    and "map_of fs source = Some (RegFile c t)" "dir_at fs (butlast source)" "me_link_error env source = None"
  shows "archives base fs (snd (sthen (mkdir_parents [] (butlast (archive_target base bucket t source)))
        (sbind (sget (\<lambda>fs. path_exists_at fs (archive_target base bucket t source))) (\<lambda>taken. if taken then sret False
           else sthen (shutil_move env source source (archive_target base bucket t source) c t)
             (sthen (symlink_to env source (relpath (archive_target base bucket t source) (butlast source))) (sret True)))) fs))"
proof -
  let ?t = "archive_target base bucket t source"
  note td = target_dir [OF assms(4,3,7), of t source]
  obtain r1 fs1 where m: "mkdir_parents [] (butlast ?t) fs = (r1, fs1)" by fastforce
  have g: "grows fs fs1" using mkdir_grows [of "[]" "butlast ?t"] td(1) m unfolding keeps_def by (metis append_Nil snd_conv)
  note a1 = grows_archives [OF g, of base]
  show ?thesis
  proof (cases r1)
    case (Inl e)
    with m a1 show ?thesis by (simp add: sthen_def sbind_def)
  next
    case (Inr u)
    have o1: "orderly base fs1" using orderly_grows [OF g assms(1)] by blast
    have tree: "tree_ok fs" "tree_ok fs1" using assms(1) o1 by (simp_all add: orderly_def)
    have "dir_at fs1 ([] @ butlast ?t)"
      using mkdir_makes [OF tree(1), of "[]" "butlast ?t"] m Inr td(1) no_links_to_archive [OF assms(1) td(2)] by (simp add: dir_at_def)
    then have d1: "dir_at fs1 (butlast ?t)" by simp
    have s1: "map_of fs1 source = Some (RegFile c t)" "dir_at fs1 (butlast source)"
      using g assms(9,10) by (auto simp: grows_def map_le_def dom_def dir_at_def)
    obtain r where r: "butlast ?t = (base @ [''archive'']) @ r" using td(2) by (auto simp: relative_iff)
    have up_to: "dir_at fs1 (take k base)" for k
      using tree_prefix [OF tree(2) d1, of "min k (length base)"] unfolding r by (simp add: min_def split: if_splits)
    have ne: "source \<noteq> []" "source \<noteq> take k base" for k using s1(1) up_to [of k] tree(2) by (auto simp: tree_ok_def dir_at_def)
    have sb: "source \<noteq> base" "\<not> is_relative_to base source" using ne(2) [of "length base"] ne(2) [of "length source"] by (auto simp: is_relative_to_def)
    obtain q where q: "source = base @ q" "q \<noteq> []" using assms(8) sb(1) by (auto simp: relative_iff)
    then have "butlast source \<noteq> []" using assms(3) by (simp add: butlast_append)
    note tp = target_plain [OF assms(4,3,7,5) this, of t]
    have rel: "is_relative_to ?t (base @ [''archive''])" using td(2) unfolding relative_iff by (subst td(3)) auto
    have tne: "?t \<noteq> []" by (subst td(3)) simp
    show ?thesis
    proof (cases "path_exists_at fs1 ?t")
      case True
      with m Inr a1 show ?thesis by (simp add: sthen_def sbind_def sget_def sret_def)
    next
      case False
      note free = free_place [OF o1 d1 tne rel False]
      from moved_archives [OF o1 assms(2,3,8) sb assms(6) s1 assms(11) free tp tne d1 rel] transpD [OF archives_order(1) a1]
      show ?thesis using m Inr False by (simp add: sthen_def [of "mkdir_parents _ _"] sbind_def [of "mkdir_parents _ _"] sbind_def [of "sget _"] sget_def)
    qed
  qed
qed

lemma archive_path_archives:
  assumes "me_root env = base" "base \<noteq> []" "plain base" "plain source" "\<not> is_relative_to source (base @ [''archive''])"
    and "bucket \<in> {''proofs'', ''evidence''}" "me_link_error env source = None"
  shows "keeps (archives base) (archive_path env source bucket)"
  unfolding keeps_def
proof
  fix fs
  note same = reflpD [OF archives_order(2)]
  show "archives base fs (snd (archive_path env source bucket fs))"
  proof (cases "orderly base fs \<and> is_relative_to source base \<and> (\<exists>q c t. file_node fs source = Some (q, RegFile c t))")
    case False
    then have "\<not> orderly base fs \<or> snd (archive_path env source bucket fs) = fs"
      using assms(1) by (auto simp: archive_path_def sbind_def sget_def sret_def split: option.splits fnode.splits)
    with same show ?thesis by (auto simp: archives_def)
  next
    case True
    then obtain q c t where s: "orderly base fs" "is_relative_to source base" "file_node fs source = Some (q, RegFile c t)" by blast
    note f = orderly_source [OF s(1,2) assms(4) s(3)]
    let ?t = "archive_target base bucket t source"
    have tree: "tree_ok fs" using s(1) by (simp add: orderly_def)
    have "\<not> is_relative_to source (base @ [''archive'', bucket])" using assms(5) by (auto simp: relative_iff)
    then have run: "archive_path env source bucket fs = sthen (mkdir_parents [] (butlast ?t))
        (sbind (sget (\<lambda>fs. path_exists_at fs ?t)) (\<lambda>taken. if taken then sret False
           else sthen (shutil_move env source source ?t c t) (sthen (symlink_to env source (relpath ?t (butlast source))) (sret True)))) fs"
      using s f assms(1) by (simp add: archive_path_def sbind_def sget_def Let_def)
    show ?thesis unfolding run
    proof (rule made_and_moved [OF s(1) assms(1-6) s(2) _ _ assms(7)])
      show "map_of fs source = Some (RegFile c t)" "dir_at fs (butlast source)" using f by simp_all
    qed
  qed
qed

section \<open>No content is lost\<close>

definition stored :: "filesystem \<Rightarrow> string \<times> int \<Rightarrow> bool" where
  "stored fs c = (\<exists>q. map_of fs q = Some (RegFile (fst c) (snd c)))"

definition keeps_stored :: "filesystem \<Rightarrow> filesystem \<Rightarrow> bool" where
  "keeps_stored fs fs' = (\<forall>c. stored fs c \<longrightarrow> stored fs' c)"

definition extends :: "filesystem \<Rightarrow> filesystem \<Rightarrow> bool" where
  "extends fs fs' = (map_of fs \<subseteq>\<^sub>m map_of fs')"

lemma stored_order: "transp keeps_stored" "reflp keeps_stored" "transp extends" "reflp extends"
  by (auto simp: keeps_stored_def extends_def transp_def reflp_def intro: map_le_trans)

lemma extends_stored: "extends fs fs' \<Longrightarrow> keeps_stored fs fs'"
  unfolding extends_def keeps_stored_def stored_def map_le_def by (metis domI)

lemma mkdir_extends: "keeps extends (mkdir_parents d cs)"
proof -
  have "extends fs (AList.update q Dir fs)" if "map_of fs q = None" for fs q
    using that by (auto simp: extends_def map_le_def update_conv')
  then have "keeps extends (ensure_dir p)" for p
    using reflpD [OF stored_order(4)] by (auto simp: keeps_def ensure_dir_def split: sum.splits walk_error.splits)
  then show ?thesis by (induction cs arbitrary: d) (auto intro: keeps_sthen [OF stored_order(3)] keeps_basic stored_order(4))
qed

lemma move_stored:
  assumes "map_of fs q = Some (RegFile c t)" "\<not> path_exists_at fs target"
  shows "keeps_stored fs (snd (shutil_move env source q target c t fs))"
proof (cases "me_move_error env source = None \<and> (\<exists>tq. place fs target = Inr tq)")
  case False
  then have "snd (shutil_move env source q target c t fs) = fs" by (auto simp: shutil_move_def split: option.splits sum.splits)
  then show ?thesis by (simp add: keeps_stored_def)
next
  case True
  then obtain tq where tq: "place fs target = Inr tq" "me_move_error env source = None" by blast
  let ?fs = "AList.update tq (RegFile c t) (AList.delete q fs)"
  have at: "map_of ?fs p = (if p = tq then Some (RegFile c t) else if p = q then None else map_of fs p)" for p
    by (simp add: update_conv' delete_conv')
  have "map_of fs tq \<noteq> Some (RegFile u v)" for u v using assms(2) tq(1) by (auto simp: path_exists_at_def)
  then have "stored ?fs d" if "stored fs d" for d
    using that assms(1) unfolding stored_def by (metis at fnode.inject(1) option.inject)
  with tq show ?thesis by (simp add: shutil_move_def keeps_stored_def)
qed

lemma symlink_extends: "keeps extends (symlink_to env source rel)"
  using reflpD [OF stored_order(4)]
  by (auto simp: keeps_def symlink_to_def extends_def map_le_def update_conv' split: option.splits sum.splits)

lemma archive_path_stored: "keeps keeps_stored (archive_path env source bucket)"
  unfolding keeps_def
proof
  fix fs
  note same = reflpD [OF stored_order(2)]
  show "keeps_stored fs (snd (archive_path env source bucket fs))"
  proof (cases "\<exists>q c t. file_node fs source = Some (q, RegFile c t)")
    case False
    then have "snd (archive_path env source bucket fs) = fs"
      by (auto simp: archive_path_def sbind_def sget_def sret_def split: option.splits fnode.splits)
    with same show ?thesis by simp
  next
    case True
    then obtain q c t where s: "file_node fs source = Some (q, RegFile c t)" by blast
    let ?t = "archive_target (me_root env) bucket t source"
    obtain r1 fs1 where m: "mkdir_parents [] (butlast ?t) fs = (r1, fs1)" by fastforce
    have e: "extends fs fs1" using mkdir_extends [of "[]" "butlast ?t"] m unfolding keeps_def by (metis snd_conv)
    have f: "map_of fs1 q = Some (RegFile c t)"
      using e s by (auto simp: extends_def map_le_def dom_def file_node_def split: sum.splits)
    obtain r2 fs2 where v: "shutil_move env source q ?t c t fs1 = (r2, fs2)" by fastforce
    obtain r3 fs3 where l: "symlink_to env source (relpath ?t (butlast source)) fs2 = (r3, fs3)" by fastforce
    have k1: "keeps_stored fs fs1" using e by (rule extends_stored)
    have k2: "keeps_stored fs1 fs2" if "\<not> path_exists_at fs1 ?t" using move_stored [OF f that, of env source] v by simp
    have k3: "keeps_stored fs2 fs3" using symlink_extends [of env source "relpath ?t (butlast source)"] l extends_stored
      unfolding keeps_def by (metis snd_conv)
    have "snd (archive_path env source bucket fs) \<in> {fs, fs1} \<or> \<not> path_exists_at fs1 ?t \<and> snd (archive_path env source bucket fs) \<in> {fs2, fs3}"
      using s m v l by (cases r1; cases r2; cases r3)
        (auto simp: archive_path_def sthen_def sbind_def sget_def sret_def Let_def)
    with same k1 k2 k3 show ?thesis by (auto intro: transpD [OF stored_order(1)])
  qed
qed

section \<open>The cycle keeps what its steps keep\<close>

lemma evidence_loop_keeps:
  assumes "reflp R" "transp R" "\<forall>p \<in> set sources. keeps R (archive_path env p ''evidence'')"
  shows "keeps R (archive_evidence_loop env old mx sources n)"
  using assms(3)
proof (induction sources arbitrary: n)
  case (Cons p sources)
  then have "keeps R (archive_evidence_loop env old mx sources k)" for k by simp
  with Cons.prems show ?case using assms(1,2) by (auto intro!: keeps_rules)
qed (simp add: keeps_basic [OF assms(1)])

lemma evidence_files_keep:
  assumes "reflp R" "transp R" "\<And>n. endswith n ''.json'' \<Longrightarrow> keeps R (archive_path env (me_root env @ [''evidence'', n]) ''evidence'')"
  shows "keeps R (archive_evidence_files env old mx)"
proof -
  have "\<forall>p \<in> set (glob_json fs (me_root env @ [''evidence''])). keeps R (archive_path env p ''evidence'')" for fs
    using assms(3) by (auto simp: glob_json_def split: sum.splits)
  from evidence_loop_keeps [OF assms(1,2) this] show ?thesis
    by (simp add: archive_evidence_files_def keeps_def sbind_def sget_def)
qed

lemma proof_loop_keeps:
  assumes "reflp R" "transp R" "\<forall>j \<in> set jobs. \<forall>path. pj_proof_path j = Some path \<longrightarrow> keeps R (archive_path env (me_expanduser env (path_parts path)) ''proofs'')"
  shows "keeps R (archive_proof_loop env jobs n)"
  using assms(3)
proof (induction jobs arbitrary: n)
  case (Cons j jobs)
  then have "keeps R (archive_proof_loop env jobs k)" for k by simp
  with Cons.prems show ?case using assms(1,2) by (auto intro!: keeps_rules split: option.splits)
qed (simp add: keeps_basic [OF assms(1)])

definition pruned_db :: "maintenance_env \<Rightarrow> database \<Rightarrow> database" where
  "pruned_db env db = snd (prune_terminal_job_runtime_data (me_orm_none env) (me_now env) (me_now env - days_us (me_retention_days env)) db)"

lemma cycle_state:
  assumes "archive_proof_loop env (list_jobs_for_file_archival (me_now env - days_us (me_archive_after_days env)) (me_scan_limit env)
      (pruned_db env (ms_db st))) 0 (ms_fs st) = (r, fs)"
  shows "snd (run_maintenance_cycle env st) = st\<lparr>ms_db := pruned_db env (ms_db st), ms_fs := (case r of Inl e \<Rightarrow> fs
      | Inr n \<Rightarrow> snd (archive_evidence_files env (me_now env - days_us (me_archive_after_days env)) (me_scan_limit env) fs))\<rparr>"
proof -
  obtain r2 fs2 where l2: "archive_evidence_files env (me_now env - days_us (me_archive_after_days env)) (me_scan_limit env) fs = (r2, fs2)" by fastforce
  obtain n where p: "prune_step env (me_now env - days_us (me_retention_days env)) st = (Inr n, st\<lparr>ms_db := pruned_db env (ms_db st)\<rparr>)"
    by (simp add: prune_step_def pruned_db_def prune_terminal_job_runtime_data_def)
  show ?thesis
    using assms l2 by (cases r; cases r2) (simp_all add: run_maintenance_cycle_def Let_def sbind_def p sget_def on_fs_def sret_def)
qed

lemma cycle_keeps:
  assumes "reflp R" "transp R"
    and "\<forall>j \<in> set (db_jobs (ms_db st)). \<forall>path. pj_proof_path j = Some path \<longrightarrow> keeps R (archive_path env (me_expanduser env (path_parts path)) ''proofs'')"
    and "\<And>n. endswith n ''.json'' \<Longrightarrow> keeps R (archive_path env (me_root env @ [''evidence'', n]) ''evidence'')"
  shows "R (ms_fs st) (ms_fs (snd (run_maintenance_cycle env st)))"
proof -
  let ?cut = "me_now env - days_us (me_archive_after_days env)"
  let ?jobs = "list_jobs_for_file_archival ?cut (me_scan_limit env) (pruned_db env (ms_db st))"
  have "\<forall>j \<in> set ?jobs. \<forall>path. pj_proof_path j = Some path \<longrightarrow> keeps R (archive_path env (me_expanduser env (path_parts path)) ''proofs'')"
    using assms(3) unfolding list_jobs_for_file_archival_def pruned_db_def prune_terminal_job_runtime_data_def job_pruned_def
    by (auto dest!: in_set_takeD)
  note loop = proof_loop_keeps [OF assms(1,2) this, of 0]
  obtain r fs where l: "archive_proof_loop env ?jobs 0 (ms_fs st) = (r, fs)" by fastforce
  have k: "R (ms_fs st) fs" using loop l unfolding keeps_def by (metis snd_conv)
  have "R fs (snd (archive_evidence_files env ?cut (me_scan_limit env) fs))"
    using evidence_files_keep [OF assms(1,2,4)] by (simp add: keeps_def)
  with k transpD [OF assms(2) k] show ?thesis by (simp add: cycle_state [OF l] split: sum.split)
qed

lemma cycle_db: "ms_db (snd (run_maintenance_cycle env st)) = pruned_db env (ms_db st)"
proof -
  obtain r fs where "archive_proof_loop env (list_jobs_for_file_archival (me_now env - days_us (me_archive_after_days env)) (me_scan_limit env)
      (pruned_db env (ms_db st))) 0 (ms_fs st) = (r, fs)" by fastforce
  from cycle_state [OF this] show ?thesis by simp
qed

lemma run_cycles_db: "ms_db (run_cycles envs st) = fold pruned_db envs (ms_db st)"
  by (induction envs arbitrary: st) (simp_all add: cycle_db)

section \<open>Properties\<close>

text \<open>The proof paths of the job rows, as the archival reads them: without \<open>..\<close> and not in the archive.\<close>

definition outside_archive :: "fpath \<Rightarrow> maintenance_env \<Rightarrow> proof_job list \<Rightarrow> bool" where
  "outside_archive base env jobs =
     (\<forall>j \<in> set jobs. \<forall>path. pj_proof_path j = Some path \<longrightarrow>
        plain (me_expanduser env (path_parts path)) \<and> \<not> is_relative_to (me_expanduser env (path_parts path)) (base @ [''archive'']))"

lemma outside_pruned: "outside_archive base e (db_jobs db) \<Longrightarrow> outside_archive base e (db_jobs (pruned_db env db))"
  by (auto simp: outside_archive_def pruned_db_def prune_terminal_job_runtime_data_def job_pruned_def)

text \<open>A cycle over this root in which no creation of a link fails.\<close>

definition links_made :: "fpath \<Rightarrow> maintenance_env \<Rightarrow> proof_job list \<Rightarrow> bool" where
  "links_made base env jobs = (me_root env = base \<and> (\<forall>s. me_link_error env s = None) \<and> outside_archive base env jobs)"

lemma cycle_archives:
  assumes "base \<noteq> []" "plain base" "links_made base env (db_jobs (ms_db st))"
  shows "archives base (ms_fs st) (ms_fs (snd (run_maintenance_cycle env st)))"
proof (rule cycle_keeps [OF archives_order(2,1)])
  have root: "me_root env = base" "me_link_error env s = None" for s using assms(3) by (auto simp: links_made_def)
  show "\<forall>j \<in> set (db_jobs (ms_db st)). \<forall>path. pj_proof_path j = Some path \<longrightarrow>
      keeps (archives base) (archive_path env (me_expanduser env (path_parts path)) ''proofs'')"
    using assms root by (auto simp: links_made_def outside_archive_def intro!: archive_path_archives)
  fix n :: string
  assume "endswith n ''.json''"
  then have "n \<noteq> up" "n \<noteq> ''/''" by (auto simp: up_def endswith_def)
  then have "plain (base @ [''evidence'', n])" using assms(1,2) by (auto simp: plain_append up_def)
  moreover have "\<not> is_relative_to (base @ [''evidence'', n]) (base @ [''archive''])" by (simp add: is_relative_to_def)
  ultimately show "keeps (archives base) (archive_path env (me_root env @ [''evidence'', n]) ''evidence'')"
    using assms(1,2) root by (simp add: archive_path_archives)
qed

lemma cycles_archive:
  assumes "base \<noteq> []" "plain base"
  shows "\<forall>env \<in> set envs. links_made base env (db_jobs (ms_db st)) \<Longrightarrow> archives base (ms_fs st) (ms_fs (run_cycles envs st))"
proof (induction envs arbitrary: st)
  case (Cons env envs)
  let ?st = "snd (run_maintenance_cycle env st)"
  have "\<forall>env \<in> set envs. links_made base env (db_jobs (ms_db ?st))"
    using Cons.prems outside_pruned by (auto simp: cycle_db links_made_def)
  from Cons.IH [OF this] cycle_archives [OF assms, of env st] Cons.prems show ?case
    using transpD [OF archives_order(1)] by auto
qed (use reflpD [OF archives_order(2)] in simp)

lemma cycles_store: "keeps_stored (ms_fs st) (ms_fs (run_cycles envs st))"
proof (induction envs arbitrary: st)
  case (Cons env envs)
  have "keeps_stored (ms_fs st) (ms_fs (snd (run_maintenance_cycle env st)))"
    by (rule cycle_keeps [OF stored_order(2,1)]) (auto intro: archive_path_stored)
  with Cons.IH show ?case using transpD [OF stored_order(1)] by auto
qed (use reflpD [OF stored_order(2)] in simp)

text \<open>
  C13. Archival loses no file. Through any number of maintenance cycles, whatever move or link of theirs fails, the content of every path
  that could be read before is still in a regular file with the same modification time. If, moreover, no creation of a link fails and
  the file system is orderly (directories are real on the way to the root, in the archive and in the paths of the jobs, and every
  link below the root leads to a file), then the path itself can still be read, through the relative links the archival leaves, however many
  links the way has.
\<close>

theorem maintenance_keeps_files:
  assumes "readable (ms_fs st) p c"
  shows "stored (ms_fs (run_cycles envs st)) c \<and>
    (base \<noteq> [] \<and> plain base \<and> orderly base (ms_fs st) \<and> (\<forall>env \<in> set envs. links_made base env (db_jobs (ms_db st))) \<longrightarrow>
     readable (ms_fs (run_cycles envs st)) p c)"
proof (intro conjI impI)
  have "stored (ms_fs st) c" using assms by (auto simp: readable_def stored_def)
  then show "stored (ms_fs (run_cycles envs st)) c" using cycles_store [of st envs] unfolding keeps_stored_def by blast
next
  assume "base \<noteq> [] \<and> plain base \<and> orderly base (ms_fs st) \<and> (\<forall>env \<in> set envs. links_made base env (db_jobs (ms_db st)))"
  then show "readable (ms_fs (run_cycles envs st)) p c"
    using cycles_archive [of base envs st] assms unfolding archives_def keeps_readable_def by blast
qed

text \<open>
  Jobs whose files are archived stay candidates: their rows do not change. When the scan limit is filled by such jobs, no further proof file is archived.
\<close>

lemma archived_jobs_block:
  assumes "\<forall>j \<in> set jobs. \<forall>path. pj_proof_path j = Some path \<longrightarrow> (\<exists>q t. file_node fs (me_expanduser env (path_parts path)) = Some (q, Link t))"
  shows "archive_proof_loop env jobs n fs = (Inr n, fs)"
  using assms by (induction jobs) (auto simp: sret_def sbind_def sget_def archive_path_def split: option.splits)

text \<open>With JSON null in the pruned columns a pruned job is pruned again at every cutoff, with SQL null it is not.\<close>

lemma pruned_again:
  "terminal_status (pj_status j) \<Longrightarrow> now < cutoff \<Longrightarrow> prunable cutoff (job_pruned (JsonVal PNone) now j)"
  "\<not> prunable cutoff (job_pruned SqlNull now j)"
  by (simp_all add: prunable_def job_pruned_def)

section \<open>Witnesses\<close>

definition demo_file :: fpath where
  "demo_file = [''/'', ''out'', ''evidence'', ''r.json'']"

definition demo_files :: filesystem where
  "demo_files = [([''/''], Dir), ([''/'', ''out''], Dir), ([''/'', ''out'', ''evidence''], Dir), (demo_file, RegFile ''{}'' 5)]"

definition demo_maintenance :: maintenance_env where
  "demo_maintenance = \<lparr>me_now = 3000 * 86400 * 1000000, me_retention_days = 30, me_archive_after_days = 7, me_scan_limit = 10,
     me_root = [''/'', ''out''], me_orm_none = JsonVal PNone, me_expanduser = (\<lambda>p. p), me_move_error = (\<lambda>_. None), me_link_error = (\<lambda>_. None)\<rparr>"

text \<open>The same cycle when the link cannot be made, and over an evidence directory that is itself a link.\<close>

definition unlinked_maintenance :: maintenance_env where
  "unlinked_maintenance = demo_maintenance\<lparr>me_link_error := (\<lambda>_. Some (OtherError ''Permission denied''))\<rparr>"

definition linked_dir_files :: filesystem where
  "linked_dir_files = [([''/''], Dir), ([''/'', ''out''], Dir), ([''/'', ''out'', ''evidence''], Link [''/'', ''data'', ''ev'']), ([''/'', ''data''], Dir),
     ([''/'', ''data'', ''ev''], Dir), ([''/'', ''data'', ''ev'', ''r.json''], RegFile ''{}'' 5)]"

lemma demo_files_orderly: "orderly [''/'', ''out''] demo_files"
proof -
  have at: "map_of demo_files p = Some x \<Longrightarrow> p \<noteq> [] \<and> plain p \<and> dir_at demo_files (butlast p) \<and> (\<forall>t. x \<noteq> Link t)" for p x
    by (auto simp: demo_files_def demo_file_def plain_def dir_at_def up_def split: if_splits)
  then have "map_of demo_files p \<noteq> Some (Link t)" for p t by blast
  moreover have "tree_ok demo_files" unfolding tree_ok_def using at by blast
  ultimately show ?thesis by (simp add: orderly_def)
qed

text \<open>The move without the link, and the link made in a directory that is itself linked, leave the path unreadable.\<close>

definition unlinked_files :: filesystem where
  "unlinked_files = ms_fs (run_cycles [unlinked_maintenance] \<lparr>ms_db = empty_database, ms_fs = demo_files\<rparr>)"

definition relinked_files :: filesystem where
  "relinked_files = ms_fs (run_cycles [demo_maintenance] \<lparr>ms_db = empty_database, ms_fs = linked_dir_files\<rparr>)"

lemma unlinked_files_at:
  "map (map_of unlinked_files) [[''/''], [''/'', ''out''], [''/'', ''out'', ''evidence''], [''/'', ''out'', ''evidence'', ''r.json'']] =
     [Some Dir, Some Dir, Some Dir, None]"
  by code_simp

lemma relinked_files_at:
  "map (map_of relinked_files) [[''/''], [''/'', ''out''], [''/'', ''out'', ''evidence''], [''/'', ''data''], [''/'', ''data'', ''ev''],
      [''/'', ''data'', ''ev'', ''r.json''], [''/'', ''data'', ''archive'']] =
     [Some Dir, Some Dir, Some (Link [''/'', ''data'', ''ev'']), Some Dir, Some Dir,
      Some (Link [''..'', ''archive'', ''evidence'', ''1970'', ''01'', ''r.json'']), None]"
  by code_simp

lemma unlinked_file_unreadable: "\<not> readable unlinked_files demo_file c"
proof -
  note at = unlinked_files_at [unfolded list.map list.inject]
  have "walk n unlinked_files [] demo_file = Inl NoEntry" for n unfolding demo_file_def by (simp add: up_def at)
  then show ?thesis by (simp add: readable_def)
qed

lemma linked_directory_readable: "readable linked_dir_files demo_file (''{}'', 5)"
proof -
  have "walk 1 linked_dir_files [] demo_file = Inr [''/'', ''data'', ''ev'', ''r.json'']"
    "map_of linked_dir_files [''/'', ''data'', ''ev'', ''r.json''] = Some (RegFile ''{}'' 5)" by code_simp+
  then show ?thesis unfolding readable_def fst_conv snd_conv by (intro exI conjI)
qed

lemma linked_directory_unreadable: "\<not> readable relinked_files demo_file c"
proof -
  note at = relinked_files_at [unfolded list.map list.inject]
  have "\<exists>e. walk n relinked_files [] demo_file = Inl e" for n
    unfolding demo_file_def by (simp add: up_def link_start_def absolute_def parent_dir_def at split: nat.split)
  then show ?thesis unfolding readable_def by (metis Inl_Inr_False)
qed

theorem maintenance_keeps_files_witness:
  "map_of (ms_fs (run_cycles [demo_maintenance] \<lparr>ms_db = empty_database, ms_fs = demo_files\<rparr>)) demo_file =
     Some (Link [''..'', ''archive'', ''evidence'', ''1970'', ''01'', ''r.json'']) \<and>
   readable (ms_fs (run_cycles [demo_maintenance] \<lparr>ms_db = empty_database, ms_fs = demo_files\<rparr>)) demo_file (''{}'', 5) \<and>
   stored (ms_fs (run_cycles [unlinked_maintenance] \<lparr>ms_db = empty_database, ms_fs = demo_files\<rparr>)) (''{}'', 5)"
proof (intro conjI)
  show "map_of (ms_fs (run_cycles [demo_maintenance] \<lparr>ms_db = empty_database, ms_fs = demo_files\<rparr>)) demo_file =
     Some (Link [''..'', ''archive'', ''evidence'', ''1970'', ''01'', ''r.json''])" by code_simp
  have "walk 0 demo_files [] demo_file = Inr demo_file" "map_of demo_files demo_file = Some (RegFile ''{}'' 5)" by code_simp+
  then have r: "readable demo_files demo_file (''{}'', 5)" unfolding readable_def by (intro exI [of _ 0] exI) simp
  have l: "links_made [''/'', ''out''] demo_maintenance (db_jobs empty_database)" "plain [''/'', ''out'']"
    by (simp_all add: links_made_def demo_maintenance_def outside_archive_def empty_database_def plain_def up_def)
  show "readable (ms_fs (run_cycles [demo_maintenance] \<lparr>ms_db = empty_database, ms_fs = demo_files\<rparr>)) demo_file (''{}'', 5)"
    using maintenance_keeps_files [of "\<lparr>ms_db = empty_database, ms_fs = demo_files\<rparr>" demo_file "(''{}'', 5)" "[demo_maintenance]" "[''/'', ''out'']"]
      r l demo_files_orderly by simp
  show "stored (ms_fs (run_cycles [unlinked_maintenance] \<lparr>ms_db = empty_database, ms_fs = demo_files\<rparr>)) (''{}'', 5)"
    using maintenance_keeps_files [of "\<lparr>ms_db = empty_database, ms_fs = demo_files\<rparr>" demo_file "(''{}'', 5)" "[unlinked_maintenance]"] r by simp
qed

end
