(* ===== verification/Attestation_Correctness.thy ===== *)
theory Attestation_Correctness
  imports Gateway_Clients Maintenance
begin

text \<open>
  Correctness of attestations: what an export says of a completed run does not depend on whether maintenance
  has pruned the run, and a run of the policy engine leaves a signed attestation of its own result.
\<close>

section \<open>The check of the verifier\<close>

lemma verifier_scope_granted:
  assumes "required_scoped_jwt (ve_auth_config env) (ve_auth env) [scope] (ve_jwt_now env) credentials (vr_auth st) = (Inr claims, a)"
  shows "verifier_scope env scope credentials st = (Inr claims, st\<lparr>vr_auth := a\<rparr>)"
  using required_jwt_reports [unfolded reports_def, rule_format, of "ve_auth_config env" "ve_auth env" "[scope]" "ve_jwt_now env" credentials "vr_auth st"] assms
  by (simp add: verifier_scope_def record_denials_def)

section \<open>Pruning\<close>

lemma get_pruned:
  "get_proof_job pid (snd (prune_terminal_job_runtime_data orm now old db)) =
     map_option (\<lambda>j. if prunable old j then job_pruned orm now j else j) (get_proof_job pid db)"
proof -
  have "List.find (\<lambda>j. pj_proof_id j = pid) (map (\<lambda>j. if prunable old j then job_pruned orm now j else j) js) =
      map_option (\<lambda>j. if prunable old j then job_pruned orm now j else j) (List.find (\<lambda>j. pj_proof_id j = pid) js)" for js
    by (induction js) (auto simp: job_pruned_def)
  then show ?thesis by (simp add: prune_terminal_job_runtime_data_def get_proof_job_def find_job_def)
qed

text \<open>What pruning may do to a job: nothing but dropping its result.\<close>

definition pruned_from :: "proof_job \<Rightarrow> proof_job \<Rightarrow> bool" where
  "pruned_from job j =
     (pj_meta j = pj_meta job \<and> pj_status j = pj_status job \<and> pj_circuit_id j = pj_circuit_id job \<and>
      (pj_proof j = pj_proof job \<and> pj_public_signals j = pj_public_signals job \<or> col_value (pj_proof j) = PNone))"

lemma cycles_job:
  assumes "\<forall>env \<in> set envs. col_value (me_orm_none env) = PNone" "get_proof_job pid db = Some j" "pruned_from job j"
  shows "\<exists>j'. get_proof_job pid (fold pruned_db envs db) = Some j' \<and> pruned_from job j'"
  using assms
proof (induction envs arbitrary: db j)
  case (Cons env envs)
  let ?old = "me_now env - days_us (me_retention_days env)"
  let ?j = "if prunable ?old j then job_pruned (me_orm_none env) (me_now env) j else j"
  have "get_proof_job pid (pruned_db env db) = Some ?j" using Cons.prems(2) by (simp add: pruned_db_def get_pruned)
  moreover have "pruned_from job ?j" using Cons.prems(1,3) by (auto simp: pruned_from_def job_pruned_def)
  ultimately show ?case using Cons.IH [of "pruned_db env db" ?j] Cons.prems(1) by simp
qed auto

lemma cycles_audit: "db_audit (fold pruned_db envs db) = db_audit db"
  by (induction envs arbitrary: db) (auto simp: pruned_db_def prune_terminal_job_runtime_data_def)

section \<open>The audit rows of a run\<close>

lemma rows_of_run:
  assumes "audit_wf db" "db_audit db = old @ rows" "\<forall>r \<in> set rows. ar_proof_id r = Some pid"
  shows "list_audit_rows_for_proof pid db = filter (\<lambda>r. ar_proof_id r = Some pid) old @ rows"
proof -
  have "sorted (map ar_id (filter P (db_audit db)))" for P using assms(1) by (auto simp: audit_wf_def intro: sorted_filter)
  then have "list_audit_rows_for_proof pid db = filter (\<lambda>r. ar_proof_id r = Some pid) (db_audit db)"
    by (simp add: list_audit_rows_for_proof_def sort_key_id_if_sorted)
  then show ?thesis using assms(2,3) by (simp add: filter_id_conv)
qed

lemma latest_completed_last: "rows \<noteq> [] \<Longrightarrow> ar_status (last rows) = ''completed'' \<Longrightarrow> latest_completed (old @ rows) = Some (last rows)"
  by (cases rows rule: rev_cases) (simp_all add: latest_completed_def Let_def)

lemma completed_hashes:
  assumes v: "completed_verdict sha pid w0 w" and wf: "db_wf (w_db w)" and j: "get_proof_job pid (w_db w) = Some job"
    and p: "pruned_from job j"
  shows "attested_hashes sha pid j (list_audit_rows_for_proof pid (w_db w)) = attested_hashes sha pid job (list_audit_rows_for_proof pid (w_db w))"
proof -
  from v j obtain rows pf sigs where
    r: "pj_proof job = JsonVal (PDict pf)" "pj_public_signals job = JsonVal (PList sigs)" "audit_grows pid w0 rows w" "rows \<noteq> []"
      "ar_status (last rows) = ''completed''" "ar_public_signals (last rows) = sigs" "ar_proof_hash (last rows) = compute_proof_hash sha (PDict pf)"
    unfolding completed_verdict_def by auto
  have l: "latest_completed (list_audit_rows_for_proof pid (w_db w)) = Some (last rows)"
    using rows_of_run [of "w_db w" "db_audit (w_db w0)" rows pid] latest_completed_last [OF r(4,5)] wf r(3)
    by (simp add: audit_grows_def db_wf_def)
  have "attested_hashes sha pid job (list_audit_rows_for_proof pid (w_db w)) =
      Inr (sha256_json sha (PDict pf), sha256_json sha (PList sigs))"
    by (simp add: attested_hashes_def r(1,2) col_value_def)
  moreover have "attested_hashes sha pid j (list_audit_rows_for_proof pid (w_db w)) =
      Inr (sha256_json sha (PDict pf), sha256_json sha (PList sigs))" if "col_value (pj_proof j) = PNone"
    using that l r(6,7) by (simp add: attested_hashes_def sha256_json_def compute_proof_hash_def)
  ultimately show ?thesis using p unfolding pruned_from_def by (auto simp: attested_hashes_def)
qed

section \<open>Properties\<close>

text \<open>
  C9. An attestation survives maintenance. After an undisturbed delivery completed a run in a well-formed database, exporting its attestation
  gives the same answer before and after any number of maintenance cycles, with whatever clocks and cutoffs: the
  hashes of the proof and of the public signals that the export takes from the audit log, once the job row is pruned, are
  those of the stored proof and signals. It holds whether the object-relational layer writes SQL null or JSON null.
\<close>

theorem attestation_survives_maintenance:
  assumes "quiet wk" "we_sha256 wk = we_sha256 (ve_worker env)" "get_proof_job run_id (w_db w) = Some job"
    and "pj_status job = ''queued'' \<or> pj_status job = ''running''" "process_proof_job wk run_id w = (r, w')"
    and "get_proof_job run_id (w_db w') = Some job'" "pj_status job' = ''completed''" "db_wf (w_db w)"
    and "\<forall>m \<in> set cycles. me_orm_none m = SqlNull \<or> me_orm_none m = JsonVal PNone" "vr_db st = w_db w'"
  shows "fst (export_attestation env credentials run_id (st\<lparr>vr_db := ms_db (run_cycles cycles \<lparr>ms_db = w_db w', ms_fs = fs\<rparr>)\<rparr>)) =
         fst (export_attestation env credentials run_id st)"
proof -
  from wp_run [OF process_verdict [OF assms(1,3,4)] assms(5)] have "delivered wk run_id job w r w'" by (cases r) auto
  with assms(6,7) have v: "completed_verdict (we_sha256 (ve_worker env)) run_id w w'"
    using assms(2) by (cases r) (auto simp: delivered_def failed_verdict_def)
  let ?db = "fold pruned_db cycles (w_db w')"
  have orm: "\<forall>m \<in> set cycles. col_value (me_orm_none m) = PNone" using assms(9) by (auto simp: col_value_def)
  obtain j where j: "get_proof_job run_id ?db = Some j" "pruned_from job' j"
    using cycles_job [OF orm assms(6), of job'] by (auto simp: pruned_from_def)
  have rows: "list_audit_rows_for_proof run_id ?db = list_audit_rows_for_proof run_id (w_db w')"
    by (simp add: list_audit_rows_for_proof_def cycles_audit)
  have "gateway_writers wk" using assms(1) by (simp add: quiet_def gateway_writers_def)
  then have "db_wf (w_db w')" using wdb.kept_invariant(1) [OF worker_gateway, of wk w run_id] assms(5,8) by simp
  note h = completed_hashes [OF v this assms(6) j(2)]
  obtain q a where q: "required_scoped_jwt (ve_auth_config env) (ve_auth env) [''audit:read''] (ve_jwt_now env) credentials (vr_auth st) = (q, a)" by fastforce
  have m: "pj_meta j = pj_meta job'" "pj_status j = pj_status job'" "pj_circuit_id j = pj_circuit_id job'" using j(2) by (simp_all add: pruned_from_def)
  show ?thesis
  proof (cases q)
    case (Inl e)
    then show ?thesis using q by (simp add: export_attestation_def verifier_scope_def sbind_def Let_def)
  next
    case (Inr claims)
    have "verifier_scope env ''audit:read'' credentials s = (Inr claims, s\<lparr>vr_auth := a\<rparr>)" if "vr_auth s = vr_auth st" for s
      using q Inr that by (simp add: verifier_scope_granted)
    with j(1) rows h m assms(6,10) show ?thesis
      by (auto simp: run_cycles_db export_attestation_def sbind_def Let_def sget_def sthrow_def slift_def sret_def split: sum.splits)
  qed
qed

lemma attestation_created:
  assumes "attestation_create env att run_id pol ver cid (decision_text d) pf sigs meta st = (Inr b, st')"
  shows "attestation_export att st' = (Inr b, st') \<and> ab_attestation_id b = att \<and> ab_run_id b = run_id \<and> ab_policy_id b = pol \<and>
    ab_policy_version b = ver \<and> ab_circuit_id b = cid \<and> ab_decision b = decision_text d \<and>
    ab_proof_hash b = sha256_json (we_sha256 (en_worker env)) (PDict pf) \<and>
    ab_public_signals_hash b = sha256_json (we_sha256 (en_worker env)) (PList sigs) \<and> ab_metadata b = meta \<and>
    (\<exists>sig. sign_attestation env (canonical_json (PDict (unsigned_document b))) = Inr sig \<and>
       ab_signature_chain b = [[(''type'', PStr ''attestation_bundle_signature''), (''signature'', PStr sig)]])"
proof -
  define b0 where "b0 digests = \<lparr>ab_attestation_id = att, ab_run_id = run_id, ab_policy_id = pol, ab_policy_version = ver,
      ab_circuit_id = cid, ab_decision = decision_text d, ab_proof_hash = sha256_json (we_sha256 (en_worker env)) (PDict pf),
      ab_public_signals_hash = sha256_json (we_sha256 (en_worker env)) (PList sigs), ab_artifact_digests = digests,
      ab_signature_chain = [], ab_metadata = meta, ab_exported_at = en_now env\<rparr>" for digests
  have dec: "(if decision_text d = ''pass'' then ''pass'' else ''fail'') = decision_text d" by (cases d) (simp_all add: decision_text_def)
  from assms obtain digests sig where
    s: "sign_attestation env (canonical_json (PDict (unsigned_document (b0 digests)))) = Inr sig"
      "b = (b0 digests)\<lparr>ab_decision := decision_text d, ab_signature_chain := [[(''type'', PStr ''attestation_bundle_signature''), (''signature'', PStr sig)]]\<rparr>"
      "st' = st\<lparr>es_bundles := dput att b (es_bundles st)\<rparr>"
    unfolding attestation_create_def Let_def b0_def [symmetric] dec by (auto simp: sbind_eq_Inr sthen_eq_Inr prog_basic_eq)
  have "unsigned_document b = unsigned_document (b0 digests)" by (simp add: s(2) unsigned_document_def b0_def)
  moreover have "attestation_export att st' = (Inr b, st')" by (simp add: s(3) attestation_export_def sbind_def prog_defs)
  ultimately show ?thesis using s(1) by (simp add: s(2) b0_def)
qed

text \<open>
  C10. A policy run attests its own result. When the policy engine returns, the decision is that of the
  reference policy on the evidence with the pack's parameters and, read from the public signals, that of the generated proof,
  whose verification returned; \<open>pass\<close> is reported only for a verified proof. The attestation can be exported under the
  returned id: it names the policy, its version and circuit, the same decision and the hashes of that proof and its signals, and its signature
  is the signature over its own content.
\<close>

theorem policy_run_attested:
  assumes "policy_engine_run env request st = (Inr res, st')"
  shows "\<exists>man ev params ref pf sigs valid b sig.
    get_policy_manifest (we_policies (en_worker env)) (rr_policy_id request) = Inr man \<and>
    prepare_reference_track (fst (get_reference_policy (en_reference_policies env) None (pm_reference_policy man)))
      (pm_reference_policy man) (pm_differential_outputs man) (effective_evidence ev params) = Inr ref \<and>
    resolve_params_ref (we_parse_float (en_worker env)) (en_read_file env) (en_packs_dir env) (rr_policy_id request)
      (rr_policy_params_ref request) = Inr params \<and>
    (case rr_evidence request of EvidenceInline payload \<Rightarrow> ev = payload
       | EvidenceRef r \<Rightarrow> evidence_read (we_parse_float (en_worker env)) r (es_files st) = Inr ev) \<and>
    pp_generate_proof (we_provider (en_worker env)) (pm_circuit_id man) (dr_private_input ref) = Inr (PDict pf, PList sigs) \<and>
    pp_verify_proof (we_provider (en_worker env)) (pm_circuit_id man) pf sigs = Inr valid \<and>
    circuit_decision (rr_policy_id request) (pm_expected_attestation man) sigs valid = Inr (dr_decision ref) \<and>
    rr_decision res = decision_text (dr_decision ref) \<and> (dr_decision ref = Pass \<longrightarrow> valid) \<and>
    attestation_export (rr_attestation_id res) st' = (Inr b, st') \<and> ab_run_id b = rr_run_id res \<and> ab_policy_id b = rr_policy_id request \<and>
    ab_policy_version b = pm_policy_version man \<and> ab_circuit_id b = pm_circuit_id man \<and> ab_decision b = rr_decision res \<and>
    ab_proof_hash b = sha256_json (we_sha256 (en_worker env)) (PDict pf) \<and>
    ab_public_signals_hash b = sha256_json (we_sha256 (en_worker env)) (PList sigs) \<and>
    sign_attestation env (canonical_json (PDict (unsigned_document b))) = Inr sig \<and>
    ab_signature_chain b = [[(''type'', PStr ''attestation_bundle_signature''), (''signature'', PStr sig)]]"
proof -
  let ?wk = "en_worker env"
  from assms obtain man ev eref s1 params ref pf sigs valid circ b where
    s: "get_policy_manifest (we_policies ?wk) (rr_policy_id request) = Inr man"
      "resolve_evidence env (en_uuid env) request st = (Inr (ev, eref), s1)"
      "resolve_params_ref (we_parse_float ?wk) (en_read_file env) (en_packs_dir env) (rr_policy_id request) (rr_policy_params_ref request) = Inr params"
      "prepare_reference_track (fst (get_reference_policy (en_reference_policies env) None (pm_reference_policy man)))
        (pm_reference_policy man) (pm_differential_outputs man) (effective_evidence ev params) = Inr ref"
      "engine_generate (we_interp_text ?wk) (we_invalid_text ?wk) (we_circuits ?wk) (we_provider ?wk) (pm_circuit_id man) (dr_private_input ref) = Inr (pf, sigs)"
      "engine_verify (we_interp_text ?wk) (we_circuits ?wk) (we_provider ?wk) (pm_circuit_id man) pf sigs = Inr valid"
      "evaluate_circuit_track (rr_policy_id request) (pm_expected_attestation man) (pm_differential_outputs man) sigs valid = Inr circ"
      "assert_dual_track_consistency (rr_policy_id request) ref circ = Inr ()"
      "attestation_create env (''att-'' @ en_uuid env) (en_uuid env) (rr_policy_id request) (pm_policy_version man) (pm_circuit_id man)
        (decision_text (dc_decision circ)) pf sigs (run_metadata (we_sha256 ?wk) request eref params ref circ) s1 = (Inr b, st')"
      "res = \<lparr>rr_run_id = en_uuid env, rr_result_policy_id = rr_policy_id request, rr_decision = decision_text (dc_decision circ),
              rr_attestation_id = ''att-'' @ en_uuid env\<rparr>"
    unfolding policy_engine_run_def Let_def
    by (auto simp: sbind_eq_Inr sthen_eq_Inr prog_defs split: sum.splits)
  have dec: "dc_decision circ = dr_decision ref" using s(8) by (auto simp: assert_dual_track_consistency_def split: if_splits)
  have cd: "circuit_decision (rr_policy_id request) (pm_expected_attestation man) sigs valid = Inr (dr_decision ref)"
    using s(7) dec by (auto simp: evaluate_circuit_track_def rbind_eq_Inr)
  have gen: "pp_generate_proof (we_provider ?wk) (pm_circuit_id man) (dr_private_input ref) = Inr (PDict pf, PList sigs)"
    using s(5) by (auto simp: engine_generate_def rbind_eq_Inr proof_generation_result_def split: sum.splits pyval.splits)
  have ver: "pp_verify_proof (we_provider ?wk) (pm_circuit_id man) pf sigs = Inr valid"
    using s(6) by (auto simp: engine_verify_def rbind_eq_Inr split: sum.splits)
  have evd: "case rr_evidence request of EvidenceInline payload \<Rightarrow> ev = payload
       | EvidenceRef r \<Rightarrow> evidence_read (we_parse_float ?wk) r (es_files st) = Inr ev"
    using s(2) by (cases "rr_evidence request")
      (auto simp: resolve_evidence_def sbind_eq_Inr sthen_eq_Inr prog_basic_eq split: prod.splits)
  from attestation_created [OF s(9)] obtain sig where b: "attestation_export (rr_attestation_id res) st' = (Inr b, st')" "ab_run_id b = rr_run_id res"
    "ab_policy_id b = rr_policy_id request" "ab_policy_version b = pm_policy_version man" "ab_circuit_id b = pm_circuit_id man"
    "ab_decision b = rr_decision res" "ab_proof_hash b = sha256_json (we_sha256 ?wk) (PDict pf)"
    "ab_public_signals_hash b = sha256_json (we_sha256 ?wk) (PList sigs)"
    "sign_attestation env (canonical_json (PDict (unsigned_document b))) = Inr sig"
    "ab_signature_chain b = [[(''type'', PStr ''attestation_bundle_signature''), (''signature'', PStr sig)]]" unfolding s(10) by auto
  have "rr_decision res = decision_text (dr_decision ref)" using s(10) dec by simp
  moreover have "dr_decision ref = Pass \<longrightarrow> valid" using unverified_fails cd by metis
  ultimately show ?thesis using s(1,3,4) evd gen ver cd b by blast
qed

section \<open>Witnesses\<close>

definition demo_verifier :: "(demo_store, string) verifier_env" where
  "demo_verifier = \<lparr>ve_auth_config = demo_config, ve_auth = demo_env, ve_worker = demo_worker, ve_assets = ''assets'', ve_read_file = (\<lambda>_. None),
     ve_exists = (\<lambda>_. True), ve_jwt_now = 1000000000, ve_now = 5, ve_key_clock = (\<lambda>_. 0)\<rparr>"

lemma demo_export:
  assumes "vr_auth st = demo_state" "get_proof_job ''p'' (vr_db st) = Some job" "pj_status job = ''completed''" "pj_circuit_id job = ''c''"
    "dget (pj_meta job) ''policy_id'' = PStr ''pol''" "pj_proof job = JsonVal (PDict pf)"
  shows "\<exists>b. fst (export_attestation demo_verifier (Some ''tok'') ''p'' st) = Inr b \<and>
    ab_proof_hash b = canonical_json (PDict pf)"
proof -
  have "verifier_scope demo_verifier ''audit:read'' (Some ''tok'') st = (Inr demo_claims, st\<lparr>vr_auth := demo_cached\<rparr>)"
    using demo_jwt [of "''audit:read''"] assms(1) by (intro verifier_scope_granted) (simp add: demo_verifier_def)
  moreover have "get_circuit_manifest (we_circuits (ve_worker demo_verifier)) ''c'' = Inr demo_circuit" "we_sha256 (ve_worker demo_verifier) = (\<lambda>s. s)"
    by (simp_all add: demo_verifier_def demo_worker_def get_circuit_manifest_def)
  ultimately show ?thesis using assms
    by (auto simp: export_attestation_def sbind_def prog_defs Let_def policy_id_from_job_metadata_def get_artifact_paths_def
        attested_hashes_def col_value_def sha256_json_def)
qed

theorem attestation_survives_maintenance_witness:
  "\<exists>job' b. get_proof_job ''p'' (ms_db (run_cycles [demo_maintenance] \<lparr>ms_db = w_db (snd (process_proof_job demo_worker ''p'' demo_start)), ms_fs = []\<rparr>)) = Some job' \<and>
     pj_proof job' = JsonVal PNone \<and>
     fst (export_attestation demo_verifier (Some ''tok'') ''p''
       \<lparr>vr_auth = demo_state, vr_db = ms_db (run_cycles [demo_maintenance] \<lparr>ms_db = w_db (snd (process_proof_job demo_worker ''p'' demo_start)), ms_fs = []\<rparr>)\<rparr>) = Inr b \<and>
     ab_proof_hash b = canonical_json (PDict [(''a'', PInt 1)])"
proof -
  let ?w = "snd (process_proof_job demo_worker ''p'' demo_start)"
  have q: "pj_status demo_job = ''queued'' \<or> pj_status demo_job = ''running''" by (simp add: demo_job_def)
  from demo_completes obtain job' where j: "get_proof_job ''p'' (w_db ?w) = Some job'" "pj_status job' = ''completed''"
    by (auto simp: completed_verdict_def)
  from delivery_completed [OF quiet_bystanders [OF demo_quiet] demo_get q surjective_pairing j] obtain doc pf sigs patch where
    c: "proved demo_worker (started_job demo_worker demo_job) doc (pf, sigs, patch)"
      "job' = job_purged (we_now demo_worker 4) (job_updated (we_now demo_worker 3) ''completed'' (Some sigs) (Some pf)
        (Some (path_join (we_output_dir demo_worker) (''p'' @ ''.json''))) None patch (started_job demo_worker demo_job))" by blast
  have pf: "pf = [(''a'', PInt 1)]"
    using c(1) by (auto simp: proved_def engine_generate_def rbind_eq_Inr) (auto simp: demo_worker_def proof_generation_result_def)
  have job': "dget (pj_meta job') ''policy_id'' = PStr ''pol''" "pj_circuit_id job' = ''c''" "pj_proof job' = JsonVal (PDict pf)" "pj_updated_at job' = 4"
    unfolding c(2) patch_keeps_policy [OF c(1)]
    by (simp add: started_job_meta, simp add: demo_job_def)
       (simp_all add: job_purged_def job_updated_def started_job_same, simp_all add: demo_job_def demo_worker_def)
  let ?st = "\<lparr>vr_auth = demo_state, vr_db = w_db ?w\<rparr>"
  from demo_export [of ?st, OF _ _ j(2) job'(2,1,3)] j(1) obtain b where
    b: "fst (export_attestation demo_verifier (Some ''tok'') ''p'' ?st) = Inr b" "ab_proof_hash b = canonical_json (PDict pf)" by auto
  have "db_wf (w_db demo_start)" by (simp add: demo_start_def db_wf_def audit_wf_def dlq_wf_def empty_database_def)
  from attestation_survives_maintenance [OF demo_quiet _ demo_get q surjective_pairing j this, of demo_verifier "[demo_maintenance]" ?st "Some ''tok''" "[]"] b
  have e: "fst (export_attestation demo_verifier (Some ''tok'') ''p'' \<lparr>vr_auth = demo_state, vr_db = ms_db (run_cycles [demo_maintenance] \<lparr>ms_db = w_db ?w, ms_fs = []\<rparr>)\<rparr>) = Inr b"
    by (simp add: demo_verifier_def demo_maintenance_def)
  have "prunable (me_now demo_maintenance - days_us (me_retention_days demo_maintenance)) job'"
    using j(2) job'(3,4) by (simp add: prunable_def terminal_status_def demo_maintenance_def days_us_def)
  then have "get_proof_job ''p'' (ms_db (run_cycles [demo_maintenance] \<lparr>ms_db = w_db ?w, ms_fs = []\<rparr>)) = Some (job_pruned (JsonVal PNone) (me_now demo_maintenance) job')"
    using j(1) by (simp add: cycle_db pruned_db_def get_pruned) (simp add: demo_maintenance_def)
  with e b(2) pf show ?thesis by (simp add: job_pruned_def)
qed

definition demo_engine :: engine_env where
  "demo_engine = \<lparr>en_worker = demo_worker, en_assets = ''assets'', en_read_file = (\<lambda>_. None), en_signing_key = ''attest'', en_evidence_dir = ''evidence'',
     en_packs_dir = ''packs'', en_reference_policies = [demo_reference], en_uuid = ''p'', en_now = 5\<rparr>"

theorem policy_run_attested_witness:
  "\<exists>res st' b. policy_engine_run demo_engine demo_run \<lparr>es_files = [], es_bundles = []\<rparr> = (Inr res, st') \<and> rr_decision res = ''pass'' \<and>
     attestation_export (rr_attestation_id res) st' = (Inr b, st') \<and> ab_decision b = ''pass''"
proof -
  have "case policy_engine_run demo_engine demo_run \<lparr>es_files = [], es_bundles = []\<rparr> of (Inr res, st') \<Rightarrow> rr_decision res = ''pass'' | _ \<Rightarrow> False"
    by code_simp
  then obtain res st' where r: "policy_engine_run demo_engine demo_run \<lparr>es_files = [], es_bundles = []\<rparr> = (Inr res, st')" "rr_decision res = ''pass''"
    by (auto split: prod.splits sum.splits)
  from policy_run_attested [OF r(1)] r show ?thesis by metis
qed
end
