(* ===== verification/Policy_Compiler.thy ===== *)
theory Policy_Compiler
  imports "HOL-Library.AList" Circom_Renderer Explainability Json_Parser
begin

text \<open>
  The compiler as a program: \<open>policy_compiler/compiler.py\<close>, \<open>python_renderer.py\<close> (the text of the generated
  module), \<open>debug_renderer.py\<close> (its text), \<open>artifacts.py\<close>, \<open>manifest.py\<close>, \<open>drift.py\<close>, \<open>spec_loader.py\<close> and the
  command line \<open>cli.py\<close>, over a file system of regular files and directories.

  Paths are lists of components, taken relative to the working directory; there are no links, and \<open>..\<close> is an
  ordinary component. Reading in text mode translates carriage returns. The YAML parser, pydantic's parsing of fields and
  the text of its errors are parameters. \<open>argparse\<close> is not modelled: a command is a value of \<open>compiler_command\<close>.

  The property: what \<open>generate\<close> wrote is what \<open>check-drift\<close> accepts, and generating again changes nothing.
\<close>

section \<open>The generated Python module\<close>

definition parameter_order :: "policy_spec \<Rightarrow> string list" where
  "parameter_order s = map fst (sp_policy_parameters s)"

definition outputs_params_hash :: "policy_spec \<Rightarrow> bool" where
  "outputs_params_hash s = list_ex (\<lambda>(_, out). os_expr out = ''policy_params_hash'') (sp_outputs s)"

definition needs_policy_params_hash :: "policy_spec \<Rightarrow> bool" where
  "needs_policy_params_hash s = (parameter_order s \<noteq> [] \<or> outputs_params_hash s)"

definition uses_policy_params :: "string \<Rightarrow> bool" where
  "uses_policy_params decision = contains ''policy_params['' decision"

definition parameter_specs :: "policy_spec \<Rightarrow> pyval" where
  "parameter_specs s =
     PDict (map (\<lambda>(name, p). (name, PDict [(''minimum'', opt_int (ps_minimum p)), (''maximum'', opt_int (ps_maximum p)),
                                          (''default'', opt_int (ps_default p))])) (sp_policy_parameters s))"

definition policy_params_line :: "bool \<Rightarrow> string" where
  "policy_params_line needed =
     (if needed then ''        policy_params = dict(normalized_evidence.get('' @ DQ @ ''policy_parameters'' @ DQ @ '', {}))'' else [])"

definition policy_input_lines :: "policy_spec \<Rightarrow> string list" where
  "policy_input_lines s =
     [''            '' @ DQ @ ''balances'' @ DQ @ '': list(normalized_evidence['' @ DQ @ ''balances'' @ DQ @ '']),'',
      ''            '' @ DQ @ ''limits'' @ DQ @ '': list(normalized_evidence['' @ DQ @ ''limits'' @ DQ @ '']),'',
      ''            '' @ DQ @ ''active_count'' @ DQ @ '': int(normalized_evidence['' @ DQ @ ''active_count'' @ DQ @ '']),''] @
     (if parameter_order s = [] then []
      else [''            '' @ DQ @ ''policy_params'' @ DQ @ '': [int(policy_params[name]) for name in self.POLICY_PARAMETER_ORDER],'',
            ''            '' @ DQ @ ''expected_policy_params_hash'' @ DQ @ '': compute_policy_params_hash(policy_params),''])"

definition module_head :: "policy_spec \<Rightarrow> string \<Rightarrow> string list" where
  "module_head s spec_hash =
     [DQ @ DQ @ DQ @ ''Generated by vellum-compiler '' @ sp_compiler_version s @ ''; do not edit manually.'' @ DQ @ DQ @ DQ,
      [],
      ''from __future__ import annotations'',
      [],
      ''from typing import Any'',
      [],
      ''from vellum_core.api.errors import framework_error'',
      ''from vellum_core.logic.batcher import MAX_UINT32, batch_prepare_from_private_input, batch_prepare_input'',
      (if needs_policy_params_hash s then ''from vellum_core.policy_parameters import compute_policy_params_hash'' else []),
      ''from vellum_core.policies.base import PolicyDecision'',
      ''from vellum_core.policies.normalization import require_integer_list'',
      [],
      [],
      ''class GeneratedReferencePolicy:'',
      ''    '' @ DQ @ DQ @ DQ @ ''Generated reference policy for `'' @ sp_policy_id s @ ''`.'' @ DQ @ DQ @ DQ,
      [],
      ''    reference_policy = '' @ DQ @ sp_reference_policy s @ DQ,
      ''    policy_id = '' @ DQ @ sp_policy_id s @ DQ,
      ''    spec_hash = '' @ DQ @ spec_hash @ DQ,
      ''    batch_size = '' @ show_nat (sp_batch_size s),
      ''    POLICY_PARAMETER_ORDER = '' @ json_dumps (PList (map PStr (parameter_order s))),
      ''    POLICY_PARAMETER_SPECS = '' @ json_dumps (canon (parameter_specs s)),
      [],
      ''    def validate(self, evidence_payload: dict[str, Any]) -> None:'',
      ''        _ = self.normalize(evidence_payload)'',
      []]"

definition normalize_text :: "string list" where
  "normalize_text =
     [''    def normalize(self, evidence_payload: dict[str, Any]) -> dict[str, Any]:'',
      ''        policy_params = self._resolve_policy_parameters(evidence_payload.get('' @ DQ @ ''policy_parameters'' @ DQ @ ''))'',
      [],
      ''        private_input = evidence_payload.get('' @ DQ @ ''private_input'' @ DQ @ '')'',
      ''        if isinstance(private_input, dict):'',
      ''            try:'',
      ''                prepared = batch_prepare_from_private_input(private_input)'',
      ''            except ValueError as exc:'',
      ''                raise framework_error('',
      ''                    '' @ DQ @ ''invalid_evidence_payload'' @ DQ @ '','',
      ''                    '' @ DQ @ ''Evidence payload failed batch validation'' @ DQ @ '','',
      ''                    reason=str(exc),'',
      ''                ) from exc'',
      ''            normalized = prepared.to_circuit_input()'',
      ''            normalized['' @ DQ @ ''policy_parameters'' @ DQ @ ''] = policy_params'',
      ''            return normalized'',
      [],
      ''        balances = require_integer_list('',
      ''            field='' @ DQ @ ''balances'' @ DQ @ '','',
      ''            value=evidence_payload.get('' @ DQ @ ''balances'' @ DQ @ ''),'',
      ''            minimum=0,'',
      ''            maximum=MAX_UINT32,'',
      ''        )'',
      ''        limits = require_integer_list('',
      ''            field='' @ DQ @ ''limits'' @ DQ @ '','',
      ''            value=evidence_payload.get('' @ DQ @ ''limits'' @ DQ @ ''),'',
      ''            minimum=0,'',
      ''            maximum=MAX_UINT32,'',
      ''        )'',
      ''        try:'',
      ''            prepared = batch_prepare_input(balances=balances, limits=limits, batch_size=self.batch_size)'',
      ''        except ValueError as exc:'',
      ''            raise framework_error('',
      ''                '' @ DQ @ ''invalid_evidence_payload'' @ DQ @ '','',
      ''                '' @ DQ @ ''Evidence payload failed batch validation'' @ DQ @ '','',
      ''                reason=str(exc),'',
      ''            ) from exc'',
      ''        normalized = prepared.to_circuit_input()'',
      ''        normalized['' @ DQ @ ''policy_parameters'' @ DQ @ ''] = policy_params'',
      ''        return normalized'',
      []]"

definition methods_text :: "policy_spec \<Rightarrow> string \<Rightarrow> string \<Rightarrow> string list" where
  "methods_text s decision output_lines =
     [''    def to_private_input(self, normalized_evidence: dict[str, Any]) -> dict[str, Any]:'',
      policy_params_line (parameter_order s \<noteq> []),
      ''        return {'',
      py_join NL (policy_input_lines s),
      ''        }'',
      [],
      ''    def evaluate_reference(self, normalized_evidence: dict[str, Any]) -> PolicyDecision:'',
      ''        active_count = int(normalized_evidence['' @ DQ @ ''active_count'' @ DQ @ ''])'',
      ''        balances = list(normalized_evidence['' @ DQ @ ''balances'' @ DQ @ ''])'',
      ''        limits = list(normalized_evidence['' @ DQ @ ''limits'' @ DQ @ ''])'',
      policy_params_line (uses_policy_params decision),
      ''        decision = '' @ decision,
      ''        return '' @ DQ @ ''pass'' @ DQ @ '' if decision else '' @ DQ @ ''fail'' @ DQ,
      [],
      ''    def project_public_outputs(self, normalized_evidence: dict[str, Any]) -> dict[str, Any]:'',
      ''        active_count = int(normalized_evidence['' @ DQ @ ''active_count'' @ DQ @ ''])'',
      ''        balances = list(normalized_evidence['' @ DQ @ ''balances'' @ DQ @ ''])'',
      ''        limits = list(normalized_evidence['' @ DQ @ ''limits'' @ DQ @ ''])'',
      policy_params_line (uses_policy_params decision \<or> outputs_params_hash s),
      ''        all_valid = '' @ decision,
      ''        return {'',
      output_lines,
      ''        }'',
      []]"

definition resolve_text :: "string list" where
  "resolve_text =
     [''    def _resolve_policy_parameters(self, payload: Any) -> dict[str, int]:'',
      ''        if not self.POLICY_PARAMETER_ORDER:'',
      ''            return {}'',
      ''        if payload is None:'',
      ''            payload = {}'',
      ''        if not isinstance(payload, dict):'',
      ''            raise framework_error('',
      ''                '' @ DQ @ ''invalid_evidence_payload'' @ DQ @ '','',
      ''                '' @ DQ @ ''policy_parameters must be an object'' @ DQ @ '','',
      ''            )'',
      ''        resolved: dict[str, int] = {}'',
      ''        unknown = sorted(set(str(key) for key in payload.keys()) - set(self.POLICY_PARAMETER_ORDER))'',
      ''        if unknown:'',
      ''            raise framework_error('',
      ''                '' @ DQ @ ''invalid_evidence_payload'' @ DQ @ '','',
      ''                '' @ DQ @ ''policy_parameters contains unknown keys'' @ DQ @ '','',
      ''                unknown=unknown,'',
      ''            )'',
      ''        for name in self.POLICY_PARAMETER_ORDER:'',
      ''            spec = self.POLICY_PARAMETER_SPECS[name]'',
      ''            value = payload.get(name, spec.get('' @ DQ @ ''default'' @ DQ @ ''))'',
      ''            if value is None:'',
      ''                raise framework_error('',
      ''                    '' @ DQ @ ''invalid_evidence_payload'' @ DQ @ '','',
      ''                    '' @ DQ @ ''policy_parameters missing required key'' @ DQ @ '','',
      ''                    key=name,'',
      ''                )'',
      ''            if isinstance(value, bool) or not isinstance(value, int):'',
      ''                raise framework_error('',
      ''                    '' @ DQ @ ''invalid_evidence_payload'' @ DQ @ '','',
      ''                    '' @ DQ @ ''policy_parameters values must be integers'' @ DQ @ '','',
      ''                    key=name,'',
      ''                    value=value,'',
      ''                )'',
      ''            minimum = spec.get('' @ DQ @ ''minimum'' @ DQ @ '')'',
      ''            maximum = spec.get('' @ DQ @ ''maximum'' @ DQ @ '')'',
      ''            if minimum is not None and value < int(minimum):'',
      ''                raise framework_error('',
      ''                    '' @ DQ @ ''invalid_evidence_payload'' @ DQ @ '','',
      ''                    '' @ DQ @ ''policy_parameters value below minimum'' @ DQ @ '','',
      ''                    key=name,'',
      ''                    minimum=int(minimum),'',
      ''                    value=value,'',
      ''                )'',
      ''            if maximum is not None and value > int(maximum):'',
      ''                raise framework_error('',
      ''                    '' @ DQ @ ''invalid_evidence_payload'' @ DQ @ '','',
      ''                    '' @ DQ @ ''policy_parameters value above maximum'' @ DQ @ '','',
      ''                    key=name,'',
      ''                    maximum=int(maximum),'',
      ''                    value=value,'',
      ''                )'',
      ''            resolved[name] = int(value)'',
      ''        return resolved'']"

definition render_python_source :: "policy_spec \<Rightarrow> string \<Rightarrow> string res" where
  "render_python_source s spec_hash =
     rbind (python_decision_text s) (\<lambda>decision.
     rbind (render_output_lines s) (\<lambda>output_lines.
     Inr (py_join NL (module_head s spec_hash @ normalize_text @ methods_text s decision output_lines @ resolve_text @ [[]]))))"

definition render_debug_trace :: "policy_spec \<Rightarrow> string \<Rightarrow> string res" where
  "render_debug_trace s spec_hash =
     rbind (debug_trace_payload s spec_hash) (\<lambda>payload. Inr (json_dumps_indent 2 (canon payload) @ NL))"

section \<open>Artifacts\<close>

text \<open>\<open>spec.model_dump(mode="json")\<close>.\<close>

definition opt_str :: "string option \<Rightarrow> pyval" where
  "opt_str v = (case v of None \<Rightarrow> PNone | Some t \<Rightarrow> PStr t)"

definition dump_value :: "value_ref \<Rightarrow> pyval" where
  "dump_value v = PDict [(''ref'', opt_str (vr_ref v)), (''param'', opt_str (vr_param v)), (''const_int'', opt_int (vr_const_int v))]"

definition dump_comparison :: "comparison_expr option \<Rightarrow> pyval" where
  "dump_comparison c =
     (case c of None \<Rightarrow> PNone
      | Some ce \<Rightarrow> PDict [(''op'', PStr (op_text (cmp_op ce))), (''left'', dump_value (cmp_left ce)), (''right'', dump_value (cmp_right ce))])"

fun dump_expr :: "decision_expr \<Rightarrow> pyval" where
  "dump_expr (DecisionExpr k c as i) =
     PDict [(''kind'', PStr (kind_text k)), (''comparison'', dump_comparison c), (''args'', PList (map dump_expr as)),
            (''inner'', case i of None \<Rightarrow> PNone | Some e \<Rightarrow> dump_expr e)]"

fun output_type_text :: "output_type \<Rightarrow> string" where
  "output_type_text TInt = ''int''"
| "output_type_text TBool = ''bool''"
| "output_type_text TString = ''string''"

definition dump_spec :: "policy_spec \<Rightarrow> pyval" where
  "dump_spec s = PDict
     [(''policy_id'', PStr (sp_policy_id s)), (''policy_version'', PStr (sp_policy_version s)),
      (''reference_policy'', PStr (sp_reference_policy s)), (''spec_version'', PStr (sp_spec_version s)),
      (''compiler_version'', PStr (sp_compiler_version s)), (''description'', opt_str (sp_description s)),
      (''batch'', PDict [(''batch_size'', PInt (int (sp_batch_size s)))]),
      (''inputs'', PDict (map (\<lambda>name. (name, PDict [(''kind'', PStr ''uint32_array'')])) (sp_inputs s))),
      (''policy_parameters'', PDict (map (\<lambda>(name, p). (name, PDict [(''value_type'', PStr ''int''), (''minimum'', opt_int (ps_minimum p)),
         (''maximum'', opt_int (ps_maximum p)), (''default'', opt_int (ps_default p))])) (sp_policy_parameters s))),
      (''decision'', dump_expr (sp_decision s)),
      (''outputs'', PDict (map (\<lambda>(name, out). (name, PDict [(''expr'', PStr (os_expr out)),
         (''value_type'', PStr (output_type_text (os_value_type out))), (''signal_index'', PInt (int (os_signal_index out)))])) (sp_outputs s))),
      (''primitives'', PList (map PStr (sp_primitives s))), (''expected_attestation'', PDict (sp_expected_attestation s)),
      (''generated_python_path'', PStr (sp_generated_python_path s)), (''generated_circom_path'', PStr (sp_generated_circom_path s)),
      (''generated_debug_trace_path'', opt_str (sp_generated_debug_trace_path s)), (''circuit_id'', PStr (sp_circuit_id s))]"

record compiler_artifacts =
  ca_spec_hash :: string
  ca_python_source :: string
  ca_circom_source :: string
  ca_debug_trace_source :: string

definition generate_policy_artifacts :: "(string \<Rightarrow> string) \<Rightarrow> policy_spec \<Rightarrow> compiler_artifacts res" where
  "generate_policy_artifacts sha256 s =
     rbind (ensure_supported_decision s) (\<lambda>_.
     let spec_hash = sha256 (canonical_json (dump_spec s))
     in rbind (render_python_source s spec_hash) (\<lambda>python_source.
        rbind (render_circom_source s spec_hash) (\<lambda>circom_source.
        rbind (render_debug_trace s spec_hash) (\<lambda>debug_trace_source.
        Inr \<lparr>ca_spec_hash = spec_hash, ca_python_source = python_source, ca_circom_source = circom_source,
             ca_debug_trace_source = debug_trace_source\<rparr>))))"

text \<open>\<open>str(spec.generated_debug_trace_path)\<close>.\<close>

definition debug_trace_path :: "policy_spec \<Rightarrow> string" where
  "debug_trace_path s = (case sp_generated_debug_trace_path s of None \<Rightarrow> ''None'' | Some p \<Rightarrow> p)"

definition compiler_metadata :: "policy_spec \<Rightarrow> compiler_artifacts \<Rightarrow> pydict" where
  "compiler_metadata s a =
     [(''spec_version'', PStr (sp_spec_version s)), (''compiler_version'', PStr (sp_compiler_version s)),
      (''generated_from_hash'', PStr (ca_spec_hash a)), (''generated_python_path'', PStr (sp_generated_python_path s)),
      (''generated_circom_path'', PStr (sp_generated_circom_path s)), (''generated_debug_trace_path'', PStr (debug_trace_path s))]"

section \<open>Files\<close>

record file_tree =
  ft_files :: "(fpath \<times> string) list"
  ft_dirs :: "fpath list"

definition path_exists :: "file_tree \<Rightarrow> fpath \<Rightarrow> bool" where
  "path_exists t p = (map_of (ft_files t) p \<noteq> None \<or> p \<in> set (ft_dirs t))"

definition dir_prefixes :: "fpath \<Rightarrow> fpath list" where
  "dir_prefixes dir = map (\<lambda>n. take n dir) [1..<Suc (length dir)]"

definition mkdir_p :: "fpath \<Rightarrow> (file_tree, unit) prog" where
  "mkdir_p dir t =
     (if list_ex (\<lambda>q. map_of (ft_files t) q \<noteq> None) (dir_prefixes dir) then (Inl (OtherError ''FileExistsError''), t)
      else (Inr (), t\<lparr>ft_dirs := fold List.insert (dir_prefixes dir) (ft_dirs t)\<rparr>))"

definition write_text :: "fpath \<Rightarrow> string \<Rightarrow> (file_tree, unit) prog" where
  "write_text p content t =
     (if p \<in> set (ft_dirs t) then (Inl (OtherError ''IsADirectoryError''), t)
      else if butlast p \<notin> set (ft_dirs t) then (Inl (OtherError ''FileNotFoundError''), t)
      else (Inr (), t\<lparr>ft_files := AList.update p content (ft_files t)\<rparr>))"

text \<open>Universal newlines: a carriage return, with a line feed after it or not, is read as a line feed.\<close>

fun text_mode :: "bool \<Rightarrow> string \<Rightarrow> string" where
  "text_mode after_cr [] = []"
| "text_mode after_cr (c # cs) =
     (if (of_char c :: nat) = 13 then char_of (10::nat) # text_mode True cs
      else if (of_char c :: nat) = 10 \<and> after_cr then text_mode False cs
      else c # text_mode False cs)"

definition read_text :: "file_tree \<Rightarrow> fpath \<Rightarrow> string res" where
  "read_text t p =
     (if p \<in> set (ft_dirs t) then Inl (OtherError ''IsADirectoryError'')
      else case map_of (ft_files t) p of
             None \<Rightarrow> Inl (OtherError ''FileNotFoundError'')
           | Some content \<Rightarrow> Inr (text_mode False content))"

text \<open>\<open>base / name\<close>, the location of a path, and \<open>str(path)\<close>.\<close>

definition path_div :: "fpath \<Rightarrow> string \<Rightarrow> fpath" where
  "path_div base name = (if startswith name ''/'' then path_parts name else base @ path_parts name)"

definition located :: "fpath \<Rightarrow> fpath \<Rightarrow> fpath" where
  "located cwd p = (if p \<noteq> [] \<and> hd p = ''/'' then p else cwd @ p)"

definition path_str :: "fpath \<Rightarrow> string" where
  "path_str p =
     (case p of [] \<Rightarrow> ''.''
      | c # cs \<Rightarrow> if c = ''/'' then ''/'' @ py_join ''/'' cs else py_join ''/'' (c # cs))"

definition relative_to :: "fpath \<Rightarrow> fpath \<Rightarrow> fpath res" where
  "relative_to p base =
     (if take (length base) p = base then Inr (drop (length base) p)
      else Inl (ValueError (py_repr_str (path_str p) @ '' is not in the subpath of '' @ py_repr_str (path_str base))))"

section \<open>Commands\<close>

record compiler_env =
  ce_cwd :: fpath
  ce_sha256 :: "string \<Rightarrow> string"
  ce_parse_float :: "string \<Rightarrow> pyval"
  ce_yaml :: "string \<Rightarrow> pyval res"
  ce_fields :: "pydict \<Rightarrow> policy_spec res"
  ce_error_text :: "pyexc \<Rightarrow> string"

definition spec_invalid :: "string \<Rightarrow> pydict \<Rightarrow> pyexc" where
  "spec_invalid message details = FrameworkError ''policy_spec_invalid'' message details"

definition load_policy_spec :: "compiler_env \<Rightarrow> fpath \<Rightarrow> file_tree \<Rightarrow> policy_spec res" where
  "load_policy_spec env path t =
     rbind (read_text t (located (ce_cwd env) path)) (\<lambda>text.
     case ce_yaml env text of
       Inl e \<Rightarrow> Inl (spec_invalid ''Policy spec YAML is invalid''
                      [(''path'', PStr (path_str path)), (''reason'', PStr (ce_error_text env e))])
     | Inr (PDict parsed) \<Rightarrow>
         (case rbind (ce_fields env parsed) validate_references of
            Inl e \<Rightarrow> Inl (spec_invalid ''Policy spec validation failed''
                           [(''path'', PStr (path_str path)), (''reason'', PStr (ce_error_text env e))])
          | Inr s \<Rightarrow> Inr s)
     | Inr _ \<Rightarrow> Inl (spec_invalid ''Policy spec must decode to an object'' [(''path'', PStr (path_str path))]))"

definition python_path :: "fpath \<Rightarrow> policy_spec \<Rightarrow> fpath" where
  "python_path root_dir s = path_div root_dir (sp_generated_python_path s)"

definition circom_path :: "fpath \<Rightarrow> policy_spec \<Rightarrow> fpath" where
  "circom_path root_dir s = path_div root_dir (sp_generated_circom_path s)"

definition trace_path :: "fpath \<Rightarrow> policy_spec \<Rightarrow> fpath" where
  "trace_path root_dir s = path_div root_dir (debug_trace_path s)"

definition write_generated_artifacts ::
  "fpath \<Rightarrow> fpath \<Rightarrow> policy_spec \<Rightarrow> compiler_artifacts \<Rightarrow> (file_tree, fpath \<times> fpath \<times> fpath) prog" where
  "write_generated_artifacts cwd root_dir s a =
     (let py = located cwd (python_path root_dir s); cc = located cwd (circom_path root_dir s); tr = located cwd (trace_path root_dir s)
      in sthen (mkdir_p (butlast py))
         (sthen (mkdir_p (butlast cc))
         (sthen (mkdir_p (butlast tr))
         (sthen (write_text py (ca_python_source a))
         (sthen (write_text cc (ca_circom_source a))
         (sthen (write_text tr (ca_debug_trace_source a))
         (sret (python_path root_dir s, circom_path root_dir s, trace_path root_dir s))))))))"

definition sync_manifest_compiler_metadata :: "(string \<Rightarrow> pyval) \<Rightarrow> fpath \<Rightarrow> pydict \<Rightarrow> (file_tree, bool) prog" where
  "sync_manifest_compiler_metadata parse_float manifest metadata t =
     (if \<not> path_exists t manifest then (Inr False, t)
      else case read_text t manifest of
             Inl e \<Rightarrow> (Inl e, t)
           | Inr text \<Rightarrow>
               (case json_loads parse_float text of
                  Inr (PDict m) \<Rightarrow>
                    (if py_eq (dget m ''compiler_metadata'') (PDict metadata) then (Inr False, t)
                     else sthen (write_text manifest (json_dumps_indent 2 (PDict (dput ''compiler_metadata'' (PDict metadata) m)) @ NL))
                            (sret True) t)
                | _ \<Rightarrow> (Inr False, t)))"

definition manifest_metadata_matches :: "(string \<Rightarrow> pyval) \<Rightarrow> file_tree \<Rightarrow> fpath \<Rightarrow> pydict \<Rightarrow> bool res" where
  "manifest_metadata_matches parse_float t manifest expected =
     rbind (read_text t manifest) (\<lambda>text.
     Inr (case json_loads parse_float text of
            Inr (PDict m) \<Rightarrow> py_eq (dget m ''compiler_metadata'') (PDict expected)
          | _ \<Rightarrow> False))"

definition check_drift ::
  "(string \<Rightarrow> pyval) \<Rightarrow> fpath \<Rightarrow> fpath \<Rightarrow> policy_spec \<Rightarrow> compiler_artifacts \<Rightarrow> fpath option \<Rightarrow> file_tree \<Rightarrow> bool res" where
  "check_drift parse_float cwd root_dir s a manifest t =
     (let py = located cwd (python_path root_dir s); cc = located cwd (circom_path root_dir s); tr = located cwd (trace_path root_dir s)
      in if \<not> path_exists t py \<or> \<not> path_exists t cc \<or> \<not> path_exists t tr then Inr False
         else rbind (read_text t py) (\<lambda>committed_python.
              rbind (read_text t cc) (\<lambda>committed_circom.
              rbind (read_text t tr) (\<lambda>committed_debug_trace.
              if committed_python \<noteq> ca_python_source a \<or> committed_circom \<noteq> ca_circom_source a \<or>
                 committed_debug_trace \<noteq> ca_debug_trace_source a then Inr False
              else case manifest of
                     None \<Rightarrow> Inr True
                   | Some m \<Rightarrow> if \<not> path_exists t m then Inr True
                               else manifest_metadata_matches parse_float t m (compiler_metadata s a)))))"

datatype compiler_command =
    Validate string
  | Generate string string bool
  | CheckDrift string string

definition metadata_json ::
  "policy_spec \<Rightarrow> pydict \<Rightarrow> fpath \<Rightarrow> fpath \<times> fpath \<times> fpath \<Rightarrow> bool \<Rightarrow> string res" where
  "metadata_json s metadata root_dir paths updated =
     (case paths of (py, cc, tr) \<Rightarrow>
        rbind (relative_to py root_dir) (\<lambda>rpy.
        rbind (relative_to cc root_dir) (\<lambda>rcc.
        rbind (relative_to tr root_dir) (\<lambda>rtr.
        Inr (json_dumps (canon (PDict (dupdate (dupdate [(''policy_id'', PStr (sp_policy_id s))] metadata)
               [(''generated_python_path'', PStr (path_str rpy)), (''generated_circom_path'', PStr (path_str rcc)),
                (''generated_debug_trace_path'', PStr (path_str rtr)), (''manifest_updated'', PBool updated)]))))))))"

text \<open>The exit code and the printed lines.\<close>

definition compiler_main :: "compiler_env \<Rightarrow> compiler_command \<Rightarrow> (file_tree, int \<times> string list) prog" where
  "compiler_main env cmd =
     (case cmd of
        Validate spec_path \<Rightarrow>
          sbind (\<lambda>t. (load_policy_spec env (path_parts spec_path) t, t)) (\<lambda>s.
          sret (0, [''valid:'' @ path_str (path_parts spec_path)]))
      | Generate spec_path repo_root print_metadata_json \<Rightarrow>
          (let spec = path_parts spec_path; root_dir = path_parts repo_root; manifest_path = butlast spec @ [''manifest.json'']
           in sbind (\<lambda>t. (load_policy_spec env spec t, t)) (\<lambda>s.
              sbind (slift (generate_policy_artifacts (ce_sha256 env) s)) (\<lambda>a.
              sbind (write_generated_artifacts (ce_cwd env) root_dir s a) (\<lambda>paths.
              sbind (sync_manifest_compiler_metadata (ce_parse_float env) (located (ce_cwd env) manifest_path) (compiler_metadata s a)) (\<lambda>updated.
              if print_metadata_json
              then sbind (slift (metadata_json s (compiler_metadata s a) root_dir paths updated)) (\<lambda>line. sret (0, [line]))
              else case paths of (py, cc, tr) \<Rightarrow>
                     sret (0, [''generated:'' @ path_str py, ''generated:'' @ path_str cc, ''generated:'' @ path_str tr] @
                              (if updated then [''manifest_updated:'' @ path_str manifest_path] else [])))))))
      | CheckDrift spec_path repo_root \<Rightarrow>
          (let spec = path_parts spec_path; root_dir = path_parts repo_root; manifest_path = butlast spec @ [''manifest.json'']
           in sbind (\<lambda>t. (load_policy_spec env spec t, t)) (\<lambda>s.
              sbind (slift (generate_policy_artifacts (ce_sha256 env) s)) (\<lambda>a.
              sbind (\<lambda>t. (check_drift (ce_parse_float env) (ce_cwd env) root_dir s a (Some (located (ce_cwd env) manifest_path)) t, t)) (\<lambda>same.
              sret (if same then (0, [''drift:none'']) else (1, [''drift:detected''])))))))"

section \<open>Texts survive text mode\<close>

lemma text_mode_no_cr: "no_cr s \<Longrightarrow> text_mode False s = s"
  by (induction s) simp_all

lemma read_text_written:
  "map_of (ft_files t) p = Some content \<Longrightarrow> p \<notin> set (ft_dirs t) \<Longrightarrow> no_cr content \<Longrightarrow> read_text t p = Inr content"
  by (simp add: read_text_def text_mode_no_cr)

lemma float_free_list_append [simp]: "float_free_list (xs @ ys) = (float_free_list xs \<and> float_free_list ys)"
  by (induction xs) simp_all

lemma float_free_rule: "float_free (debug_rule n path ce)"
proof -
  have "float_free (serialize_value v)" for v by (simp add: serialize_value_def split: option.splits)
  moreover have "float_free_list (map PStr xs)" for xs by (induction xs) simp_all
  ultimately show ?thesis by (simp add: debug_rule_def py_strs_def)
qed

lemma float_free_rules:
  "debug_collect_rules e path rules = Inr rs \<Longrightarrow> float_free_list rules \<Longrightarrow> float_free_list rs"
  "debug_collect_rules_args es idx path rules = Inr rs \<Longrightarrow> float_free_list rules \<Longrightarrow> float_free_list rs"
proof (induction e path rules and es idx path rules arbitrary: rs and rs
         rule: debug_collect_rules_debug_collect_rules_args.induct)
  case (1 k c as i path rules)
  then show ?case by (auto simp: float_free_rule split: if_splits option.splits)
next
  case (3 e es idx path rules)
  from "3.prems"(1) obtain qs where "debug_collect_rules e (arg_path path idx) rules = Inr qs"
    "debug_collect_rules_args es (Suc idx) path qs = Inr rs" by (auto simp: rbind_eq_Inr)
  with 3 show ?case by blast
qed simp

lemma float_free_opt_int [simp]: "float_free (opt_int v)"
  by (simp add: opt_int_def split: option.splits)

lemma debug_trace_no_cr:
  assumes "render_debug_trace s h = Inr txt"
  shows "no_cr txt"
proof -
  from assms obtain p where p: "debug_trace_payload s h = Inr p" and t: "txt = json_dumps_indent 2 (canon p) @ NL"
    by (auto simp: render_debug_trace_def rbind_eq_Inr)
  have "float_free_list (map (\<lambda>(idx, name, q). PDict [(''name'', PStr name), (''index'', PInt (int idx)), (''minimum'', opt_int (ps_minimum q)),
          (''maximum'', opt_int (ps_maximum q)), (''default'', opt_int (ps_default q))]) xs)" for xs
    by (induction xs) auto
  moreover have rules: "float_free_list rs" if "debug_collect_rules e path [] = Inr rs" for e path rs
    using float_free_rules(1) [OF that] by simp
  ultimately have "float_free p" using p by (auto simp: debug_trace_payload_def rbind_eq_Inr split: option.splits intro: rules)
  then show ?thesis unfolding t by (simp add: json_dumps_indent_def layout_no_cr NL_def)
qed

lemma no_cr_join [simp]: "list_all no_cr xs \<Longrightarrow> no_cr sep \<Longrightarrow> no_cr (py_join sep xs)"
  by (induction sep xs rule: py_join.induct) simp_all

lemma no_cr_DQ [simp]: "no_cr DQ" "no_cr NL" by (simp_all add: DQ_def NL_def)
lemma template_no_cr: "list_all no_cr normalize_text" "list_all no_cr resolve_text"
  by (simp_all add: normalize_text_def resolve_text_def)
lemma methods_no_cr: "no_cr decision \<Longrightarrow> no_cr outs \<Longrightarrow> list_all no_cr (methods_text s decision outs)"
  by (simp add: methods_text_def policy_params_line_def policy_input_lines_def)

lemma python_source_no_cr:
  assumes "render_python_source s h = Inr p" "no_cr h" "no_cr (sp_compiler_version s)" "no_cr (sp_policy_id s)" "no_cr (sp_reference_policy s)"
    "\<And>d. python_decision_text s = Inr d \<Longrightarrow> no_cr d" "\<And>ls. render_output_lines s = Inr ls \<Longrightarrow> no_cr ls"
  shows "no_cr p"
proof -
  have "float_free_list (map PStr xs)" for xs by (induction xs) simp_all
  moreover have "float_free_dict (map (\<lambda>(name, q). (name, PDict [(''minimum'', opt_int (ps_minimum q)), (''maximum'', opt_int (ps_maximum q)),
      (''default'', opt_int (ps_default q))])) xs)" for xs by (induction xs) auto
  ultimately have "no_cr (json_layout default_style 0 (PList (map PStr (parameter_order s))))" "no_cr (json_layout default_style 0 (canon (parameter_specs s)))"
    by (intro layout_no_cr(1); simp add: parameter_specs_def)+
  then have "list_all no_cr (module_head s h)" using assms(2-5) by (simp add: module_head_def json_dumps_def)
  then show ?thesis
    using assms(1,6,7) template_no_cr methods_no_cr by (auto simp: render_python_source_def rbind_eq_Inr)
qed

section \<open>Directories and files stay apart\<close>

definition tree_ok :: "file_tree \<Rightarrow> bool" where
  "tree_ok t = list_all (\<lambda>p. map_of (ft_files t) p = None) (ft_dirs t)"

lemma tree_ok_file: "tree_ok t \<Longrightarrow> map_of (ft_files t) p = Some c \<Longrightarrow> p \<notin> set (ft_dirs t)"
  by (auto simp: tree_ok_def list_all_iff)

definition parents_made :: "file_tree \<Rightarrow> fpath \<Rightarrow> bool" where
  "parents_made t dir = (set (dir_prefixes dir) \<subseteq> set (ft_dirs t))"

lemma set_fold_insert: "set (fold List.insert xs ys) = set xs \<union> set ys"
  by (induction xs arbitrary: ys) auto

lemma fold_insert_same: "set xs \<subseteq> set ys \<Longrightarrow> fold List.insert xs ys = ys"
  by (induction xs) auto

lemma mkdir_made:
  assumes "mkdir_p dir t = (Inr u, t')" "tree_ok t"
  shows "tree_ok t' \<and> parents_made t' dir \<and> ft_files t' = ft_files t \<and> set (ft_dirs t) \<subseteq> set (ft_dirs t')"
  using assms by (auto simp: mkdir_p_def set_fold_insert tree_ok_def list_all_iff list_ex_iff parents_made_def split: if_splits)

lemma mkdir_again:
  assumes "tree_ok t" "parents_made t dir"
  shows "mkdir_p dir t = (Inr (), t)"
  using assms by (auto simp: mkdir_p_def fold_insert_same tree_ok_def list_all_iff list_ex_iff parents_made_def)

lemma write_done:
  assumes "write_text p c t = (Inr u, t')" "tree_ok t"
  shows "tree_ok t' \<and> map_of (ft_files t') = (map_of (ft_files t))(p \<mapsto> c) \<and> ft_dirs t' = ft_dirs t \<and> butlast p \<in> set (ft_dirs t)"
  using assms by (auto simp: write_text_def tree_ok_def list_all_iff update_conv' split: if_splits)

lemma write_again:
  "map_of (ft_files t) p = Some c \<Longrightarrow> tree_ok t \<Longrightarrow> butlast p \<in> set (ft_dirs t) \<Longrightarrow> write_text p c t = (Inr (), t)"
  using tree_ok_file [of t p c] by (simp add: write_text_def update_triv)

section \<open>Writing the artifacts\<close>

definition artifacts_on_disk :: "fpath \<Rightarrow> fpath \<Rightarrow> policy_spec \<Rightarrow> compiler_artifacts \<Rightarrow> file_tree \<Rightarrow> bool" where
  "artifacts_on_disk cwd root_dir s a t =
     list_all (\<lambda>(p, content). map_of (ft_files t) p = Some content \<and> parents_made t (butlast p) \<and> butlast p \<in> set (ft_dirs t))
       [(located cwd (python_path root_dir s), ca_python_source a), (located cwd (circom_path root_dir s), ca_circom_source a),
        (located cwd (trace_path root_dir s), ca_debug_trace_source a)]"

lemma parents_made_mono: "parents_made t dir \<Longrightarrow> set (ft_dirs t) \<subseteq> set (ft_dirs t') \<Longrightarrow> parents_made t' dir"
  by (auto simp: parents_made_def)

lemma artifacts_written:
  assumes w: "write_generated_artifacts cwd root_dir s a t = (Inr paths, t')" and t: "tree_ok t"
    and d: "distinct [located cwd (python_path root_dir s), located cwd (circom_path root_dir s), located cwd (trace_path root_dir s)]"
  shows "paths = (python_path root_dir s, circom_path root_dir s, trace_path root_dir s)" "tree_ok t'"
    "artifacts_on_disk cwd root_dir s a t'"
    "q \<notin> {located cwd (python_path root_dir s), located cwd (circom_path root_dir s), located cwd (trace_path root_dir s)} \<Longrightarrow>
     map_of (ft_files t') q = map_of (ft_files t) q"
proof -
  let ?py = "located cwd (python_path root_dir s)" and ?cc = "located cwd (circom_path root_dir s)" and ?tr = "located cwd (trace_path root_dir s)"
  from w obtain t1 t2 t3 t4 t5 where
    m: "mkdir_p (butlast ?py) t = (Inr (), t1)" "mkdir_p (butlast ?cc) t1 = (Inr (), t2)" "mkdir_p (butlast ?tr) t2 = (Inr (), t3)"
    and ws: "write_text ?py (ca_python_source a) t3 = (Inr (), t4)" "write_text ?cc (ca_circom_source a) t4 = (Inr (), t5)"
      "write_text ?tr (ca_debug_trace_source a) t5 = (Inr (), t')"
    and paths: "paths = (python_path root_dir s, circom_path root_dir s, trace_path root_dir s)"
    by (auto simp: write_generated_artifacts_def Let_def sthen_eq_Inr sret_def)
  note m1 = mkdir_made [OF m(1) t]
  note m2 = mkdir_made [OF m(2) m1 [THEN conjunct1]]
  note m3 = mkdir_made [OF m(3) m2 [THEN conjunct1]]
  note w1 = write_done [OF ws(1) m3 [THEN conjunct1]]
  note w2 = write_done [OF ws(2) w1 [THEN conjunct1]]
  note w3 = write_done [OF ws(3) w2 [THEN conjunct1]]
  have dirs: "set (ft_dirs t1) \<subseteq> set (ft_dirs t')" "set (ft_dirs t2) \<subseteq> set (ft_dirs t')" "set (ft_dirs t3) \<subseteq> set (ft_dirs t')"
    using m1 m2 m3 w1 w2 w3 by auto
  show "paths = (python_path root_dir s, circom_path root_dir s, trace_path root_dir s)" "tree_ok t'" using paths w3 by simp_all
  show "artifacts_on_disk cwd root_dir s a t'"
    using m1 m2 m3 w1 w2 w3 d dirs parents_made_mono by (auto simp: artifacts_on_disk_def)
  show "map_of (ft_files t') q = map_of (ft_files t) q" if "q \<notin> {?py, ?cc, ?tr}"
    using that m1 m2 m3 w1 w2 w3 by simp
qed

lemma artifacts_dirs:
  assumes "write_generated_artifacts cwd root_dir s a t = (Inr paths, t')" "tree_ok t"
  shows "set (ft_dirs t) \<subseteq> set (ft_dirs t')"
  using assms
  by (auto simp: write_generated_artifacts_def Let_def sthen_eq_Inr sret_def mkdir_p_def write_text_def set_fold_insert split: if_splits)

lemma artifacts_again:
  assumes "tree_ok t" "artifacts_on_disk cwd root_dir s a t"
  shows "write_generated_artifacts cwd root_dir s a t = (Inr (python_path root_dir s, circom_path root_dir s, trace_path root_dir s), t)"
  using assms
  by (simp add: artifacts_on_disk_def write_generated_artifacts_def Let_def sthen_def sbind_def sret_def mkdir_again write_again)

lemma artifacts_no_cr_trace: "generate_policy_artifacts sha256 s = Inr a \<Longrightarrow> no_cr (ca_debug_trace_source a)"
  by (auto simp: generate_policy_artifacts_def Let_def rbind_eq_Inr dest: debug_trace_no_cr)

section \<open>The manifest\<close>

definition manifest_object :: "(string \<Rightarrow> pyval) \<Rightarrow> file_tree \<Rightarrow> fpath \<Rightarrow> pydict option" where
  "manifest_object pf t m =
     (case read_text t m of
        Inl _ \<Rightarrow> None
      | Inr content \<Rightarrow> (case json_loads pf content of Inr (PDict d) \<Rightarrow> Some d | _ \<Rightarrow> None))"

definition in_step :: "(string \<Rightarrow> pyval) \<Rightarrow> file_tree \<Rightarrow> fpath \<Rightarrow> pydict \<Rightarrow> bool" where
  "in_step pf t m metadata =
     (case manifest_object pf t m of None \<Rightarrow> True | Some d \<Rightarrow> py_eq (dget d ''compiler_metadata'') (PDict metadata))"

lemma metadata_eq: "py_eq (PDict (compiler_metadata s a)) (PDict (compiler_metadata s a))"
  by (simp add: compiler_metadata_def)

lemma metadata_ok: "float_free (PDict (compiler_metadata s a))" "keys_ok (PDict (compiler_metadata s a))"
  by (simp_all add: compiler_metadata_def)

lemma float_free_dput: "float_free v \<Longrightarrow> float_free_dict d \<Longrightarrow> float_free_dict (dput k v d)"
  by (induction d) auto

lemma manifest_written:
  assumes "float_free (PDict d)" "keys_ok (PDict d)" "write_text m (json_dumps_indent 2 (PDict (dput ''compiler_metadata'' (PDict (compiler_metadata s a)) d)) @ NL) t = (Inr u, t')"
    "tree_ok t"
  shows "manifest_object pf t' m = Some (dput ''compiler_metadata'' (PDict (compiler_metadata s a)) d)"
proof -
  let ?d = "dput ''compiler_metadata'' (PDict (compiler_metadata s a)) d"
  have f: "float_free (PDict ?d)" "keys_ok (PDict ?d)"
    using assms(1,2) metadata_ok [of s a] by (simp_all add: float_free_dput keys_ok_dput distinct_dput)
  have "no_cr (json_dumps_indent 2 (PDict ?d) @ NL)"
    using layout_no_cr(1) [OF style_plain(2) f(1)] by (simp add: json_dumps_indent_def NL_def)
  moreover note written = write_done [OF assms(3,4)]
  ultimately have "read_text t' m = Inr (json_dumps_indent 2 (PDict ?d) @ NL)"
    using tree_ok_file [of t' m] by (intro read_text_written) auto
  moreover have "json_loads pf (json_dumps_indent 2 (PDict ?d) @ NL) = Inr (PDict ?d)"
    unfolding json_dumps_indent_def by (rule json_loads_layout [OF style_ok(3) f]) (simp add: NL_def json_ws_def)
  ultimately show ?thesis by (simp add: manifest_object_def)
qed

lemma synced:
  assumes "sync_manifest_compiler_metadata pf m (compiler_metadata s a) t = (Inr b, t')" "tree_ok t"
    and pf: "\<And>x. keys_ok (pf x)" and ff: "\<And>d. manifest_object pf t m = Some d \<Longrightarrow> float_free (PDict d)"
  shows "tree_ok t' \<and> in_step pf t' m (compiler_metadata s a) \<and> path_exists t' m = path_exists t m \<and>
    (manifest_object pf t' m = None) = (manifest_object pf t m = None) \<and> ft_dirs t' = ft_dirs t \<and>
    (path_exists t m \<longrightarrow> (\<exists>content. read_text t' m = Inr content)) \<and> (\<forall>q. q \<noteq> m \<longrightarrow> map_of (ft_files t') q = map_of (ft_files t) q)"
proof (cases b)
  case False
  with assms(1,2) show ?thesis
    by (auto simp: sync_manifest_compiler_metadata_def in_step_def manifest_object_def sthen_eq_Inr sret_def read_text_def path_exists_def
             split: if_splits sum.splits pyval.splits option.splits)
next
  case True
  with assms(1) obtain content d u where r: "path_exists t m" "read_text t m = Inr content" "json_loads pf content = Inr (PDict d)"
    and w: "write_text m (json_dumps_indent 2 (PDict (dput ''compiler_metadata'' (PDict (compiler_metadata s a)) d)) @ NL) t = (Inr u, t')"
    by (auto simp: sync_manifest_compiler_metadata_def sthen_eq_Inr sret_def split: if_splits sum.splits pyval.splits)
  have d: "manifest_object pf t m = Some d" using r by (simp add: manifest_object_def)
  have "keys_ok (PDict d)" using json_loads_keys_ok [OF pf r(3)] .
  note new = manifest_written [OF ff [OF d] this w assms(2), of pf] and written = write_done [OF w assms(2)]
  have "read_text t' m = Inr (text_mode False c)" if "map_of (ft_files t') m = Some c" for c
    using that written tree_ok_file [of t' m c] by (simp add: read_text_def)
  with new d r(1) written metadata_eq [of s a] show ?thesis by (auto simp: in_step_def path_exists_def)
qed

lemma sync_again:
  assumes "in_step pf t m metadata" "path_exists t m \<Longrightarrow> \<exists>content. read_text t m = Inr content"
  shows "sync_manifest_compiler_metadata pf m metadata t = (Inr False, t)"
  using assms
  by (auto simp: sync_manifest_compiler_metadata_def in_step_def manifest_object_def split: sum.splits pyval.splits)

lemma no_drift:
  assumes "artifacts_on_disk cwd root_dir s a t" "tree_ok t" "no_cr (ca_python_source a)" "no_cr (ca_circom_source a)" "no_cr (ca_debug_trace_source a)"
    "in_step pf t m (compiler_metadata s a)" "path_exists t m \<Longrightarrow> \<exists>content. read_text t m = Inr content"
  shows "check_drift pf cwd root_dir s a (Some m) t = Inr (\<not> path_exists t m \<or> manifest_object pf t m \<noteq> None)"
proof -
  have "read_text t (located cwd (python_path root_dir s)) = Inr (ca_python_source a)"
    "read_text t (located cwd (circom_path root_dir s)) = Inr (ca_circom_source a)"
    "read_text t (located cwd (trace_path root_dir s)) = Inr (ca_debug_trace_source a)"
    using assms(1-5) tree_ok_file [OF assms(2)] by (auto simp: artifacts_on_disk_def intro!: read_text_written)
  moreover have "path_exists t (located cwd (python_path root_dir s))" "path_exists t (located cwd (circom_path root_dir s))"
    "path_exists t (located cwd (trace_path root_dir s))"
    using assms(1) by (simp_all add: artifacts_on_disk_def path_exists_def)
  ultimately show ?thesis
    using assms(6,7)
    by (auto simp: check_drift_def Let_def manifest_metadata_matches_def in_step_def manifest_object_def split: sum.splits pyval.splits)
qed

lemma artifacts_on_disk_cong:
  assumes "artifacts_on_disk cwd root_dir s a t" "ft_dirs t' = ft_dirs t"
    "\<And>q. q \<in> {located cwd (python_path root_dir s), located cwd (circom_path root_dir s), located cwd (trace_path root_dir s)} \<Longrightarrow>
      map_of (ft_files t') q = map_of (ft_files t) q"
  shows "artifacts_on_disk cwd root_dir s a t'"
  using assms by (simp add: artifacts_on_disk_def parents_made_def)

section \<open>Generated files do not drift\<close>

definition spec_file :: "compiler_env \<Rightarrow> string \<Rightarrow> fpath" where
  "spec_file env spec_path = located (ce_cwd env) (path_parts spec_path)"

definition manifest_file :: "compiler_env \<Rightarrow> string \<Rightarrow> fpath" where
  "manifest_file env spec_path = located (ce_cwd env) (butlast (path_parts spec_path) @ [''manifest.json''])"

definition target_files :: "compiler_env \<Rightarrow> string \<Rightarrow> policy_spec \<Rightarrow> fpath list" where
  "target_files env repo_root s =
     map (located (ce_cwd env)) [python_path (path_parts repo_root) s, circom_path (path_parts repo_root) s, trace_path (path_parts repo_root) s]"

lemma load_same:
  "map_of (ft_files t') (spec_file env p) = map_of (ft_files t) (spec_file env p) \<Longrightarrow>
   tree_ok t \<Longrightarrow> tree_ok t' \<Longrightarrow> load_policy_spec env (path_parts p) t = Inr s \<Longrightarrow> load_policy_spec env (path_parts p) t' = Inr s"
  using tree_ok_file [of t' "spec_file env p"]
  by (auto simp: load_policy_spec_def read_text_def spec_file_def split: if_splits option.splits)

lemma generate_steps:
  "compiler_main env (Generate spec_path repo_root pj) t = (Inr r, t') \<longleftrightarrow>
   (\<exists>s a paths t1 updated. load_policy_spec env (path_parts spec_path) t = Inr s \<and>
    generate_policy_artifacts (ce_sha256 env) s = Inr a \<and>
    write_generated_artifacts (ce_cwd env) (path_parts repo_root) s a t = (Inr paths, t1) \<and>
    sync_manifest_compiler_metadata (ce_parse_float env) (manifest_file env spec_path) (compiler_metadata s a) t1 = (Inr updated, t') \<and>
    (if pj then \<exists>line. metadata_json s (compiler_metadata s a) (path_parts repo_root) paths updated = Inr line \<and> r = (0, [line])
     else r = (0, [''generated:'' @ path_str (fst paths), ''generated:'' @ path_str (fst (snd paths)), ''generated:'' @ path_str (snd (snd paths))] @
            (if updated then [''manifest_updated:'' @ path_str (butlast (path_parts spec_path) @ [''manifest.json''])] else []))))"
  by (auto simp: compiler_main_def Let_def sbind_eq_Inr slift_def sret_def manifest_file_def split: if_splits prod.splits)

lemma metadata_json_flag:
  "metadata_json s md root_dir paths u = Inr l \<Longrightarrow> \<exists>l'. metadata_json s md root_dir paths u' = Inr l'"
  by (auto simp: metadata_json_def rbind_eq_Inr split: prod.splits)

lemma read_text_not_dir: "read_text t p = Inr c \<Longrightarrow> p \<notin> set (ft_dirs t) \<and> path_exists t p"
  by (auto simp: read_text_def path_exists_def split: if_splits option.splits)

lemma sync_writes:
  "read_text t m = Inr content \<Longrightarrow> butlast m \<in> set (ft_dirs t) \<Longrightarrow> \<exists>u t'. sync_manifest_compiler_metadata pf m metadata t = (Inr u, t')"
  using read_text_not_dir [of t m content]
  by (auto simp: sync_manifest_compiler_metadata_def sthen_def sbind_def sret_def write_text_def split: sum.splits pyval.splits)

lemma generate_succeeds:
  assumes "load_policy_spec env (path_parts spec_path) t = Inr s" "generate_policy_artifacts (ce_sha256 env) s = Inr a"
    "\<not> isl (fst (write_generated_artifacts (ce_cwd env) (path_parts repo_root) s a t))"
    "read_text (snd (write_generated_artifacts (ce_cwd env) (path_parts repo_root) s a t)) (manifest_file env spec_path) = Inr content"
    "butlast (manifest_file env spec_path) \<in> set (ft_dirs (snd (write_generated_artifacts (ce_cwd env) (path_parts repo_root) s a t)))"
  shows "\<exists>out t'. compiler_main env (Generate spec_path repo_root False) t = (Inr (0, out), t')"
proof (cases "write_generated_artifacts (ce_cwd env) (path_parts repo_root) s a t")
  case (Pair r t1)
  with assms(3) obtain paths where w: "write_generated_artifacts (ce_cwd env) (path_parts repo_root) s a t = (Inr paths, t1)"
    by (cases r) auto
  from sync_writes [OF assms(4,5), unfolded w snd_conv] obtain u t'
    where "sync_manifest_compiler_metadata (ce_parse_float env) (manifest_file env spec_path) (compiler_metadata s a) t1 = (Inr u, t')"
    by blast
  with assms(1,2) w show ?thesis by (cases paths) (auto simp: generate_steps)
qed

lemma generated_state:
  assumes gen: "compiler_main env (Generate spec_path repo_root pj) t = (Inr (code, out), t')" and t: "tree_ok t"
    and s: "load_policy_spec env (path_parts spec_path) t = Inr s" and a: "generate_policy_artifacts (ce_sha256 env) s = Inr a"
    and d: "distinct (target_files env repo_root s @ [manifest_file env spec_path, spec_file env spec_path])"
    and pf: "\<And>x. keys_ok (ce_parse_float env x)"
    and ff: "\<And>d. manifest_object (ce_parse_float env) t (manifest_file env spec_path) = Some d \<Longrightarrow> float_free (PDict d)"
  shows "code = 0 \<and> load_policy_spec env (path_parts spec_path) t' = Inr s \<and>
    artifacts_on_disk (ce_cwd env) (path_parts repo_root) s a t' \<and> tree_ok t' \<and>
    in_step (ce_parse_float env) t' (manifest_file env spec_path) (compiler_metadata s a) \<and>
    path_exists t' (manifest_file env spec_path) = path_exists t (manifest_file env spec_path) \<and>
    (manifest_object (ce_parse_float env) t' (manifest_file env spec_path) = None) =
    (manifest_object (ce_parse_float env) t (manifest_file env spec_path) = None) \<and>
    (path_exists t' (manifest_file env spec_path) \<longrightarrow> (\<exists>content. read_text t' (manifest_file env spec_path) = Inr content)) \<and>
    (pj \<longrightarrow> (\<exists>line. metadata_json s (compiler_metadata s a) (path_parts repo_root)
       (python_path (path_parts repo_root) s, circom_path (path_parts repo_root) s, trace_path (path_parts repo_root) s) False = Inr line))"
proof -
  let ?m = "manifest_file env spec_path" and ?pf = "ce_parse_float env" and ?root = "path_parts repo_root" and ?cwd = "ce_cwd env"
  from gen s a obtain paths t1 upd where w: "write_generated_artifacts ?cwd ?root s a t = (Inr paths, t1)"
    and sy: "sync_manifest_compiler_metadata ?pf ?m (compiler_metadata s a) t1 = (Inr upd, t')"
    and code: "code = 0" and js: "pj \<Longrightarrow> \<exists>line. metadata_json s (compiler_metadata s a) ?root paths upd = Inr line"
    unfolding generate_steps by (auto split: if_splits)
  have d3: "distinct [located ?cwd (python_path ?root s), located ?cwd (circom_path ?root s), located ?cwd (trace_path ?root s)]"
    using d by (simp add: target_files_def)
  note aw = artifacts_written [OF w t d3]
  have tf: "set (target_files env repo_root s) =
      {located ?cwd (python_path ?root s), located ?cwd (circom_path ?root s), located ?cwd (trace_path ?root s)}"
    by (simp add: target_files_def)
  have ne: "?m \<notin> set (target_files env repo_root s)" "spec_file env spec_path \<notin> set (target_files env repo_root s)" "?m \<noteq> spec_file env spec_path"
    using d by auto
  have other: "map_of (ft_files t1) ?m = map_of (ft_files t) ?m" "map_of (ft_files t1) (spec_file env spec_path) = map_of (ft_files t) (spec_file env spec_path)"
    using aw(4) ne(1,2) unfolding tf by blast+
  have dirs: "set (ft_dirs t) \<subseteq> set (ft_dirs t1)" by (rule artifacts_dirs [OF w t])
  have "?m \<notin> set (ft_dirs t1)" using sy by (auto simp: sync_manifest_compiler_metadata_def path_exists_def read_text_def split: if_splits)
  then have same: "path_exists t1 ?m = path_exists t ?m" "manifest_object ?pf t1 ?m = manifest_object ?pf t ?m"
    using other(1) dirs by (auto simp: path_exists_def manifest_object_def read_text_def)
  note sd = synced [OF sy aw(2) pf ff [unfolded same(2) [symmetric]]]
  have disk: "artifacts_on_disk ?cwd ?root s a t'"
    using sd ne(1) unfolding tf by (intro artifacts_on_disk_cong [OF aw(3)]) (auto simp del: map_of_eq_None_iff)
  have load: "load_policy_spec env (path_parts spec_path) t' = Inr s"
    using sd ne(3) other(2) by (intro load_same [OF _ t _ s]) simp_all
  have "pj \<longrightarrow> (\<exists>line. metadata_json s (compiler_metadata s a) ?root (python_path ?root s, circom_path ?root s, trace_path ?root s) False = Inr line)"
    using js metadata_json_flag [of s "compiler_metadata s a" ?root paths upd _ False] unfolding aw(1) by auto
  with code load disk sd same show ?thesis by auto
qed

text \<open>
  C17. After \<open>generate\<close>, \<open>check-drift\<close> finds no drift: it exits with 0 on the files that \<open>generate\<close> left, unless there
  is a manifest that is not a JSON object, which \<open>generate\<close> leaves as it is; and generating again
  changes no file. The sources are read in text mode, so they must not hold carriage returns, which for the debug
  trace and the manifest is shown; the paths written must differ from each other and from the
  specification, and the manifest holds no floats.
\<close>

theorem generated_files_do_not_drift:
  assumes gen: "compiler_main env (Generate spec_path repo_root pj) t = (Inr (code, out), t')" and t: "tree_ok t"
    and s: "load_policy_spec env (path_parts spec_path) t = Inr s" and a: "generate_policy_artifacts (ce_sha256 env) s = Inr a"
    and cr: "no_cr (ca_python_source a)" "no_cr (ca_circom_source a)"
    and d: "distinct (target_files env repo_root s @ [manifest_file env spec_path, spec_file env spec_path])"
    and pf: "\<And>x. keys_ok (ce_parse_float env x)"
    and ff: "\<And>d. manifest_object (ce_parse_float env) t (manifest_file env spec_path) = Some d \<Longrightarrow> float_free (PDict d)"
  shows "code = 0 \<and>
    compiler_main env (CheckDrift spec_path repo_root) t' =
       (Inr (if path_exists t (manifest_file env spec_path) \<and> manifest_object (ce_parse_float env) t (manifest_file env spec_path) = None
             then (1, [''drift:detected'']) else (0, [''drift:none''])), t') \<and>
    (\<exists>out'. compiler_main env (Generate spec_path repo_root pj) t' = (Inr (0, out'), t'))"
proof -
  let ?m = "manifest_file env spec_path" and ?pf = "ce_parse_float env" and ?root = "path_parts repo_root" and ?cwd = "ce_cwd env"
  note g = generated_state [OF gen t s a d pf ff]
  have drift: "check_drift ?pf ?cwd ?root s a (Some ?m) t' = Inr (\<not> path_exists t ?m \<or> manifest_object ?pf t ?m \<noteq> None)"
    using g no_drift [OF _ _ cr artifacts_no_cr_trace [OF a], of ?cwd ?root s t' ?pf ?m] by auto
  have "sync_manifest_compiler_metadata ?pf ?m (compiler_metadata s a) t' = (Inr False, t')" using g by (intro sync_again) auto
  moreover have "write_generated_artifacts ?cwd ?root s a t' = (Inr (python_path ?root s, circom_path ?root s, trace_path ?root s), t')"
    using artifacts_again g by blast
  ultimately have "\<exists>out'. compiler_main env (Generate spec_path repo_root pj) t' = (Inr (0, out'), t')"
    using g a by (cases pj) (auto simp: generate_steps)
  moreover have "compiler_main env (CheckDrift spec_path repo_root) t' =
       (Inr (if path_exists t ?m \<and> manifest_object ?pf t ?m = None then (1, [''drift:detected'']) else (0, [''drift:none''])), t')"
    using g a drift by (auto simp: compiler_main_def Let_def sbind_def slift_def sret_def manifest_file_def)
  ultimately show ?thesis using g by blast
qed

section \<open>The shipped specification compiled\<close>

definition demo_compiler :: compiler_env where
  "demo_compiler =
     \<lparr>ce_cwd = [''/'', ''repo''], ce_sha256 = (\<lambda>x. show_nat (length x)), ce_parse_float = (\<lambda>x. PFloat None ''nan''),
      ce_yaml = (\<lambda>x. Inr (PDict [])), ce_fields = (\<lambda>d. Inr lending_risk_spec), ce_error_text = (\<lambda>e. [])\<rparr>"

definition demo_tree :: file_tree where
  "demo_tree =
     \<lparr>ft_files = [([''/'', ''repo'', ''pack'', ''policy_spec.yaml''], []), ([''/'', ''repo'', ''pack'', ''manifest.json''], ''{}'')],
      ft_dirs = [[''/''], [''/'', ''repo''], [''/'', ''repo'', ''pack'']]\<rparr>"

definition demo_spec :: policy_spec where
  "demo_spec = lending_risk_spec\<lparr>sp_generated_debug_trace_path := Some ''policy_packs/lending_risk_v1/generated/lending_risk_v1.generated.debug.json''\<rparr>"

lemma demo_root:
  "sp_decision demo_spec = lending_risk_decision"
  "build_root KAll (DecisionExpr KComparison
       (Some \<lparr>cmp_op = OpGt, cmp_left = \<lparr>vr_ref = Some ''balances'', vr_param = None, vr_const_int = None\<rparr>,
              cmp_right = \<lparr>vr_ref = Some ''limits'', vr_param = None, vr_const_int = None\<rparr>\<rparr>) [] None) =
     Inr (0, [\<lparr>an_aggregate_id = 0, an_kind = KAll, an_expression = ''cmp_0[i_0].out'',
                an_comparison_nodes =
                  [\<lparr>cn_node_id = 0, cn_op = OpGt, cn_left = \<lparr>vr_ref = Some ''balances'', vr_param = None, vr_const_int = None\<rparr>,
                    cn_right = \<lparr>vr_ref = Some ''limits'', vr_param = None, vr_const_int = None\<rparr>\<rparr>]\<rparr>])"
  by code_simp+

lemma demo_values: "render_circom_value \<lparr>vr_ref = Some ''balances'', vr_param = None, vr_const_int = None\<rparr> v [] = Inr (''balances['' @ v @ '']'')"
  "render_circom_value \<lparr>vr_ref = Some ''limits'', vr_param = None, vr_const_int = None\<rparr> v [] = Inr (''limits['' @ v @ '']'')"
  by (simp_all add: render_circom_value_def)

lemma demo_circom: "no_cr h \<Longrightarrow> \<exists>c. render_circom_source demo_spec h = Inr c \<and> no_cr c"
  by (simp add: render_circom_source_def demo_root(1) lending_risk_decision_def demo_root(2) demo_values render_circom_aggregate_block_def
    render_output_assignments_def decision_lines_def render_cmp_lines_def sig_def loop_name_def zero_tail_lines_def aggregate_declarations_def
    render_output_declarations_def demo_spec_def lending_risk_spec_def parameter_inputs_def parameter_declarations_def parameter_constraints_def Let_def)

lemma demo_python:
  "python_decision_text demo_spec = Inr ''all(((balances[idx_0] > limits[idx_0])) for idx_0 in range(active_count))''"
  "\<exists>ls. render_output_lines demo_spec = Inr ls \<and> no_cr ls"
  by code_simp (simp add: render_output_lines_def demo_spec_def lending_risk_spec_def)

lemma demo_trace: "\<exists>x. render_debug_trace demo_spec h = Inr x"
  by (simp add: render_debug_trace_def debug_trace_payload_def demo_root(1) lending_risk_decision_def)

lemma demo_artifacts: "\<exists>a. generate_policy_artifacts (ce_sha256 demo_compiler) demo_spec = Inr a \<and> no_cr (ca_python_source a) \<and> no_cr (ca_circom_source a)"
proof -
  define h where "h = ce_sha256 demo_compiler (canonical_json (dump_spec demo_spec))"
  have h: "no_cr h" by (simp add: h_def demo_compiler_def)
  obtain c where c: "render_circom_source demo_spec h = Inr c" "no_cr c" using demo_circom [OF h] by blast
  obtain p where p: "render_python_source demo_spec h = Inr p" using demo_python by (auto simp: render_python_source_def)
  have "no_cr p"
    using h demo_python by (intro python_source_no_cr [OF p]) (auto simp: demo_spec_def lending_risk_spec_def)
  moreover have "ensure_supported_decision demo_spec = Inr ()" by code_simp
  moreover obtain x where "render_debug_trace demo_spec h = Inr x" using demo_trace by blast
  ultimately show ?thesis using c p by (simp add: generate_policy_artifacts_def h_def [symmetric] Let_def)
qed

lemma demo_loads: "load_policy_spec demo_compiler (path_parts ''pack/policy_spec.yaml'') demo_tree = Inr demo_spec"
  by code_simp

lemma demo_writes:
  "\<not> isl (fst (write_generated_artifacts (ce_cwd demo_compiler) (path_parts []) demo_spec a demo_tree))"
  "read_text (snd (write_generated_artifacts (ce_cwd demo_compiler) (path_parts []) demo_spec a demo_tree))
     (manifest_file demo_compiler ''pack/policy_spec.yaml'') = Inr ''{}''"
  "[''/'', ''repo'', ''pack''] \<in> set (ft_dirs (snd (write_generated_artifacts (ce_cwd demo_compiler) (path_parts []) demo_spec a demo_tree)))"
  by code_simp+

lemma demo_manifest:
  "json_loads pf ''{}'' = Inr (PDict [])" "manifest_object pf demo_tree (manifest_file demo_compiler ''pack/policy_spec.yaml'') = Some []"
  "butlast (manifest_file demo_compiler ''pack/policy_spec.yaml'') = [''/'', ''repo'', ''pack'']"
  "distinct (target_files demo_compiler [] demo_spec @ [manifest_file demo_compiler ''pack/policy_spec.yaml'', spec_file demo_compiler ''pack/policy_spec.yaml''])"
  "tree_ok demo_tree"
  by code_simp+

lemma demo_generates:
  "\<exists>out t'. compiler_main demo_compiler (Generate ''pack/policy_spec.yaml'' [] False) demo_tree = (Inr (0, out), t')"
proof -
  obtain a where "generate_policy_artifacts (ce_sha256 demo_compiler) demo_spec = Inr a" using demo_artifacts by blast
  then show ?thesis
    by (rule generate_succeeds [OF demo_loads _ demo_writes(1,2) demo_writes(3) [folded demo_manifest(3)]])
qed

theorem generated_files_do_not_drift_witness:
  "\<exists>out t'. compiler_main demo_compiler (Generate ''pack/policy_spec.yaml'' [] False) demo_tree = (Inr (0, out), t') \<and>
     compiler_main demo_compiler (CheckDrift ''pack/policy_spec.yaml'' []) t' = (Inr (0, [''drift:none'']), t')"
proof -
  obtain out t' where g: "compiler_main demo_compiler (Generate ''pack/policy_spec.yaml'' [] False) demo_tree = (Inr (0, out), t')"
    using demo_generates by blast
  obtain a where a: "generate_policy_artifacts (ce_sha256 demo_compiler) demo_spec = Inr a" "no_cr (ca_python_source a)" "no_cr (ca_circom_source a)"
    using demo_artifacts by blast
  have pf: "keys_ok (ce_parse_float demo_compiler x)" for x by (simp add: demo_compiler_def)
  show ?thesis
    using generated_files_do_not_drift [OF g demo_manifest(5) demo_loads a demo_manifest(4) pf] g by (auto simp: demo_manifest(2))
qed

text \<open>The hash of a specification sorts its keys, so it does not see the order of the parameters, which is the order of the circuit's inputs.\<close>

definition two_parameters :: "string list \<Rightarrow> policy_spec" where
  "two_parameters names =
     lending_risk_spec\<lparr>sp_policy_parameters := map (\<lambda>n. (n, \<lparr>ps_minimum = None, ps_maximum = None, ps_default = None\<rparr>)) names\<rparr>"

lemma spec_hash_ignores_parameter_order:
  "canonical_json (dump_spec (two_parameters [''a'', ''b''])) = canonical_json (dump_spec (two_parameters [''b'', ''a'']))"
  "parameter_order (two_parameters [''a'', ''b'']) \<noteq> parameter_order (two_parameters [''b'', ''a''])"
proof -
  show "canonical_json (dump_spec (two_parameters [''a'', ''b''])) = canonical_json (dump_spec (two_parameters [''b'', ''a'']))"
    by (simp add: canonical_json_def dump_spec_def two_parameters_def)
qed (simp add: two_parameters_def parameter_order_def)

end
