(* ===== verification/Http_Boundary.thy ===== *)
theory Http_Boundary
  imports Auth
begin

text \<open>
  What passes between the services: a call with its headers, the answer to it, and \<open>vellum_core/errors.py\<close>, which
  turns every exception a handler raises into an answer with a structured body. The names of exception
  classes and the rendering of a body as text are parameters, and so is the bearer scheme of FastAPI.
\<close>

section \<open>Calls and answers\<close>

record http_call =
  hc_method :: string
  hc_url :: string
  hc_headers :: "(string \<times> string) list"
  hc_params :: "(string \<times> string) list"
  hc_content :: string

record http_answer =
  ha_status :: int
  ha_json :: "pyval res"
  ha_text :: string

section \<open>Errors as answers\<close>

definition to_payload :: "string \<Rightarrow> string \<Rightarrow> pydict \<Rightarrow> pyval" where
  "to_payload code message details =
     PDict [(''error'', PDict [(''code'', PStr code), (''message'', PStr message), (''details'', PDict details)])]"

definition handle_unexpected_error :: "(pyexc \<Rightarrow> string) \<Rightarrow> pyexc \<Rightarrow> int \<times> pyval" where
  "handle_unexpected_error class_name e =
     (500, to_payload ''internal_error'' ''Unexpected server error'' [(''type'', PStr (class_name e))])"

text \<open>The handlers of \<open>register_exception_handlers\<close>, chosen by the class of the exception.\<close>

definition handle_error :: "(pyexc \<Rightarrow> string) \<Rightarrow> pyexc \<Rightarrow> int \<times> pyval" where
  "handle_error class_name e =
     (case e of
        FrameworkError code message details \<Rightarrow> (422, to_payload code message details)
      | APIError status code message details \<Rightarrow> (status, to_payload code message details)
      | _ \<Rightarrow> handle_unexpected_error class_name e)"

definition handle_validation_error :: "pyval \<Rightarrow> int \<times> pyval" where
  "handle_validation_error errors =
     (422, to_payload ''validation_error'' ''Request validation failed'' [(''errors'', errors)])"

definition json_answer :: "(pyval \<Rightarrow> string) \<Rightarrow> int \<times> pyval \<Rightarrow> http_answer" where
  "json_answer render r = \<lparr>ha_status = fst r, ha_json = Inr (snd r), ha_text = render (snd r)\<rparr>"

text \<open>A route: the handler's result with the status of the route, or the answer to its exception.\<close>

definition answered ::
  "(pyexc \<Rightarrow> string) \<Rightarrow> (pyval \<Rightarrow> string) \<Rightarrow> int \<Rightarrow> ('a \<Rightarrow> pyval) \<Rightarrow> ('s, 'a) prog \<Rightarrow> ('s, http_answer) prog" where
  "answered class_name render status body handler s =
     (case handler s of
        (Inr x, s') \<Rightarrow> (Inr (json_answer render (status, body x)), s')
      | (Inl e, s') \<Rightarrow> (Inr (json_answer render (handle_error class_name e)), s'))"

lemma answered_never_raises: "\<exists>a s'. answered class_name render status body handler s = (Inr a, s')"
  by (cases "handler s") (auto simp: answered_def split: sum.splits)

text \<open>An unexpected error shows its class and nothing of its text.\<close>

lemma unexpected_error_hides_text:
  assumes "class_name (ValueError m) = class_name (ValueError m')"
  shows "handle_error class_name (ValueError m) = handle_error class_name (ValueError m')"
  using assms by (simp add: handle_error_def handle_unexpected_error_def)

section \<open>A call as the server sees it\<close>

definition received :: "http_call \<Rightarrow> string \<Rightarrow> string option \<Rightarrow> int \<Rightarrow> int \<Rightarrow> int \<Rightarrow> request" where
  "received call path client now_keys now_guard now_limit =
     \<lparr>rq_method = hc_method call, rq_path = path, rq_headers = map (\<lambda>(k, v). (py_lower k, v)) (hc_headers call),
      rq_client = client, rq_body = hc_content call, rq_now_keys = now_keys, rq_now_guard = now_guard, rq_now_limit = now_limit\<rparr>"

end
