(* ===== verification/Dashboard.thy ===== *)
theory Dashboard
  imports Http_Boundary Configuration
begin

text \<open>
  The dashboard \<open>dashboard_service.py\<close>: its configuration, the cache of the token it uses towards the other services, the
  signed headers of its submissions, the proxies with their errors, the health snapshot and the overview, and every
  route but the page itself, which is static HTML.

  The state is the dashboard's authentication state, its token cache and the rest of the world, on which calls act;
  sending a call is a parameter. Coroutines that are gathered run in the order they are listed, all of them also when one
  fails. Times are microseconds. Each use of a token has its own clock readings, and what other
  coroutines do to the token cache before the lock is taken is a function among them.
\<close>

section \<open>Configuration\<close>

record dashboard_config =
  dc_prover_url :: string
  dc_verifier_url :: string
  dc_worker_metrics_url :: string
  dc_jwt_issuer :: string
  dc_jwt_audience :: string
  dc_bank_key_id :: string
  dc_vault_addr :: string
  dc_vault_token :: string
  dc_vault_jwt_key :: string
  dc_vault_bank_key :: string
  dc_cache_ttl_seconds :: int
  dc_nonce_window_seconds :: int
  dc_jwt_max_ttl_seconds :: int
  dc_jwt_leeway_seconds :: int
  dc_submit_rate_limit :: int
  dc_redis_host :: string
  dc_redis_port :: int
  dc_postgres_host :: string
  dc_postgres_port :: int
  dc_require_auth :: bool
  dc_read_scope :: string
  dc_write_scope :: string
  dc_max_demo_prove_body_bytes :: int

definition dashboard_config_from_env :: "os_env \<Rightarrow> dashboard_config res" where
  "dashboard_config_from_env osenv =
     (let env = getenv osenv
      in rbind (int_env osenv ''VAULT_PUBLIC_KEY_CACHE_TTL_SECONDS'' ''300'') (\<lambda>cache_ttl.
         rbind (int_env osenv ''NONCE_WINDOW_SECONDS'' ''300'') (\<lambda>window.
         rbind (int_env_min 1 osenv ''JWT_MAX_TTL_SECONDS'' ''900'') (\<lambda>max_ttl.
         rbind (int_env_min 0 osenv ''JWT_LEEWAY_SECONDS'' ''30'') (\<lambda>leeway.
         rbind (int_env_min 0 osenv ''SUBMIT_RATE_LIMIT_PER_MINUTE'' ''30'') (\<lambda>rate.
         rbind (int_env osenv ''REDIS_PORT'' ''6379'') (\<lambda>redis_port.
         rbind (int_env osenv ''POSTGRES_PORT'' ''5432'') (\<lambda>postgres_port.
         rbind (parse_bool_env osenv ''DASHBOARD_REQUIRE_AUTH'' True) (\<lambda>auth.
         rbind (int_env_min 1 osenv ''DASHBOARD_MAX_DEMO_PROVE_BODY_BYTES'' ''1048576'') (\<lambda>body.
         Inr \<lparr>dc_prover_url = env ''PROVER_URL'' ''http://prover:8001'', dc_verifier_url = env ''VERIFIER_URL'' ''http://verifier:8002'',
              dc_worker_metrics_url = env ''WORKER_METRICS_URL'' ''http://worker:9108/metrics'',
              dc_jwt_issuer = env ''JWT_ISSUER'' ''bank.local'', dc_jwt_audience = env ''JWT_AUDIENCE'' ''sentinel-zk'',
              dc_bank_key_id = env ''BANK_KEY_ID'' ''bank-key-1'', dc_vault_addr = env ''VAULT_ADDR'' ''http://vault:8200'',
              dc_vault_token = env ''VAULT_TOKEN'' ''root'', dc_vault_jwt_key = env ''VELLUM_JWT_KEY'' ''vellum-jwt'',
              dc_vault_bank_key = env ''VELLUM_BANK_KEY'' ''vellum-bank'', dc_cache_ttl_seconds = cache_ttl,
              dc_nonce_window_seconds = window, dc_jwt_max_ttl_seconds = max_ttl, dc_jwt_leeway_seconds = leeway,
              dc_submit_rate_limit = rate, dc_redis_host = env ''REDIS_HOST'' ''redis'', dc_redis_port = redis_port,
              dc_postgres_host = env ''POSTGRES_HOST'' ''postgres'', dc_postgres_port = postgres_port, dc_require_auth = auth,
              dc_read_scope = env ''DASHBOARD_AUTH_READ_SCOPE'' ''dashboard:read'',
              dc_write_scope = env ''DASHBOARD_AUTH_WRITE_SCOPE'' ''dashboard:write'', dc_max_demo_prove_body_bytes = body\<rparr>))))))))))"

definition dashboard_auth_config :: "dashboard_config \<Rightarrow> auth_config" where
  "dashboard_auth_config dc =
     \<lparr>ac_jwt_key = dc_vault_jwt_key dc, ac_issuer = dc_jwt_issuer dc, ac_audience = dc_jwt_audience dc,
      ac_bank_keys = [(dc_bank_key_id dc, dc_vault_bank_key dc)], ac_window = dc_nonce_window_seconds dc,
      ac_max_ttl = dc_jwt_max_ttl_seconds dc, ac_leeway = dc_jwt_leeway_seconds dc, ac_max_per_minute = dc_submit_rate_limit dc,
      ac_cache_ttl = dc_cache_ttl_seconds dc * 1000000, ac_recorder = False\<rparr>"

definition API_PREFIX :: string where
  "API_PREFIX = ''/v6''"

section \<open>The token cache\<close>

record token_cache =
  tk_token :: "string option"
  tk_expires :: int

definition empty_cache :: token_cache where
  "empty_cache = \<lparr>tk_token = None, tk_expires = 0\<rparr>"

text \<open>The clock readings of one use of the cache: before and under the lock, and when signing.\<close>

record token_clock =
  tc_first :: int
  tc_others :: "token_cache \<Rightarrow> token_cache"
  tc_locked :: int
  tc_sign :: int
  tc_jti :: string

record token_request =
  tr_vault :: vault_server
  tr_key :: string
  tr_issuer :: string
  tr_audience :: string
  tr_subject :: string
  tr_scopes :: "string list"
  tr_ttl_seconds :: int
  tr_skew_seconds :: int

definition usable :: "token_request \<Rightarrow> int \<Rightarrow> token_cache \<Rightarrow> string option" where
  "usable tr now c = (if now < tk_expires c - tr_skew_seconds tr * 1000000 then tk_token c else None)"

definition refresh_token :: "token_request \<Rightarrow> int \<Rightarrow> int \<Rightarrow> string \<Rightarrow> (token_cache, string) prog" where
  "refresh_token tr locked sign_time jti c =
     (case usable tr locked c of
        Some token \<Rightarrow> (Inr token, c)
      | None \<Rightarrow>
          (case jwt_sign (tr_vault tr) (tr_key tr) (tr_issuer tr) (tr_audience tr) (sign_time div 1000000) jti (tr_subject tr)
                  (tr_ttl_seconds tr) (tr_scopes tr) of
             Inl e \<Rightarrow> (Inl e, c)
           | Inr token \<Rightarrow> (Inr token, \<lparr>tk_token = Some token, tk_expires = locked + tr_ttl_seconds tr * 1000000\<rparr>)))"

definition get_token :: "token_request \<Rightarrow> token_clock \<Rightarrow> (token_cache, string) prog" where
  "get_token tr k c =
     (case usable tr (tc_first k) c of
        Some token \<Rightarrow> (Inr token, c)
      | None \<Rightarrow> refresh_token tr (tc_locked k) (tc_sign k) (tc_jti k) (tc_others k c))"

section \<open>State and environment\<close>

record ('r, 'w) dashboard_state =
  ds_auth :: "'r auth_state"
  ds_tokens :: token_cache
  ds_world :: 'w

record demo_batch =
  dm_circuit_id :: "string option"
  dm_balances :: "int list option"
  dm_limits :: "int list option"
  dm_private_input :: "pydict option"

record demo_run_request =
  dq_policy_id :: string
  dq_evidence_payload :: "pydict option"
  dq_evidence_ref :: "string option"
  dq_context :: "pydict option"
  dq_client_request_id :: "string option"

record ('r, 'k, 'w) dashboard_env =
  de_config :: dashboard_config
  de_auth :: "('r, 'k) auth_env"
  de_send :: "http_call \<Rightarrow> ('w, http_answer) prog"
  de_tcp :: "string \<Rightarrow> int \<Rightarrow> pyexc option"
  de_clock :: "nat \<Rightarrow> token_clock"
  de_guard_now :: int
  de_handshake_now :: int
  de_nonce :: string
  de_iso_now :: string
  de_exc_text :: "pyexc \<Rightarrow> string"
  de_circuits :: "(string \<times> bool \<times> string option) list option"
  de_parse_float :: "string \<Rightarrow> pyval"
  de_parse_batch :: "string \<Rightarrow> pyval + demo_batch"
  de_model_error :: "pyexc \<Rightarrow> pyval"
  de_batch_json :: "pydict \<Rightarrow> string"
  de_verify_json :: "string \<times> pydict \<times> pyval list \<Rightarrow> string"

definition on_dash_auth :: "('r auth_state, 'a) prog \<Rightarrow> (('r, 'w) dashboard_state, 'a) prog" where
  "on_dash_auth m st = (case m (ds_auth st) of (r, x) \<Rightarrow> (r, st\<lparr>ds_auth := x\<rparr>))"

definition on_tokens :: "(token_cache, 'a) prog \<Rightarrow> (('r, 'w) dashboard_state, 'a) prog" where
  "on_tokens m st = (case m (ds_tokens st) of (r, x) \<Rightarrow> (r, st\<lparr>ds_tokens := x\<rparr>))"

definition on_world :: "('w, 'a) prog \<Rightarrow> (('r, 'w) dashboard_state, 'a) prog" where
  "on_world m st = (case m (ds_world st) of (r, x) \<Rightarrow> (r, st\<lparr>ds_world := x\<rparr>))"

definition upstream_scopes :: "string list" where
  "upstream_scopes = [''proofs:write'', ''proofs:read'', ''audit:read'', ''ops:read'', ''ops:write'']"

definition upstream_token :: "('r, 'k, 'w) dashboard_env \<Rightarrow> token_request" where
  "upstream_token env =
     \<lparr>tr_vault = ae_vault (de_auth env), tr_key = dc_vault_jwt_key (de_config env), tr_issuer = dc_jwt_issuer (de_config env),
      tr_audience = dc_jwt_audience (de_config env), tr_subject = ''dashboard-demo-user'', tr_scopes = upstream_scopes,
      tr_ttl_seconds = 600, tr_skew_seconds = 60\<rparr>"

definition upstream_bearer_headers ::
  "('r, 'k, 'w) dashboard_env \<Rightarrow> nat \<Rightarrow> (('r, 'w) dashboard_state, (string \<times> string) list) prog" where
  "upstream_bearer_headers env i =
     sbind (on_tokens (get_token (upstream_token env) (de_clock env i))) (\<lambda>token. sret [(''Authorization'', ''Bearer '' @ token)])"

definition require_read :: "('r, 'k, 'w) dashboard_env \<Rightarrow> string option \<Rightarrow> (('r, 'w) dashboard_state, pydict option) prog" where
  "require_read env credentials =
     on_dash_auth (optional_scoped_jwt (dashboard_auth_config (de_config env)) (de_auth env) (dc_require_auth (de_config env))
       [dc_read_scope (de_config env)] (de_guard_now env) credentials)"

definition require_write :: "('r, 'k, 'w) dashboard_env \<Rightarrow> string option \<Rightarrow> (('r, 'w) dashboard_state, pydict option) prog" where
  "require_write env credentials =
     on_dash_auth (optional_scoped_jwt (dashboard_auth_config (de_config env)) (de_auth env) (dc_require_auth (de_config env))
       [dc_write_scope (de_config env)] (de_guard_now env) credentials)"

definition bank_headers :: "('r, 'k, 'w) dashboard_env \<Rightarrow> string \<Rightarrow> string \<Rightarrow> string \<Rightarrow> (string \<times> string) list res" where
  "bank_headers env method path body =
     (let ts = show_int (de_handshake_now env div 1000000); nonce = de_nonce env;
          canonical = build_canonical_request_string (ae_sha256 (de_auth env)) method path ts nonce body
      in rbind (vault_sign (ae_vault (de_auth env)) (dc_vault_bank_key (de_config env)) canonical) (\<lambda>signature.
         Inr [(''X-Bank-Key-Id'', dc_bank_key_id (de_config env)), (''X-Bank-Timestamp'', ts), (''X-Bank-Nonce'', nonce),
              (''X-Bank-Signature'', sig_encoded signature)]))"

section \<open>Calls to the other services\<close>

definition upstream_error :: "string \<Rightarrow> http_answer \<Rightarrow> pyexc" where
  "upstream_error service a =
     APIError (ha_status a) ''upstream_error'' (service @ '' request failed'')
       [(''service'', PStr service), (''status_code'', PInt (ha_status a)),
        (''response'', case ha_json a of Inr v \<Rightarrow> v | Inl _ \<Rightarrow> PStr (ha_text a))]"

definition proxy_json :: "('r, 'k, 'w) dashboard_env \<Rightarrow> string \<Rightarrow> int \<Rightarrow> http_call \<Rightarrow> (('r, 'w) dashboard_state, pyval) prog" where
  "proxy_json env service expected_status call =
     sbind (on_world (de_send env call)) (\<lambda>a.
     if ha_status a \<noteq> expected_status then sthrow (upstream_error service a) else slift (ha_json a))"

definition proxy_get_json ::
  "('r, 'k, 'w) dashboard_env \<Rightarrow> string \<Rightarrow> string \<Rightarrow> (string \<times> string) list \<Rightarrow> (string \<times> string) list \<Rightarrow>
   (('r, 'w) dashboard_state, pyval) prog" where
  "proxy_get_json env service url headers params =
     proxy_json env service 200 \<lparr>hc_method = ''GET'', hc_url = url, hc_headers = headers, hc_params = params, hc_content = []\<rparr>"

definition proxy_post_json ::
  "('r, 'k, 'w) dashboard_env \<Rightarrow> string \<Rightarrow> string \<Rightarrow> (string \<times> string) list \<Rightarrow> string \<Rightarrow> int \<Rightarrow>
   (('r, 'w) dashboard_state, pyval) prog" where
  "proxy_post_json env service url headers content expected_status =
     proxy_json env service expected_status
       \<lparr>hc_method = ''POST'', hc_url = url, hc_headers = headers, hc_params = [], hc_content = content\<rparr>"

text \<open>One GET with a fresh bearer header, the shape of the read-only routes.\<close>

definition get_with_token ::
  "('r, 'k, 'w) dashboard_env \<Rightarrow> nat \<Rightarrow> string \<Rightarrow> string \<Rightarrow> (string \<times> string) list \<Rightarrow> (('r, 'w) dashboard_state, pyval) prog" where
  "get_with_token env i service url params =
     sbind (upstream_bearer_headers env i) (\<lambda>headers. proxy_get_json env service url headers params)"

section \<open>Health\<close>

record health_check =
  hk_component :: string
  hk_ok :: bool
  hk_status_code :: "int option"
  hk_detail :: string

definition http_status ::
  "('r, 'k, 'w) dashboard_env \<Rightarrow> string \<Rightarrow> string \<Rightarrow> (string \<times> string) list \<Rightarrow> (('r, 'w) dashboard_state, health_check) prog" where
  "http_status env name url headers =
     scatch (sbind (on_world (de_send env \<lparr>hc_method = ''GET'', hc_url = url, hc_headers = headers, hc_params = [], hc_content = []\<rparr>)) (\<lambda>a.
               sret \<lparr>hk_component = name, hk_ok = ha_status a < 400, hk_status_code = Some (ha_status a),
                     hk_detail = (if ha_status a < 400 then ''ok'' else ha_text a)\<rparr>))
       (\<lambda>e. sret \<lparr>hk_component = name, hk_ok = False, hk_status_code = None, hk_detail = de_exc_text env e\<rparr>)"

definition tcp_status :: "('r, 'k, 'w) dashboard_env \<Rightarrow> string \<Rightarrow> string \<Rightarrow> int \<Rightarrow> health_check" where
  "tcp_status env name host port =
     (case de_tcp env host port of
        None \<Rightarrow> \<lparr>hk_component = name, hk_ok = True, hk_status_code = None, hk_detail = ''ok''\<rparr>
      | Some e \<Rightarrow> \<lparr>hk_component = name, hk_ok = False, hk_status_code = None, hk_detail = de_exc_text env e\<rparr>)"

definition health_checks :: "('r, 'k, 'w) dashboard_env \<Rightarrow> (string \<times> string) list \<Rightarrow> (('r, 'w) dashboard_state, health_check list) prog" where
  "health_checks env auth_headers =
     (let dc = de_config env
      in sbind (http_status env ''prover'' (dc_prover_url dc @ ''/healthz'') []) (\<lambda>c1.
         sbind (http_status env ''verifier'' (dc_verifier_url dc @ ''/healthz'') []) (\<lambda>c2.
         sbind (http_status env ''worker'' (dc_worker_metrics_url dc) []) (\<lambda>c3.
         sbind (http_status env ''vault'' (dc_vault_addr dc @ ''/v1/sys/health'') [(''X-Vault-Token'', dc_vault_token dc)]) (\<lambda>c4.
         sbind (http_status env ''trust_speed'' (dc_verifier_url dc @ API_PREFIX @ ''/trust-speed'') auth_headers) (\<lambda>c7.
         sret [c1, c2, c3, c4, tcp_status env ''redis'' (dc_redis_host dc) (dc_redis_port dc),
               tcp_status env ''postgres'' (dc_postgres_host dc) (dc_postgres_port dc), c7]))))))"

definition component_entry :: "health_check \<Rightarrow> string \<times> pyval" where
  "component_entry k =
     (hk_component k, PDict [(''status'', PStr (if hk_ok k then ''ok'' else ''down'')),
        (''status_code'', case hk_status_code k of None \<Rightarrow> PNone | Some c \<Rightarrow> PInt c), (''detail'', PStr (hk_detail k))])"

definition framework_health_snapshot :: "('r, 'k, 'w) dashboard_env \<Rightarrow> nat \<Rightarrow> (('r, 'w) dashboard_state, string \<times> pydict) prog" where
  "framework_health_snapshot env i =
     sbind (upstream_bearer_headers env i) (\<lambda>auth_headers.
     sbind (health_checks env auth_headers) (\<lambda>checks.
     sret (if list_all hk_ok checks then ''ok'' else ''degraded'', dupdate [] (map component_entry checks))))"

definition snapshot_json :: "string \<times> pydict \<Rightarrow> pyval" where
  "snapshot_json s = PDict [(''status'', PStr (fst s)), (''components'', PDict (snd s))]"

definition failed_components :: "pydict \<Rightarrow> pydict" where
  "failed_components components =
     filter (\<lambda>(name, details). (case details of PDict d \<Rightarrow> dget d ''status'' \<noteq> PStr ''ok'' | _ \<Rightarrow> True)) components"

section \<open>Routes that read\<close>

fun load_circuits :: "(string \<Rightarrow> pyval) \<Rightarrow> (string \<times> bool \<times> string option) list \<Rightarrow> pyval list res" where
  "load_circuits parse_float [] = Inr []"
| "load_circuits parse_float ((name, is_dir, manifest) # folders) =
     (case (is_dir, manifest) of
        (True, Some content) \<Rightarrow>
          rbind (json_loads parse_float content) (\<lambda>m. rbind (load_circuits parse_float folders) (\<lambda>ms. Inr (m # ms)))
      | _ \<Rightarrow> load_circuits parse_float folders)"

definition dash_list_circuits :: "('r, 'k, 'w) dashboard_env \<Rightarrow> string option \<Rightarrow> (('r, 'w) dashboard_state, pyval) prog" where
  "dash_list_circuits env credentials =
     sbind (require_read env credentials) (\<lambda>_.
     sbind (slift (case de_circuits env of
                     None \<Rightarrow> Inr [] | Some folders \<Rightarrow> load_circuits (de_parse_float env) (sort_key fst folders))) (\<lambda>ms.
     sret (PDict [(''circuits'', PList ms)])))"

definition framework_health :: "('r, 'k, 'w) dashboard_env \<Rightarrow> string option \<Rightarrow> (('r, 'w) dashboard_state, pyval) prog" where
  "framework_health env credentials =
     sbind (require_read env credentials) (\<lambda>_. sbind (framework_health_snapshot env 0) (\<lambda>s. sret (snapshot_json s)))"

definition framework_diagnostics :: "('r, 'k, 'w) dashboard_env \<Rightarrow> string option \<Rightarrow> (('r, 'w) dashboard_state, string \<times> pydict \<times> string) prog" where
  "framework_diagnostics env credentials =
     sbind (require_read env credentials) (\<lambda>_.
     sbind (framework_health_snapshot env 0) (\<lambda>(status, components).
     let failed = failed_components components
     in sret (status, failed, if failed = [] then ''all_ok'' else ''degraded_dependencies'')))"

definition dash_list_proofs ::
  "('r, 'k, 'w) dashboard_env \<Rightarrow> nat \<Rightarrow> string option \<Rightarrow> string option \<Rightarrow> int \<Rightarrow> (('r, 'w) dashboard_state, pyval) prog" where
  "dash_list_proofs env i status circuit_id limit =
     get_with_token env i ''prover'' (dc_prover_url (de_config env) @ API_PREFIX @ ''/proofs'')
       ([(''limit'', show_int (min (max limit 1) 200))] @
        (case status of None \<Rightarrow> [] | Some s \<Rightarrow> [(''status'', s)]) @
        (case circuit_id of None \<Rightarrow> [] | Some c \<Rightarrow> [(''circuit_id'', c)]))"

definition trust_speed_call :: "('r, 'k, 'w) dashboard_env \<Rightarrow> nat \<Rightarrow> (('r, 'w) dashboard_state, pyval) prog" where
  "trust_speed_call env i =
     get_with_token env i ''verifier'' (dc_verifier_url (de_config env) @ API_PREFIX @ ''/trust-speed'') []"

definition demo_trust_speed :: "('r, 'k, 'w) dashboard_env \<Rightarrow> string option \<Rightarrow> (('r, 'w) dashboard_state, pyval) prog" where
  "demo_trust_speed env credentials = sbind (require_read env credentials) (\<lambda>_. trust_speed_call env 0)"

definition demo_list_proofs ::
  "('r, 'k, 'w) dashboard_env \<Rightarrow> string option \<Rightarrow> string option \<Rightarrow> string option \<Rightarrow> int \<Rightarrow> (('r, 'w) dashboard_state, pyval) prog" where
  "demo_list_proofs env credentials status circuit_id limit =
     sbind (require_read env credentials) (\<lambda>_. dash_list_proofs env 0 status circuit_id limit)"

text \<open>The read-only proxies: circuits, chain verification, one proof, one run, one attestation.\<close>

definition proxy_route ::
  "('r, 'k, 'w) dashboard_env \<Rightarrow> string option \<Rightarrow> string \<Rightarrow> string \<Rightarrow> string \<Rightarrow> (('r, 'w) dashboard_state, pyval) prog" where
  "proxy_route env credentials service base path =
     sbind (require_read env credentials) (\<lambda>_. get_with_token env 0 service (base @ API_PREFIX @ path) [])"

definition framework_circuits :: "('r, 'k, 'w) dashboard_env \<Rightarrow> string option \<Rightarrow> (('r, 'w) dashboard_state, pyval) prog" where
  "framework_circuits env credentials = proxy_route env credentials ''verifier'' (dc_verifier_url (de_config env)) ''/circuits''"

definition framework_audit_chain :: "('r, 'k, 'w) dashboard_env \<Rightarrow> string option \<Rightarrow> (('r, 'w) dashboard_state, pyval) prog" where
  "framework_audit_chain env credentials =
     proxy_route env credentials ''verifier'' (dc_verifier_url (de_config env)) ''/audit/verify-chain''"

definition demo_proof_status :: "('r, 'k, 'w) dashboard_env \<Rightarrow> string option \<Rightarrow> string \<Rightarrow> (('r, 'w) dashboard_state, pyval) prog" where
  "demo_proof_status env credentials proof_id =
     proxy_route env credentials ''prover'' (dc_prover_url (de_config env)) (''/proofs/'' @ proof_id)"

definition demo_policy_run_status :: "('r, 'k, 'w) dashboard_env \<Rightarrow> string option \<Rightarrow> string \<Rightarrow> (('r, 'w) dashboard_state, pyval) prog" where
  "demo_policy_run_status env credentials run_id =
     proxy_route env credentials ''prover'' (dc_prover_url (de_config env)) (''/runs/'' @ run_id)"

definition demo_attestation_export :: "('r, 'k, 'w) dashboard_env \<Rightarrow> string option \<Rightarrow> string \<Rightarrow> (('r, 'w) dashboard_state, pyval) prog" where
  "demo_attestation_export env credentials run_id =
     proxy_route env credentials ''verifier'' (dc_verifier_url (de_config env)) (''/runs/'' @ run_id @ ''/attestation'')"

section \<open>The overview\<close>

record overview_counts =
  oc_queued :: int
  oc_running :: int
  oc_completed :: int
  oc_failed :: int
  oc_pass :: int
  oc_fail :: int
  oc_pending :: int
  oc_latest_failed :: "pydict option"

definition no_counts :: overview_counts where
  "no_counts = \<lparr>oc_queued = 0, oc_running = 0, oc_completed = 0, oc_failed = 0, oc_pass = 0, oc_fail = 0, oc_pending = 0,
                oc_latest_failed = None\<rparr>"

definition job_status :: "pydict \<Rightarrow> string" where
  "job_status job = py_str (dget_default job ''status'' (PStr []))"

definition job_policy :: "pydict \<Rightarrow> pydict option" where
  "job_policy job =
     (case dget job ''metadata'' of
        PDict m \<Rightarrow> if truthy (dget m ''policy_id'') then Some m else None
      | _ \<Rightarrow> None)"

definition count_job :: "pydict \<Rightarrow> overview_counts \<Rightarrow> overview_counts" where
  "count_job job c =
     (let s = job_status job;
          c1 = (if s = ''queued'' then c\<lparr>oc_queued := oc_queued c + 1\<rparr>
                else if s = ''running'' then c\<lparr>oc_running := oc_running c + 1\<rparr>
                else if s = ''completed'' then c\<lparr>oc_completed := oc_completed c + 1\<rparr>
                else if s = ''failed'' then c\<lparr>oc_failed := oc_failed c + 1\<rparr> else c);
          c2 = (if oc_latest_failed c1 = None \<and> s = ''failed'' then c1\<lparr>oc_latest_failed := Some job\<rparr> else c1)
      in case job_policy job of
           None \<Rightarrow> c2
         | Some m \<Rightarrow> (if dget m ''decision'' = PStr ''pass'' then c2\<lparr>oc_pass := oc_pass c2 + 1\<rparr>
                     else if dget m ''decision'' = PStr ''fail'' then c2\<lparr>oc_fail := oc_fail c2 + 1\<rparr>
                     else c2\<lparr>oc_pending := oc_pending c2 + 1\<rparr>))"

fun count_jobs :: "pyval list \<Rightarrow> overview_counts \<Rightarrow> overview_counts res" where
  "count_jobs [] c = Inr c"
| "count_jobs (v # vs) c = (case v of PDict job \<Rightarrow> count_jobs vs (count_job job c) | _ \<Rightarrow> Inl (OtherError ''AttributeError''))"

text \<open>\<open>jobs_payload.get("items", [])\<close>, over which the loop runs.\<close>

definition listed_jobs :: "pyval \<Rightarrow> pyval list res" where
  "listed_jobs payload =
     (case payload of PDict d \<Rightarrow> py_list (dget_default d ''items'' (PList [])) | _ \<Rightarrow> Inl (OtherError ''AttributeError''))"

definition overview_json :: "string \<Rightarrow> pyval \<Rightarrow> pyval \<Rightarrow> overview_counts \<Rightarrow> int \<Rightarrow> pyval" where
  "overview_json now health trust c n =
     PDict [(''generated_at'', PStr now), (''health'', health), (''trust_speed'', trust),
       (''jobs'', PDict [
          (''counts'', PDict [(''queued'', PInt (oc_queued c)), (''running'', PInt (oc_running c)),
             (''completed'', PInt (oc_completed c)), (''failed'', PInt (oc_failed c))]),
          (''active'', PInt (oc_queued c + oc_running c)), (''recent_total'', PInt n),
          (''latest_failed'', case oc_latest_failed c of None \<Rightarrow> PNone | Some job \<Rightarrow> PDict job),
          (''policy_decisions'', PDict [(''pass'', PInt (oc_pass c)), (''fail'', PInt (oc_fail c)), (''pending'', PInt (oc_pending c))])])]"

text \<open>\<open>asyncio.gather\<close>: both run, and the first error among the results is raised.\<close>

definition sgather :: "('s, 'a) prog \<Rightarrow> ('s, 'b) prog \<Rightarrow> ('s, 'a \<times> 'b) prog" where
  "sgather m n s =
     (case m s of (r, s1) \<Rightarrow> case n s1 of (q, s2) \<Rightarrow> (rbind r (\<lambda>x. rbind q (\<lambda>y. Inr (x, y))), s2))"

definition framework_overview :: "('r, 'k, 'w) dashboard_env \<Rightarrow> string option \<Rightarrow> (('r, 'w) dashboard_state, pyval) prog" where
  "framework_overview env credentials =
     sbind (require_read env credentials) (\<lambda>_.
     sbind (sgather (framework_health_snapshot env 0) (sgather (trust_speed_call env 1) (dash_list_proofs env 2 None None 50)))
       (\<lambda>(health, trust, jobs_payload).
     sbind (slift (listed_jobs jobs_payload)) (\<lambda>jobs.
     sbind (slift (count_jobs jobs no_counts)) (\<lambda>c.
     sret (overview_json (de_iso_now env) (snapshot_json health) trust c (int (length jobs)))))))"

section \<open>Routes that submit\<close>

definition demo_validate_input_mode :: "demo_batch \<Rightarrow> unit res" where
  "demo_validate_input_mode q =
     (let using_balances_limits = (dm_balances q \<noteq> None \<or> dm_limits q \<noteq> None); using_private_input = (dm_private_input q \<noteq> None)
      in if using_balances_limits = using_private_input
         then Inl (ValueError ''Provide exactly one input mode: balances/limits or private_input'')
         else if \<not> using_balances_limits then Inr ()
         else case (dm_balances q, dm_limits q) of
                (Some balances, Some limits) \<Rightarrow>
                  (if length balances \<noteq> length limits then Inl (ValueError ''balances and limits length mismatch'') else Inr ())
              | _ \<Rightarrow> Inl (ValueError ''balances and limits must both be provided for direct mode''))"

text \<open>\<open>DemoBatchProveRequest.model_validate_json\<close>: pydantic's parsing, then the validator.\<close>

definition demo_batch_model :: "('r, 'k, 'w) dashboard_env \<Rightarrow> string \<Rightarrow> pyval + demo_batch" where
  "demo_batch_model env raw =
     (case de_parse_batch env raw of
        Inl errors \<Rightarrow> Inl errors
      | Inr q \<Rightarrow> (case demo_validate_input_mode q of Inl e \<Rightarrow> Inl (de_model_error env e) | Inr _ \<Rightarrow> Inr q))"

definition demo_batch_dump :: "demo_batch \<Rightarrow> pydict" where
  "demo_batch_dump q =
     (case dm_circuit_id q of None \<Rightarrow> [] | Some c \<Rightarrow> [(''circuit_id'', PStr c)]) @
     (case dm_balances q of None \<Rightarrow> [] | Some xs \<Rightarrow> [(''balances'', PList (map PInt xs))]) @
     (case dm_limits q of None \<Rightarrow> [] | Some xs \<Rightarrow> [(''limits'', PList (map PInt xs))]) @
     (case dm_private_input q of None \<Rightarrow> [] | Some d \<Rightarrow> [(''private_input'', PDict d)])"

definition signed_post ::
  "('r, 'k, 'w) dashboard_env \<Rightarrow> string \<Rightarrow> string \<Rightarrow> (('r, 'w) dashboard_state, pyval) prog" where
  "signed_post env path body =
     sbind (upstream_bearer_headers env 0) (\<lambda>bearer.
     sbind (slift (bank_headers env ''POST'' path body)) (\<lambda>signed.
     proxy_post_json env ''prover'' (dc_prover_url (de_config env) @ path)
       (bearer @ [(''Content-Type'', ''application/json'')] @ signed) body 202))"

definition demo_prove :: "('r, 'k, 'w) dashboard_env \<Rightarrow> string option \<Rightarrow> string \<Rightarrow> (('r, 'w) dashboard_state, pyval) prog" where
  "demo_prove env credentials raw_body =
     sbind (require_write env credentials) (\<lambda>_.
     sbind (slift (rcheck (int (length raw_body) \<le> dc_max_demo_prove_body_bytes (de_config env))
              (APIError 413 ''payload_too_large'' ''Request payload exceeds configured size limit''
                [(''path'', PStr ''/api/demo/prove''), (''limit_bytes'', PInt (dc_max_demo_prove_body_bytes (de_config env))),
                 (''received_bytes'', PInt (int (length raw_body)))]))) (\<lambda>_.
     case demo_batch_model env raw_body of
       Inl errors \<Rightarrow> sthrow (APIError 422 ''validation_error'' ''Request validation failed'' [(''errors'', errors)])
     | Inr q \<Rightarrow> signed_post env (API_PREFIX @ ''/proofs/batch'') (de_batch_json env (demo_batch_dump q))))"

definition validate_evidence :: "demo_run_request \<Rightarrow> unit res" where
  "validate_evidence q =
     rbind (rcheck (\<not> (dq_evidence_payload q = None \<and> dq_evidence_ref q = None))
              (ValueError ''Provide evidence_payload or evidence_ref'')) (\<lambda>_.
     rcheck (\<not> (dq_evidence_payload q \<noteq> None \<and> dq_evidence_ref q \<noteq> None)) (ValueError ''Provide only one evidence source''))"

definition to_v6_payload :: "demo_run_request \<Rightarrow> pyval res" where
  "to_v6_payload q =
     rbind (case dq_evidence_payload q of
              Some payload \<Rightarrow> Inr (PDict [(''type'', PStr ''inline''), (''payload'', PDict payload)])
            | None \<Rightarrow> (case dq_evidence_ref q of
                         None \<Rightarrow> Inl AssertionError | Some ref \<Rightarrow> Inr (PDict [(''type'', PStr ''ref''), (''ref'', PStr ref)]))) (\<lambda>evidence.
     Inr (PDict [(''policy_id'', PStr (dq_policy_id q)), (''evidence'', evidence),
                 (''context'', PDict (case dq_context q of None \<Rightarrow> [] | Some c \<Rightarrow> c)),
                 (''client_request_id'', case dq_client_request_id q of None \<Rightarrow> PNone | Some r \<Rightarrow> PStr r)]))"

definition demo_policy_run :: "('r, 'k, 'w) dashboard_env \<Rightarrow> string option \<Rightarrow> demo_run_request \<Rightarrow> (('r, 'w) dashboard_state, pyval) prog" where
  "demo_policy_run env credentials q =
     sbind (require_write env credentials) (\<lambda>_.
     sbind (slift (to_v6_payload q)) (\<lambda>payload.
     signed_post env (API_PREFIX @ ''/runs'') (json_text payload)))"

definition demo_verify ::
  "('r, 'k, 'w) dashboard_env \<Rightarrow> string option \<Rightarrow> string \<times> pydict \<times> pyval list \<Rightarrow> (('r, 'w) dashboard_state, pyval) prog" where
  "demo_verify env credentials payload =
     sbind (require_write env credentials) (\<lambda>_.
     sbind (upstream_bearer_headers env 0) (\<lambda>headers.
     proxy_post_json env ''verifier'' (dc_verifier_url (de_config env) @ API_PREFIX @ ''/verify'')
       (headers @ [(''Content-Type'', ''application/json'')]) (de_verify_json env payload) 200))"

section \<open>The overview counts what it lists\<close>

definition number :: "('a \<Rightarrow> bool) \<Rightarrow> 'a list \<Rightarrow> int" where
  "number P xs = int (length (filter P xs))"

lemma number_simps [simp]: "number P [] = 0" "number P (x # xs) = (if P x then 1 else 0) + number P xs"
  by (simp_all add: number_def)

definition decided :: "(pyval \<Rightarrow> bool) \<Rightarrow> pydict \<Rightarrow> bool" where
  "decided P job = (case job_policy job of None \<Rightarrow> False | Some m \<Rightarrow> P (dget m ''decision''))"

definition counts_of :: "pydict list \<Rightarrow> overview_counts" where
  "counts_of jobs =
     \<lparr>oc_queued = number (\<lambda>j. job_status j = ''queued'') jobs, oc_running = number (\<lambda>j. job_status j = ''running'') jobs,
      oc_completed = number (\<lambda>j. job_status j = ''completed'') jobs, oc_failed = number (\<lambda>j. job_status j = ''failed'') jobs,
      oc_pass = number (decided (\<lambda>d. d = PStr ''pass'')) jobs, oc_fail = number (decided (\<lambda>d. d = PStr ''fail'')) jobs,
      oc_pending = number (decided (\<lambda>d. d \<noteq> PStr ''pass'' \<and> d \<noteq> PStr ''fail'')) jobs,
      oc_latest_failed = find (\<lambda>j. job_status j = ''failed'') jobs\<rparr>"

definition add_counts :: "overview_counts \<Rightarrow> overview_counts \<Rightarrow> overview_counts" where
  "add_counts c d =
     \<lparr>oc_queued = oc_queued c + oc_queued d, oc_running = oc_running c + oc_running d, oc_completed = oc_completed c + oc_completed d,
      oc_failed = oc_failed c + oc_failed d, oc_pass = oc_pass c + oc_pass d, oc_fail = oc_fail c + oc_fail d,
      oc_pending = oc_pending c + oc_pending d,
      oc_latest_failed = (case oc_latest_failed c of None \<Rightarrow> oc_latest_failed d | Some j \<Rightarrow> Some j)\<rparr>"

lemma add_no_counts [simp]: "add_counts no_counts c = c"
  by (simp add: add_counts_def no_counts_def)

lemma add_count_job: "add_counts (count_job job c) (counts_of jobs) = add_counts c (counts_of (job # jobs))"
  by (cases "job_policy job")
     (auto simp: add_counts_def counts_of_def count_job_def Let_def decided_def split: option.splits)

lemma count_jobs_exact: "count_jobs vs c = Inr c' \<longleftrightarrow> (\<exists>jobs. vs = map PDict jobs \<and> c' = add_counts c (counts_of jobs))"
proof (induction vs arbitrary: c)
  case Nil
  have "add_counts c (counts_of []) = c" by (cases "oc_latest_failed c") (simp_all add: add_counts_def counts_of_def)
  then show ?case by auto
next
  case (Cons v vs)
  show ?case
  proof (cases v)
    case (PDict job)
    have "(\<exists>jobs. vs = map PDict jobs \<and> c' = add_counts (count_job job c) (counts_of jobs)) \<longleftrightarrow>
        (\<exists>jobs. v # vs = map PDict jobs \<and> c' = add_counts c (counts_of jobs))"
      unfolding add_count_job PDict by (auto simp: Cons_eq_map_conv)
    with Cons PDict show ?thesis by simp
  qed (auto simp: Cons_eq_map_conv)
qed

lemma decisions_partition: "oc_pass (counts_of jobs) + oc_fail (counts_of jobs) + oc_pending (counts_of jobs) = number (\<lambda>j. job_policy j \<noteq> None) jobs"
  by (induction jobs) (auto simp: counts_of_def decided_def split: option.splits)

lemma sgather_Inr:
  "sgather m n s = (Inr r, s2) \<longleftrightarrow> (\<exists>x y s1. m s = (Inr x, s1) \<and> n s1 = (Inr y, s2) \<and> r = (x, y))"
  by (cases "m s"; cases "n (snd (m s))") (auto simp: sgather_def rbind_eq_Inr)

text \<open>
  The overview counts exactly the jobs the prover listed: the number of jobs per status, the active ones among them, the first
  failed job in the order of the listing, and the decisions of policy runs, each counted as pass, fail or
  pending, so that the three numbers add up to the number of policy runs.
\<close>

theorem overview_counts_listed_jobs:
  assumes "framework_overview env credentials st = (Inr v, st')"
  shows "\<exists>health trust payload jobs st1. dash_list_proofs env 2 None None 50 st1 = (Inr payload, st') \<and>
    listed_jobs payload = Inr (map PDict jobs) \<and>
    v = overview_json (de_iso_now env) health trust (counts_of jobs) (int (length jobs)) \<and>
    oc_pass (counts_of jobs) + oc_fail (counts_of jobs) + oc_pending (counts_of jobs) = number (\<lambda>j. job_policy j \<noteq> None) jobs"
proof -
  from assms obtain health trust payload vs c st1 where
    p: "dash_list_proofs env 2 None None 50 st1 = (Inr payload, st')" "listed_jobs payload = Inr vs"
    and c: "count_jobs vs no_counts = Inr c" and v: "v = overview_json (de_iso_now env) health trust c (int (length vs))"
    by (auto simp: framework_overview_def sbind_eq_Inr sgather_Inr prog_basic_eq slift_def sret_def)
  from c obtain jobs where "vs = map PDict jobs" "c = counts_of jobs" by (auto simp: count_jobs_exact)
  with p v decisions_partition [of jobs] show ?thesis by auto
qed

section \<open>Health\<close>

definition component_names :: "string list" where
  "component_names = [''prover'', ''verifier'', ''worker'', ''vault'', ''redis'', ''postgres'', ''trust_speed'']"

lemma distinct_component_names: "distinct component_names"
  by (simp add: component_names_def)

text \<open>Whether the services answer the probes, one after the other, with a status below 400.\<close>

definition answers_ok :: "('r, 'k, 'w) dashboard_env \<Rightarrow> string \<times> (string \<times> string) list \<Rightarrow> 'w \<Rightarrow> bool \<times> 'w" where
  "answers_ok env p w =
     (case de_send env \<lparr>hc_method = ''GET'', hc_url = fst p, hc_headers = snd p, hc_params = [], hc_content = []\<rparr> w of
        (Inr a, w') \<Rightarrow> (ha_status a < 400, w') | (Inl _, w') \<Rightarrow> (False, w'))"

fun answers :: "('r, 'k, 'w) dashboard_env \<Rightarrow> (string \<times> (string \<times> string) list) list \<Rightarrow> 'w \<Rightarrow> bool list \<times> 'w" where
  "answers env [] w = ([], w)"
| "answers env (p # ps) w = (case answers_ok env p w of (b, w1) \<Rightarrow> case answers env ps w1 of (bs, w2) \<Rightarrow> (b # bs, w2))"

definition probes :: "('r, 'k, 'w) dashboard_env \<Rightarrow> (string \<times> string) list \<Rightarrow> (string \<times> (string \<times> string) list) list" where
  "probes env auth_headers =
     (let dc = de_config env
      in [(dc_prover_url dc @ ''/healthz'', []), (dc_verifier_url dc @ ''/healthz'', []), (dc_worker_metrics_url dc, []),
          (dc_vault_addr dc @ ''/v1/sys/health'', [(''X-Vault-Token'', dc_vault_token dc)]),
          (dc_verifier_url dc @ API_PREFIX @ ''/trust-speed'', auth_headers)])"

definition reachable_ports :: "('r, 'k, 'w) dashboard_env \<Rightarrow> bool list" where
  "reachable_ports env =
     (let dc = de_config env
      in [de_tcp env (dc_redis_host dc) (dc_redis_port dc) = None, de_tcp env (dc_postgres_host dc) (dc_postgres_port dc) = None])"

definition probed :: "('r, 'k, 'w) dashboard_env \<Rightarrow> string \<Rightarrow> string \<times> (string \<times> string) list \<Rightarrow> ('r, 'w) dashboard_state \<Rightarrow> health_check" where
  "probed env name p st = projr (fst (http_status env name (fst p) (snd p) st))"

lemma probed_simps:
  "http_status env name url headers st = (Inr (probed env name (url, headers) st), st\<lparr>ds_world := snd (answers_ok env (url, headers) (ds_world st))\<rparr>)"
  "hk_component (probed env name (url, headers) st) = name"
  "hk_ok (probed env name (url, headers) st) = fst (answers_ok env (url, headers) (ds_world st))"
  by (auto simp: probed_def answers_ok_def http_status_def scatch_def sbind_def on_world_def sret_def split: prod.splits sum.splits)

lemma tcp_status_truthful: "hk_component (tcp_status env n a p) = n" "hk_ok (tcp_status env n a p) = (de_tcp env a p = None)"
  by (simp_all add: tcp_status_def split: option.splits)

lemma health_checks_total:
  obtains checks bs w where "health_checks env h st = (Inr checks, st\<lparr>ds_world := w\<rparr>)" "map hk_component checks = component_names"
    "answers env (probes env h) (ds_world st) = (bs, w)" "map hk_ok checks = take 4 bs @ reachable_ports env @ drop 4 bs"
  by (rule that [of "projr (fst (health_checks env h st))" "snd (answers env (probes env h) (ds_world st))" "fst (answers env (probes env h) (ds_world st))"])
     (simp_all add: health_checks_def sbind_def sret_def probed_simps tcp_status_truthful component_names_def probes_def reachable_ports_def Let_def
       case_prod_beta)

lemma component_lookup:
  assumes "distinct (map hk_component checks)"
  shows "dupdate [] (map component_entry checks) = map component_entry checks"
proof -
  have "map fst (map component_entry checks) = map hk_component checks" by (induction checks) (simp_all add: component_entry_def)
  with assms show ?thesis using dupdate_distinct [of "[]" "map component_entry checks"] by (simp only: append_Nil simp_thms)
qed

lemma failed_components_checks: "failed_components (map component_entry checks) = map component_entry (filter (\<lambda>k. \<not> hk_ok k) checks)"
  by (induction checks) (simp_all add: failed_components_def component_entry_def)

lemma read_world: "require_read env credentials st = (r, st1) \<Longrightarrow> ds_world st1 = ds_world st"
  by (auto simp: require_read_def on_dash_auth_def split: prod.splits)

lemma bearer_world: "upstream_bearer_headers env i st = (h, st2) \<Longrightarrow> ds_world st2 = ds_world st"
  by (auto simp: upstream_bearer_headers_def sbind_def on_tokens_def sret_def split: prod.splits sum.splits)

lemma diagnostics_with_token:
  assumes "require_read env credentials st = (Inr x, st1)" "upstream_bearer_headers env 0 st1 = (Inr h, st2)"
  shows "\<exists>checks bs w. framework_diagnostics env credentials st =
      (Inr (if list_all hk_ok checks then ''ok'' else ''degraded'', map component_entry (filter (\<lambda>k. \<not> hk_ok k) checks),
            if list_all hk_ok checks then ''all_ok'' else ''degraded_dependencies''), st2\<lparr>ds_world := w\<rparr>) \<and>
    map hk_component checks = component_names \<and> answers env (probes env h) (ds_world st) = (bs, w) \<and>
    map hk_ok checks = take 4 bs @ reachable_ports env @ drop 4 bs"
proof -
  have "ds_world st2 = ds_world st" using read_world [OF assms(1)] bearer_world [OF assms(2)] by simp
  then obtain checks bs w where c: "health_checks env h st2 = (Inr checks, st2\<lparr>ds_world := w\<rparr>)"
    and names: "map hk_component checks = component_names" and ok: "answers env (probes env h) (ds_world st) = (bs, w)"
      "map hk_ok checks = take 4 bs @ reachable_ports env @ drop 4 bs" by (metis health_checks_total)
  have d: "dupdate [] (map component_entry checks) = map component_entry checks" by (rule component_lookup) (simp add: names distinct_component_names)
  have e: "filter (\<lambda>k. \<not> hk_ok k) checks = [] \<longleftrightarrow> list_all hk_ok checks" by (auto simp: filter_empty_conv list_all_iff)
  have "framework_diagnostics env credentials st =
      (Inr (if list_all hk_ok checks then ''ok'' else ''degraded'', map component_entry (filter (\<lambda>k. \<not> hk_ok k) checks),
            if list_all hk_ok checks then ''all_ok'' else ''degraded_dependencies''), st2\<lparr>ds_world := w\<rparr>)"
    using assms c by (auto simp: framework_diagnostics_def framework_health_snapshot_def sbind_def sret_def Let_def d failed_components_checks e)
  with names ok show ?thesis by blast
qed

text \<open>
  C37. What the diagnostics route reports, for a caller it admits. The route first takes a token for its calls, signed by Vault when none
  is cached. When that fails, the route raises the error and reports nothing: no service is probed. Otherwise all seven checks are made
  whatever the services answer or raise, each reported under its own name. A service counts as healthy exactly when it answers its
  probe with a status below 400, a store when its port accepts a connection. The failed components are exactly the checks that failed,
  and the status is \<open>ok\<close> exactly when none did.
\<close>

theorem diagnostics_name_failed_checks:
  assumes "require_read env credentials st = (Inr x, st1)" "upstream_bearer_headers env 0 st1 = (token, st2)"
  shows "case token of
    Inl e \<Rightarrow> framework_diagnostics env credentials st = (Inl e, st2) \<and> ds_world st2 = ds_world st
  | Inr h \<Rightarrow> (\<exists>checks bs w. framework_diagnostics env credentials st =
      (Inr (if list_all hk_ok checks then ''ok'' else ''degraded'', map component_entry (filter (\<lambda>k. \<not> hk_ok k) checks),
            if list_all hk_ok checks then ''all_ok'' else ''degraded_dependencies''), st2\<lparr>ds_world := w\<rparr>) \<and>
    map hk_component checks = component_names \<and> answers env (probes env h) (ds_world st) = (bs, w) \<and>
    map hk_ok checks = take 4 bs @ reachable_ports env @ drop 4 bs)"
proof (cases token)
  case (Inl e)
  have "ds_world st2 = ds_world st" using read_world [OF assms(1)] bearer_world [OF assms(2)] by simp
  with Inl assms show ?thesis by (simp add: framework_diagnostics_def framework_health_snapshot_def sbind_def)
next
  case (Inr h)
  show ?thesis unfolding Inr sum.case using assms(1) assms(2) [unfolded Inr] by (rule diagnostics_with_token)
qed

section \<open>Tokens are fresh\<close>

text \<open>The caches that coroutines can leave at a time: nothing yet, the passing of time, or a use of the cache under its lock.\<close>

inductive cache_at :: "token_request \<Rightarrow> int \<Rightarrow> token_cache \<Rightarrow> bool" for tr where
  cache_empty: "cache_at tr t empty_cache"
| cache_wait: "cache_at tr t c \<Longrightarrow> t \<le> t' \<Longrightarrow> cache_at tr t' c"
| cache_refresh: "cache_at tr t c \<Longrightarrow> t \<le> locked \<Longrightarrow> locked \<le> sign_time \<Longrightarrow>
    refresh_token tr locked sign_time jti c = (r, c') \<Longrightarrow> cache_at tr sign_time c'"

text \<open>A token that was signed no later than \<open>now\<close> and is good for more than \<open>margin\<close> seconds from then.\<close>

definition fresh_token :: "token_request \<Rightarrow> int \<Rightarrow> int \<Rightarrow> string \<Rightarrow> bool" where
  "fresh_token tr now margin token =
     (\<exists>iat jti. jwt_sign (tr_vault tr) (tr_key tr) (tr_issuer tr) (tr_audience tr) iat jti (tr_subject tr) (tr_ttl_seconds tr) (tr_scopes tr) = Inr token \<and>
        iat * 1000000 \<le> now \<and> now + margin * 1000000 < (iat + tr_ttl_seconds tr) * 1000000)"

definition cache_sound :: "token_request \<Rightarrow> int \<Rightarrow> token_cache \<Rightarrow> bool" where
  "cache_sound tr t c =
     (\<forall>token. tk_token c = Some token \<longrightarrow>
        (\<exists>iat jti. jwt_sign (tr_vault tr) (tr_key tr) (tr_issuer tr) (tr_audience tr) iat jti (tr_subject tr) (tr_ttl_seconds tr) (tr_scopes tr) = Inr token \<and>
           iat * 1000000 \<le> t \<and> tk_expires c < (iat + 1 + tr_ttl_seconds tr) * 1000000))"

lemma seconds_below: "(t :: int) div 1000000 * 1000000 \<le> t" "t < (t div 1000000 + 1) * 1000000"
  by presburger+

lemma cache_sound_refresh:
  assumes "cache_sound tr t c" "t \<le> locked" "locked \<le> sign_time" "refresh_token tr locked sign_time jti c = (r, c')"
  shows "cache_sound tr sign_time c'"
  using assms seconds_below [of sign_time]
  by (fastforce simp: refresh_token_def cache_sound_def distrib_right split: option.splits sum.splits)

lemma cache_at_sound: "cache_at tr t c \<Longrightarrow> cache_sound tr t c"
proof (induction rule: cache_at.induct)
  case (cache_wait t c t')
  then show ?case by (fastforce simp: cache_sound_def)
next
  case (cache_refresh t c locked sign_time jti r c')
  show ?case by (rule cache_sound_refresh) (use cache_refresh in auto)
qed (simp add: cache_sound_def empty_cache_def)

lemma usable_fresh:
  assumes "cache_sound tr t c" "t \<le> now" "usable tr now c = Some token"
  shows "fresh_token tr now (tr_skew_seconds tr - 1) token"
  using assms by (fastforce simp: usable_def cache_sound_def fresh_token_def distrib_right left_diff_distrib split: if_splits)

lemma refresh_fresh:
  assumes c: "cache_sound tr t c" "t \<le> locked" "locked \<le> sign_time" and r: "refresh_token tr locked sign_time jti c = (Inr token, c')"
    and ttl: "tr_skew_seconds tr \<le> tr_ttl_seconds tr"
  shows "\<exists>now. locked \<le> now \<and> now \<le> sign_time \<and> fresh_token tr now (tr_skew_seconds tr - 1) token"
proof (cases "usable tr locked c")
  case None
  with r have "jwt_sign (tr_vault tr) (tr_key tr) (tr_issuer tr) (tr_audience tr) (sign_time div 1000000) jti (tr_subject tr) (tr_ttl_seconds tr) (tr_scopes tr) = Inr token"
    by (simp add: refresh_token_def split: sum.splits)
  moreover have "sign_time + (tr_skew_seconds tr - 1) * 1000000 < (sign_time div 1000000 + tr_ttl_seconds tr) * 1000000"
    using seconds_below(2) [of sign_time] ttl by (simp add: distrib_right left_diff_distrib)
  ultimately have "fresh_token tr sign_time (tr_skew_seconds tr - 1) token"
    unfolding fresh_token_def using seconds_below(1) by blast
  with c show ?thesis by blast
next
  case (Some token')
  with r have "usable tr locked c = Some token" by (simp add: refresh_token_def)
  from usable_fresh [OF c(1,2) this] c show ?thesis by blast
qed

lemma get_token_fresh:
  assumes c: "cache_at tr t c" "t \<le> tc_first k" and o: "cache_at tr (tc_locked k) (tc_others k c)"
    and k: "tc_first k \<le> tc_locked k" "tc_locked k \<le> tc_sign k"
    and g: "get_token tr k c = (r, c')" and ttl: "tr_skew_seconds tr \<le> tr_ttl_seconds tr"
  shows "cache_at tr (tc_sign k) c'"
    "r = Inr token \<Longrightarrow> \<exists>now. tc_first k \<le> now \<and> now \<le> tc_sign k \<and> fresh_token tr now (tr_skew_seconds tr - 1) token"
proof -
  have refreshed: "usable tr (tc_first k) c = None \<Longrightarrow> refresh_token tr (tc_locked k) (tc_sign k) (tc_jti k) (tc_others k c) = (r, c')"
    using g by (simp add: get_token_def)
  have kept: "r = Inr x \<and> c' = c" if "usable tr (tc_first k) c = Some x" for x using that g by (simp add: get_token_def)
  show "cache_at tr (tc_sign k) c'"
  proof (cases "usable tr (tc_first k) c")
    case None
    show ?thesis by (rule cache_refresh [OF o order_refl k(2) refreshed [OF None]])
  next
    case (Some x)
    with kept cache_wait [OF c(1), of "tc_sign k"] c(2) k show ?thesis by auto
  qed
  show "\<exists>now. tc_first k \<le> now \<and> now \<le> tc_sign k \<and> fresh_token tr now (tr_skew_seconds tr - 1) token" if tok: "r = Inr token"
  proof (cases "usable tr (tc_first k) c")
    case None
    from refresh_fresh [OF cache_at_sound [OF o] order_refl k(2) _ ttl] refreshed [OF None] tok
    obtain now where "tc_locked k \<le> now" "now \<le> tc_sign k" "fresh_token tr now (tr_skew_seconds tr - 1) token" by blast
    with k show ?thesis by (intro exI [of _ now]) simp
  next
    case (Some x)
    with kept tok have "usable tr (tc_first k) c = Some token" by auto
    from usable_fresh [OF cache_at_sound [OF c(1)] c(2) this] k show ?thesis by fastforce
  qed
qed

lemma bearer_token:
  assumes "upstream_bearer_headers env i st = (Inr headers, st')"
  obtains token where "get_token (upstream_token env) (de_clock env i) (ds_tokens st) = (Inr token, ds_tokens st')"
    "headers = [(''Authorization'', ''Bearer '' @ token)]"
  using assms by (auto simp: upstream_bearer_headers_def sbind_eq_Inr on_tokens_def sret_def split: prod.splits)

lemma upstream_times: "tr_skew_seconds (upstream_token env) \<le> tr_ttl_seconds (upstream_token env)" "tr_skew_seconds (upstream_token env) - 1 = 59"
  by (simp_all add: upstream_token_def)

text \<open>
  C24. Every call the dashboard makes carries a token that is still good for almost a minute: whatever calls and refreshes came before,
  and whatever other coroutines do while one waits for the lock, the bearer header holds a token that \<open>VaultJWTSigner\<close> issued for the
  dashboard's scopes with 600 seconds to live, not from the future, and at the moment it was taken at least 59 of its seconds were left; the
  cache it leaves is again one that only refreshes can have produced.
\<close>

theorem upstream_token_fresh:
  assumes "cache_at (upstream_token env) t (ds_tokens st)" "t \<le> tc_first (de_clock env i)"
    and "cache_at (upstream_token env) (tc_locked (de_clock env i)) (tc_others (de_clock env i) (ds_tokens st))"
    and "tc_first (de_clock env i) \<le> tc_locked (de_clock env i)" "tc_locked (de_clock env i) \<le> tc_sign (de_clock env i)"
    and "upstream_bearer_headers env i st = (Inr headers, st')"
  shows "(\<exists>token now. headers = [(''Authorization'', ''Bearer '' @ token)] \<and> tc_first (de_clock env i) \<le> now \<and>
       now \<le> tc_sign (de_clock env i) \<and> fresh_token (upstream_token env) now 59 token) \<and>
    cache_at (upstream_token env) (tc_sign (de_clock env i)) (ds_tokens st')"
proof -
  from bearer_token [OF assms(6)] obtain token where g: "get_token (upstream_token env) (de_clock env i) (ds_tokens st) = (Inr token, ds_tokens st')"
    and h: "headers = [(''Authorization'', ''Bearer '' @ token)]" by blast
  from get_token_fresh [OF assms(1-5) g upstream_times(1), unfolded upstream_times(2)] h show ?thesis by auto
qed

section \<open>Witnesses\<close>

text \<open>A dashboard whose worker cannot be reached and whose prover lists two jobs.\<close>

definition demo_dashboard_config :: dashboard_config where
  "demo_dashboard_config =
     \<lparr>dc_prover_url = ''p'', dc_verifier_url = ''v'', dc_worker_metrics_url = ''w'', dc_jwt_issuer = ''vellum'', dc_jwt_audience = ''services'',
      dc_bank_key_id = ''bank'', dc_vault_addr = ''t'', dc_vault_token = ''root'', dc_vault_jwt_key = ''jwt'', dc_vault_bank_key = ''bank-key'',
      dc_cache_ttl_seconds = 300, dc_nonce_window_seconds = 300, dc_jwt_max_ttl_seconds = 900, dc_jwt_leeway_seconds = 0,
      dc_submit_rate_limit = 5, dc_redis_host = ''r'', dc_redis_port = 1, dc_postgres_host = ''g'', dc_postgres_port = 2,
      dc_require_auth = False, dc_read_scope = ''dashboard:read'', dc_write_scope = ''dashboard:write'', dc_max_demo_prove_body_bytes = 10\<rparr>"

definition demo_jobs :: pyval where
  "demo_jobs = PDict [(''items'', PList
     [PDict [(''status'', PStr ''failed''), (''metadata'', PNone)],
      PDict [(''status'', PStr ''queued''), (''metadata'', PDict [(''policy_id'', PStr ''pol''), (''decision'', PNone)])]])]"

definition demo_upstream :: "http_call \<Rightarrow> (nat, http_answer) prog" where
  "demo_upstream call n =
     (if hc_url call = ''w'' then (Inl (OtherError ''ConnectError''), Suc n)
      else (Inr \<lparr>ha_status = 200, ha_json = Inr (if hc_url call = ''p/v6/proofs'' then demo_jobs else PDict []), ha_text = []\<rparr>, Suc n))"

definition demo_clock :: token_clock where
  "demo_clock = \<lparr>tc_first = 7, tc_others = (\<lambda>c. c), tc_locked = 8, tc_sign = 9, tc_jti = ''id''\<rparr>"

definition demo_dashboard :: "(demo_store, string, nat) dashboard_env" where
  "demo_dashboard =
     \<lparr>de_config = demo_dashboard_config, de_auth = demo_env, de_send = demo_upstream, de_tcp = (\<lambda>_ _. None), de_clock = (\<lambda>_. demo_clock),
      de_guard_now = 0, de_handshake_now = 0, de_nonce = ''n1'', de_iso_now = ''now'', de_exc_text = (\<lambda>_. ''unreachable''), de_circuits = None,
      de_parse_float = (\<lambda>_. PNone), de_parse_batch = (\<lambda>_. Inl PNone), de_model_error = (\<lambda>_. PNone), de_batch_json = (\<lambda>d. json_text (PDict d)),
      de_verify_json = (\<lambda>_. [])\<rparr>"

definition demo_console :: "(demo_store, nat) dashboard_state" where
  "demo_console = \<lparr>ds_auth = demo_state, ds_tokens = \<lparr>tk_token = Some ''tok'', tk_expires = 100000000\<rparr>, ds_world = 0\<rparr>"

lemma demo_bearer: "upstream_bearer_headers demo_dashboard i st = (Inr [(''Authorization'', ''Bearer tok'')], st)"
  if "ds_tokens st = ds_tokens demo_console"
  using that
  by (cases st) (simp add: upstream_bearer_headers_def sbind_def on_tokens_def get_token_def usable_def upstream_token_def demo_dashboard_def demo_clock_def
      demo_console_def sret_def)

lemma demo_read: "require_read demo_dashboard credentials st = (Inr None, st)"
  by (cases st) (simp add: require_read_def on_dash_auth_def optional_scoped_jwt_def demo_dashboard_def demo_dashboard_config_def sret_def)

theorem overview_counts_listed_jobs_witness:
  "\<exists>v st' health trust payload jobs (st1 :: (demo_store, nat) dashboard_state).
     framework_overview demo_dashboard None demo_console = (Inr v, st') \<and>
     dash_list_proofs demo_dashboard 2 None None 50 st1 = (Inr payload, st') \<and> listed_jobs payload = Inr (map PDict jobs) \<and>
     v = overview_json ''now'' health trust (counts_of jobs) (int (length jobs))"
proof -
  have "is_ok (fst (framework_overview demo_dashboard None demo_console))" by code_simp
  then obtain v st' where o: "framework_overview demo_dashboard None demo_console = (Inr v, st')"
    by (cases "framework_overview demo_dashboard None demo_console") (auto simp: is_ok_iff)
  have "de_iso_now demo_dashboard = ''now''" by (simp add: demo_dashboard_def)
  with overview_counts_listed_jobs [OF o] o show ?thesis by auto
qed

text \<open>The dashboard while Vault is down, with no token cached.\<close>

definition sealed_dashboard :: "(demo_store, string, nat) dashboard_env" where
  "sealed_dashboard = demo_dashboard\<lparr>de_auth := demo_env\<lparr>ae_vault := demo_server\<lparr>vs_sign := (\<lambda>_ _. Inl (OtherError ''ConnectError''))\<rparr>\<rparr>\<rparr>"

theorem diagnostics_name_failed_checks_witness:
  "(\<exists>checks bs w. framework_diagnostics demo_dashboard None demo_console =
      (Inr (if list_all hk_ok checks then ''ok'' else ''degraded'', map component_entry (filter (\<lambda>k. \<not> hk_ok k) checks),
            if list_all hk_ok checks then ''all_ok'' else ''degraded_dependencies''), demo_console\<lparr>ds_world := w\<rparr>) \<and>
    map hk_component checks = component_names \<and>
    answers demo_dashboard (probes demo_dashboard [(''Authorization'', ''Bearer tok'')]) (ds_world demo_console) = (bs, w) \<and>
    map hk_ok checks = take 4 bs @ reachable_ports demo_dashboard @ drop 4 bs) \<and>
   (\<exists>e st2. framework_diagnostics sealed_dashboard None (demo_console\<lparr>ds_tokens := empty_cache\<rparr>) = (Inl e, st2) \<and> ds_world st2 = 0)"
proof
  show "\<exists>checks bs w. framework_diagnostics demo_dashboard None demo_console =
      (Inr (if list_all hk_ok checks then ''ok'' else ''degraded'', map component_entry (filter (\<lambda>k. \<not> hk_ok k) checks),
            if list_all hk_ok checks then ''all_ok'' else ''degraded_dependencies''), demo_console\<lparr>ds_world := w\<rparr>) \<and>
    map hk_component checks = component_names \<and>
    answers demo_dashboard (probes demo_dashboard [(''Authorization'', ''Bearer tok'')]) (ds_world demo_console) = (bs, w) \<and>
    map hk_ok checks = take 4 bs @ reachable_ports demo_dashboard @ drop 4 bs"
    using diagnostics_name_failed_checks [OF demo_read demo_bearer [OF refl]] unfolding sum.case .
  let ?st = "demo_console\<lparr>ds_tokens := empty_cache\<rparr>"
  have read: "require_read sealed_dashboard None ?st = (Inr None, ?st)"
    by (simp add: require_read_def on_dash_auth_def optional_scoped_jwt_def sealed_dashboard_def demo_dashboard_def demo_dashboard_config_def sret_def demo_console_def)
  have "\<not> is_ok (fst (upstream_bearer_headers sealed_dashboard 0 ?st))"
    by (simp add: upstream_bearer_headers_def sbind_def on_tokens_def get_token_def refresh_token_def usable_def upstream_token_def sealed_dashboard_def
        demo_dashboard_def demo_clock_def demo_env_def empty_cache_def jwt_sign_def Let_def vault_sign_def demo_server_def demo_console_def)
  then obtain e st2 where "upstream_bearer_headers sealed_dashboard 0 ?st = (Inl e, st2)"
    by (cases "upstream_bearer_headers sealed_dashboard 0 ?st"; cases "fst (upstream_bearer_headers sealed_dashboard 0 ?st)") auto
  from diagnostics_name_failed_checks [OF read this]
  show "\<exists>e st2. framework_diagnostics sealed_dashboard None ?st = (Inl e, st2) \<and> ds_world st2 = 0"
    by (auto simp: demo_console_def)
qed

theorem upstream_token_fresh_witness:
  "\<exists>headers st' token now. upstream_bearer_headers demo_dashboard 0 (demo_console\<lparr>ds_tokens := empty_cache\<rparr>) = (Inr headers, st') \<and>
     headers = [(''Authorization'', ''Bearer '' @ token)] \<and> fresh_token (upstream_token demo_dashboard) now 59 token \<and>
     cache_at (upstream_token demo_dashboard) 9 (ds_tokens st')"
proof -
  let ?st = "demo_console\<lparr>ds_tokens := empty_cache\<rparr>"
  have dec: "decode_signature (transit_text 3 ''sig'') = Inr (''sig'', show_nat 3)" by (rule decode_transit) simp
  obtain headers st' where h: "upstream_bearer_headers demo_dashboard 0 ?st = (Inr headers, st')"
    by (simp add: upstream_bearer_headers_def sbind_def on_tokens_def get_token_def refresh_token_def usable_def upstream_token_def demo_dashboard_def
        demo_clock_def demo_env_def empty_cache_def jwt_sign_def Let_def vault_sign_def demo_server_def dec sret_def)
  have clock: "de_clock demo_dashboard 0 = demo_clock" by (simp add: demo_dashboard_def)
  have e: "cache_at (upstream_token demo_dashboard) t empty_cache" for t by (rule cache_empty)
  have "tc_first demo_clock \<le> tc_locked demo_clock" "tc_locked demo_clock \<le> tc_sign demo_clock" "tc_sign demo_clock = 9"
    "tc_others demo_clock c = c" for c
    by (simp_all add: demo_clock_def)
  with upstream_token_fresh [of demo_dashboard 0 ?st 0 headers st'] h e clock show ?thesis by (auto simp: demo_clock_def)
qed

end
