(* ===== verification/Dashboard_Correctness.thy ===== *)
theory Dashboard_Correctness
  imports Dashboard Prover_Correctness
begin

text \<open>
  The dashboard and the prover together: a run submitted through the dashboard, followed from the token cache and the signed headers
  over the prover's route to its two checks and the handler behind them. The services are connected by a record of what
  lies between them: the class names and rendering of errors, FastAPI's bearer scheme, the client address and the prover's
  clock readings. Vault's signatures and the token library are assumed to do what they document: \<open>signatures_verify\<close>
  and \<open>tokens_decode\<close>. The witness has an instance in which both services run and the token is really decoded.
\<close>

section \<open>Handshakes that pass\<close>

text \<open>A request with this evidence, a new nonce and room in the rate window is accepted, and changes only cache and store.\<close>

lemma handshake_accepts:
  assumes h: "header r ''X-Bank-Key-Id'' = Some key_id" "header r ''X-Bank-Nonce'' = Some nonce"
      "header r ''X-Bank-Timestamp'' = Some ts_raw" "header r ''X-Bank-Signature'' = Some signature"
    and ne: "key_id \<noteq> []" "nonce \<noteq> []" "ts_raw \<noteq> []" "signature \<noteq> []"
    and ts: "parse_timestamp (ae_fromiso env) ts_raw = Inr ts" and vk: "map_of (ac_bank_keys cfg) key_id = Some vault_key"
    and dec: "decode_signature signature = Inr (raw, version)"
    and pem: "get_public_key (ae_vault env) (ac_cache_ttl cfg) (rq_now_keys r) vault_key (Some version) (au_cache st) = (Inr pem, cache)"
    and ver: "verify_ed25519_signature (ae_ed env) pem
          (build_canonical_request_string (ae_sha256 env) (rq_method r) (rq_path r) ts_raw nonce (rq_body r)) raw"
    and win: "\<bar>rq_now_guard r - ts\<bar> \<le> ac_window cfg * 1000000"
    and nx: "rs_set_nx (ae_redis env) (rq_now_guard r) (nonce_key key_id nonce) (ae_float_text env ts) (ac_window cfg) (au_redis st) = (Inr True, rd)"
    and lim: "limiter_check_and_store (ae_redis env) (ac_max_per_minute cfg) (rq_now_limit r) key_id (client_ip r) rd = (Inr (), rd')"
  shows "verify_handshake cfg env r st = (Inr key_id, st\<lparr>au_cache := cache, au_redis := rd'\<rparr>)"
proof -
  have m: "missing_headers r = []" using h ne by (simp add: missing_headers_def handshake_headers_def)
  let ?st = "st\<lparr>au_cache := cache\<rparr>"
  have c: "on_cache (get_public_key (ae_vault env) (ac_cache_ttl cfg) (rq_now_keys r) vault_key (Some version)) st = (Inr pem, ?st)"
    by (simp add: on_cache_def pem)
  have g: "on_redis (guard_check_and_store (ae_redis env) (ae_float_text env) (ac_window cfg) (rq_now_guard r) key_id nonce ts) ?st = (Inr (), ?st\<lparr>au_redis := rd\<rparr>)"
    using guard_Inr [of "ae_redis env" "ae_float_text env" "ac_window cfg" "rq_now_guard r" key_id nonce ts "au_redis st" "()" rd] win nx
    by (simp add: on_redis_def)
  have l: "on_redis (limiter_check_and_store (ae_redis env) (ac_max_per_minute cfg) (rq_now_limit r) key_id (client_ip r)) (?st\<lparr>au_redis := rd\<rparr>) =
      (Inr (), ?st\<lparr>au_redis := rd'\<rparr>)"
    using lim by (simp add: on_redis_def)
  show ?thesis
    unfolding verify_handshake_def Let_def m h option.sel ts sbind_lifted vk option.case dec prod.case
    using ver by (simp add: sthen_def sbind_def scatch_def c g l sret_def)
qed

section \<open>The key cache under reads of any key\<close>

lemma cache_agrees_dput_other: "cache_agrees keys key cache \<Longrightarrow> other \<noteq> key \<Longrightarrow> cache_agrees keys key (dput other e cache)"
  by (auto simp: cache_agrees_def distinct_dput map_of_dput)

lemma get_versions_agrees:
  assumes "cache_agrees keys key cache" "read_public_keys srv key = Inr keys" "keys \<noteq> []" "get_versions srv ttl now name cache = (r, cache')"
  shows "cache_agrees keys key cache'"
  using assms cache_agrees_dput [OF assms(1,3)] cache_agrees_dput_other [OF assms(1)]
  by (cases "name = key") (auto simp: get_versions_def fetch_versions_def split: option.splits if_splits sum.splits)

lemma latest_key_agrees:
  assumes "cache_agrees keys key cache" "read_public_keys srv key = Inr keys" "keys \<noteq> []" "get_public_key srv ttl now name None cache = (r, cache')"
  shows "cache_agrees keys key cache'"
  using assms(4) get_versions_agrees [OF assms(1-3), of ttl now name]
  by (auto simp: get_public_key_def split: prod.splits sum.splits if_splits)

section \<open>Requests of the dashboard at the prover\<close>

lemma sent_lower:
  "py_lower ''Authorization'' = ''authorization''" "py_lower ''Content-Type'' = ''content-type''" "py_lower ''X-Bank-Key-Id'' = ''x-bank-key-id''"
  "py_lower ''X-Bank-Timestamp'' = ''x-bank-timestamp''" "py_lower ''X-Bank-Nonce'' = ''x-bank-nonce''"
  "py_lower ''X-Bank-Signature'' = ''x-bank-signature''" "py_lower ''X-Forwarded-For'' = ''x-forwarded-for''"
  by code_simp+

text \<open>The call that \<open>signed_post\<close> makes with a token and a signature.\<close>

definition sent :: "('r, 'k, 'w) dashboard_env \<Rightarrow> string \<Rightarrow> string \<Rightarrow> string \<Rightarrow> vault_signature \<Rightarrow> http_call" where
  "sent env path body token signature =
     \<lparr>hc_method = ''POST'', hc_url = dc_prover_url (de_config env) @ path,
      hc_headers = [(''Authorization'', ''Bearer '' @ token), (''Content-Type'', ''application/json''),
        (''X-Bank-Key-Id'', dc_bank_key_id (de_config env)), (''X-Bank-Timestamp'', show_int (de_handshake_now env div 1000000)),
        (''X-Bank-Nonce'', de_nonce env), (''X-Bank-Signature'', sig_encoded signature)],
      hc_params = [], hc_content = body\<rparr>"

lemma sent_headers:
  "header (received (sent env path body token signature) path client a b c) ''X-Bank-Key-Id'' = Some (dc_bank_key_id (de_config env))"
  "header (received (sent env path body token signature) path client a b c) ''X-Bank-Timestamp'' = Some (show_int (de_handshake_now env div 1000000))"
  "header (received (sent env path body token signature) path client a b c) ''X-Bank-Nonce'' = Some (de_nonce env)"
  "header (received (sent env path body token signature) path client a b c) ''X-Bank-Signature'' = Some (sig_encoded signature)"
  "header (received (sent env path body token signature) path client a b c) ''Authorization'' = Some (''Bearer '' @ token)"
  "client_ip (received (sent env path body token signature) path client a b c) = client"
  by (simp_all add: header_def client_ip_def received_def sent_def sent_lower)

text \<open>Vault's signatures verify under the version they name, and so do the tokens it signs: what the two services rely on.\<close>

definition signatures_verify :: "('r, 'k) auth_env \<Rightarrow> string \<Rightarrow> (string \<times> string) list \<Rightarrow> bool" where
  "signatures_verify env key keys =
     (\<forall>payload s. vault_sign (ae_vault env) key payload = Inr s \<longrightarrow>
        (\<exists>pem. map_of keys (sig_key_version s) = Some pem \<and> verify_ed25519_signature (ae_ed env) pem payload (sig_raw s)))"

definition tokens_decode :: "('r, 'k) auth_env \<Rightarrow> 'k \<Rightarrow> token_request \<Rightarrow> bool" where
  "tokens_decode env k tr =
     (\<forall>iat jti token leeway now.
        jwt_sign (tr_vault tr) (tr_key tr) (tr_issuer tr) (tr_audience tr) iat jti (tr_subject tr) (tr_ttl_seconds tr) (tr_scopes tr) = Inr token \<and>
        0 \<le> leeway \<and> iat * 1000000 \<le> now \<and> now < (iat + tr_ttl_seconds tr) * 1000000 \<longrightarrow>
        ae_jwt_decode env token k (tr_issuer tr) (tr_audience tr) leeway now =
          Inr (jwt_payload (tr_issuer tr) (tr_audience tr) iat jti (tr_subject tr) (tr_ttl_seconds tr) (tr_scopes tr)))"

lemma parse_timestamp_show: "0 \<le> t \<Longrightarrow> parse_timestamp fromiso (show_int t) = Inr (t * 1000000)"
proof -
  assume "0 \<le> t"
  then have "show_int t = show_nat (nat t)" by (simp add: show_int_def)
  moreover have "py_isdigit (show_nat n)" for n using show_nat_digits [of _ n] by (simp add: py_isdigit_def list_all_iff)
  ultimately show ?thesis using \<open>0 \<le> t\<close> by (simp add: parse_timestamp_def)
qed

lemma decode_signature_nonempty: "decode_signature s = Inr x \<Longrightarrow> s \<noteq> []"
  by (auto simp: decode_signature_def match_vault_sig_def startswith_def)

lemma vault_sign_decodes: "vault_sign srv key payload = Inr s \<Longrightarrow> decode_signature (sig_encoded s) = Inr (sig_raw s, sig_key_version s)"
  by (auto simp: vault_sign_def rbind_eq_Inr)

section \<open>Delivery\<close>

record link =
  lk_class_name :: "pyexc \<Rightarrow> string"
  lk_render :: "pyval \<Rightarrow> string"
  lk_bearer :: "string option \<Rightarrow> string option"
  lk_client :: "string option"
  lk_now_keys :: int
  lk_now_guard :: int
  lk_now_limit :: int

definition run_accepted_json :: "run_accepted \<Rightarrow> pyval" where
  "run_accepted_json a =
     PDict [(''run_id'', PStr (ra_run_id a)), (''policy_id'', PStr (ra_policy_id a)), (''lifecycle_state'', PStr (ra_lifecycle_state a)),
            (''attestation_id'', PStr (ra_attestation_id a))]"

text \<open>The call as the prover receives it, and the prover's route for new runs behind the network.\<close>

definition seen :: "link \<Rightarrow> string \<Rightarrow> http_call \<Rightarrow> request" where
  "seen lk path call = received call path (lk_client lk) (lk_now_keys lk) (lk_now_guard lk) (lk_now_limit lk)"

definition runs_route :: "link \<Rightarrow> ('r, 'k) prover_env \<Rightarrow> http_call \<Rightarrow> ('r service_state, http_answer) prog" where
  "runs_route lk pv call =
     answered (lk_class_name lk) (lk_render lk) 202 run_accepted_json
       (create_policy_run pv (lk_bearer lk (header (seen lk (API_PREFIX @ ''/runs'') call) ''Authorization''))
          (seen lk (API_PREFIX @ ''/runs'') call))"

lemma upstream_grants: "''proofs:write'' \<in> set (extract_scope_set (jwt_payload i a iat jti sub ttl upstream_scopes))"
proof -
  have s: "py_strip s = s \<and> CHR '' '' \<notin> set s" if "s \<in> set upstream_scopes" for s
  proof -
    have "list_all (\<lambda>s. py_strip s = s \<and> CHR '' '' \<notin> set s) upstream_scopes" by code_simp
    with that show ?thesis by (simp add: list_all_iff)
  qed
  have "''proofs:write'' \<in> set upstream_scopes" by (simp add: upstream_scopes_def)
  with s have "''proofs:write'' \<in> set (normalized_scopes upstream_scopes)"
    by (force simp: normalized_scopes_elem)
  moreover have "\<And>s. s \<in> set upstream_scopes \<Longrightarrow> CHR '' '' \<notin> set (py_strip s)" using s by simp
  ultimately show ?thesis by (simp add: granted_scopes)
qed

text \<open>A fresh token of the dashboard passes the prover's check for submissions.\<close>

lemma token_passes:
  assumes f: "fresh_token tr now margin token" and d: "tokens_decode env k tr" and sc: "tr_scopes tr = upstream_scopes"
    and key: "get_public_key (ae_vault env) (ac_cache_ttl cfg) t (ac_jwt_key cfg) None (au_cache st) = (Inr pem, cache)"
      "load_ed25519_public_key (ae_ed env) pem = Inr k"
    and cfg: "ac_issuer cfg = tr_issuer tr" "ac_audience cfg = tr_audience tr" "0 \<le> ac_leeway cfg" "tr_ttl_seconds tr \<le> ac_max_ttl cfg"
    and t: "now \<le> t" "t \<le> now + margin * 1000000"
  shows "\<exists>claims. dget claims ''sub'' = PStr (tr_subject tr) \<and>
    required_scoped_jwt cfg env [''proofs:write''] t (Some token) st = (Inr claims, st\<lparr>au_cache := cache\<rparr>)"
proof -
  from f obtain iat jti where j: "jwt_sign (tr_vault tr) (tr_key tr) (tr_issuer tr) (tr_audience tr) iat jti (tr_subject tr) (tr_ttl_seconds tr) (tr_scopes tr) = Inr token"
    "iat * 1000000 \<le> now" "now + margin * 1000000 < (iat + tr_ttl_seconds tr) * 1000000" by (auto simp: fresh_token_def)
  let ?c = "jwt_payload (tr_issuer tr) (tr_audience tr) iat jti (tr_subject tr) (tr_ttl_seconds tr) (tr_scopes tr)"
  have dec: "ae_jwt_decode env token k (tr_issuer tr) (tr_audience tr) (ac_leeway cfg) t = Inr ?c"
    using d [unfolded tokens_decode_def, rule_format, of iat jti token "ac_leeway cfg" t] j t cfg(3) by simp
  have items: "int_item ?c ''exp'' = Inr (iat + tr_ttl_seconds tr)" "int_item ?c ''iat'' = Inr iat" "dget ?c ''sub'' = PStr (tr_subject tr)"
    by (simp_all add: int_item_def jwt_payload_def dsub_def)
  have c: "on_cache (get_public_key (ae_vault env) (ac_cache_ttl cfg) t (ac_jwt_key cfg) None) st = (Inr pem, st\<lparr>au_cache := cache\<rparr>)"
    by (simp add: on_cache_def key)
  have go: "sbind (on_cache (get_public_key (ae_vault env) (ac_cache_ttl cfg) t (ac_jwt_key cfg) None)) f st = f pem (st\<lparr>au_cache := cache\<rparr>)" for f
    by (simp add: sbind_def c)
  have "required_scoped_jwt cfg env [''proofs:write''] t (Some token) st = (Inr ?c, st\<lparr>au_cache := cache\<rparr>)"
    unfolding required_scoped_jwt_def verify_jwt_credentials_def option.case go key(2) sbind_lifted cfg(1,2) dec sum.case items
    using cfg(4) upstream_grants sc by (simp add: sret_def)
  with items(3) show ?thesis by blast
qed

text \<open>The two services are set up to talk to each other.\<close>

definition connected :: "('r, 'k, 'q service_state) dashboard_env \<Rightarrow> link \<Rightarrow> ('q, 'l) prover_env \<Rightarrow> bool" where
  "connected env lk pv =
     ((\<forall>call. hc_url call = dc_prover_url (de_config env) @ API_PREFIX @ ''/runs'' \<longrightarrow> de_send env call = runs_route lk pv call) \<and>
      (\<forall>token. lk_bearer lk (Some (''Bearer '' @ token)) = Some token) \<and>
      ae_vault (pe_auth pv) = ae_vault (de_auth env) \<and> ae_sha256 (pe_auth pv) = ae_sha256 (de_auth env) \<and>
      ac_issuer (pe_auth_config pv) = dc_jwt_issuer (de_config env) \<and> ac_audience (pe_auth_config pv) = dc_jwt_audience (de_config env) \<and>
      map_of (ac_bank_keys (pe_auth_config pv)) (dc_bank_key_id (de_config env)) = Some (dc_vault_bank_key (de_config env)) \<and>
      dc_bank_key_id (de_config env) \<noteq> [] \<and> de_nonce env \<noteq> [] \<and> 0 \<le> ac_leeway (pe_auth_config pv) \<and> 600 \<le> ac_max_ttl (pe_auth_config pv))"

text \<open>The request arrives within the minute of its token and, but for a second, within the window of its time stamp.\<close>

definition in_time :: "('r, 'k, 'w) dashboard_env \<Rightarrow> link \<Rightarrow> ('q, 'l) prover_env \<Rightarrow> bool" where
  "in_time env lk pv =
     (tc_sign (de_clock env 0) \<le> pe_jwt_now pv \<and> pe_jwt_now pv \<le> tc_first (de_clock env 0) + 59000000 \<and>
      0 \<le> de_handshake_now env \<and>
      \<bar>lk_now_guard lk - de_handshake_now env\<bar> \<le> (ac_window (pe_auth_config pv) - 1) * 1000000)"

lemma window_seconds:
  assumes "\<bar>g - h\<bar> \<le> (w - 1) * 1000000"
  shows "\<bar>g - h div 1000000 * 1000000\<bar> \<le> w * (1000000 :: int)"
  using assms seconds_below [of h] by (simp add: distrib_right left_diff_distrib abs_le_iff)

text \<open>A signed call passes the prover's handshake.\<close>

lemma call_passes:
  assumes con: "connected env lk pv" and time: "in_time env lk pv"
    and s: "vault_sign (ae_vault (de_auth env)) (dc_vault_bank_key (de_config env))
        (build_canonical_request_string (ae_sha256 (de_auth env)) ''POST'' path (show_int (de_handshake_now env div 1000000)) (de_nonce env) body) = Inr s"
    and keys: "read_public_keys (ae_vault (de_auth env)) (dc_vault_bank_key (de_config env)) = Inr keys"
      "signatures_verify (pe_auth pv) (dc_vault_bank_key (de_config env)) keys" "cache_agrees keys (dc_vault_bank_key (de_config env)) (au_cache a)"
    and nx: "rs_set_nx (ae_redis (pe_auth pv)) (lk_now_guard lk) (nonce_key (dc_bank_key_id (de_config env)) (de_nonce env))
        (ae_float_text (pe_auth pv) (de_handshake_now env div 1000000 * 1000000)) (ac_window (pe_auth_config pv)) (au_redis a) = (Inr True, rd)"
    and lim: "limiter_check_and_store (ae_redis (pe_auth pv)) (ac_max_per_minute (pe_auth_config pv)) (lk_now_limit lk)
        (dc_bank_key_id (de_config env)) (lk_client lk) rd = (Inr (), rd')"
  shows "\<exists>a'. verify_handshake (pe_auth_config pv) (pe_auth pv) (seen lk path (sent env path body token s)) a = (Inr (dc_bank_key_id (de_config env)), a')"
proof -
  let ?r = "seen lk path (sent env path body token s)" and ?ts = "show_int (de_handshake_now env div 1000000)"
  have dec: "decode_signature (sig_encoded s) = Inr (sig_raw s, sig_key_version s)" by (rule vault_sign_decodes [OF s])
  have "vault_sign (ae_vault (pe_auth pv)) (dc_vault_bank_key (de_config env))
      (build_canonical_request_string (ae_sha256 (de_auth env)) ''POST'' path ?ts (de_nonce env) body) = Inr s"
    using s con by (simp add: connected_def)
  with keys(2) obtain pem where pem: "map_of keys (sig_key_version s) = Some pem"
    "verify_ed25519_signature (ae_ed (pe_auth pv)) pem
      (build_canonical_request_string (ae_sha256 (de_auth env)) ''POST'' path ?ts (de_nonce env) body) (sig_raw s)"
    unfolding signatures_verify_def by blast
  from get_public_key_agrees [OF keys(3,1) pem(1)] obtain cache where
    key: "get_public_key (ae_vault (de_auth env)) (ac_cache_ttl (pe_auth_config pv)) (lk_now_keys lk) (dc_vault_bank_key (de_config env))
      (Some (sig_key_version s)) (au_cache a) = (Inr pem, cache)" by blast
  have rq: "rq_method ?r = ''POST''" "rq_path ?r = path" "rq_body ?r = body" "rq_now_keys ?r = lk_now_keys lk"
    "rq_now_guard ?r = lk_now_guard lk" "rq_now_limit ?r = lk_now_limit lk"
    by (simp_all add: seen_def received_def sent_def)
  have ts: "0 \<le> de_handshake_now env div 1000000" using time by (simp add: in_time_def pos_imp_zdiv_nonneg_iff)
  have win: "\<bar>lk_now_guard lk - de_handshake_now env div 1000000 * 1000000\<bar> \<le> ac_window (pe_auth_config pv) * 1000000"
    using time by (intro window_seconds) (simp add: in_time_def)
  have c: "ae_vault (pe_auth pv) = ae_vault (de_auth env)" "ae_sha256 (pe_auth pv) = ae_sha256 (de_auth env)"
    "map_of (ac_bank_keys (pe_auth_config pv)) (dc_bank_key_id (de_config env)) = Some (dc_vault_bank_key (de_config env))"
    "dc_bank_key_id (de_config env) \<noteq> []" "de_nonce env \<noteq> []"
    using con by (simp_all add: connected_def)
  have "show_int (de_handshake_now env div 1000000) \<noteq> []" using ts by (simp add: show_int_def)
  then show ?thesis
    using handshake_accepts [where r = ?r and st = a and cfg = "pe_auth_config pv" and env = "pe_auth pv", unfolded rq c(1,2),
        OF _ _ _ _ c(4,5) _ decode_signature_nonempty [OF dec] parse_timestamp_show [OF ts] c(3) dec key pem(2) win nx]
      lim sent_headers [of env path body token s "lk_client lk" "lk_now_keys lk" "lk_now_guard lk" "lk_now_limit lk"]
    by (auto simp: seen_def)
qed

lemma signatures_keys: "signatures_verify env key keys \<Longrightarrow> vault_sign (ae_vault env) key payload = Inr s \<Longrightarrow> keys \<noteq> []"
  by (fastforce simp: signatures_verify_def)

lemma guarded_world: "require_write env credentials st = (r, st1) \<Longrightarrow> ds_world st1 = ds_world st \<and> ds_tokens st1 = ds_tokens st"
  by (auto simp: require_write_def on_dash_auth_def split: prod.splits)

lemma bank_headers_signed:
  assumes "bank_headers env ''POST'' path body = Inr signed"
  obtains s where "vault_sign (ae_vault (de_auth env)) (dc_vault_bank_key (de_config env))
      (build_canonical_request_string (ae_sha256 (de_auth env)) ''POST'' path (show_int (de_handshake_now env div 1000000)) (de_nonce env) body) = Inr s"
    "\<And>token. \<lparr>hc_method = ''POST'', hc_url = dc_prover_url (de_config env) @ path,
       hc_headers = [(''Authorization'', ''Bearer '' @ token)] @ [(''Content-Type'', ''application/json'')] @ signed,
       hc_params = [], hc_content = body\<rparr> = sent env path body token s"
  using assms by (auto simp: bank_headers_def Let_def rbind_eq_Inr sent_def)

text \<open>A submission with a token and a signature is what the prover's handler behind its checks makes of it.\<close>

lemma delivered:
  assumes con: "connected env lk pv"
    and jwt: "required_scoped_jwt (pe_auth_config pv) (pe_auth pv) [''proofs:write''] (pe_jwt_now pv) (Some token) (ps_auth w) = (Inr claims, a)"
    and hs: "verify_handshake (pe_auth_config pv) (pe_auth pv) (seen lk (API_PREFIX @ ''/runs'') (sent env (API_PREFIX @ ''/runs'') body token s)) a = (Inr key_id, a')"
    and size: "int (length body) \<le> pe_max_submit_body_bytes pv" and parse: "pe_parse_run pv body = Inr payload"
  shows "de_send env (sent env (API_PREFIX @ ''/runs'') body token s) w =
    answered (lk_class_name lk) (lk_render lk) 202 run_accepted_json (submit_policy_run pv claims (payload, key_id)) (w\<lparr>ps_auth := a'\<rparr>)"
proof -
  let ?call = "sent env (API_PREFIX @ ''/runs'') body token s"
  have "lk_bearer lk (header (seen lk (API_PREFIX @ ''/runs'') ?call) ''Authorization'') = Some token"
    using con sent_headers(5) [of env _ body token s] by (simp add: connected_def seen_def)
  moreover have "require_scope pv ''proofs:write'' (Some token) w = (Inr claims, w\<lparr>ps_auth := a\<rparr>)"
    using on_auth_granted [OF required_jwt_reports jwt] by (simp add: require_scope_def)
  moreover have "decode_and_authenticate_payload pv (pe_parse_run pv) m (seen lk (API_PREFIX @ ''/runs'') ?call) (w\<lparr>ps_auth := a\<rparr>) =
      (Inr (payload, key_id), w\<lparr>ps_auth := a'\<rparr>)" for m
  proof -
    have "rq_body (seen lk (API_PREFIX @ ''/runs'') ?call) = body" by (simp add: seen_def received_def sent_def)
    moreover have "on_auth pv (verify_handshake (pe_auth_config pv) (pe_auth pv) (seen lk (API_PREFIX @ ''/runs'') ?call)) (w\<lparr>ps_auth := a\<rparr>) =
        (Inr key_id, w\<lparr>ps_auth := a'\<rparr>)"
      using on_auth_granted [OF handshake_reports, of _ _ _ "w\<lparr>ps_auth := a\<rparr>"] hs by simp
    ultimately show ?thesis using size parse
      by (simp add: decode_and_authenticate_payload_def sbind_def enforce_submit_body_size_def prog_defs rcheck_def)
  qed
  ultimately have "create_policy_run pv (lk_bearer lk (header (seen lk (API_PREFIX @ ''/runs'') ?call) ''Authorization'')) (seen lk (API_PREFIX @ ''/runs'') ?call) w =
      submit_policy_run pv claims (payload, key_id) (w\<lparr>ps_auth := a'\<rparr>)"
    by (simp add: create_policy_run_def sbind_def)
  moreover have "de_send env ?call = runs_route lk pv ?call" using con by (simp add: connected_def sent_def)
  ultimately show ?thesis by (simp add: runs_route_def answered_def)
qed

text \<open>The model validator rules out the failing assertion.\<close>

lemma validated_payload: "validate_evidence q = Inr () \<Longrightarrow> \<exists>v. to_v6_payload q = Inr v"
  by (auto simp: validate_evidence_def to_v6_payload_def rbind_eq_Inr split: option.splits)

text \<open>What the proxy makes of an answer with status 202 and of an error.\<close>

definition relayed :: "link \<Rightarrow> run_accepted res \<Rightarrow> pyval res" where
  "relayed lk r =
     (case r of Inr resp \<Rightarrow> Inr (run_accepted_json resp)
      | Inl e \<Rightarrow> (let h = handle_error (lk_class_name lk) e
                 in if fst h = 202 then Inr (snd h) else Inl (upstream_error ''prover'' (json_answer (lk_render lk) h))))"

lemma proxy_answered:
  assumes "de_send env call w = answered (lk_class_name lk) (lk_render lk) 202 run_accepted_json m w'" "m w' = (r, w'')" "ds_world st = w"
  shows "proxy_json env ''prover'' 202 call st = (relayed lk r, st\<lparr>ds_world := w''\<rparr>)"
  using assms by (cases r) (simp_all add: proxy_json_def sbind_def on_world_def answered_def relayed_def json_answer_def Let_def prog_defs)

text \<open>
  C12. A run that is submitted through the dashboard reaches the prover's handler. When the services share the vault, issuer, audience and bank key, a
  token of 600 seconds is allowed, the call arrives within 59 seconds of the first look at the token cache and within the window of
  its time stamp, its nonce is new and the rate limit has room, then both of the prover's checks accept the call, the request is attributed
  to the dashboard's own subject and bank key, and the dashboard answers exactly what the handler behind the checks returns or,
  as an error of the prover, raises.
\<close>

theorem dashboard_run_reaches_prover:
  fixes env :: "('r, 'k, 'q service_state) dashboard_env" and st :: "('r, 'q service_state) dashboard_state" and pv :: "('q, 'l) prover_env"
  assumes con: "connected env lk pv" and time: "in_time env lk pv"
    and tokens: "cache_at (upstream_token env) t (ds_tokens st)" "t \<le> tc_first (de_clock env 0)"
      "cache_at (upstream_token env) (tc_locked (de_clock env 0)) (tc_others (de_clock env 0) (ds_tokens st))" "tc_first (de_clock env 0) \<le> tc_locked (de_clock env 0)" "tc_locked (de_clock env 0) \<le> tc_sign (de_clock env 0)"
    and guard: "require_write env credentials st = (Inr x, st1)" and bearer: "upstream_bearer_headers env 0 st1 = (Inr headers, st2)"
    and body: "to_v6_payload q = Inr v" and signed: "bank_headers env ''POST'' (API_PREFIX @ ''/runs'') (json_text v) = Inr signed"
    and keys: "read_public_keys (ae_vault (de_auth env)) (dc_vault_bank_key (de_config env)) = Inr keys" "signatures_verify (pe_auth pv) (dc_vault_bank_key (de_config env)) keys" "cache_agrees keys (dc_vault_bank_key (de_config env)) (au_cache (ps_auth (ds_world st)))"
    and jwt: "get_public_key (ae_vault (pe_auth pv)) (ac_cache_ttl (pe_auth_config pv)) (pe_jwt_now pv) (ac_jwt_key (pe_auth_config pv)) None (au_cache (ps_auth (ds_world st))) = (Inr pem, cache)"
      "load_ed25519_public_key (ae_ed (pe_auth pv)) pem = Inr key" "tokens_decode (pe_auth pv) key (upstream_token env)"
    and nonce: "rs_set_nx (ae_redis (pe_auth pv)) (lk_now_guard lk) (nonce_key (dc_bank_key_id (de_config env)) (de_nonce env))
        (ae_float_text (pe_auth pv) (de_handshake_now env div 1000000 * 1000000)) (ac_window (pe_auth_config pv)) (au_redis (ps_auth (ds_world st))) = (Inr True, rd)"
    and rate: "limiter_check_and_store (ae_redis (pe_auth pv)) (ac_max_per_minute (pe_auth_config pv)) (lk_now_limit lk)
        (dc_bank_key_id (de_config env)) (lk_client lk) rd = (Inr (), rd')"
    and size: "int (length (json_text v)) \<le> pe_max_submit_body_bytes pv" and parse: "pe_parse_run pv (json_text v) = Inr payload"
  shows "\<exists>claims au r w'. dget claims ''sub'' = PStr ''dashboard-demo-user'' \<and>
    submit_policy_run pv claims (payload, dc_bank_key_id (de_config env)) (ds_world st\<lparr>ps_auth := au\<rparr>) = (r, w') \<and>
    demo_policy_run env credentials q st = (relayed lk r, st2\<lparr>ds_world := w'\<rparr>)"
proof -
  let ?path = "API_PREFIX @ ''/runs''" and ?tr = "upstream_token env"
  have w: "ds_world st2 = ds_world st" "ds_tokens st1 = ds_tokens st" using guarded_world [OF guard] bearer_world [OF bearer] by simp_all
  from bearer_token [OF bearer] obtain token where g: "get_token ?tr (de_clock env 0) (ds_tokens st) = (Inr token, ds_tokens st2)"
    and h: "headers = [(''Authorization'', ''Bearer '' @ token)]" unfolding w(2) by blast
  from get_token_fresh(2) [OF tokens g upstream_times(1) refl, unfolded upstream_times(2)] obtain now where
    n: "tc_first (de_clock env 0) \<le> now" "now \<le> tc_sign (de_clock env 0)" and f: "fresh_token ?tr now 59 token" by blast
  from bank_headers_signed [OF signed] obtain s where s: "vault_sign (ae_vault (de_auth env)) (dc_vault_bank_key (de_config env))
      (build_canonical_request_string (ae_sha256 (de_auth env)) ''POST'' ?path (show_int (de_handshake_now env div 1000000)) (de_nonce env) (json_text v)) = Inr s"
    and call: "\<And>token. \<lparr>hc_method = ''POST'', hc_url = dc_prover_url (de_config env) @ ?path,
       hc_headers = [(''Authorization'', ''Bearer '' @ token)] @ [(''Content-Type'', ''application/json'')] @ signed,
       hc_params = [], hc_content = json_text v\<rparr> = sent env ?path (json_text v) token s" by blast
  have "\<exists>claims. dget claims ''sub'' = PStr ''dashboard-demo-user'' \<and>
      required_scoped_jwt (pe_auth_config pv) (pe_auth pv) [''proofs:write''] (pe_jwt_now pv) (Some token) (ps_auth (ds_world st)) = (Inr claims, ps_auth (ds_world st)\<lparr>au_cache := cache\<rparr>)"
    using token_passes [OF f jwt(3) _ jwt(1,2)] con time n by (simp add: upstream_token_def connected_def in_time_def)
  then obtain claims where c: "dget claims ''sub'' = PStr ''dashboard-demo-user''"
    "required_scoped_jwt (pe_auth_config pv) (pe_auth pv) [''proofs:write''] (pe_jwt_now pv) (Some token) (ps_auth (ds_world st)) = (Inr claims, ps_auth (ds_world st)\<lparr>au_cache := cache\<rparr>)" by blast
  have ne: "keys \<noteq> []" using signatures_keys [OF keys(2)] s con by (simp add: connected_def)
  have "cache_agrees keys (dc_vault_bank_key (de_config env)) cache" using latest_key_agrees [OF keys(3,1) ne] jwt(1) con by (simp add: connected_def)
  then have "\<exists>a'. verify_handshake (pe_auth_config pv) (pe_auth pv) (seen lk ?path (sent env ?path (json_text v) token s)) (ps_auth (ds_world st)\<lparr>au_cache := cache\<rparr>) =
      (Inr (dc_bank_key_id (de_config env)), a')"
    using nonce rate by (intro call_passes [OF con time s keys(1,2)]) simp_all
  then obtain a' where hs: "verify_handshake (pe_auth_config pv) (pe_auth pv) (seen lk ?path (sent env ?path (json_text v) token s)) (ps_auth (ds_world st)\<lparr>au_cache := cache\<rparr>) =
      (Inr (dc_bank_key_id (de_config env)), a')" by blast
  obtain r w' where r: "submit_policy_run pv claims (payload, dc_bank_key_id (de_config env)) (ds_world st\<lparr>ps_auth := a'\<rparr>) = (r, w')" by force
  have "proxy_json env ''prover'' 202 (sent env ?path (json_text v) token s) st2 = (relayed lk r, st2\<lparr>ds_world := w'\<rparr>)"
    by (rule proxy_answered [OF delivered [OF con c(2) hs size parse] r w(1)])
  then have "demo_policy_run env credentials q st = (relayed lk r, st2\<lparr>ds_world := w'\<rparr>)"
    using guard bearer h signed body call by (simp add: demo_policy_run_def signed_post_def proxy_post_json_def sbind_def slift_def)
  with c(1) r show ?thesis by blast
qed

section \<open>A dashboard and a prover that talk\<close>

definition talking_decode :: "string \<Rightarrow> string \<Rightarrow> string \<Rightarrow> string \<Rightarrow> int \<Rightarrow> int \<Rightarrow> string + pydict" where
  "talking_decode token key issuer audience leeway now =
     (case py_split (CHR ''.'') token of
        [h, p, s] \<Rightarrow> (case rbind (b64url_decode p) (json_loads (\<lambda>_. PNone)) of
                        Inr (PDict claims) \<Rightarrow> (case dget claims ''exp'' of
                            PInt e \<Rightarrow> if now < (e + leeway) * 1000000 then Inr claims else Inl ''Signature has expired'' | _ \<Rightarrow> Inl ''exp'')
                      | _ \<Rightarrow> Inl ''Invalid payload'')
      | _ \<Rightarrow> Inl ''Not enough segments'')"

definition talking_auth :: "(demo_store, string) auth_env" where
  "talking_auth = demo_env\<lparr>ae_vault := demo_server\<lparr>vs_sign := \<lambda>k p. Inr (transit_text 2 ''sig'')\<rparr>, ae_jwt_decode := talking_decode\<rparr>"

definition talking_prover :: "(demo_store, string) prover_env" where
  "talking_prover = demo_prover\<lparr>pe_auth := talking_auth, pe_jwt_now := 10, pe_max_submit_body_bytes := 200\<rparr>"

definition demo_link :: link where
  "demo_link = \<lparr>lk_class_name = (\<lambda>_. ''Exception''), lk_render = json_text, lk_bearer = map_option (\<lambda>s. removeprefix s ''Bearer ''),
     lk_client = Some ''10.0.0.1'', lk_now_keys = 10, lk_now_guard = 10, lk_now_limit = 10\<rparr>"

definition talking_dashboard :: "(demo_store, string, demo_store service_state) dashboard_env" where
  "talking_dashboard =
     \<lparr>de_config = demo_dashboard_config, de_auth = talking_auth, de_send = runs_route demo_link talking_prover, de_tcp = (\<lambda>_ _. None),
      de_clock = (\<lambda>_. demo_clock), de_guard_now = 0, de_handshake_now = 0, de_nonce = ''n1'', de_iso_now = ''now'', de_exc_text = (\<lambda>_. []),
      de_circuits = None, de_parse_float = (\<lambda>_. PNone), de_parse_batch = (\<lambda>_. Inl PNone), de_model_error = (\<lambda>_. PNone),
      de_batch_json = (\<lambda>d. json_text (PDict d)), de_verify_json = (\<lambda>_. [])\<rparr>"

definition talking_console :: "(demo_store, demo_store service_state) dashboard_state" where
  "talking_console = \<lparr>ds_auth = demo_state, ds_tokens = empty_cache, ds_world = demo_service\<rparr>"

definition demo_submission :: demo_run_request where
  "demo_submission = \<lparr>dq_policy_id = ''pol'', dq_evidence_payload = Some [(''x'', PInt 1)], dq_evidence_ref = None, dq_context = None,
     dq_client_request_id = None\<rparr>"

definition demo_document :: pyval where
  "demo_document = PDict [(''policy_id'', PStr ''pol''), (''evidence'', PDict [(''type'', PStr ''inline''), (''payload'', PDict [(''x'', PInt 1)])]),
     (''context'', PDict []), (''client_request_id'', PNone)]"

lemma talking_sign: "vault_sign (ae_vault talking_auth) key payload = Inr \<lparr>sig_raw = ''sig'', sig_encoded = transit_text 2 ''sig'', sig_key_version = ''2''\<rparr>"
proof -
  have "show_nat 2 = ''2''" by code_simp
  with decode_transit [of "''sig''" 2] show ?thesis by (simp add: vault_sign_def talking_auth_def)
qed

lemma talking_keys: "read_public_keys (ae_vault talking_auth) key = Inr demo_keys"
  by (simp add: talking_auth_def demo_server_def read_public_keys_def public_key_entry_def demo_keys_def)

lemma talking_signatures: "signatures_verify talking_auth key demo_keys"
  by (simp add: signatures_verify_def talking_sign demo_keys_def)
     (simp add: verify_ed25519_signature_def load_ed25519_public_key_def talking_auth_def demo_env_def)

lemma talking_tokens: "tokens_decode talking_auth key (upstream_token talking_dashboard)"
proof -
  have dec: "talking_decode token key i a leeway now = Inr (jwt_payload i a iat jti sub ttl scopes)"
    if "jwt_sign srv name i a iat jti sub ttl scopes = Inr token" "0 \<le> leeway" "now < (iat + ttl) * 1000000"
    for srv name token i a leeway now iat jti sub ttl scopes
  proof -
    let ?c = "jwt_payload i a iat jti sub ttl scopes" and ?h = "b64url_encode (json_text (PDict jwt_header))"
    from that(1) obtain s :: vault_signature where tok: "token = ?h @ ''.'' @ b64url_encode (json_text (PDict ?c)) @ ''.'' @ b64url_encode (sig_raw s)"
      by (auto simp: jwt_sign_def Let_def rbind_eq_Inr)
    have "py_split (CHR ''.'') token = [?h, b64url_encode (json_text (PDict ?c)), b64url_encode (sig_raw s)]"
      unfolding tok using b64url_no_dot by (simp add: py_split_append py_split_no_sep)
    moreover have "json_loads (\<lambda>_. PNone) (json_text (PDict ?c)) = Inr (PDict ?c)"
      by (rule json_loads_text) (simp_all add: jwt_payload_def)
    moreover have "dget ?c ''exp'' = PInt (iat + ttl)" by (simp add: jwt_payload_def)
    moreover have "now < (iat + ttl + leeway) * 1000000" using that(2,3) by (simp add: distrib_right)
    ultimately show ?thesis using b64url_roundtrip by (simp add: talking_decode_def)
  qed
  have "ae_jwt_decode talking_auth = talking_decode" by (simp add: talking_auth_def)
  then show ?thesis unfolding tokens_decode_def using dec by (metis (no_types))
qed

lemma talking_connected: "connected talking_dashboard demo_link talking_prover"
proof -
  have "removeprefix (''Bearer '' @ t) ''Bearer '' = t" for t by (simp add: removeprefix_def startswith_def)
  then show ?thesis
    by (simp add: connected_def talking_dashboard_def talking_prover_def demo_prover_def demo_link_def demo_dashboard_config_def demo_config_def)
qed

theorem dashboard_run_reaches_prover_witness:
  "\<exists>claims au r w' st2. dget claims ''sub'' = PStr ''dashboard-demo-user'' \<and>
    submit_policy_run talking_prover claims (demo_run, ''bank'') (demo_service\<lparr>ps_auth := au\<rparr>) = (r, w') \<and>
    demo_policy_run talking_dashboard None demo_submission talking_console = (relayed demo_link r, st2\<lparr>ds_world := w'\<rparr>)"
proof -
  let ?env = talking_dashboard and ?st = talking_console and ?pv = talking_prover
  have guard: "require_write ?env None ?st = (Inr None, ?st)"
    by (simp add: require_write_def on_dash_auth_def optional_scoped_jwt_def talking_dashboard_def demo_dashboard_config_def sret_def)
  have sign: "\<exists>token. jwt_sign (ae_vault talking_auth) key i a t jti sub ttl scopes = Inr token" for key i a t jti sub ttl scopes
    by (simp add: jwt_sign_def Let_def talking_sign)
  then obtain token where "jwt_sign (ae_vault talking_auth) ''jwt'' ''vellum'' ''services'' 0 ''id'' ''dashboard-demo-user'' 600 upstream_scopes = Inr token" by blast
  then have bearer: "\<exists>h st2. upstream_bearer_headers ?env 0 ?st = (Inr h, st2)"
    by (simp add: upstream_bearer_headers_def sbind_def on_tokens_def get_token_def refresh_token_def usable_def upstream_token_def talking_dashboard_def
        demo_clock_def demo_dashboard_config_def talking_console_def empty_cache_def sret_def)
  then obtain h st2 where bearer: "upstream_bearer_headers ?env 0 ?st = (Inr h, st2)" by blast
  have signed: "\<exists>x. bank_headers ?env ''POST'' p b = Inr x" for p b by (simp add: bank_headers_def Let_def talking_dashboard_def talking_sign)
  then obtain x where signed: "bank_headers ?env ''POST'' (API_PREFIX @ ''/runs'') (json_text demo_document) = Inr x" by blast
  have body: "to_v6_payload demo_submission = Inr demo_document" by (simp add: to_v6_payload_def demo_submission_def demo_document_def)
  have jwt: "get_public_key (ae_vault talking_auth) 300000000 10 ''jwt'' None [] = (Inr ''pk2'', [(''jwt'', (300000010, demo_keys))])" by code_simp
  have pem: "load_ed25519_public_key (ae_ed talking_auth) ''pk2'' = Inr ''pk2''" by (simp add: load_ed25519_public_key_def talking_auth_def demo_env_def)
  have au: "ps_auth demo_service = demo_state" "au_cache demo_state = []" "au_redis demo_state = []"
    "ds_world ?st = demo_service" "ds_tokens ?st = empty_cache" by (simp_all add: talking_console_def demo_service_def demo_state_def)
  have env: "de_config ?env = demo_dashboard_config" "de_auth ?env = talking_auth" "de_clock ?env 0 = demo_clock" "de_handshake_now ?env = 0"
    "de_nonce ?env = ''n1''" "dc_vault_bank_key demo_dashboard_config = ''bank-key''" "dc_bank_key_id demo_dashboard_config = ''bank''"
    by (simp_all add: talking_dashboard_def demo_dashboard_config_def)
  have pv: "pe_auth ?pv = talking_auth" "pe_auth_config ?pv = demo_config" "pe_jwt_now ?pv = 10" "ac_jwt_key demo_config = ''jwt''"
    "ac_cache_ttl demo_config = 300000000" "ac_window demo_config = 300" "ac_max_per_minute demo_config = 5" "ae_redis talking_auth = demo_redis"
    "ae_float_text talking_auth = show_int" "pe_max_submit_body_bytes ?pv = 200" "pe_parse_run ?pv = (\<lambda>_. Inr demo_run)"
    by (simp_all add: talking_prover_def demo_prover_def demo_config_def talking_auth_def demo_env_def)
  have lk: "lk_now_guard demo_link = 10" "lk_now_limit demo_link = 10" "lk_client demo_link = Some ''10.0.0.1''" by (simp_all add: demo_link_def)
  obtain rd where nonce: "rs_set_nx demo_redis 10 (nonce_key ''bank'' ''n1'') (show_int 0) 300 [] = (Inr True, rd)" and rd: "rd = [(nonce_key ''bank'' ''n1'', (0, Some 300000010))]"
    by (simp add: demo_redis_def live_value_def)
  have "is_ok (fst (limiter_check_and_store demo_redis 5 10 ''bank'' (Some ''10.0.0.1'') rd))" unfolding rd by code_simp
  then obtain rd' where rate: "limiter_check_and_store demo_redis 5 10 ''bank'' (Some ''10.0.0.1'') rd = (Inr (), rd')"
    by (cases "limiter_check_and_store demo_redis 5 10 ''bank'' (Some ''10.0.0.1'') rd") (auto simp: is_ok_iff)
  have size: "int (length (json_text demo_document)) \<le> 200" by code_simp
  have time: "in_time ?env demo_link ?pv" by (simp add: in_time_def env pv lk demo_clock_def)
  have clock: "cache_at (upstream_token ?env) t empty_cache" "0 \<le> tc_first demo_clock" "tc_first demo_clock \<le> tc_locked demo_clock"
    "tc_locked demo_clock \<le> tc_sign demo_clock" "tc_others demo_clock c = c" for t c by (simp_all add: demo_clock_def cache_empty)
  from dashboard_run_reaches_prover [of ?env demo_link ?pv 0 ?st None None ?st h st2 demo_submission demo_document x demo_keys "''pk2''" _ "''pk2''" rd rd' demo_run,
      unfolded au env pv lk, OF talking_connected time clock(1,2) _ clock(3,4) guard bearer body signed talking_keys talking_signatures _ jwt pem talking_tokens]
    clock nonce rate size obtain claims au r w' where "dget claims ''sub'' = PStr ''dashboard-demo-user''"
    "submit_policy_run ?pv claims (demo_run, ''bank'') (demo_service\<lparr>ps_auth := au\<rparr>) = (r, w')"
    "demo_policy_run ?env None demo_submission ?st = (relayed demo_link r, st2\<lparr>ds_world := w'\<rparr>)" by auto
  then show ?thesis by (intro exI conjI)
qed

end
