(* ===== verification/Test_Doubles.thy ===== *)
theory Test_Doubles
  imports Prover_Service
begin

text \<open>
  The in-memory doubles of \<open>vellum_core/runtime/testing.py\<close>, with which the engine is run without files, Vault and prover, and in which
  sense they stand for the real components: the evidence store through the interface both stores implement (locale \<open>evidence_store\<close>,
  interpreted on disk and in memory), the deterministic proof provider through the differential check that the lending circuit passes.
\<close>

section \<open>Evidence stores\<close>

text \<open>
  The interface \<open>EvidenceStore\<close>: what is put under the name of a run is read back through its reference, in the form in which the
  store keeps it, and a later run does not touch it. Names and payloads a store cannot keep are excluded.
\<close>

locale evidence_store =
  fixes put :: "string \<Rightarrow> pydict \<Rightarrow> 's \<Rightarrow> string \<times> 's" and get :: "string \<Rightarrow> 's \<Rightarrow> pydict res"
    and ref :: "string \<Rightarrow> string" and kept :: "pydict \<Rightarrow> pydict" and storable :: "pydict \<Rightarrow> bool" and run_name :: "string \<Rightarrow> bool"
  assumes put_ref: "fst (put run p s) = ref run"
    and get_put: "storable p \<Longrightarrow> get (ref run) (snd (put run p s)) = Inr (kept p)"
    and get_other: "run_name run \<Longrightarrow> run_name other \<Longrightarrow> run \<noteq> other \<Longrightarrow> get (ref run) (snd (put other p s)) = get (ref run) s"
begin

lemma get_later:
  assumes "run_name run" "\<And>r p. (r, p) \<in> set later \<Longrightarrow> run_name r \<and> r \<noteq> run"
  shows "get (ref run) (fold (\<lambda>(r, p) s. snd (put r p s)) later s) = get (ref run) s"
  using assms(2)
proof (induction later arbitrary: s)
  case (Cons e later)
  obtain r p where e: "e = (r, p)" by force
  from Cons.prems [of r p] have "get (ref run) (snd (put r p s)) = get (ref run) s" using assms(1) get_other [of run r p s] by (auto simp: e)
  moreover have "get (ref run) (fold (\<lambda>(r, p) s. snd (put r p s)) later (snd (put r p s))) = get (ref run) (snd (put r p s))"
    by (rule Cons.IH) (use Cons.prems in auto)
  ultimately show ?case by (simp add: e)
qed simp

text \<open>The last payload put under a name is the one that is read, whatever was put before and whatever other runs put after.\<close>

lemma last_put_read:
  assumes "run_name run" "storable p" "\<And>r q. (r, q) \<in> set later \<Longrightarrow> run_name r \<and> r \<noteq> run"
  shows "get (ref run) (fold (\<lambda>(r, p) s. snd (put r p s)) (earlier @ (run, p) # later) s) = Inr (kept p)"
  using get_later [OF assms(1,3), of later] get_put [OF assms(2)] by simp

end

definition evidence_path :: "string \<Rightarrow> string \<Rightarrow> string" where
  "evidence_path base_dir run_id = path_join base_dir (run_id @ ''.json'')"

definition json_storable :: "pydict \<Rightarrow> bool" where
  "json_storable p = (float_free (PDict p) \<and> keys_ok (PDict p))"

text \<open>A run id that is one component of a path: with a slash it would name another directory, which \<open>put\<close> does not make, or, as in \<open>./r\<close>, the file of another run.\<close>

definition file_name :: "string \<Rightarrow> bool" where
  "file_name run = (CHR ''/'' \<notin> set run)"

lemma evidence_path_inj:
  assumes "file_name run" "file_name other" "run \<noteq> other"
  shows "evidence_path base run \<noteq> evidence_path base other"
proof -
  have rel: "evidence_path base r = base @ ''/'' @ r @ ''.json''" if "file_name r" for r
    using that by (cases r) (auto simp: evidence_path_def path_join_def file_name_def startswith_def)
  show ?thesis using assms(3) unfolding rel [OF assms(1)] rel [OF assms(2)] by simp
qed

interpretation files: evidence_store "evidence_write base_dir" "evidence_read parse_float" "evidence_path base_dir" canon_dict json_storable file_name
  for base_dir parse_float
proof
  fix run p s
  show "fst (evidence_write base_dir run p s) = evidence_path base_dir run" by (simp add: evidence_write_def evidence_path_def Let_def)
next
  fix p run s
  assume "json_storable p"
  then have "json_loads parse_float (canonical_json (PDict p)) = Inr (canon (PDict p))" unfolding json_storable_def by (intro json_loads_canonical) auto
  then show "evidence_read parse_float (evidence_path base_dir run) (snd (evidence_write base_dir run p s)) = Inr (canon_dict p)"
    by (simp add: evidence_write_def evidence_read_def evidence_path_def Let_def)
next
  fix run other p and s :: "(string \<times> string) list"
  assume "file_name run" "file_name other" "run \<noteq> other"
  then show "evidence_read parse_float (evidence_path base_dir run) (snd (evidence_write base_dir other p s)) =
      evidence_read parse_float (evidence_path base_dir run) s"
    using evidence_path_inj [of run other base_dir] by (simp add: evidence_write_def evidence_read_def evidence_path_def Let_def)
qed

text \<open>The in-memory double.\<close>

definition memory_ref :: "string \<Rightarrow> string" where
  "memory_ref run_id = ''memory://'' @ run_id"

definition memory_put :: "string \<Rightarrow> pydict \<Rightarrow> (string \<times> pydict) list \<Rightarrow> string \<times> (string \<times> pydict) list" where
  "memory_put run_id payload store = (memory_ref run_id, dput run_id payload store)"

definition memory_get :: "string \<Rightarrow> (string \<times> pydict) list \<Rightarrow> pydict res" where
  "memory_get reference store =
     (case map_of store (removeprefix reference ''memory://'') of None \<Rightarrow> Inl (KeyError reference) | Some payload \<Rightarrow> Inr payload)"

lemma memory_ref_run [simp]: "removeprefix (memory_ref run_id) ''memory://'' = run_id"
  by (simp add: memory_ref_def removeprefix_def startswith_def)

interpretation memory: evidence_store memory_put memory_get memory_ref "\<lambda>p. p" "\<lambda>_. True" "\<lambda>_. True"
  by unfold_locales (simp_all add: memory_put_def memory_get_def)

text \<open>
  C35. The in-memory evidence store of the tests stands for the one on disk. After the same sequence of puts, whose run names are
  plain file names, both return for a run the last payload put for it, the memory as it is and the disk with its keys sorted, for every
  payload that JSON can hold without a float.
\<close>

theorem evidence_stores_agree:
  assumes "file_name run" "json_storable p" "\<forall>(r, q) \<in> set later. file_name r \<and> r \<noteq> run"
  shows "evidence_read parse_float (evidence_path base_dir run)
      (fold (\<lambda>(r, q) s. snd (evidence_write base_dir r q s)) (earlier @ (run, p) # later) files) = Inr (canon_dict p) \<and>
    memory_get (memory_ref run) (fold (\<lambda>(r, q) s. snd (memory_put r q s)) (earlier @ (run, p) # later) store) = Inr p"
  using files.last_put_read [OF assms(1,2), of later parse_float base_dir earlier files] memory.last_put_read [where run = run and p = p and later = later and earlier = earlier and s = store] assms(3)
  by auto

section \<open>The deterministic proof provider\<close>

text \<open>The loop over the active rows: \<open>all\<close> stops at the first row that fails, an index outside the list is not caught.\<close>

fun det_rows :: "pyval list \<Rightarrow> pyval list \<Rightarrow> nat \<Rightarrow> nat \<Rightarrow> bool res" where
  "det_rows balances limits idx 0 = Inr True"
| "det_rows balances limits idx (Suc n) =
     (if length balances \<le> idx then Inl (OtherError ''IndexError'')
      else rbind (py_int (balances ! idx)) (\<lambda>b.
        if length limits \<le> idx then Inl (OtherError ''IndexError'')
        else rbind (py_int (limits ! idx)) (\<lambda>l.
          if l < b then det_rows balances limits (Suc idx) n else Inr False)))"

definition det_signals :: "pydict \<Rightarrow> (string \<times> string) res" where
  "det_signals private_input =
     (case (dget private_input ''balances'', dget private_input ''limits'', dget private_input ''active_count'') of
        (PList balances, PList limits, count) \<Rightarrow>
          (case (case count of PInt i \<Rightarrow> Some i | PBool b \<Rightarrow> Some (if b then 1 else 0) | _ \<Rightarrow> None) of
             None \<Rightarrow> Inr (''1'', ''0'')
           | Some active_count \<Rightarrow>
               (case det_rows balances limits 0 (nat active_count) of
                  Inr ok \<Rightarrow> Inr (if ok then ''1'' else ''0'', show_int active_count)
                | Inl TypeError \<Rightarrow> Inr (''0'', ''0'')
                | Inl (ValueError m) \<Rightarrow> Inr (''0'', ''0'')
                | Inl e \<Rightarrow> Inl e))
      | _ \<Rightarrow> Inr (''1'', ''0''))"

definition det_generate_proof :: "(string \<Rightarrow> string) \<Rightarrow> string \<Rightarrow> pydict \<Rightarrow> (pyval \<times> pyval) res" where
  "det_generate_proof sha256 circuit_id private_input =
     (let digest = sha256 (canonical_json (PDict private_input))
      in rbind (det_signals private_input) (\<lambda>(all_valid, active_count_out).
         Inr (PDict [(''circuit_id'', PStr circuit_id), (''digest'', PStr digest)],
              PList [PStr all_valid, PStr active_count_out, PStr (take 16 digest)])))"

definition det_verify_proof :: "string \<Rightarrow> pydict \<Rightarrow> pyval list \<Rightarrow> bool res" where
  "det_verify_proof circuit_id proof_data public_signals = Inr (truthy (dget proof_data ''digest'') \<and> 1 \<le> length public_signals)"

definition deterministic_provider :: "(string \<Rightarrow> string) \<Rightarrow> proof_provider" where
  "deterministic_provider sha256 =
     \<lparr>pp_ensure_artifacts = (\<lambda>_. Inr ()), pp_generate_proof = det_generate_proof sha256, pp_verify_proof = det_verify_proof\<rparr>"

lemma det_rows_ints:
  assumes "idx + n \<le> length bs" "length ls = length bs"
  shows "det_rows (map PInt bs) (map PInt ls) idx n = Inr (\<forall>i. idx \<le> i \<and> i < idx + n \<longrightarrow> ls ! i < bs ! i)"
  using assms
proof (induction n arbitrary: idx)
  case (Suc n)
  have "(\<forall>i. idx \<le> i \<and> i < idx + Suc n \<longrightarrow> ls ! i < bs ! i) \<longleftrightarrow> ls ! idx < bs ! idx \<and> (\<forall>i. Suc idx \<le> i \<and> i < Suc idx + n \<longrightarrow> ls ! i < bs ! i)"
  proof safe
    fix i
    assume "ls ! idx < bs ! idx" "\<forall>i. Suc idx \<le> i \<and> i < Suc idx + n \<longrightarrow> ls ! i < bs ! i" "idx \<le> i" "i < idx + Suc n"
    then show "ls ! i < bs ! i" by (cases "i = idx") auto
  qed auto
  with Suc show ?case by (auto simp: py_int_def)
qed simp

text \<open>What the lending policy makes of accepted evidence.\<close>

lemma lending_reference:
  assumes "gen_normalize lending_risk_class ev = Inr n"
  obtains bals lims a d where "length lims = length bals" "a \<le> length bals" "d = (\<forall>i<a. lims ! i < bals ! i)"
    "gen_evaluate_reference lending_risk_class n = Inr (decide d)"
    "gen_project_public_outputs sha256 lending_risk_class n = Inr [(''all_valid'', PBool d), (''active_count_out'', PInt (int a))]"
    "gen_to_private_input sha256 lending_risk_class n =
       Inr [(''balances'', PList (map PInt bals)), (''limits'', PList (map PInt lims)), (''active_count'', PInt (int a))]"
proof -
  let ?b = "BCmp OpGt VBalance VLimit" and ?s = lending_risk_spec
  from gen_normalize_shape [OF assms] obtain N bals lims a params where
    n: "normalized_batch N bals lims a params n"
    and r: "resolve_policy_parameters lending_risk_class (dget ev ''policy_parameters'') = Inr params" by blast
  have pr: "params_resolved (class_of_spec ?s ?b) (set (map fst (sp_policy_parameters ?s))) params"
    using resolve_params_resolved [OF r [unfolded lending_risk_class_compiled]] by simp
  have ok: "bexp_ok (set (map fst (sp_policy_parameters ?s))) ?b" by simp
  have dec: "gen_decision lending_risk_class w n = Inr (\<forall>i<a. lims ! i < bals ! i)" if "decision_uses_policy_params lending_risk_class \<Longrightarrow> w" for w
    using gen_decision_correct [OF n pr ok, of w] that unfolding lending_risk_class_compiled [symmetric]
    by (auto simp: spec_decision_def lending_risk_spec_def lending_risk_decision_def env_of_def batch_env_def list_all_iff atLeast0LessThan)
  show thesis
  proof (rule that [of lims bals a "\<forall>i<a. lims ! i < bals ! i"])
    show "length lims = length bals" "a \<le> length bals" using n by (auto simp: normalized_batch_def)
    show "gen_evaluate_reference lending_risk_class n = Inr (decide (\<forall>i<a. lims ! i < bals ! i))" by (simp add: gen_evaluate_reference_def dec)
    have pu: "project_outputs_uses_policy_params lending_risk_class = False" "decision_uses_policy_params lending_risk_class = False" by code_simp+
    have ac: "int_item n ''active_count'' = Inr (int a)" "list_item n ''balances'' = Inr (map PInt bals)" "list_item n ''limits'' = Inr (map PInt lims)"
      using n by (auto simp: normalized_batch_def int_item_def list_item_def dsub_def py_list_def)
    show "gen_project_public_outputs sha256 lending_risk_class n =
        Inr [(''all_valid'', PBool (\<forall>i<a. lims ! i < bals ! i)), (''active_count_out'', PInt (int a))]"
      using dec [of False] ac pu by (simp add: gen_project_public_outputs_def Let_def) (simp add: lending_risk_class_def gen_output_def)
    show "gen_to_private_input sha256 lending_risk_class n =
       Inr [(''balances'', PList (map PInt bals)), (''limits'', PList (map PInt lims)), (''active_count'', PInt (int a))]"
      using ac by (simp add: gen_to_private_input_def Let_def lending_risk_class_def)
  qed (rule refl)
qed

text \<open>
  C28. The deterministic provider of the tests stands for the lending circuit: whatever evidence the reference policy accepts, the provider
  proves its private input, verifies its own proof, and its public signals pass the differential check against the reference,
  with the same decision and outputs, as those of an honest run of the circuit do.
\<close>

theorem deterministic_provider_agrees:
  assumes ref: "prepare_reference_track (Inr (policy_of_class sha256 lending_risk_class)) rid (diffs_of_spec lending_risk_spec) ev = Inr r"
    and sha: "\<And>x. sha256' x \<noteq> []"
  shows "\<exists>prf_data signals c. pp_generate_proof (deterministic_provider sha256') circuit_id (dr_private_input r) = Inr (PDict prf_data, PList signals) \<and>
    pp_verify_proof (deterministic_provider sha256') circuit_id prf_data signals = Inr True \<and>
    evaluate_circuit_track pid (sp_expected_attestation lending_risk_spec) (diffs_of_spec lending_risk_spec) signals True = Inr c \<and>
    assert_dual_track_consistency pid r c = Inr ()"
proof -
  let ?s = lending_risk_spec
  from ref obtain n where nm: "gen_normalize lending_risk_class ev = Inr n"
    by (auto simp: prepare_reference_track_def policy_of_class_def rbind_eq_Inr)
  obtain bals lims a d where len: "length lims = length bals" "a \<le> length bals" "d = (\<forall>i<a. lims ! i < bals ! i)"
    and run: "gen_evaluate_reference lending_risk_class n = Inr (decide d)"
      "gen_project_public_outputs sha256 lending_risk_class n = Inr [(''all_valid'', PBool d), (''active_count_out'', PInt (int a))]"
      "gen_to_private_input sha256 lending_risk_class n =
         Inr [(''balances'', PList (map PInt bals)), (''limits'', PList (map PInt lims)), (''active_count'', PInt (int a))]"
    by (rule lending_reference [OF nm])
  have outs: "sp_outputs ?s = pc_outputs lending_risk_class" by (simp add: lending_risk_spec_def lending_risk_class_def)
  have typed: "map (typed_output d (int a)) (sp_outputs ?s) = [(''all_valid'', PBool d), (''active_count_out'', PInt (int a))]"
    by (simp add: outs lending_risk_class_def typed_output_def)
  have proj: "map (projected sha256 d (int a) []) (sp_outputs ?s) = [(''all_valid'', PBool d), (''active_count_out'', PInt (int a))]"
    by (simp add: outs lending_risk_class_def projected_def)
  have r: "r = \<lparr>dr_private_input = [(''balances'', PList (map PInt bals)), (''limits'', PList (map PInt lims)), (''active_count'', PInt (int a))],
      dr_decision = decide d, dr_outputs = map (typed_output d (int a)) (sp_outputs ?s)\<rparr>"
    using ref nm run reference_outputs_aligned [OF lending_outputs_aligned, of rid sha256 d "int a" "[]"]
    by (simp add: prepare_reference_track_def policy_of_class_def rp_validate_def proj)
  let ?digest = "sha256' (canonical_json (PDict (dr_private_input r)))"
  have sig: "det_signals (dr_private_input r) = Inr (show_int (b2f d), show_int (int a))"
  proof -
    have "det_rows (map PInt bals) (map PInt lims) 0 a = Inr d" using det_rows_ints [of 0 a bals lims] len by simp
    moreover have "show_int 1 = ''1''" "show_int 0 = ''0''" by code_simp+
    ultimately show ?thesis by (cases d) (simp_all add: r det_signals_def)
  qed
  have "signal_texts (circuit_outputs d (int a) 0 (sp_outputs ?s)) @ [PStr (take 16 ?digest)] =
      [PStr (show_int (b2f d)), PStr (show_int (int a)), PStr (take 16 ?digest)]"
    by (simp add: outs lending_risk_class_def signal_texts_def circuit_outputs_def)
  with circuit_decision_aligned [OF lending_outputs_aligned, of pid d "int a" 0 "[PStr (take 16 ?digest)]"]
    circuit_outputs_aligned [OF lending_outputs_aligned, of pid d "int a" 0 "[PStr (take 16 ?digest)]"]
  have c: "evaluate_circuit_track pid (sp_expected_attestation ?s) (diffs_of_spec ?s)
      [PStr (show_int (b2f d)), PStr (show_int (int a)), PStr (take 16 ?digest)] True =
      Inr \<lparr>dc_decision = decide d, dc_outputs = map (typed_output d (int a)) (sp_outputs ?s)\<rparr>"
    by (simp add: evaluate_circuit_track_def)
  have "py_eq (PDict (map (typed_output d (int a)) (sp_outputs ?s))) (PDict (map (typed_output d (int a)) (sp_outputs ?s)))"
    by (rule typed_outputs_eq) (simp add: outs lending_risk_class_def)
  then have same: "assert_dual_track_consistency pid r \<lparr>dc_decision = decide d, dc_outputs = map (typed_output d (int a)) (sp_outputs ?s)\<rparr> = Inr ()"
    by (simp add: assert_dual_track_consistency_def r)
  have gen: "pp_generate_proof (deterministic_provider sha256') circuit_id (dr_private_input r) =
      Inr (PDict [(''circuit_id'', PStr circuit_id), (''digest'', PStr ?digest)], PList [PStr (show_int (b2f d)), PStr (show_int (int a)), PStr (take 16 ?digest)])"
    by (simp add: deterministic_provider_def det_generate_proof_def sig Let_def)
  have "pp_verify_proof (deterministic_provider sha256') circuit_id [(''circuit_id'', PStr circuit_id), (''digest'', PStr ?digest)] (x # xs) = Inr True" for x xs
    using sha by (simp add: deterministic_provider_def det_verify_proof_def)
  with gen c same show ?thesis by (intro exI conjI)
qed

section \<open>Further doubles\<close>

definition deterministic_sign :: "(string \<Rightarrow> string) \<Rightarrow> string \<Rightarrow> string \<Rightarrow> string" where
  "deterministic_sign sha256 key_name payload = key_name @ '':'' @ sha256 payload"

definition deterministic_sign_attestation :: "(string \<Rightarrow> string) \<Rightarrow> string \<Rightarrow> string" where
  "deterministic_sign_attestation sha256 payload = ''attestation:'' @ sha256 payload"

text \<open>The recording job backend: the calls in the order in which they were made.\<close>

definition memory_enqueue :: "string \<Rightarrow> pyval list \<Rightarrow> string \<Rightarrow> ((string \<times> pyval list \<times> string) list, unit) prog" where
  "memory_enqueue task_name args queue = supd (\<lambda>jobs. jobs @ [(task_name, args, queue)])"

section \<open>Witnesses\<close>

theorem evidence_stores_agree_witness:
  "evidence_read (\<lambda>_. PNone) (evidence_path ''evidence'' ''r1'')
      (fold (\<lambda>(r, q) s. snd (evidence_write ''evidence'' r q s)) ([(''r1'', [])] @ (''r1'', [(''x'', PInt 1)]) # [(''r2'', [])]) []) =
        Inr (canon_dict [(''x'', PInt 1)]) \<and>
    memory_get (memory_ref ''r1'') (fold (\<lambda>(r, q) s. snd (memory_put r q s)) ([(''r1'', [])] @ (''r1'', [(''x'', PInt 1)]) # [(''r2'', [])]) []) =
        Inr [(''x'', PInt 1)]"
  by (rule evidence_stores_agree) (simp_all add: file_name_def json_storable_def)

theorem deterministic_provider_agrees_witness:
  "\<exists>r prf_data signals c.
     prepare_reference_track (Inr (policy_of_class (\<lambda>_. []) lending_risk_class)) ''lending_risk_reference_v1''
       (diffs_of_spec lending_risk_spec) sample_evidence = Inr r \<and>
     pp_generate_proof (deterministic_provider (\<lambda>_. ''00'')) ''batch_credit_check'' (dr_private_input r) = Inr (PDict prf_data, PList signals) \<and>
     pp_verify_proof (deterministic_provider (\<lambda>_. ''00'')) ''batch_credit_check'' prf_data signals = Inr True \<and>
     evaluate_circuit_track ''lending_risk_v1'' (sp_expected_attestation lending_risk_spec) (diffs_of_spec lending_risk_spec) signals True = Inr c \<and>
     assert_dual_track_consistency ''lending_risk_v1'' r c = Inr ()"
proof -
  from sample_evidence_normalizes obtain n where
    "gen_normalize (class_of_spec lending_risk_spec (BCmp OpGt VBalance VLimit)) sample_evidence = Inr n" ..
  from prepare_reference_succeeds [OF _ _ _ _ _ _ this, of "\<lambda>_. []" "''lending_risk_reference_v1''"]
  obtain r where r: "prepare_reference_track (Inr (policy_of_class (\<lambda>_. []) lending_risk_class))
      ''lending_risk_reference_v1'' (diffs_of_spec lending_risk_spec) sample_evidence = Inr r"
    unfolding lending_risk_class_compiled by (auto simp: MAX_BATCH_SIZE_def)
  from deterministic_provider_agrees [OF r, of "\<lambda>_. ''00''" "''batch_credit_check''" "''lending_risk_v1''"] r show ?thesis by auto
qed

end
