(* ===== verification/Cutover_Study.thy ===== *)
theory Cutover_Study
  imports Configuration Proof_Engine
begin

text \<open>
  How the decision to leave the old proof backend is made: \<open>systematic_study/collect_shadow_metrics.py\<close> reads the counters of the shadow
  provider from a metrics page, \<open>systematic_study/evaluate_cutover_gate.py\<close> evaluates the gate of \<open>vellum_core/cutover_gate.py\<close> on them. The
  regular expression, the splitting of lines and the summary file are modelled; the network, the file system and the
  conversion of a sample to a float are parameters. The property follows the events of the provider to the exit code of the gate.
\<close>

section \<open>Collecting the counters\<close>

definition METRIC_HEAD :: string where
  "METRIC_HEAD = ''vellum_proof_shadow_events_total{event_type='' @ DQ"

definition strip_literal :: "string \<Rightarrow> string \<Rightarrow> string option" where
  "strip_literal lit s = (if startswith s lit then Some (removeprefix s lit) else None)"

text \<open>\<open>[^"]+"\<close> and \<open>[0-9]+(?:\.[0-9]+)?$\<close> of \<open>LINE_RE\<close>, on a line that has been stripped.\<close>

definition label_value :: "string \<Rightarrow> (string \<times> string) option" where
  "label_value s =
     (let v = takeWhile (\<lambda>c. [c] \<noteq> DQ) s; rest = dropWhile (\<lambda>c. [c] \<noteq> DQ) s
      in if v = [] \<or> rest = [] then None else Some (v, tl rest))"

definition plain_number :: "string \<Rightarrow> bool" where
  "plain_number s =
     (let r = dropWhile is_digit s
      in takeWhile is_digit s \<noteq> [] \<and> (r = [] \<or> (hd r = CHR ''.'' \<and> tl r \<noteq> [] \<and> list_all is_digit (tl r))))"

definition match_line :: "string \<Rightarrow> (string \<times> string \<times> string) option" where
  "match_line line =
     Option.bind (strip_literal METRIC_HEAD line) (\<lambda>s1.
     Option.bind (label_value s1) (\<lambda>(event, s2).
     Option.bind (strip_literal ('',outcome='' @ DQ) s2) (\<lambda>s3.
     Option.bind (label_value s3) (\<lambda>(outcome, s4).
     Option.bind (strip_literal ''}'' s4) (\<lambda>s5.
     let v = dropWhile py_isspace s5
     in if s5 = v \<or> \<not> plain_number v then None else Some (event, outcome, v))))))"

definition line_end :: "char \<Rightarrow> bool" where
  "line_end c = ((of_char c :: nat) \<in> {10, 11, 12, 13, 28, 29, 30})"

text \<open>\<open>str.splitlines\<close>: a carriage return and a line feed end one line, and the text after the last end is a line if it is not empty.\<close>

function py_splitlines :: "string \<Rightarrow> string list" where
  "py_splitlines s =
     (if s = [] then []
      else let l = takeWhile (\<lambda>c. \<not> line_end c) s; r = dropWhile (\<lambda>c. \<not> line_end c) s
           in l # py_splitlines
                (if take 2 r = [char_of (13 :: nat), char_of (10 :: nat)] then drop 2 r else drop 1 r))"
  by pat_completeness auto

termination
proof (relation "measure length")
  fix s l r :: string
  assume "s \<noteq> []" "r = dropWhile (\<lambda>c. \<not> line_end c) s"
  then show "((if take 2 r = [char_of (13 :: nat), char_of (10 :: nat)] then drop 2 r else drop 1 r), s) \<in> measure length"
    using length_dropWhile_le [of "\<lambda>c. \<not> line_end c" s] by (cases s) auto
qed simp

declare py_splitlines.simps [simp del]

fun parse_shadow_lines :: "(string \<Rightarrow> int res) \<Rightarrow> string list \<Rightarrow> (string \<times> int) list \<Rightarrow> (string \<times> int) list res" where
  "parse_shadow_lines float_int [] counters = Inr counters"
| "parse_shadow_lines float_int (line # rest) counters =
     (case match_line (py_strip line) of
        None \<Rightarrow> parse_shadow_lines float_int rest counters
      | Some (event, outcome, v) \<Rightarrow>
          rbind (float_int v) (\<lambda>i. parse_shadow_lines float_int rest (dput (event @ ''.'' @ outcome) i counters)))"

definition parse_shadow_counters :: "(string \<Rightarrow> int res) \<Rightarrow> string \<Rightarrow> (string \<times> int) list res" where
  "parse_shadow_counters float_int metrics_text = parse_shadow_lines float_int (py_splitlines metrics_text) []"

definition counter :: "(string \<times> int) list \<Rightarrow> string \<Rightarrow> int" where
  "counter counters key = (case map_of counters key of None \<Rightarrow> 0 | Some n \<Rightarrow> n)"

definition build_summary :: "(string \<times> int) list \<Rightarrow> pydict" where
  "build_summary counters =
     [(''compared_runs'', PInt (counter counters ''public_signals.match'' + counter counters ''public_signals.mismatch'')),
      (''functional_mismatches'', PInt (counter counters ''public_signals.mismatch'' + counter counters ''verify.mismatch'')),
      (''raw_counters'', PDict (map (\<lambda>(k, n). (k, PInt n)) counters))]"

definition get_int :: "pyval \<Rightarrow> string \<Rightarrow> int res" where
  "get_int payload key = (case payload of PDict d \<Rightarrow> py_int (dget_default d key (PInt 0)) | _ \<Rightarrow> Inl (OtherError ''AttributeError''))"

definition fallback_summary_from_benchmark :: "(string \<Rightarrow> pyval) \<Rightarrow> (string \<Rightarrow> string res) \<Rightarrow> string \<Rightarrow> pydict res" where
  "fallback_summary_from_benchmark parse_float read path =
     rbind (read path) (\<lambda>content.
     rbind (json_loads parse_float content) (\<lambda>payload.
     rbind (get_int payload ''runs_completed'') (\<lambda>runs_completed.
     rbind (get_int payload ''runs_failed'') (\<lambda>runs_failed.
     Inr [(''compared_runs'', PInt runs_completed), (''functional_mismatches'', PInt 0), (''raw_counters'', PDict []),
          (''fallback_source'', PStr path), (''fallback_note'', PStr ''counter_metrics_missing''),
          (''fallback_runs_failed'', PInt runs_failed)]))))"

text \<open>The text of the summary file; \<open>fetch\<close> is the request for the metrics page, \<open>read\<close> the file system.\<close>

definition collect_main ::
  "(string \<Rightarrow> pyval) \<Rightarrow> (string \<Rightarrow> int res) \<Rightarrow> (string \<Rightarrow> string res) \<Rightarrow> (string \<Rightarrow> string res) \<Rightarrow> string \<Rightarrow> string option \<Rightarrow> string option \<Rightarrow>
   string res" where
  "collect_main parse_float float_int read fetch metrics_url input_file fallback_benchmark =
     rbind (case input_file of Some path \<Rightarrow> read path | None \<Rightarrow> fetch metrics_url) (\<lambda>metrics_text.
     rbind (parse_shadow_counters float_int metrics_text) (\<lambda>counters.
     rbind (case fallback_benchmark of
              Some path \<Rightarrow> (if counters = [] then fallback_summary_from_benchmark parse_float read path else Inr (build_summary counters))
            | None \<Rightarrow> Inr (build_summary counters)) (\<lambda>summary.
     Inr (json_dumps (canon (PDict summary)) @ NL))))"

section \<open>Evaluating the gate\<close>

record gate_args =
  ga_snarkjs_benchmark :: string
  ga_grpc_benchmark :: string
  ga_days_observed :: int
  ga_compared_runs :: "int option"
  ga_functional_mismatches :: "int option"
  ga_shadow_summary :: "string option"

definition load_benchmark :: "(string \<Rightarrow> pyval) \<Rightarrow> (string \<Rightarrow> string res) \<Rightarrow> string \<Rightarrow> pydict res" where
  "load_benchmark parse_float read path =
     rbind (read path) (\<lambda>content.
     rbind (json_loads parse_float content) (\<lambda>data.
     case data of
       PDict d \<Rightarrow> (if map_of d ''p95_ms'' = None then Inl (RuntimeError (''benchmark file missing p95_ms: '' @ path)) else Inr d)
     | _ \<Rightarrow> Inl (RuntimeError (''benchmark file is not an object: '' @ path))))"

definition shadow_payload :: "(string \<Rightarrow> pyval) \<Rightarrow> (string \<Rightarrow> string res) \<Rightarrow> string option \<Rightarrow> pydict option res" where
  "shadow_payload parse_float read summary =
     (case summary of
        None \<Rightarrow> Inr None
      | Some path \<Rightarrow>
          rbind (read path) (\<lambda>content.
          rbind (json_loads parse_float content) (\<lambda>data.
          case data of PDict d \<Rightarrow> Inr (Some d) | _ \<Rightarrow> Inl (RuntimeError (''shadow summary is not an object: '' @ path)))))"

definition given_or_summary :: "int option \<Rightarrow> pydict option \<Rightarrow> string \<Rightarrow> string \<Rightarrow> int res" where
  "given_or_summary given payload key message =
     (case given of
        Some i \<Rightarrow> Inr i
      | None \<Rightarrow> (case payload of
                   Some d \<Rightarrow> (if map_of d key = None then Inl (RuntimeError message) else int_item d key)
                 | None \<Rightarrow> Inl (RuntimeError message)))"

definition resolve_shadow_inputs :: "(string \<Rightarrow> pyval) \<Rightarrow> (string \<Rightarrow> string res) \<Rightarrow> gate_args \<Rightarrow> (int \<times> int) res" where
  "resolve_shadow_inputs parse_float read args =
     rbind (shadow_payload parse_float read (ga_shadow_summary args)) (\<lambda>payload.
     rbind (given_or_summary (ga_compared_runs args) payload ''compared_runs''
              ''compared_runs missing: set --compared-runs or provide --shadow-summary'') (\<lambda>compared_runs.
     rbind (given_or_summary (ga_functional_mismatches args) payload ''functional_mismatches''
              ''functional_mismatches missing: set --functional-mismatches or provide --shadow-summary'') (\<lambda>functional_mismatches.
     Inr (compared_runs, functional_mismatches))))"

definition benchmark_report :: "string \<Rightarrow> pydict \<Rightarrow> pyval" where
  "benchmark_report path b =
     PDict [(''path'', PStr path), (''runs_completed'', dget b ''runs_completed''), (''p50_ms'', dget b ''p50_ms''), (''p95_ms'', dget b ''p95_ms''),
            (''p99_ms'', dget b ''p99_ms'')]"

definition gate_main ::
  "(string \<Rightarrow> pyval) \<Rightarrow> (pyval \<Rightarrow> pyval res) \<Rightarrow> (pyval \<Rightarrow> pyval \<Rightarrow> pyval) \<Rightarrow> (pyval \<Rightarrow> string) \<Rightarrow> (string \<Rightarrow> string res) \<Rightarrow> gate_args \<Rightarrow>
   (int \<times> string) res" where
  "gate_main parse_float py_float fdiv fixed4 read args =
     rbind (load_benchmark parse_float read (ga_snarkjs_benchmark args)) (\<lambda>snarkjs.
     rbind (load_benchmark parse_float read (ga_grpc_benchmark args)) (\<lambda>grpc.
     rbind (resolve_shadow_inputs parse_float read args) (\<lambda>(compared_runs, functional_mismatches).
     rbind (py_float (dget snarkjs ''p95_ms'')) (\<lambda>snarkjs_p95.
     rbind (py_float (dget grpc ''p95_ms'')) (\<lambda>grpc_p95.
     let summary = \<lparr>cu_days_observed = ga_days_observed args, cu_compared_runs = compared_runs,
           cu_functional_mismatches = functional_mismatches, cu_snarkjs_p95_ms = snarkjs_p95, cu_grpc_p95_ms = grpc_p95\<rparr>;
         result = evaluate_cutover_gate fdiv fixed4 summary;
         payload =
           [(''summary'', PDict [(''days_observed'', PInt (cu_days_observed summary)), (''compared_runs'', PInt compared_runs),
               (''functional_mismatches'', PInt functional_mismatches), (''snarkjs_p95_ms'', snarkjs_p95), (''grpc_p95_ms'', grpc_p95)]),
            (''benchmarks'', PDict [(''snarkjs'', benchmark_report (ga_snarkjs_benchmark args) snarkjs),
               (''grpc'', benchmark_report (ga_grpc_benchmark args) grpc)]),
            (''result'', PDict [(''pass_gate'', PBool (cu_pass_gate result)),
               (''speedup_p95'', case cu_speedup_p95 result of None \<Rightarrow> PNone | Some x \<Rightarrow> x), (''reasons'', PList (map PStr (cu_reasons result)))])]
     in Inr (if cu_pass_gate result then 0 else 1, json_dumps (canon (PDict payload)) @ NL))))))"

section \<open>What the metrics page shows\<close>

definition sample :: "string \<times> string \<Rightarrow> nat \<Rightarrow> string" where
  "sample k n = METRIC_HEAD @ fst k @ DQ @ '',outcome='' @ DQ @ snd k @ DQ @ ''} '' @ show_nat n @ ''.0''"

definition label_ok :: "string \<Rightarrow> bool" where
  "label_ok s = (s \<noteq> [] \<and> (\<forall>c \<in> set s. [c] \<noteq> DQ \<and> \<not> line_end c \<and> c \<noteq> CHR ''.''))"

definition unrelated :: "string \<Rightarrow> bool" where
  "unrelated l = ((\<forall>c \<in> set l. \<not> line_end c) \<and> \<not> startswith (py_strip l) METRIC_HEAD)"

text \<open>
  The exposition format of Prometheus, for counters below a million: one line per label pair that was ever incremented, with the number of
  increments as a float, among lines of other metrics and comments.
\<close>

definition exposes :: "string \<Rightarrow> shadow_events \<Rightarrow> bool" where
  "exposes metrics_text es =
     (\<exists>before ks after. metrics_text = concat (map (\<lambda>l. l @ NL) (before @ map (\<lambda>k. sample k (count_list es k)) ks @ after)) \<and>
        distinct ks \<and> set ks = set es \<and> list_all unrelated before \<and> list_all unrelated after)"

lemma splitlines_line:
  assumes "\<forall>c \<in> set l. \<not> line_end c"
  shows "py_splitlines ((l @ NL) @ rest) = l # py_splitlines rest"
proof -
  have nl: "line_end (char_of (10 :: nat))" by (simp add: line_end_def)
  have "takeWhile (\<lambda>c. \<not> line_end c) (l @ NL @ rest) = l" "dropWhile (\<lambda>c. \<not> line_end c) (l @ NL @ rest) = char_of (10 :: nat) # rest"
    using assms nl by (simp_all add: takeWhile_append2 dropWhile_append2 NL_def)
  moreover have "char_of (10 :: nat) \<noteq> char_of (13 :: nat)" by code_simp
  ultimately show ?thesis
    unfolding py_splitlines.simps [of "(l @ NL) @ rest"] by (simp add: Let_def NL_def)
qed

lemma splitlines_lines: "(\<forall>l \<in> set ls. \<forall>c \<in> set l. \<not> line_end c) \<Longrightarrow> py_splitlines (concat (map (\<lambda>l. l @ NL) ls)) = ls"
proof (induction ls)
  case Nil
  show ?case by (simp add: py_splitlines.simps [of "[]"])
next
  case (Cons l ls)
  then show ?case using splitlines_line [of l "concat (map (\<lambda>l. l @ NL) ls)"] by simp
qed

lemma strip_literal_append [simp]: "strip_literal lit (lit @ s) = Some s"
  by (simp add: strip_literal_def removeprefix_def startswith_def)

lemma label_value_append: "label_ok v \<Longrightarrow> label_value (v @ DQ @ s) = Some (v, s)"
  by (simp add: label_value_def label_ok_def takeWhile_append2 dropWhile_append2 DQ_def Let_def)

lemma plain_number_count: "plain_number (show_nat n @ ''.0'')"
proof -
  have "\<not> is_digit (CHR ''.'')" "is_digit (CHR ''0'')" by code_simp+
  then have "takeWhile is_digit (show_nat n @ ''.0'') = show_nat n" "dropWhile is_digit (show_nat n @ ''.0'') = ''.0''"
    using show_nat_digits [of _ n] by (simp_all add: takeWhile_append2 dropWhile_append2)
  with \<open>is_digit (CHR ''0'')\<close> show ?thesis by (simp add: plain_number_def Let_def)
qed

lemma match_sample:
  assumes "label_ok (fst k)" "label_ok (snd k)"
  shows "match_line (sample k n) = Some (fst k, snd k, show_nat n @ ''.0'')"
proof -
  let ?v = "show_nat n @ ''.0''"
  have v: "dropWhile py_isspace ('' '' @ ?v) = ?v"
  proof -
    have "py_isspace (CHR '' '')" by code_simp
    moreover have "\<not> py_isspace (hd (show_nat n))" using show_nat_digits [of "hd (show_nat n)" n] by (intro digit_not_space) simp
    ultimately show ?thesis by (cases "show_nat n") simp_all
  qed
  have "sample k n = METRIC_HEAD @ fst k @ DQ @ ('',outcome='' @ DQ) @ snd k @ DQ @ ''}'' @ ('' '' @ ?v)" by (simp add: sample_def)
  moreover have "'' '' @ ?v \<noteq> ?v" by (metis append_self_conv2 list.distinct(1))
  ultimately show ?thesis
    using v plain_number_count [of n]
    by (simp only: match_line_def strip_literal_append label_value_append [OF assms(1)] label_value_append [OF assms(2)] Option.bind.simps
        prod.case Let_def) simp
qed

lemma strip_sample: "py_strip (sample k n) = sample k n"
proof (rule py_strip_id)
  show "sample k n \<noteq> []" by (simp add: sample_def)
  have "hd (sample k n) = CHR ''v''" "last (sample k n) = CHR ''0''" by (simp_all add: sample_def METRIC_HEAD_def)
  moreover have "\<not> py_isspace (CHR ''v'')" "\<not> py_isspace (CHR ''0'')" by code_simp+
  ultimately show "\<not> py_isspace (hd (sample k n))" "\<not> py_isspace (last (sample k n))" by simp_all
qed

lemma match_unrelated: "unrelated l \<Longrightarrow> match_line (py_strip l) = None"
  by (simp add: match_line_def strip_literal_def unrelated_def)

lemma parse_unrelated: "list_all unrelated ls \<Longrightarrow> parse_shadow_lines fi (ls @ rest) counters = parse_shadow_lines fi rest counters"
  by (induction ls) (simp_all add: match_unrelated)

definition event_key :: "string \<times> string \<Rightarrow> string" where
  "event_key k = fst k @ ''.'' @ snd k"

lemma event_key_inj:
  assumes "label_ok (fst k)" "label_ok (fst j)" "event_key k = event_key j"
  shows "k = j"
proof -
  have "takeWhile (\<lambda>c. c \<noteq> CHR ''.'') (event_key i) = fst i" "dropWhile (\<lambda>c. c \<noteq> CHR ''.'') (event_key i) = ''.'' @ snd i" if "label_ok (fst i)" for i
    using that by (auto simp: event_key_def label_ok_def takeWhile_append2 dropWhile_append2)
  with assms show ?thesis by (metis append_Cons append_Nil list.inject prod.expand)
qed

text \<open>Python's \<open>int(float(v))\<close> on the samples.\<close>

definition counts_read :: "(string \<Rightarrow> int res) \<Rightarrow> bool" where
  "counts_read float_int = (\<forall>n < 1000000. float_int (show_nat n @ ''.0'') = Inr (int n))"

definition events_ok :: "shadow_events \<Rightarrow> bool" where
  "events_ok es = (length es < 1000000 \<and> (\<forall>k \<in> set es. label_ok (fst k) \<and> label_ok (snd k)))"

lemma parse_samples:
  assumes fi: "counts_read fi" and "distinct ks" "\<forall>k \<in> set ks. label_ok (fst k) \<and> label_ok (snd k) \<and> f k < 1000000"
    and "\<forall>k \<in> set ks. event_key k \<notin> fst ` set counters"
  shows "parse_shadow_lines fi (map (\<lambda>k. sample k (f k)) ks @ rest) counters =
    parse_shadow_lines fi rest (counters @ map (\<lambda>k. (event_key k, int (f k))) ks)"
  using assms(2-4)
proof (induction ks arbitrary: counters)
  case (Cons k ks)
  have v: "fi (show_nat (f k) @ ''.0'') = Inr (int (f k))" using fi Cons.prems(2) by (simp add: counts_read_def)
  have d: "dput (event_key k) (int (f k)) counters = counters @ [(event_key k, int (f k))]" using Cons.prems(3) by (intro dput_new) simp
  have new: "event_key j \<notin> fst ` set (counters @ [(event_key k, int (f k))])" if "j \<in> set ks" for j
    using that Cons.prems event_key_inj [of j k] by auto
  have "parse_shadow_lines fi (map (\<lambda>k. sample k (f k)) (k # ks) @ rest) counters =
      parse_shadow_lines fi (map (\<lambda>k. sample k (f k)) ks @ rest) (dput (event_key k) (int (f k)) counters)"
    using match_sample [of k "f k"] Cons.prems(2) v by (simp add: strip_sample event_key_def)
  also have "\<dots> = parse_shadow_lines fi rest ((counters @ [(event_key k, int (f k))]) @ map (\<lambda>k. (event_key k, int (f k))) ks)"
    unfolding d using Cons.prems new by (intro Cons.IH) auto
  finally show ?case by simp
qed simp

lemma sample_one_line: "label_ok (fst k) \<Longrightarrow> label_ok (snd k) \<Longrightarrow> c \<in> set (sample k n) \<Longrightarrow> \<not> line_end c"
proof -
  have digit: "\<not> line_end d" if "is_digit d" for d using that by (auto simp: is_digit_def line_end_def)
  have "list_all (\<lambda>c. \<not> line_end c) (METRIC_HEAD @ DQ @ '',outcome='' @ ''} '' @ ''.0'')" by code_simp
  then show "label_ok (fst k) \<Longrightarrow> label_ok (snd k) \<Longrightarrow> c \<in> set (sample k n) \<Longrightarrow> \<not> line_end c"
    using digit [OF show_nat_digits] by (auto simp: sample_def label_ok_def list_all_iff)
qed

definition counters_of :: "(string \<times> string) list \<Rightarrow> shadow_events \<Rightarrow> (string \<times> int) list" where
  "counters_of ks es = map (\<lambda>k. (event_key k, int (count_list es k))) ks"

lemma counters_read:
  assumes "exposes metrics_text es" "events_ok es" "counts_read fi"
  obtains ks where "parse_shadow_counters fi metrics_text = Inr (counters_of ks es)" "distinct ks" "set ks = set es"
proof -
  from assms(1) obtain before ks after where
    t: "metrics_text = concat (map (\<lambda>l. l @ NL) (before @ map (\<lambda>k. sample k (count_list es k)) ks @ after))"
    and ks: "distinct ks" "set ks = set es" and u: "list_all unrelated before" "list_all unrelated after" by (auto simp: exposes_def)
  have ok: "\<forall>k \<in> set ks. label_ok (fst k) \<and> label_ok (snd k) \<and> count_list es k < 1000000"
    using assms(2) ks(2) le_less_trans [OF count_le_length] by (auto simp: events_ok_def)
  have "\<forall>l \<in> set (before @ map (\<lambda>k. sample k (count_list es k)) ks @ after). \<forall>c \<in> set l. \<not> line_end c"
    using u ok sample_one_line by (auto simp: list_all_iff unrelated_def)
  then have lines: "py_splitlines metrics_text = before @ map (\<lambda>k. sample k (count_list es k)) ks @ after"
    unfolding t by (rule splitlines_lines)
  have "parse_shadow_counters fi metrics_text = parse_shadow_lines fi (after @ []) ([] @ counters_of ks es)"
    unfolding parse_shadow_counters_def lines parse_unrelated [OF u(1)] counters_of_def
    using parse_samples [OF assms(3) ks(1) ok, of "[]" after] by simp
  then have "parse_shadow_counters fi metrics_text = Inr (counters_of ks es)" unfolding parse_unrelated [OF u(2)] by simp
  with ks that show thesis by blast
qed

lemma counter_of:
  assumes "events_ok es" "set ks = set es" "distinct ks" "label_ok (fst k)"
  shows "counter (counters_of ks es) (event_key k) = int (count_list es k)"
proof -
  have inj: "inj_on event_key (insert k (set ks))"
    using assms by (intro inj_onI event_key_inj) (auto simp: events_ok_def)
  have "map_of (map (\<lambda>k. (event_key k, int (count_list es k))) ks) (event_key k) = (if k \<in> set ks then Some (int (count_list es k)) else None)"
    using inj by (induction ks) (auto simp: inj_on_def)
  with assms(2) show ?thesis by (auto simp: counter_def counters_of_def count_list_0_iff)
qed

text \<open>The numbers that the summary is about.\<close>

definition comparisons :: "shadow_events \<Rightarrow> nat" where
  "comparisons es = count_list es (''public_signals'', ''match'') + count_list es (''public_signals'', ''mismatch'')"

definition mismatches :: "shadow_events \<Rightarrow> nat" where
  "mismatches es = count_list es (''public_signals'', ''mismatch'') + count_list es (''verify'', ''mismatch'')"

lemma summary_counts:
  assumes "events_ok es" "set ks = set es" "distinct ks"
  shows "build_summary (counters_of ks es) = [(''compared_runs'', PInt (int (comparisons es))), (''functional_mismatches'', PInt (int (mismatches es))),
    (''raw_counters'', PDict (map (\<lambda>(k, n). (k, PInt n)) (counters_of ks es)))]"
proof -
  have l: "label_ok ''public_signals''" "label_ok ''verify''" by (simp_all add: label_ok_def line_end_def DQ_def) code_simp+
  have "counter (counters_of ks es) ''public_signals.match'' = int (count_list es (''public_signals'', ''match''))"
    "counter (counters_of ks es) ''public_signals.mismatch'' = int (count_list es (''public_signals'', ''mismatch''))"
    "counter (counters_of ks es) ''verify.mismatch'' = int (count_list es (''verify'', ''mismatch''))"
    using counter_of [OF assms, of "(''public_signals'', ''match'')"] counter_of [OF assms, of "(''public_signals'', ''mismatch'')"]
      counter_of [OF assms, of "(''verify'', ''mismatch'')"] l by (simp_all add: event_key_def)
  then show ?thesis by (simp add: build_summary_def comparisons_def mismatches_def)
qed

lemma counters_distinct: "events_ok es \<Longrightarrow> set ks = set es \<Longrightarrow> distinct ks \<Longrightarrow> distinct (map fst (counters_of ks es))"
  unfolding counters_of_def map_map comp_def fst_conv distinct_map
  by (intro conjI inj_onI event_key_inj) (auto simp: events_ok_def)

lemma ints_plain: "float_free_dict (map (\<lambda>(k, n). (k, PInt n)) cs)" "keys_ok_dict (map (\<lambda>(k, n). (k, PInt n)) cs)"
  by (induction cs) auto

lemma summary_file:
  assumes "distinct (map fst cs)"
  shows "\<exists>d. json_loads pf (json_dumps (canon (PDict (build_summary cs))) @ NL) = Inr (PDict d) \<and>
    (\<forall>k. map_of d k = map_option canon (map_of (build_summary cs) k))"
proof -
  have ff: "float_free (canon (PDict (build_summary cs)))" by (simp add: build_summary_def ints_plain)
  have "map fst (map (\<lambda>(k, n). (k, PInt n)) cs) = map fst cs" by (induction cs) auto
  with assms have "distinct (map fst (map (\<lambda>(k, n). (k, PInt n)) cs))" by (simp only:)
  then have "keys_ok (PDict (build_summary cs))" by (simp add: build_summary_def ints_plain)
  then have ko: "keys_ok (canon (PDict (build_summary cs)))" by (simp only: keys_ok_canon)
  have "json_loads pf (json_layout default_style 0 (canon (PDict (build_summary cs))) @ NL) = Inr (canon (PDict (build_summary cs)))"
    by (rule json_loads_layout [OF style_ok(2) ff ko]) (simp add: NL_def json_ws_def)
  moreover have "distinct (map fst (build_summary cs))" by (simp add: build_summary_def)
  ultimately show ?thesis using map_of_canon_dict [of "build_summary cs"] by (simp add: json_dumps_def del: canon_dict.simps)
qed

text \<open>What the gate reads from a collected summary.\<close>

lemma collected_inputs:
  assumes page: "exposes metrics_text es" "events_ok es" "counts_read float_int" "fetch metrics_url = Inr metrics_text" and fb: "fallback = None \<or> es \<noteq> []"
  obtains summary where "collect_main parse_float float_int read fetch metrics_url None fallback = Inr summary"
    "\<And>args path read'. ga_shadow_summary args = Some path \<Longrightarrow> ga_compared_runs args = None \<Longrightarrow> ga_functional_mismatches args = None \<Longrightarrow>
       read' path = Inr summary \<Longrightarrow> resolve_shadow_inputs parse_float read' args = Inr (int (comparisons es), int (mismatches es))"
proof -
  from counters_read [OF page(1-3)] obtain ks where ks: "parse_shadow_counters float_int metrics_text = Inr (counters_of ks es)" "distinct ks" "set ks = set es" .
  let ?sum = "build_summary (counters_of ks es)"
  have "counters_of ks es = [] \<longleftrightarrow> es = []" using ks(3) by (auto simp: counters_of_def)
  then have sum: "collect_main parse_float float_int read fetch metrics_url None fallback = Inr (json_dumps (canon (PDict ?sum)) @ NL)"
    using fb page(4) ks(1) by (auto simp: collect_main_def split: option.splits)
  obtain d where d: "json_loads parse_float (json_dumps (canon (PDict ?sum)) @ NL) = Inr (PDict d)" "\<And>k. map_of d k = map_option canon (map_of ?sum k)"
    using summary_file [OF counters_distinct [OF page(2) ks(3,2)]] by blast
  have "map_of d ''compared_runs'' = Some (PInt (int (comparisons es)))" "map_of d ''functional_mismatches'' = Some (PInt (int (mismatches es)))"
    unfolding d(2) summary_counts [OF page(2) ks(3,2)] by simp_all
  with d(1) show thesis
    by (intro that [OF sum]) (simp add: resolve_shadow_inputs_def shadow_payload_def given_or_summary_def int_item_def dsub_def py_int_def)
qed

text \<open>Without counters, a fallback benchmark stands in for the comparisons: its completed runs are reported as compared, without a mismatch.\<close>

lemma fallback_reports_comparisons:
  assumes "fetch metrics_url = Inr metrics_text" "parse_shadow_counters float_int metrics_text = Inr []" "read path = Inr content"
    "json_loads parse_float content = Inr payload" "get_int payload ''runs_completed'' = Inr n" "get_int payload ''runs_failed'' = Inr m"
  shows "\<exists>s. collect_main parse_float float_int read fetch metrics_url None (Some path) = Inr (json_dumps (canon (PDict s)) @ NL) \<and>
    dget s ''compared_runs'' = PInt n \<and> dget s ''functional_mismatches'' = PInt 0"
proof -
  let ?s = "[(''compared_runs'', PInt n), (''functional_mismatches'', PInt 0), (''raw_counters'', PDict []), (''fallback_source'', PStr path),
    (''fallback_note'', PStr ''counter_metrics_missing''), (''fallback_runs_failed'', PInt m)]"
  have "fallback_summary_from_benchmark parse_float read path = Inr ?s" using assms by (simp add: fallback_summary_from_benchmark_def)
  then show ?thesis using assms(1,2) by (intro exI [of _ ?s]) (simp add: collect_main_def del: canon.simps canon_dict.simps)
qed

text \<open>
  C30. The cutover gate does not pass without comparisons. When the summary was collected from a metrics page that shows the events of the shadow
  provider, and the gate is evaluated on that summary, then success of the gate means that at least seven days were reported, at
  least 1000 public signals were compared, and the provider reported no mismatch of signals or verification.
\<close>

theorem gate_needs_comparisons:
  assumes page: "exposes metrics_text es" "events_ok es" "counts_read float_int" "fetch metrics_url = Inr metrics_text"
    and collected: "collect_main parse_float float_int read fetch metrics_url None fallback = Inr summary" "fallback = None \<or> es \<noteq> []"
    and args: "ga_shadow_summary args = Some path" "ga_compared_runs args = None" "ga_functional_mismatches args = None" "read' path = Inr summary"
    and gate: "gate_main parse_float py_float fdiv fixed4 read' args = Inr (0, report)"
  shows "7 \<le> ga_days_observed args \<and> 1000 \<le> comparisons es \<and> (''public_signals'', ''mismatch'') \<notin> set es \<and> (''verify'', ''mismatch'') \<notin> set es"
proof -
  from collected_inputs [where fetch = fetch and metrics_url = metrics_url and fallback = fallback and parse_float = parse_float and read = read,
      OF page collected(2)] obtain summary' where
    c: "collect_main parse_float float_int read fetch metrics_url None fallback = Inr summary'" and
    i: "read' path = Inr summary' \<Longrightarrow> resolve_shadow_inputs parse_float read' args = Inr (int (comparisons es), int (mismatches es))"
    using args(1-3) by metis
  have "resolve_shadow_inputs parse_float read' args = Inr (int (comparisons es), int (mismatches es))" using i c collected(1) args(4) by simp
  with gate have g: "7 \<le> ga_days_observed args \<and> 1000 \<le> int (comparisons es) \<and> int (mismatches es) = 0"
    by (auto simp: gate_main_def rbind_eq_Inr Let_def cutover_passes_iff split: if_splits)
  then have "count_list es (''public_signals'', ''mismatch'') = 0" "count_list es (''verify'', ''mismatch'') = 0" by (simp_all add: mismatches_def)
  with g show ?thesis by (simp add: count_list_0_iff)
qed

text \<open>The shadow provider only reports events with plain labels.\<close>

lemma shadow_events_plain:
  "k \<in> set (snd (shadow_generate_proof primary shadow cmp c inp)) \<union> set (snd (shadow_verify_proof primary shadow c prf_data sigs)) \<Longrightarrow>
   label_ok (fst k) \<and> label_ok (snd k)"
proof -
  have "list_all label_ok [''generate'', ''primary_success'', ''shadow_failed'', ''verify'', ''match'', ''mismatch'', ''public_signals'']"
    by (simp add: label_ok_def line_end_def DQ_def) code_simp
  then show "k \<in> set (snd (shadow_generate_proof primary shadow cmp c inp)) \<union> set (snd (shadow_verify_proof primary shadow c prf_data sigs)) \<Longrightarrow> ?thesis"
    by (auto simp: shadow_generate_proof_def shadow_verify_proof_def compare_generate_def split: sum.splits if_splits)
qed

text \<open>A sample in the exponent notation that the format allows is not recognised.\<close>

lemma exponent_sample_skipped: "match_line (METRIC_HEAD @ ''verify'' @ DQ @ '',outcome='' @ DQ @ ''mismatch'' @ DQ @ ''} 1e+06'') = None"
  by code_simp

section \<open>Witness\<close>

definition study_float_int :: "string \<Rightarrow> int res" where
  "study_float_int v = Inr (int (read_nat (takeWhile is_digit v)))"

lemma study_counts_read: "counts_read study_float_int"
proof -
  have "\<not> is_digit (CHR ''.'')" by code_simp
  then have "takeWhile is_digit (show_nat n @ ''.0'') = show_nat n" for n using show_nat_digits [of _ n] by (simp add: takeWhile_append2)
  then show ?thesis by (simp add: counts_read_def study_float_int_def)
qed

definition study_events :: shadow_events where
  "study_events = replicate 1000 (''public_signals'', ''match'')"

definition study_page :: string where
  "study_page = sample (''public_signals'', ''match'') 1000 @ NL"

definition study_args :: gate_args where
  "study_args = \<lparr>ga_snarkjs_benchmark = ''b1'', ga_grpc_benchmark = ''b2'', ga_days_observed = 7, ga_compared_runs = None,
     ga_functional_mismatches = None, ga_shadow_summary = Some ''s''\<rparr>"

definition study_files :: "string \<Rightarrow> string \<Rightarrow> string res" where
  "study_files summary path = Inr (if path = ''s'' then summary else json_text (PDict [(''p95_ms'', PInt 4)]))"

lemma count_replicate [simp]: "count_list (replicate n x) y = (if x = y then n else 0)"
  by (induction n) auto

theorem gate_needs_comparisons_witness:
  "\<exists>summary report.
     collect_main (\<lambda>_. PNone) study_float_int (\<lambda>_. Inl TypeError) (\<lambda>_. Inr study_page) ''url'' None None = Inr summary \<and>
     gate_main (\<lambda>_. PNone) (\<lambda>_. Inr (PFloat (Some 4) ''4.0'')) (\<lambda>_ _. PFloat (Some 3) ''3.0'') (\<lambda>_. []) (study_files summary) study_args = Inr (0, report) \<and>
     7 \<le> ga_days_observed study_args \<and> 1000 \<le> comparisons study_events \<and> (''public_signals'', ''mismatch'') \<notin> set study_events \<and>
     (''verify'', ''mismatch'') \<notin> set study_events"
proof -
  let ?pf = "\<lambda>_ :: string. PNone" and ?fetch = "\<lambda>_ :: string. Inr study_page :: string res" and ?read = "\<lambda>_ :: string. Inl TypeError :: string res"
  let ?k = "(''public_signals'', ''match'')"
  have page: "exposes study_page study_events"
    unfolding exposes_def study_page_def study_events_def by (intro exI [of _ "[]"] exI [of _ "[?k]"]) simp
  have ok: "events_ok study_events" by (simp add: events_ok_def study_events_def label_ok_def line_end_def DQ_def) code_simp
  obtain summary where s: "collect_main ?pf study_float_int ?read ?fetch ''url'' None None = Inr summary"
    "\<And>args path read'. ga_shadow_summary args = Some path \<Longrightarrow> ga_compared_runs args = None \<Longrightarrow> ga_functional_mismatches args = None \<Longrightarrow>
       read' path = Inr summary \<Longrightarrow> resolve_shadow_inputs ?pf read' args = Inr (int (comparisons study_events), int (mismatches study_events))"
    using collected_inputs [OF page ok study_counts_read, of ?fetch "''url''" None ?pf ?read] by auto
  have r: "resolve_shadow_inputs ?pf (study_files summary) study_args = Inr (1000, 0)"
    using s(2) [of study_args "''s''" "study_files summary"]
    by (simp add: study_args_def study_files_def comparisons_def mismatches_def study_events_def)
  have b: "load_benchmark ?pf (study_files summary) p = Inr [(''p95_ms'', PInt 4)]" if "p \<noteq> ''s''" for p
    using that json_loads_text [of "PDict [(''p95_ms'', PInt 4)]" ?pf] by (simp add: load_benchmark_def study_files_def del: json_text.simps)
  have a: "ga_snarkjs_benchmark study_args = ''b1''" "ga_grpc_benchmark study_args = ''b2''" "ga_days_observed study_args = 7" by (simp_all add: study_args_def)
  obtain report where g: "gate_main ?pf (\<lambda>_. Inr (PFloat (Some 4) ''4.0'')) (\<lambda>_ _. PFloat (Some 3) ''3.0'') (\<lambda>_. []) (study_files summary) study_args =
      Inr (0, report)"
    by (simp add: gate_main_def r b Let_def cutover_passes_iff float_le0_def float_lt2_def a)
  from gate_needs_comparisons [OF page ok study_counts_read _ s(1) _ _ _ _ _ g] s(1) g show ?thesis
    by (auto simp: study_args_def study_files_def)
qed

end
