(* ===== verification/Spec2Isabelle.thy ===== *)
theory Spec2Isabelle
  imports Attestation_Correctness Configuration Policy_Compiler Dashboard_Correctness Test_Doubles Cutover_Study
begin

text \<open>
  VellumCore, verified: the policy compiler, the proof pipeline and the services around it.

  \<^bold>\<open>The program.\<close> A policy is a YAML specification: a decision over two columns of at most 250 rows. The compiler
  (\<open>src/vellum_core/policy_compiler/\<close>) turns it into two programs, a Python reference policy and a Circom circuit.
  A client of a bank submits evidence to the prover service (\<open>src/prover_service.py\<close>), signed by the bank's key and
  with a bearer token. The service evaluates the reference policy, seals the private input together with the reference
  result with Vault, writes a job row and an audit event, and queues the job. The worker (\<open>src/worker.py\<close>)
  unseals the job, generates and verifies the proof, reads the decision from its public signals and completes the run only if
  both tracks agree; a job that fails becomes a dead letter that operators can rerun. The verifier service (\<open>src/verifier_service.py\<close>)
  verifies proofs, checks the audit chain and exports attestations; the maintenance worker prunes rows and archives files. The
  dashboard (\<open>src/dashboard_service.py\<close>) is a client of both services for operators, with tokens and signatures of its own.

  \<^bold>\<open>The theories\<close>, in the order of the imports:

  \<^item> \<open>Prelude\<close>, \<open>Py_Runtime\<close>: Python values, dictionaries, exceptions, stateful programs with their weakest preconditions,
    and the locale \<open>invariant_system\<close>.
  \<^item> \<open>Batcher\<close>: \<open>logic/batcher.py\<close>, \<open>policies/normalization.py\<close>. Which batches are accepted, and their shape.
  \<^item> \<open>Policy_DSL\<close>: \<open>policy_compiler/models.py\<close>, \<open>validation.py\<close>. Documents, validators, and the expression \<open>bexp\<close> an accepted
    document denotes, which is the abstract specification of both back ends.
  \<^item> \<open>Python_Renderer\<close>, \<open>Circom_Renderer\<close>, \<open>Circom_Semantics\<close>: \<open>python_renderer.py\<close>, \<open>circom_renderer.py\<close> and the templates of
    \<open>circuits/library/banking_library.circom\<close>. The rendered texts are printed forms of trees whose meaning is that of the
    specification; the circuit is run as those trees over the scalar field, and circomlib is a record of functions with the definition
    of its comparators on arbitrary field elements as its contract.
  \<^item> \<open>Reference_Policies\<close>, \<open>Dual_Track\<close>: \<open>policies/\<close>. The generated policy classes, their contract (locales \<open>reference_contract\<close>
    and \<open>generated_policy\<close>), and the differential check of the two tracks.
  \<^item> \<open>Canonical_Json\<close>, \<open>Json_Parser\<close>, \<open>Base64\<close>: the encodings that are hashed, signed and sealed, with injectivity and round trips.
  \<^item> \<open>Vault\<close>, \<open>Security\<close>: \<open>vault.py\<close>, \<open>security.py\<close>. Signatures, the key cache, sealed payloads, security events. A check of
    \<open>Auth\<close> reports a denial by such an event, which prover and verifier write as a row of the same database.
  \<^item> \<open>Database\<close>: \<open>database.py\<close>. The tables as a record, every operation, the invariant \<open>db_wf\<close> over the step relation \<open>db_step\<close>.
  \<^item> \<open>Audit_Chain\<close>: \<open>proof_store.py\<close>. Optimistic appends to the signed chain (locale \<open>audit_store_db\<close>) and its verification.
  \<^item> \<open>Auth\<close>: \<open>auth.py\<close>, \<open>http_auth.py\<close>. Handshake, replay guard, rate limiter and tokens, over sequences of requests.
  \<^item> \<open>Failure_Triage\<close>, \<open>Explainability\<close>: \<open>logic/failure_triage.py\<close>, \<open>job_attempts.py\<close>, \<open>explainability.py\<close>, \<open>debug_renderer.py\<close>.
  \<^item> \<open>Proof_Engine\<close>: registries, input schemas, proof providers (locale \<open>artifact_backend\<close>), circuit manager and engine of \<open>api/\<close>.
  \<^item> \<open>Policy_Compiler\<close>: \<open>compiler.py\<close>, \<open>artifacts.py\<close>, \<open>manifest.py\<close>, \<open>drift.py\<close>, \<open>spec_loader.py\<close> and \<open>cli.py\<close> of \<open>policy_compiler/\<close>, with
    the full text of the generated module and debug trace. Generated files do not drift, and generating is idempotent.
  \<^item> \<open>Configuration\<close>: \<open>config.py\<close>, \<open>runtime/proof_provider_config.py\<close>, \<open>cutover_gate.py\<close>. What accepted settings guarantee.
  \<^item> \<open>Worker\<close>, \<open>Worker_Correctness\<close>: \<open>worker.py\<close>, one delivery with every branch, and what it guarantees.
  \<^item> \<open>Prover_Service\<close>, \<open>Prover_Correctness\<close>: \<open>prover_service.py\<close>, \<open>schemas.py\<close>, \<open>run_contract.py\<close>, the evidence store, and the
    path of a run from its submission to the status a client reads.
  \<^item> \<open>Attestation\<close>: \<open>verifier_service.py\<close>, \<open>attestation_bundle.py\<close>, \<open>api/attestation_service.py\<close>, \<open>api/policy_engine.py\<close>.
  \<^item> \<open>Gateway_Clients\<close>: the services as clients of the database (locale \<open>gateway_client\<close>, three interpretations).
  \<^item> \<open>Maintenance\<close>: \<open>maintenance.py\<close>, \<open>maintenance_worker.py\<close>, over a file system of directories, files and symbolic links
    in which paths are resolved component by component and a move or the making of a link may fail.
  \<^item> \<open>Attestation_Correctness\<close>: attestations across worker, verifier and maintenance.
  \<^item> \<open>Http_Boundary\<close>: calls and answers between services, and \<open>errors.py\<close>, which turns exceptions into answers.
  \<^item> \<open>Dashboard\<close>, \<open>Dashboard_Correctness\<close>: \<open>dashboard_service.py\<close>, every route that serves data. Its token cache under interleaving
    refreshes (step relation \<open>cache_at\<close>), its health report and overview, and a submission followed through to the prover's handler.
  \<^item> \<open>Cutover_Study\<close>: \<open>collect_shadow_metrics.py\<close> and \<open>evaluate_cutover_gate.py\<close> of \<open>systematic_study/\<close>, from the events of the shadow
    provider to the exit code of the gate.
  \<^item> \<open>Test_Doubles\<close>: \<open>runtime/testing.py\<close>, with the interface of evidence stores (locale \<open>evidence_store\<close>, interpreted on disk and in memory).

  \<^bold>\<open>How code becomes definitions.\<close> A handler is one definition of type \<open>('s, 'a) prog\<close>, a function from the state of its
  service to a result or an exception together with the new state; its statements are sequenced in the order of the source, and
  what ran before an exception stays done. Exceptions are values of \<open>pyexc\<close>, with the codes, messages and details of the source.
  Clocks, identifiers and the answers of outside systems are fields of an environment record. What other processes do
  between the read and the write of an audit append is an arbitrary function of the environment.

  \<^bold>\<open>What is shown.\<close>
  Compiler: the files it writes pass its own drift check; for every accepted specification with 32-bit constants and references without white space, and every
  well-formed batch with the parameter hash the circuit expects, the generated circuit, the generated Python
  decision and the specification agree; from the evidence to the circuit this is shown for specifications without policy parameters of
  batch size 250. The circuit accepts no hidden rows.
  Pipeline: an accepted run that a worker completes is reported with the decision of the reference policy on the submitted
  evidence, which is the decision of the stored proof; every delivery for which the audit log takes its events ends in a verdict, and retries end.
  Trust: no submission is accepted without token and handshake, and a rejected one leaves nothing but a row of the security events; replays and rates are bounded, the audit log is tamper-evident,
  and attestations do not change when maintenance removes what they were computed from.
  Composition: what the dashboard submits in time passes the prover's checks and reaches its handler; the doubles of the tests agree
  with what they replace.
  State: the running system keeps the invariants of the database, and archival loses no content and, in an orderly tree
  where links can be made, keeps every path readable.

  \<^bold>\<open>Bounds and fuel.\<close> The append loop makes eight attempts, as in the source. The JSON parser runs on fuel of twice the length of the
  text, shown to be enough for every document the services write. Following symbolic links stops after 40, the limit
  of the kernel; the property of the archival is stated for any number of links. All other recursion is structural or has a
  termination proof. Batches have 250 rows of 32-bit values; Python integers are unbounded.

  \<^bold>\<open>Hypotheses.\<close> SHA-256, Ed25519, Redis, Vault, jsonschema, pydantic's parsing, the token library, circomlib and the provers are
  parameters; where a property needs something of them it is a named hypothesis (\<open>seals\<close>, \<open>redis_documented\<close>,
  \<open>circomlib_ok\<close>, \<open>signatures_verify\<close>, \<open>tokens_decode\<close>, \<open>exposes\<close>), and tamper evidence exhibits two colliding rows of the logs instead of assuming there are none. \<open>bystanders\<close> and
  \<open>gateway_writers\<close> say what other writers do; \<open>quiet\<close> says that there are none and that the signer of audit events answers.
  \<open>orderly\<close> and \<open>links_made\<close> describe the file tree and the cycles for which archival keeps paths readable. Floats are known by value and printed form; the round trip of JSON is for documents without them.

  \<^bold>\<open>Not modelled.\<close> The YAML parser and \<open>argparse\<close>, which are parameters of the compiler; the page of the dashboard, which is
  static HTML and JavaScript; metrics, logging and telemetry, which do not act on the modelled state; the wiring of
  FastAPI and Celery, and \<open>api/config.py\<close>, which copies fields; generated gRPC stubs, database migrations, load generators and the benchmark scripts.
\<close>

end
